(* ===== verification/Prelude.thy ===== *)
theory Prelude
  imports
    Main
    "HOL-Library.Word"
    "HOL-Library.Char_ord"
    "HOL-Library.List_Lexorder"
    "HOL-Library.Product_Lexorder"
    "HOL-Library.Option_ord"
    "HOL-Library.Multiset"
begin

text \<open>
  The shared vocabulary of the NeonHearth development: the Rust integer types with their
  checked and saturating operations, instants and durations, the \<open>HashMap\<close> model,
  UTF-8 blankness, and the two generic contracts the components share (systems with an
  invariant, and append-only logs that forget a prefix).

  Conventions. A Rust \<open>Result\<close> is a sum with \<open>Inl\<close> for the error; a method taking
  \<open>&mut self\<close> returns the result and the state it leaves behind, also on the error paths.
  A \<open>String\<close> is its list of UTF-8 bytes, so \<open>length\<close> is \<open>str::len\<close>. Lengths and
  capacities (\<open>usize\<close>) are \<open>nat\<close>; \<open>u64\<close>, \<open>u32\<close> and \<open>u16\<close> values are words.

  Instants (\<open>DateTime<Utc>\<close>) and durations (\<open>TimeDelta\<close>) are whole numbers of
  nanoseconds. Whether adding a duration to an instant still lies on the calendar is decided
  by the chrono library, so \<open>checked_add_signed\<close> is a parameter (\<open>cal\<close>) of every
  definition that calls it; \<open>calendar_ok\<close> states what its documentation promises.
\<close>

section \<open>Fact collections\<close>

named_theorems checked_simps \<open>unfolding rules of the checked machine arithmetic\<close>
named_theorems hmap_simps \<open>rules of the hash map model\<close>

section \<open>Errors\<close>

text \<open>The question mark operator on a \<open>Result\<close>.\<close>

definition and_then :: "'e + 'a \<Rightarrow> ('a \<Rightarrow> 'e + 'b) \<Rightarrow> 'e + 'b" where
  "and_then x f = (case x of Inl err \<Rightarrow> Inl err | Inr v \<Rightarrow> f v)"

lemma and_then_Inr [simp]: "and_then x f = Inr y \<longleftrightarrow> (\<exists>v. x = Inr v \<and> f v = Inr y)"
  by (cases x) (simp_all add: and_then_def)

lemma and_then_known: "and_then (Inr x) f = f x"
  by (simp add: and_then_def)

section \<open>Machine integers\<close>

type_synonym u8 = "8 word"
type_synonym u16 = "16 word"
type_synonym u32 = "32 word"
type_synonym u64 = "64 word"

definition checked_add :: "'n::len word \<Rightarrow> 'n word \<Rightarrow> 'n word option" where
  "checked_add a b = (if unat a + unat b < 2 ^ LENGTH('n) then Some (a + b) else None)"

definition saturating_add :: "'n::len word \<Rightarrow> 'n word \<Rightarrow> 'n word" where
  "saturating_add a b = (if unat a + unat b < 2 ^ LENGTH('n) then a + b else - 1)"

definition saturating_sub :: "'n::len word \<Rightarrow> 'n word \<Rightarrow> 'n word" where
  "saturating_sub a b = (if b \<le> a then a - b else 0)"

lemma checked_add_SomeD [checked_simps]:
  "checked_add a b = Some c \<Longrightarrow> unat c = unat a + unat b"
  by (auto simp: checked_add_def unat_word_ariths split: if_splits)

lemma checked_add_code [code]:
  "checked_add a b = (if a \<le> a + b then Some (a + b) else (None :: 'n::len word option))"
proof -
  have "a \<le> a + b \<longleftrightarrow> unat a + unat b < 2 ^ LENGTH('n)"
    using no_olen_add_nat [of a b] by simp
  then show ?thesis by (simp add: checked_add_def)
qed

lemma checked_add_one_less:
  fixes a c :: u64
  assumes "checked_add a 1 = Some c"
  shows "a < c"
  using checked_add_SomeD [OF assms] by (simp add: word_less_nat_alt)

lemma checked_add_two_one:
  fixes a :: u64
  assumes "checked_add a 2 \<noteq> None"
  shows "checked_add a 1 = Some (a + 1)" and "checked_add (a + 1) 1 = Some (a + 2)"
    and "a < a + 1" and "a + 1 < a + 2"
proof -
  have two: "unat a + 2 < 2 ^ 64"
    using assms by (simp add: checked_add_def split: if_splits)
  then have one: "unat (a + 1) = unat a + 1"
    by (simp add: unat_word_ariths)
  from two have tw: "unat (a + 2) = unat a + 2"
    by (simp add: unat_word_ariths)
  show "checked_add a 1 = Some (a + 1)" and "checked_add (a + 1) 1 = Some (a + 2)"
    using two one by (simp_all add: checked_add_def add.assoc)
  show "a < a + 1" and "a + 1 < a + 2"
    using one tw by (simp_all add: word_less_nat_alt)
qed

lemma checked_add_one_room:
  fixes a :: u64
  assumes "a \<noteq> - 1"
  shows "checked_add a 1 = Some (a + 1)"
proof -
  have "unat a \<noteq> unat (- 1 :: u64)"
    using assms by (simp add: word_unat_eq_iff)
  then have "unat a \<noteq> 2 ^ 64 - 1" by (simp add: unsigned_minus_1_eq_mask mask_eq_exp_minus_1)
  moreover have "unat a < 2 ^ 64" using unsigned_less [where w = a] by simp
  ultimately show ?thesis by (simp add: checked_add_def)
qed

lemma unat_saturating_sub: "unat (saturating_sub a b) = unat a - unat b"
  by (auto simp: saturating_sub_def unat_sub word_le_nat_alt)

section \<open>Instants, durations and the calendar\<close>

type_synonym instant = int
type_synonym duration = int
type_synonym calendar = "instant \<Rightarrow> duration \<Rightarrow> instant option"

definition seconds :: "int \<Rightarrow> duration" where "seconds n = n * 1000000000"
definition minutes :: "int \<Rightarrow> duration" where "minutes n = seconds (n * 60)"
definition hours :: "int \<Rightarrow> duration" where "hours n = seconds (n * 3600)"

text \<open>
  What chrono documents of \<open>DateTime::checked_add_signed\<close>: the sum, or nothing when the
  sum leaves the calendar.
\<close>

definition calendar_ok :: "calendar \<Rightarrow> bool" where
  "calendar_ok cal \<longleftrightarrow> (\<forall>t d u. cal t d = Some u \<longrightarrow> u = t + d)"

text \<open>A concrete calendar, ending at chrono's \<open>DateTime::<Utc>::MAX_UTC\<close> (year 262142).\<close>

definition utc_calendar :: calendar where
  "utc_calendar t d =
     (if - 8334601228800000000000 \<le> t + d \<and> t + d \<le> 8210266876799999999999
      then Some (t + d) else None)"

lemma calendar_okD: "calendar_ok cal \<Longrightarrow> cal t d = Some u \<Longrightarrow> u = t + d"
  by (auto simp: calendar_ok_def)

lemma calendar_ok_utc: "calendar_ok utc_calendar"
  by (auto simp: calendar_ok_def utc_calendar_def)

section \<open>Options and lists\<close>

abbreviation is_some_and :: "'a option \<Rightarrow> ('a \<Rightarrow> bool) \<Rightarrow> bool" where
  "is_some_and x p \<equiv> (case x of None \<Rightarrow> False | Some v \<Rightarrow> p v)"

abbreviation is_none_or :: "'a option \<Rightarrow> ('a \<Rightarrow> bool) \<Rightarrow> bool" where
  "is_none_or x p \<equiv> (case x of None \<Rightarrow> True | Some v \<Rightarrow> p v)"

text \<open>\<open>Iterator::max\<close> of an ordered sequence, and \<open>iter().rev().find(p)\<close>.\<close>

definition iter_max :: "'a::linorder list \<Rightarrow> 'a option" where
  "iter_max xs = (if xs = [] then None else Some (fold max (tl xs) (hd xs)))"

definition rfind :: "('a \<Rightarrow> bool) \<Rightarrow> 'a list \<Rightarrow> 'a option" where
  "rfind p xs = find p (rev xs)"

lemma iter_max_None [simp]: "iter_max xs = None \<longleftrightarrow> xs = []"
  by (simp add: iter_max_def)

lemma iter_max_Nil [simp]: "iter_max [] = None"
  by (simp add: iter_max_def)

lemma iter_max_eq_Max: "xs \<noteq> [] \<Longrightarrow> iter_max xs = Some (Max (set xs))"
  by (cases xs) (simp_all add: iter_max_def Max.set_eq_fold del: list.set)

lemma iter_max_Some_iff:
  "iter_max xs = Some m \<longleftrightarrow> m \<in> set xs \<and> (\<forall>x \<in> set xs. x \<le> m)"
proof (cases "xs = []")
  case False
  then have "iter_max xs = Some m \<longleftrightarrow> Max (set xs) = m"
    by (simp add: iter_max_eq_Max)
  also have "\<dots> \<longleftrightarrow> m \<in> set xs \<and> (\<forall>x \<in> set xs. x \<le> m)"
    using False by (subst Max_eq_iff) auto
  finally show ?thesis .
qed simp

lemma find_SomeD: "find p xs = Some x \<Longrightarrow> x \<in> set xs \<and> p x"
  by (induction xs) (auto split: if_splits)

lemma rfind_SomeD: "rfind p xs = Some x \<Longrightarrow> x \<in> set xs \<and> p x"
  unfolding rfind_def by (drule find_SomeD) simp

lemma rfind_None_iff: "rfind p xs = None \<longleftrightarrow> (\<forall>x \<in> set xs. \<not> p x)"
  by (auto simp: rfind_def find_None_iff)

lemma in_set_map_filterI: "x \<in> set xs \<Longrightarrow> f x = Some y \<Longrightarrow> y \<in> set (List.map_filter f xs)"
  by (induction xs) (auto split: option.split)

lemma drop_drop_append: "\<exists>i. drop j (drop k xs @ ys) = drop i (xs @ ys)"
proof (cases "k \<le> length xs")
  case True
  then have "drop k xs @ ys = drop k (xs @ ys)" by simp
  then show ?thesis by (metis drop_drop)
next
  case False
  then have "drop k xs @ ys = drop (length xs) (xs @ ys)" by simp
  then show ?thesis by (metis drop_drop)
qed

lemma filter_card_set_le: "card (set (map f xs)) \<le> length xs"
  by (metis card_length length_map)

section \<open>Hash maps\<close>

text \<open>
  A \<open>HashMap\<close> is an association list with distinct keys; the order of the list stands for
  the unspecified iteration order, so a result proved for every list is proved for every
  iteration order.
\<close>

type_synonym ('k, 'v) hmap = "('k \<times> 'v) list"

definition hm_ok :: "('k, 'v) hmap \<Rightarrow> bool" where
  "hm_ok m \<longleftrightarrow> distinct (map fst m)"

definition hm_get :: "('k, 'v) hmap \<Rightarrow> 'k \<Rightarrow> 'v option" where
  "hm_get m k = map_of m k"

definition hm_contains :: "('k, 'v) hmap \<Rightarrow> 'k \<Rightarrow> bool" where
  "hm_contains m k \<longleftrightarrow> hm_get m k \<noteq> None"

fun hm_insert :: "'k \<Rightarrow> 'v \<Rightarrow> ('k, 'v) hmap \<Rightarrow> ('k, 'v) hmap" where
  "hm_insert k v [] = [(k, v)]"
| "hm_insert k v ((k', v') # m) =
     (if k = k' then (k, v) # m else (k', v') # hm_insert k v m)"

lemma hm_get_Nil [simp, hmap_simps]: "hm_get [] k = None"
  by (simp add: hm_get_def)

lemma hm_get_insert [simp, hmap_simps]:
  "hm_get (hm_insert k v m) k' = (if k' = k then Some v else hm_get m k')"
  by (induction k v m rule: hm_insert.induct) (auto simp: hm_get_def)

lemma hm_contains_insert [simp, hmap_simps]:
  "hm_contains (hm_insert k v m) k' \<longleftrightarrow> k' = k \<or> hm_contains m k'"
  by (simp add: hm_contains_def)

lemma fst_set_hm_insert: "fst ` set (hm_insert k v m) = insert k (fst ` set m)"
  by (induction k v m rule: hm_insert.induct) auto

lemma hm_ok_Nil [simp, hmap_simps]: "hm_ok []"
  by (simp add: hm_ok_def)

lemma hm_ok_insert [simp, hmap_simps]: "hm_ok m \<Longrightarrow> hm_ok (hm_insert k v m)"
  by (induction k v m rule: hm_insert.induct) (auto simp: hm_ok_def fst_set_hm_insert)

lemma hm_contains_iff: "hm_contains m k \<longleftrightarrow> k \<in> fst ` set m"
  by (auto simp: hm_contains_def hm_get_def map_of_eq_None_iff)

lemma hm_get_Some_iff: "hm_ok m \<Longrightarrow> hm_get m k = Some v \<longleftrightarrow> (k, v) \<in> set m"
  by (simp add: hm_ok_def hm_get_def)

lemma hm_get_SomeD: "hm_get m k = Some v \<Longrightarrow> (k, v) \<in> set m"
  by (simp add: hm_get_def map_of_SomeD)

lemma length_hm_insert [hmap_simps]:
  "length (hm_insert k v m) = (if hm_contains m k then length m else Suc (length m))"
  by (induction k v m rule: hm_insert.induct) (auto simp: hm_contains_def hm_get_def)

lemma hm_insert_overwrite: "hm_insert k v (hm_insert k w m) = hm_insert k v m"
  by (induction k w m rule: hm_insert.induct) auto

lemma hm_insert_same: "hm_get m k = Some v \<Longrightarrow> hm_insert k v m = m"
  by (induction k v m rule: hm_insert.induct) (auto simp: hm_get_def split: if_splits)

lemma hm_insert_absent: "\<not> hm_contains m k \<Longrightarrow> hm_insert k v m = m @ [(k, v)]"
  by (induction k v m rule: hm_insert.induct) (auto simp: hm_contains_def hm_get_def split: if_splits)

lemma hm_ok_set: "mset m = mset m' \<Longrightarrow> hm_ok m = hm_ok m'"
  unfolding hm_ok_def by (metis mset_map mset_eq_imp_distinct_iff)

lemma hm_get_mset:
  assumes "mset m = mset m'" and "hm_ok m"
  shows "hm_get m k = hm_get m' k"
proof -
  have "set m = set m'" "hm_ok m'" using assms hm_ok_set mset_eq_setD by blast+
  then have "\<forall>v. hm_get m k = Some v \<longleftrightarrow> hm_get m' k = Some v"
    using assms(2) by (simp add: hm_get_Some_iff)
  then show ?thesis by (metis not_Some_eq)
qed

section \<open>Text\<close>

text \<open>Decimal \<open>Display\<close> of an unsigned integer, and \<open>join\<close> of a slice of strings.\<close>

fun show_nat :: "nat \<Rightarrow> string" where
  "show_nat n = (if n < 10 then [char_of (48 + n)] else show_nat (n div 10) @ [char_of (48 + n mod 10)])"

declare show_nat.simps [simp del]

fun join :: "string \<Rightarrow> string list \<Rightarrow> string" where
  "join sep [] = []"
| "join sep [x] = x"
| "join sep (x # y # xs) = x @ sep @ join sep (y # xs)"

section \<open>Logs that forget a prefix\<close>

text \<open>
  The contract of a bounded log, shared by the event bus (its replay buffer) and the presence
  engine (its per-device history): pushing keeps the new entry and may drop entries from the
  front, never from the middle. A reader with a cursor misses nothing as long as every
  dropped entry is at or before the cursor.
\<close>

definition increasing :: "('e \<Rightarrow> 'n::linorder) \<Rightarrow> 'e list \<Rightarrow> bool" where
  "increasing num xs \<longleftrightarrow> sorted_wrt (\<lambda>x y. num x < num y) xs"

lemma increasing_append:
  "increasing num (xs @ ys) \<longleftrightarrow>
     increasing num xs \<and> increasing num ys \<and> (\<forall>x \<in> set xs. \<forall>y \<in> set ys. num x < num y)"
  by (simp add: increasing_def sorted_wrt_append)

lemma increasing_Nil [simp]: "increasing num []"
  by (simp add: increasing_def)

lemma increasing_single [simp]: "increasing num [x]"
  by (simp add: increasing_def)

lemma increasing_drop: "increasing num xs \<Longrightarrow> increasing num (drop k xs)"
  by (simp add: increasing_def sorted_wrt_drop)

lemma increasing_filter_drop:
  assumes "increasing num xs" and "\<forall>x \<in> set (take k xs). num x \<le> c"
  shows "filter (\<lambda>x. c < num x) (drop k xs) = filter (\<lambda>x. c < num x) xs"
proof -
  have "filter (\<lambda>x. c < num x) (take k xs) = []"
    using assms(2) by (auto simp: filter_empty_conv)
  moreover have "filter (\<lambda>x. c < num x) xs
      = filter (\<lambda>x. c < num x) (take k xs) @ filter (\<lambda>x. c < num x) (drop k xs)"
    by (simp flip: filter_append)
  ultimately show ?thesis by simp
qed

locale forgetting_log =
  fixes num :: "'e \<Rightarrow> 'n::linorder"
    and retained :: "'s \<Rightarrow> 'e list"
    and push :: "'s \<Rightarrow> 'e \<Rightarrow> 's"
  assumes push_drops_front:
    "\<exists>k \<le> length (retained s). retained (push s e) = drop k (retained s @ [e])"
begin

lemma push_retains: "e \<in> set (retained (push s e))"
proof -
  from push_drops_front obtain k where
    "k \<le> length (retained s)" "retained (push s e) = drop k (retained s @ [e])" by blast
  then show ?thesis by simp
qed

lemma pushes_drop_front:
  "\<exists>k. retained (foldl push s es) = drop k (retained s @ es)"
proof (induction es rule: rev_induct)
  case Nil
  then show ?case by (metis append_Nil2 drop0 foldl_Nil)
next
  case (snoc e es)
  then obtain k where k: "retained (foldl push s es) = drop k (retained s @ es)" by blast
  from push_drops_front [of "foldl push s es" e] obtain j where
    j: "j \<le> length (retained (foldl push s es))"
       "retained (push (foldl push s es) e) = drop j (retained (foldl push s es) @ [e])"
    by blast
  have "\<exists>i. drop j (drop k (retained s @ es) @ [e]) = drop i ((retained s @ es) @ [e])"
    by (rule drop_drop_append)
  with j(2) k show ?case by simp
qed

lemma pushes_increasing:
  assumes "increasing num (retained s @ es)"
  shows "increasing num (retained (foldl push s es))"
proof -
  obtain k where "retained (foldl push s es) = drop k (retained s @ es)"
    using pushes_drop_front by blast
  with increasing_drop [OF assms, of k] show ?thesis by simp
qed

lemma cursor_complete:
  assumes "increasing num (retained s @ es)"
    and "\<forall>x \<in> set (retained s @ es). x \<in> set (retained (foldl push s es)) \<or> num x \<le> c"
  shows "filter (\<lambda>x. c < num x) (retained (foldl push s es))
           = filter (\<lambda>x. c < num x) (retained s @ es)"
proof -
  obtain k where k: "retained (foldl push s es) = drop k (retained s @ es)"
    using pushes_drop_front by blast
  have "num x \<le> c" if x: "x \<in> set (take k (retained s @ es))" for x
  proof -
    have "increasing num (take k (retained s @ es) @ drop k (retained s @ es))"
      using assms(1) by (simp only: append_take_drop_id)
    with x have "x \<notin> set (drop k (retained s @ es))"
      unfolding increasing_append by (meson less_irrefl)
    with assms(2) k x show ?thesis by (metis in_set_takeD)
  qed
  with increasing_filter_drop [OF assms(1), of k c] k show ?thesis by simp
qed

lemma push_increasing:
  "increasing num (retained s) \<Longrightarrow> \<forall>x \<in> set (retained s). num x < num e \<Longrightarrow>
     increasing num (retained (push s e))"
  using pushes_increasing [of s "[e]"] by (simp add: increasing_append)

lemma push_subset: "set (retained (push s e)) \<subseteq> insert e (set (retained s))"
proof -
  from push_drops_front obtain k where
    "retained (push s e) = drop k (retained s @ [e])" by blast
  then show ?thesis using set_drop_subset [of k "retained s @ [e]"] by auto
qed

end

section \<open>Systems with an invariant\<close>

text \<open>
  Reachability under a step relation, and the contract of an invariant: it holds initially
  and every step keeps it.
\<close>

inductive reachable :: "('s \<Rightarrow> bool) \<Rightarrow> ('s \<Rightarrow> 's \<Rightarrow> bool) \<Rightarrow> 's \<Rightarrow> bool"
  for init step where
    start: "init s \<Longrightarrow> reachable init step s"
  | move: "reachable init step s \<Longrightarrow> step s t \<Longrightarrow> reachable init step t"

locale invariant_system =
  fixes init :: "'s \<Rightarrow> bool" and step :: "'s \<Rightarrow> 's \<Rightarrow> bool" and inv :: "'s \<Rightarrow> bool"
  assumes inv_init: "init s \<Longrightarrow> inv s"
    and inv_step: "inv s \<Longrightarrow> step s t \<Longrightarrow> inv t"
begin

lemma reachable_inv: "reachable init step s \<Longrightarrow> inv s"
  by (induction rule: reachable.induct) (auto intro: inv_init inv_step)

end

end
