(* ===== verification/Domain.thy ===== *)
theory Domain
  imports Prelude
begin

text \<open>
  The data of the crate \<open>lattice-domain\<close>: device identifiers, evidence, presence and
  policy vocabulary, and the event payloads every component publishes
  (\<open>device.rs\<close>, \<open>evidence.rs\<close>, \<open>presence.rs\<close>, \<open>policy.rs\<close>, \<open>flow.rs\<close>,
  \<open>event.rs\<close> and \<open>HomeChanged\<close> of \<open>home.rs\<close>). Constructors keep the source's names;
  where Rust reuses a name across enums (\<open>None\<close>, \<open>Unknown\<close>) the enum's name is added.
  Fields carry a prefix per struct because record fields share one name space.
\<close>

section \<open>Identifiers and evidence\<close>

text \<open>
  A \<open>DeviceId\<close> wraps a 128-bit UUID. Its \<open>Display\<close> comes from the uuid library, so the
  sorting operations take the printed form \<open>to_string\<close> as a parameter.
\<close>

type_synonym device_id = "128 word"

datatype evidence_family =
    LinkLayer | Addressing | Naming | Service | Cryptographic | RouterHint | OwnerFamily

section \<open>Presence vocabulary\<close>

datatype presence_state = Online | Quiet | Offline | Blocked | Unknown

record presence_changed =
  ch_transition_id :: u64
  ch_device_id :: device_id
  ch_from :: presence_state
  ch_to :: presence_state
  ch_occurred_at :: instant
  ch_reason :: string
  ch_trigger_source :: string
  ch_trigger_kind :: string
  ch_evidence_observed_at :: instant
  ch_evidence_valid_until :: "instant option"
  ch_trigger_arrival_at :: instant
  ch_correction_of :: "u64 option"

section \<open>Policy vocabulary\<close>

definition UNKNOWN_POLICY_DEADLINE_HOURS :: int where
  "UNKNOWN_POLICY_DEADLINE_HOURS = 48"

definition AUTOMATIC_POLICY_DEADLINE_HOURS :: int where
  "AUTOMATIC_POLICY_DEADLINE_HOURS = 7 * 24"

definition AUTOMATIC_IDENTITY_THRESHOLD_BPS :: u16 where
  "AUTOMATIC_IDENTITY_THRESHOLD_BPS = 8500"

datatype identification =
    UnknownIdentity
  | Automatic (id_confidence_basis_points: u16) (id_evidence_families: "evidence_family list")

datatype owner_decision = Pending | Approved | Rejected | Quarantined

datatype risk_signal =
    NoRisk
  | HighConfidenceDanger (risk_confidence_basis_points: u16) (risk_evidence: string)

datatype protection = NoProtection | Router | Collector | AdministratorPhone | SafetyDevice

record device_policy =
  dp_device_id :: device_id
  dp_first_seen_at :: instant
  dp_baseline_exempt :: bool
  dp_identification :: identification
  dp_owner_decision :: owner_decision
  dp_risk :: risk_signal
  dp_protection :: protection
  dp_extension_until :: "instant option"

datatype deadline_kind = Unknown48Hours | Automatic7Days

record deadline =
  dl_kind :: deadline_kind
  dl_due_at :: instant

datatype deadline_warning = Hours24 | Hours6 | Hour1

datatype requested_action = NoAction | Quarantine | PermanentBan | OwnerAttention

datatype enforcement_status = NotRequested | Verified | ManualRequired | EnforcementFailed

datatype policy_reason =
    PendingConfirmation | BaselineExempt | HighConfidenceDangerReason
  | UnknownDeadlineExpired | AutomaticDeadlineExpired | OwnerExtension
  | OwnerApproved | OwnerRejected | OwnerQuarantined | ProtectedDevice

record evaluation =
  ev_policy_version :: u32
  ev_reason :: policy_reason
  ev_requested_action :: requested_action
  ev_deadline :: "deadline option"
  ev_warning :: "deadline_warning option"

definition terminal :: "policy_reason \<Rightarrow> requested_action \<Rightarrow> evaluation" where
  "terminal reason action =
     \<lparr> ev_policy_version = 1, ev_reason = reason, ev_requested_action = action,
       ev_deadline = None, ev_warning = None \<rparr>"

definition visible :: "policy_reason \<Rightarrow> evaluation" where
  "visible reason = terminal reason NoAction"

definition quarantine :: "policy_reason \<Rightarrow> evaluation" where
  "quarantine reason = terminal reason Quarantine"

definition ban :: "policy_reason \<Rightarrow> evaluation" where
  "ban reason = terminal reason PermanentBan"

definition owner_attention :: evaluation where
  "owner_attention = terminal ProtectedDevice OwnerAttention"

lemmas evaluation_defs = terminal_def visible_def quarantine_def ban_def owner_attention_def

section \<open>Flow and event payloads\<close>

datatype coverage = Complete | RouterReported | LocalOnly | Estimated

record byte_count =
  bc_upload :: u64
  bc_download :: u64

record bandwidth_sample =
  bs_device_id :: device_id
  bs_delta :: byte_count
  bs_upload_bytes_per_second :: u64
  bs_download_bytes_per_second :: u64
  bs_coverage :: coverage

record bandwidth_frame =
  bf_interval_ms :: u64
  bf_observed_at :: instant
  bf_emitted_at :: instant
  bf_samples :: "bandwidth_sample list"

record policy_changed =
  plc_device_id :: device_id
  plc_policy_version :: u32
  plc_evaluation :: evaluation
  plc_requested_action :: requested_action
  plc_evidence_summary :: string
  plc_enforcement_result :: enforcement_status
  plc_undo_available :: bool

record service_status =
  ss_state :: string
  ss_detail :: string

record home_changed =
  hc_home_id :: "128 word"
  hc_version :: u32
  hc_summary :: string

datatype event_payload =
    PresenceChanged presence_changed
  | ServiceStatus service_status
  | BandwidthFrame bandwidth_frame
  | PolicyChanged policy_changed
  | HomeChanged home_changed

record event_envelope =
  env_sequence :: u64
  env_occurred_at :: instant
  env_payload :: event_payload

end
