(* ===== verification/Policy.thy ===== *)
theory Policy
  imports Domain
begin

text \<open>
  The policy engine of \<open>lattice-policy/src/lib.rs\<close>: which action the owner's decisions,
  the risk signal, the protection class and the confirmation deadlines call for. The engine
  is a pure function of the stored device policy and the clock; \<open>cal\<close> stands for chrono's
  \<open>checked_add_signed\<close>.
\<close>

section \<open>The engine\<close>

definition POLICY_VERSION :: u32 where "POLICY_VERSION = 1"
definition BASELINE_WINDOW :: duration where "BASELINE_WINDOW = hours 48"
definition UNKNOWN_DEADLINE :: duration where
  "UNKNOWN_DEADLINE = hours UNKNOWN_POLICY_DEADLINE_HOURS"
definition AUTOMATIC_DEADLINE :: duration where
  "AUTOMATIC_DEADLINE = hours AUTOMATIC_POLICY_DEADLINE_HOURS"
definition DANGER_THRESHOLD_BPS :: u16 where "DANGER_THRESHOLD_BPS = 9000"

record policy_engine =
  baseline_started_at :: instant

definition is_baseline_member :: "calendar \<Rightarrow> policy_engine \<Rightarrow> instant \<Rightarrow> bool" where
  "is_baseline_member cal pol first_seen_at =
     is_some_and (cal (baseline_started_at pol) BASELINE_WINDOW)
       (\<lambda>window_end. baseline_started_at pol \<le> first_seen_at \<and> first_seen_at < window_end)"

text \<open>
  \<open>str::trim(s).is_empty()\<close> on UTF-8 bytes: every scalar value is Unicode white space
  (U+0009 to U+000D, U+0020, U+0085, U+00A0, U+1680, U+2000 to U+200A, U+2028, U+2029,
  U+202F, U+205F, U+3000).
\<close>

fun trim_is_empty :: "string \<Rightarrow> bool" where
  "trim_is_empty [] = True"
| "trim_is_empty (a # s) =
     (let n = of_char a :: nat in
      if (9 \<le> n \<and> n \<le> 13) \<or> n = 32 then trim_is_empty s
      else case s of
          [] \<Rightarrow> False
        | b # s' \<Rightarrow>
            (let m = of_char b :: nat in
             if n = 194 \<and> (m = 133 \<or> m = 160) then trim_is_empty s'
             else case s' of
                 [] \<Rightarrow> False
               | c # s'' \<Rightarrow>
                   (let k = of_char c :: nat in
                    if (n = 225 \<and> m = 154 \<and> k = 128)
                       \<or> (n = 226 \<and> m = 128 \<and> (128 \<le> k \<and> k \<le> 138 \<or> k = 168 \<or> k = 169 \<or> k = 175))
                       \<or> (n = 226 \<and> m = 129 \<and> k = 159)
                       \<or> (n = 227 \<and> m = 128 \<and> k = 128)
                    then trim_is_empty s'' else False)))"

definition dangerous :: "device_policy \<Rightarrow> bool" where
  "dangerous device =
     (case dp_risk device of
        NoRisk \<Rightarrow> False
      | HighConfidenceDanger bps evidence \<Rightarrow>
          DANGER_THRESHOLD_BPS \<le> bps \<and> \<not> trim_is_empty evidence)"

definition automatically_identified :: "device_policy \<Rightarrow> bool" where
  "automatically_identified device =
     (case dp_identification device of
        UnknownIdentity \<Rightarrow> False
      | Automatic bps families \<Rightarrow>
          AUTOMATIC_IDENTITY_THRESHOLD_BPS \<le> bps \<and> 2 \<le> card (set families))"

definition due_at :: "device_policy \<Rightarrow> instant \<Rightarrow> instant" where
  "due_at device original_due =
     (case dp_extension_until device of
        None \<Rightarrow> original_due
      | Some extension \<Rightarrow> if original_due < extension then extension else original_due)"

definition warning_for :: "duration \<Rightarrow> deadline_warning option" where
  "warning_for remaining =
     (if remaining \<le> hours 1 then Some Hour1
      else if remaining \<le> hours 6 then Some Hours6
      else if remaining \<le> hours 24 then Some Hours24
      else None)"

text \<open>The part of \<open>evaluate\<close> after the owner, risk and baseline guards (from line 77).\<close>

definition evaluate_deadline :: "calendar \<Rightarrow> device_policy \<Rightarrow> instant \<Rightarrow> evaluation" where
  "evaluate_deadline cal device now =
     (let (kind, original, expired_reason) =
            (if automatically_identified device
             then (Automatic7Days, cal (dp_first_seen_at device) AUTOMATIC_DEADLINE,
                   AutomaticDeadlineExpired)
             else (Unknown48Hours, cal (dp_first_seen_at device) UNKNOWN_DEADLINE,
                   UnknownDeadlineExpired))
      in case original of
           None \<Rightarrow> owner_attention
         | Some original_due \<Rightarrow>
             (let due = due_at device original_due in
              if due \<le> now
              then (if dp_protection device \<noteq> NoProtection then owner_attention
                    else quarantine expired_reason)
              else \<lparr> ev_policy_version = POLICY_VERSION,
                     ev_reason = (if original_due < due then OwnerExtension
                                  else PendingConfirmation),
                     ev_requested_action = NoAction,
                     ev_deadline = Some \<lparr> dl_kind = kind, dl_due_at = due \<rparr>,
                     ev_warning = warning_for (due - now) \<rparr>))"

definition evaluate :: "calendar \<Rightarrow> policy_engine \<Rightarrow> device_policy \<Rightarrow> instant \<Rightarrow> evaluation" where
  "evaluate cal pol device now =
     (case dp_owner_decision device of
        Rejected \<Rightarrow> ban OwnerRejected
      | Quarantined \<Rightarrow> quarantine OwnerQuarantined
      | _ \<Rightarrow>
          if dangerous device
          then (if dp_protection device \<noteq> NoProtection then owner_attention
                else quarantine HighConfidenceDangerReason)
          else if dp_owner_decision device = Approved then visible OwnerApproved
          else if dp_baseline_exempt device then visible BaselineExempt
          else evaluate_deadline cal device now)"

section \<open>The windows and the urgency order\<close>

text \<open>
  \<open>confirmation_window\<close> is the time a device has before its confirmation deadline.
  \<open>urgency\<close> orders what the owner sees: nothing, the three warnings, a restriction or a
  call for attention.
\<close>

definition confirmation_window :: "device_policy \<Rightarrow> duration" where
  "confirmation_window device =
     (if automatically_identified device then hours 168 else hours 48)"

definition latest_due :: "device_policy \<Rightarrow> instant" where
  "latest_due device =
     (let original = dp_first_seen_at device + confirmation_window device
      in case dp_extension_until device of None \<Rightarrow> original | Some x \<Rightarrow> max original x)"

fun warning_level :: "deadline_warning option \<Rightarrow> nat" where
  "warning_level None = 0"
| "warning_level (Some Hours24) = 1"
| "warning_level (Some Hours6) = 2"
| "warning_level (Some Hour1) = 3"

definition urgency :: "evaluation \<Rightarrow> nat" where
  "urgency ev = (if ev_requested_action ev = NoAction then warning_level (ev_warning ev) else 4)"

lemmas window_defs = UNKNOWN_DEADLINE_def AUTOMATIC_DEADLINE_def
  UNKNOWN_POLICY_DEADLINE_HOURS_def AUTOMATIC_POLICY_DEADLINE_HOURS_def

lemma warning_level_antimono:
  "r' \<le> r \<Longrightarrow> warning_level (warning_for r) \<le> warning_level (warning_for r')"
  by (auto simp: warning_for_def hours_def seconds_def)

lemma warning_level_bound: "warning_level w \<le> 3"
  by (cases w rule: warning_level.cases) auto

lemma urgency_bound: "urgency ev \<le> 4"
  using warning_level_bound [of "ev_warning ev"] by (simp add: urgency_def)

text \<open>The deadline branch, in terms of the window and the latest due instant.\<close>

lemma evaluate_deadline_cases:
  assumes "calendar_ok cal"
  obtains
    (off_calendar) "cal (dp_first_seen_at device) (confirmation_window device) = None"
      "evaluate_deadline cal device now = owner_attention"
  | (expired) reason where
      "cal (dp_first_seen_at device) (confirmation_window device) \<noteq> None"
      "latest_due device \<le> now"
      "evaluate_deadline cal device now =
         (if dp_protection device \<noteq> NoProtection then owner_attention else quarantine reason)"
  | (running) reason kind where
      "cal (dp_first_seen_at device) (confirmation_window device) \<noteq> None"
      "now < latest_due device"
      "evaluate_deadline cal device now =
         \<lparr> ev_policy_version = POLICY_VERSION, ev_reason = reason,
           ev_requested_action = NoAction,
           ev_deadline = Some \<lparr> dl_kind = kind, dl_due_at = latest_due device \<rparr>,
           ev_warning = warning_for (latest_due device - now) \<rparr>"
proof (cases "cal (dp_first_seen_at device) (confirmation_window device)")
  case None
  then have "evaluate_deadline cal device now = owner_attention"
    by (auto simp: evaluate_deadline_def confirmation_window_def window_defs Let_def
        split: if_splits)
  with None off_calendar show thesis by blast
next
  case (Some u)
  with assms have "u = dp_first_seen_at device + confirmation_window device"
    by (rule calendar_okD)
  then have due: "due_at device u = latest_due device"
    by (auto simp: due_at_def latest_due_def max_def split: option.splits)
  show thesis
  proof (cases "latest_due device \<le> now")
    case True
    show thesis
      by (rule expired [where reason = "if automatically_identified device
            then AutomaticDeadlineExpired else UnknownDeadlineExpired"])
        (use Some True due in \<open>auto simp: evaluate_deadline_def confirmation_window_def
          window_defs Let_def split: if_splits\<close>)
  next
    case False
    show thesis
      by (rule running [where reason = "if u < latest_due device then OwnerExtension
            else PendingConfirmation" and kind = "if automatically_identified device
            then Automatic7Days else Unknown48Hours"])
        (use Some False due in \<open>auto simp: evaluate_deadline_def confirmation_window_def
          window_defs Let_def split: if_splits\<close>)
  qed
qed

lemma urgency_deadline_mono:
  assumes "calendar_ok cal" and "now \<le> now'"
  shows "urgency (evaluate_deadline cal device now) \<le> urgency (evaluate_deadline cal device now')"
proof (cases rule: evaluate_deadline_cases [OF assms(1), of device now'])
  case later: (3 reason' kind')
  show ?thesis
    by (cases rule: evaluate_deadline_cases [OF assms(1), of device now])
      (use later assms(2) in \<open>auto simp: urgency_def warning_level_antimono\<close>)
qed (use urgency_bound [of "evaluate_deadline cal device now"] in
      \<open>simp_all add: urgency_def evaluation_defs\<close>)

section \<open>Properties\<close>

text \<open>C1. Automation never restricts a protected device: an evaluation that asks to
  quarantine or ban a router, collector, administrator phone or safety device does so only
  because the owner rejected or quarantined it; and a permanent ban is requested exactly for
  the devices the owner rejected.\<close>

theorem protected_device_never_restricted_automatically:
  "(dp_protection device \<noteq> NoProtection \<longrightarrow>
      ev_requested_action (evaluate cal pol device now) \<in> {Quarantine, PermanentBan} \<longrightarrow>
      dp_owner_decision device \<in> {Rejected, Quarantined}) \<and>
   (ev_requested_action (evaluate cal pol device now) = PermanentBan \<longleftrightarrow>
      dp_owner_decision device = Rejected)"
  by (auto simp: evaluate_def evaluate_deadline_def evaluation_defs Let_def
      split: owner_decision.splits if_splits option.splits)

definition sample_device :: device_policy where
  "sample_device =
     \<lparr> dp_device_id = 1, dp_first_seen_at = 0, dp_baseline_exempt = False,
       dp_identification = UnknownIdentity, dp_owner_decision = Pending, dp_risk = NoRisk,
       dp_protection = NoProtection, dp_extension_until = None \<rparr>"

theorem protected_device_never_restricted_automatically_witness:
  "ev_requested_action (evaluate utc_calendar \<lparr> baseline_started_at = 0 \<rparr>
     (sample_device \<lparr> dp_protection := Router, dp_owner_decision := Rejected \<rparr>) 5) = PermanentBan"
  using protected_device_never_restricted_automatically
    [of "sample_device \<lparr> dp_protection := Router, dp_owner_decision := Rejected \<rparr>"
        utc_calendar "\<lparr> baseline_started_at = 0 \<rparr>" 5]
  by (simp add: sample_device_def)

text \<open>C2. The confirmation deadline of an undecided device: with no danger signal, outside
  the baseline and unprotected, the device is quarantined exactly from the instant that is
  48 hours (seven days for a device identified with high confidence by two evidence
  families) after it was first seen, or its owner extension if that is later; before that
  instant the evaluation carries exactly that deadline and requests no action. Which of the three warnings it carries is not part of
  the statement.\<close>

theorem pending_device_deadline:
  assumes cal: "calendar_ok cal"
    and pending: "dp_owner_decision device = Pending" "\<not> dangerous device"
      "\<not> dp_baseline_exempt device" "dp_protection device = NoProtection"
    and fits: "cal (dp_first_seen_at device) (confirmation_window device) \<noteq> None"
  shows "(ev_requested_action (evaluate cal pol device now) = Quarantine
            \<longleftrightarrow> latest_due device \<le> now) \<and>
         (now < latest_due device \<longrightarrow>
            ev_requested_action (evaluate cal pol device now) = NoAction \<and>
            map_option dl_due_at (ev_deadline (evaluate cal pol device now))
              = Some (latest_due device))"
proof -
  have "evaluate cal pol device now = evaluate_deadline cal device now"
    using pending by (simp add: evaluate_def)
  then show ?thesis
    by (cases rule: evaluate_deadline_cases [OF cal, of device now])
      (use pending fits in \<open>auto simp: evaluation_defs\<close>)
qed

theorem pending_device_deadline_witness:
  "ev_requested_action (evaluate utc_calendar \<lparr> baseline_started_at = 0 \<rparr> sample_device (hours 49))
     = Quarantine"
proof -
  have facts: "dp_owner_decision sample_device = Pending" "\<not> dangerous sample_device"
    "\<not> dp_baseline_exempt sample_device" "dp_protection sample_device = NoProtection"
    "utc_calendar (dp_first_seen_at sample_device) (confirmation_window sample_device) \<noteq> None"
    "latest_due sample_device \<le> hours 49"
    by (simp_all add: sample_device_def dangerous_def utc_calendar_def confirmation_window_def
        automatically_identified_def latest_due_def hours_def seconds_def)
  show ?thesis
    using pending_device_deadline [OF calendar_ok_utc facts(1-5),
        of "\<lparr> baseline_started_at = 0 \<rparr>" "hours 49"] facts(6) by simp
qed

text \<open>Time only raises urgency: for a fixed stored policy a later evaluation is never
  less urgent (no warning, 24 hours, 6 hours, 1 hour, restriction or owner attention), and
  granting an extension never makes the evaluation more urgent.\<close>

theorem policy_urgency_monotone:
  assumes cal: "calendar_ok cal" and later: "now \<le> now'"
  shows "urgency (evaluate cal pol device now) \<le> urgency (evaluate cal pol device now') \<and>
         urgency (evaluate cal pol (device \<lparr> dp_extension_until := Some x \<rparr>) now)
           \<le> urgency (evaluate cal pol (device \<lparr> dp_extension_until := None \<rparr>) now)"
proof
  show "urgency (evaluate cal pol device now) \<le> urgency (evaluate cal pol device now')"
    using urgency_deadline_mono [OF cal later, of device]
    by (simp add: evaluate_def split: owner_decision.splits)
next
  let ?a = "device \<lparr> dp_extension_until := Some x \<rparr>"
  let ?b = "device \<lparr> dp_extension_until := None \<rparr>"
  have same: "confirmation_window ?a = confirmation_window ?b"
    "dangerous ?a = dangerous ?b" "latest_due ?b \<le> latest_due ?a"
    by (simp_all add: confirmation_window_def automatically_identified_def dangerous_def
        latest_due_def Let_def)
  have "urgency (evaluate_deadline cal ?a now) \<le> urgency (evaluate_deadline cal ?b now)"
  proof (cases rule: evaluate_deadline_cases [OF cal, of ?b now])
    case b: (3 reason kind)
    show ?thesis
      by (cases rule: evaluate_deadline_cases [OF cal, of ?a now])
        (use b same in \<open>auto simp: urgency_def warning_level_antimono\<close>)
  qed (use urgency_bound [of "evaluate_deadline cal ?a now"] in
        \<open>simp_all add: urgency_def evaluation_defs\<close>)
  then show "urgency (evaluate cal pol ?a now) \<le> urgency (evaluate cal pol ?b now)"
    using same by (simp add: evaluate_def split: owner_decision.splits)
qed

theorem policy_urgency_monotone_witness:
  "urgency (evaluate utc_calendar \<lparr> baseline_started_at = 0 \<rparr> sample_device (hours 1))
     \<le> urgency (evaluate utc_calendar \<lparr> baseline_started_at = 0 \<rparr> sample_device (hours 47))"
proof -
  have "hours 1 \<le> hours 47" by (simp add: hours_def seconds_def)
  from policy_urgency_monotone [OF calendar_ok_utc this] show ?thesis by blast
qed

end
