(* ===== verification/Event_Bus.thy ===== *)
theory Event_Bus
  imports Domain
begin

text \<open>
  The event bus of \<open>lattice-event-bus/src/lib.rs\<close>: a mutex-protected sequence counter with
  a bounded replay buffer. Each operation holds the lock for its whole body, so operations are
  atomic steps on the state. The broadcast channel belongs to tokio; the model records in
  \<open>sent\<close> the envelopes handed to \<open>sender.send\<close>, in order. Panics are values.
\<close>

section \<open>State and operations\<close>

datatype bus_panic =
    ReplayCapacityZero | SubscriberCapacityZero | SequenceSpaceExhausted

datatype resume = Events "event_envelope list" | SnapshotRequired

record event_bus =
  replay_capacity :: nat
  next_sequence :: u64
  replay :: "event_envelope list"
  sent :: "event_envelope list"

definition new_bus :: "nat \<Rightarrow> nat \<Rightarrow> bus_panic + event_bus" where
  "new_bus replay_cap subscriber_cap =
     (if \<not> 0 < replay_cap then Inl ReplayCapacityZero
      else if \<not> 0 < subscriber_cap then Inl SubscriberCapacityZero
      else Inr \<lparr> replay_capacity = replay_cap, next_sequence = 1, replay = [], sent = [] \<rparr>)"

text \<open>\<open>while replay.len() > capacity { replay.pop_front() }\<close>\<close>

fun trim_front :: "nat \<Rightarrow> 'e list \<Rightarrow> 'e list" where
  "trim_front cap [] = []"
| "trim_front cap (x # xs) = (if cap < length (x # xs) then trim_front cap xs else x # xs)"

definition push_replay :: "nat \<Rightarrow> event_envelope list \<Rightarrow> event_envelope \<Rightarrow> event_envelope list" where
  "push_replay cap buffer envelope = trim_front cap (buffer @ [envelope])"

definition publish ::
  "event_bus \<Rightarrow> instant \<Rightarrow> event_payload \<Rightarrow> (bus_panic + event_envelope) \<times> event_bus" where
  "publish bus occurred_at payload =
     (case checked_add (next_sequence bus) 1 of
        None \<Rightarrow> (Inl SequenceSpaceExhausted, bus)
      | Some following_sequence \<Rightarrow>
          (let envelope = \<lparr> env_sequence = next_sequence bus, env_occurred_at = occurred_at,
                            env_payload = payload \<rparr>
           in (Inr envelope,
               bus \<lparr> next_sequence := following_sequence,
                     replay := push_replay (replay_capacity bus) (replay bus) envelope,
                     sent := sent bus @ [envelope] \<rparr>)))"

definition current_sequence :: "event_bus \<Rightarrow> u64" where
  "current_sequence bus = saturating_sub (next_sequence bus) 1"

definition resume_after :: "event_bus \<Rightarrow> u64 \<Rightarrow> resume" where
  "resume_after bus cursor =
     (let last_sequence = saturating_sub (next_sequence bus) 1 in
      if cursor = last_sequence then Events []
      else if last_sequence < cursor \<or> replay bus = [] then SnapshotRequired
      else if saturating_add cursor 1 < env_sequence (hd (replay bus)) then SnapshotRequired
      else Events (filter (\<lambda>event. cursor < env_sequence event) (replay bus)))"

text \<open>Publishing a batch in order, stopping at the first panic.\<close>

fun publish_all :: "event_bus \<Rightarrow> (instant \<times> event_payload) list \<Rightarrow> bus_panic + event_bus" where
  "publish_all bus [] = Inr bus"
| "publish_all bus ((at, payload) # rest) =
     (case publish bus at payload of
        (Inl panic, _) \<Rightarrow> Inl panic
      | (Inr _, bus') \<Rightarrow> publish_all bus' rest)"

section \<open>The replay buffer is a forgetting log\<close>

lemma trim_front_eq_drop: "trim_front cap xs = drop (length xs - cap) xs"
  by (induction cap xs rule: trim_front.induct) (auto simp: Suc_diff_le)

interpretation bus_log: forgetting_log env_sequence "\<lambda>buffer. buffer" "push_replay (Suc cap)" for cap
proof unfold_locales
  fix s :: "event_envelope list" and e
  show "\<exists>k \<le> length s. push_replay (Suc cap) s e = drop k (s @ [e])"
    by (rule exI [of _ "length s - cap"]) (simp add: push_replay_def trim_front_eq_drop)
qed

lemma foldl_push_replay:
  "foldl (push_replay (Suc cap)) [] xs = drop (length xs - Suc cap) xs"
proof (induction xs rule: rev_induct)
  case (snoc x xs)
  then show ?case
    by (cases "Suc cap \<le> length xs") (simp_all add: push_replay_def trim_front_eq_drop Suc_diff_Suc)
qed simp

section \<open>The published history\<close>

text \<open>
  The abstract bus: the list of everything published, numbered from one. The concrete bus
  carries the last \<open>replay_capacity\<close> of them.
\<close>

definition numbered :: "(instant \<times> event_payload) list \<Rightarrow> event_envelope list" where
  "numbered es = map (\<lambda>i. \<lparr> env_sequence = of_nat (Suc i), env_occurred_at = fst (es ! i),
                             env_payload = snd (es ! i) \<rparr>) [0..<length es]"

definition bus_after :: "event_bus \<Rightarrow> (instant \<times> event_payload) list \<Rightarrow> bool" where
  "bus_after bus es \<longleftrightarrow>
     0 < replay_capacity bus \<and> length es + 1 < 2 ^ 64 \<and>
     next_sequence bus = of_nat (Suc (length es)) \<and>
     sent bus = numbered es \<and>
     replay bus = drop (length es - replay_capacity bus) (numbered es)"

lemma length_numbered [simp]: "length (numbered es) = length es"
  by (simp add: numbered_def)

lemma numbered_snoc:
  "numbered (es @ [e]) = numbered es @
     [\<lparr> env_sequence = of_nat (Suc (length es)), env_occurred_at = fst e, env_payload = snd e \<rparr>]"
  by (simp add: numbered_def nth_append)

lemma unat_of_nat_u64: "n < 2 ^ 64 \<Longrightarrow> unat (of_nat n :: u64) = n"
  by (simp add: unat_of_nat take_bit_nat_eq_self)

lemma sequence_numbered:
  "i < length es \<Longrightarrow> length es < 2 ^ 64 \<Longrightarrow> unat (env_sequence (numbered es ! i)) = Suc i"
  by (simp add: numbered_def unat_of_nat_u64 del: of_nat_Suc)

lemma bus_after_new: "new_bus cap sub = Inr bus \<Longrightarrow> bus_after bus []"
  by (auto simp: new_bus_def bus_after_def numbered_def split: if_splits)

lemma bus_after_publish:
  assumes "bus_after bus es" and "length es + 2 < 2 ^ 64"
  shows "bus_after (snd (publish bus at payload)) (es @ [(at, payload)]) \<and>
         isl (fst (publish bus at payload)) = False"
proof -
  have "unat (next_sequence bus) = Suc (length es)"
    using assms by (simp add: bus_after_def unat_of_nat_u64 del: of_nat_Suc)
  then have room: "checked_add (next_sequence bus) 1 = Some (next_sequence bus + 1)"
    using assms(2) by (simp add: checked_add_def)
  have trimmed: "trim_front cap (drop (length es - cap) xs @ [x]) = drop (Suc (length es) - cap) (xs @ [x])"
    if "length xs = length es" "0 < cap" for cap and xs :: "event_envelope list" and x
    using that by (cases "cap \<le> length es") (simp_all add: trim_front_eq_drop Suc_diff_le)
  show ?thesis
    using assms room
    by (auto simp: publish_def bus_after_def numbered_snoc push_replay_def trimmed Let_def)
qed

lemma bus_after_publish_all:
  assumes "bus_after bus es" and "length es + length fs + 1 < 2 ^ 64"
  shows "\<exists>bus'. publish_all bus fs = Inr bus' \<and> bus_after bus' (es @ fs) \<and>
                replay_capacity bus' = replay_capacity bus"
  using assms
proof (induction fs arbitrary: bus es)
  case Nil
  then show ?case by simp
next
  case (Cons f fs)
  obtain at payload where f: "f = (at, payload)" by fastforce
  from Cons.prems have step: "bus_after (snd (publish bus at payload)) (es @ [f])"
    "\<not> isl (fst (publish bus at payload))"
    using bus_after_publish [of bus es at payload] f by simp_all
  have cap: "replay_capacity (snd (publish bus at payload)) = replay_capacity bus"
    by (simp add: publish_def Let_def split: option.splits)
  obtain env bus' where pub: "publish bus at payload = (Inr env, bus')"
    using step(2) by (metis isl_def not_Cons_self2 old.sum.exhaust surj_pair fst_conv)
  with step(1) Cons.prems(2)
  obtain bus'' where "publish_all bus' fs = Inr bus''" "bus_after bus'' ((es @ [f]) @ fs)"
    "replay_capacity bus'' = replay_capacity bus'"
    using Cons.IH [of bus' "es @ [f]"] by auto
  with pub f cap show ?case by simp
qed

section \<open>Resuming\<close>

lemma increasing_numbered:
  assumes "length es < 2 ^ 64"
  shows "increasing env_sequence (numbered es)"
  unfolding increasing_def sorted_wrt_iff_nth_less
  using assms by (auto simp: word_less_nat_alt sequence_numbered)

lemma numbered_after_cursor:
  assumes "length es < 2 ^ 64"
  shows "filter (\<lambda>e. cursor < env_sequence e) (numbered es) = drop (unat cursor) (numbered es)"
proof -
  have "filter (\<lambda>e. cursor < env_sequence e) (drop (unat cursor) (numbered es))
      = filter (\<lambda>e. cursor < env_sequence e) (numbered es)"
    using assms
    by (intro increasing_filter_drop increasing_numbered)
      (auto simp: in_set_conv_nth word_le_nat_alt sequence_numbered)
  moreover have "filter (\<lambda>e. cursor < env_sequence e) (drop (unat cursor) (numbered es))
      = drop (unat cursor) (numbered es)"
    using assms
    by (intro filter_True) (auto simp: in_set_conv_nth word_less_nat_alt sequence_numbered)
  ultimately show ?thesis by simp
qed

lemma resume_after_bus_after:
  assumes "bus_after bus es"
  shows "resume_after bus cursor =
           (if unat cursor \<le> length es \<and> length es - unat cursor \<le> replay_capacity bus
            then Events (drop (unat cursor) (numbered es)) else SnapshotRequired)"
proof -
  let ?n = "length es" and ?k = "length es - replay_capacity bus"
  have small: "?n < 2 ^ 64" "?n + 1 < 2 ^ 64" and cap: "0 < replay_capacity bus"
    and rep: "replay bus = drop ?k (numbered es)"
    using assms by (auto simp: bus_after_def)
  have "unat (next_sequence bus) = Suc ?n"
    using assms by (simp add: bus_after_def unat_of_nat_u64 del: of_nat_Suc)
  then have last: "unat (saturating_sub (next_sequence bus) 1) = ?n"
    by (simp add: unat_saturating_sub)
  have oldest: "unat (env_sequence (hd (replay bus))) = Suc ?k" if "0 < ?n"
    using that cap small by (simp add: rep hd_drop_conv_nth sequence_numbered)
  have succ: "unat (saturating_add cursor 1) = Suc (unat cursor)" if "unat cursor < ?n"
    using that small by (simp add: saturating_add_def unat_word_ariths)
  have found: "filter (\<lambda>e. cursor < env_sequence e) (replay bus) = drop (unat cursor) (numbered es)"
    if "?k \<le> unat cursor"
  proof -
    obtain cap where c: "replay_capacity bus = Suc cap" using cap gr0_implies_Suc by blast
    have "e \<in> set (replay bus) \<or> env_sequence e \<le> cursor" if "e \<in> set (numbered es)" for e
    proof -
      from that obtain i where i: "i < ?n" "e = numbered es ! i" by (auto simp: in_set_conv_nth)
      show ?thesis
      proof (cases "i < ?k")
        case True
        with i \<open>?k \<le> unat cursor\<close> small show ?thesis
          by (simp add: word_le_nat_alt sequence_numbered)
      next
        case False
        then have "e = drop ?k (numbered es) ! (i - ?k)" "i - ?k < length (drop ?k (numbered es))"
          using i by simp_all
        then show ?thesis unfolding rep by (metis nth_mem)
      qed
    qed
    then have "filter (\<lambda>e. cursor < env_sequence e) (replay bus)
        = filter (\<lambda>e. cursor < env_sequence e) (numbered es)"
      using bus_log.cursor_complete [of "[]" "numbered es" cap cursor] small
      by (simp add: foldl_push_replay rep c increasing_numbered)
    then show ?thesis using small by (simp add: numbered_after_cursor)
  qed
  consider "unat cursor = ?n" | "?n < unat cursor" | "unat cursor < ?n" by linarith
  then show ?thesis
  proof cases
    case 1
    then have "cursor = saturating_sub (next_sequence bus) 1"
      using last by (simp add: word_unat_eq_iff)
    with 1 show ?thesis by (simp add: resume_after_def Let_def)
  next
    case 2
    then have "saturating_sub (next_sequence bus) 1 < cursor" using last by (simp add: word_less_nat_alt)
    with 2 show ?thesis by (auto simp: resume_after_def Let_def)
  next
    case 3
    then have "cursor \<noteq> saturating_sub (next_sequence bus) 1"
      "\<not> saturating_sub (next_sequence bus) 1 < cursor" "replay bus \<noteq> []"
      using last cap by (auto simp: word_less_nat_alt rep)
    moreover have "saturating_add cursor 1 < env_sequence (hd (replay bus)) \<longleftrightarrow> unat cursor < ?k"
      using 3 oldest by (cases "es = []") (simp_all add: word_less_nat_alt succ)
    ultimately show ?thesis
      using 3 cap by (auto simp: resume_after_def Let_def found)
  qed
qed

section \<open>Properties\<close>

text \<open>C3. Publishing never loses or renumbers an event: on a fresh bus, any batch of fewer
  than \<open>2^64 - 1\<close> events is published without panic, the envelopes handed to the broadcast
  channel are exactly the batch numbered 1, 2, 3, ... in order, and the replay buffer holds
  exactly the newest \<open>replay_capacity\<close> of them.\<close>

theorem bus_publishes_in_sequence:
  assumes "new_bus cap sub = Inr bus" and "length es + 1 < 2 ^ 64"
  shows "\<exists>bus'. publish_all bus es = Inr bus' \<and> sent bus' = numbered es \<and>
            replay bus' = drop (length es - cap) (numbered es) \<and>
            unat (current_sequence bus') = length es"
proof -
  have cap: "replay_capacity bus = cap"
    using assms(1) by (auto simp: new_bus_def split: if_splits)
  obtain bus' where run: "publish_all bus es = Inr bus'" "bus_after bus' es"
    "replay_capacity bus' = replay_capacity bus"
    using bus_after_publish_all [OF bus_after_new [OF assms(1)], of es] assms(2) by auto
  then have "unat (next_sequence bus') = Suc (length es)"
    by (simp add: bus_after_def unat_of_nat_u64 del: of_nat_Suc)
  then show ?thesis
    using run cap by (auto simp: bus_after_def current_sequence_def unat_saturating_sub)
qed

definition status_event :: "instant \<times> event_payload" where
  "status_event = (0, ServiceStatus \<lparr> ss_state = ''ready'', ss_detail = ''test'' \<rparr>)"

theorem bus_publishes_in_sequence_witness:
  "\<exists>bus bus'. new_bus 1 1 = Inr bus \<and> publish_all bus [status_event, status_event] = Inr bus' \<and>
     replay bus' = drop 1 (numbered [status_event, status_event])"
proof -
  obtain bus where bus: "new_bus 1 1 = Inr bus" by (simp add: new_bus_def)
  from bus_publishes_in_sequence [OF bus, of "[status_event, status_event]"] bus
  show ?thesis by auto
qed

text \<open>C4. Resuming from a cursor is exact: after a batch has been published, a subscriber
  that saw everything up to \<open>cursor\<close> gets all later events, in order and without a gap,
  whenever no more than \<open>replay_capacity\<close> events follow the cursor; otherwise, and for a
  cursor from the future, it is told to take a snapshot.\<close>

theorem resume_after_exact:
  assumes "new_bus cap sub = Inr bus0" and "length es + 1 < 2 ^ 64"
    and "publish_all bus0 es = Inr bus"
  shows "resume_after bus cursor =
           (if unat cursor \<le> length es \<and> length es - unat cursor \<le> cap
            then Events (drop (unat cursor) (numbered es)) else SnapshotRequired)"
proof -
  have "replay_capacity bus0 = cap"
    using assms(1) by (auto simp: new_bus_def split: if_splits)
  with bus_after_publish_all [OF bus_after_new [OF assms(1)], of es] assms(2,3)
  have "bus_after bus es" and cap: "replay_capacity bus = cap" by auto
  then show ?thesis by (simp add: resume_after_bus_after)
qed

theorem resume_after_exact_witness:
  "\<exists>bus0 bus. new_bus 1 1 = Inr bus0 \<and> publish_all bus0 [status_event, status_event] = Inr bus \<and>
     resume_after bus 1 = Events (drop 1 (numbered [status_event, status_event])) \<and>
     resume_after bus 0 = SnapshotRequired"
proof -
  obtain bus0 where b0: "new_bus 1 1 = Inr bus0" by (simp add: new_bus_def)
  with bus_after_publish_all [OF bus_after_new [OF b0], of "[status_event, status_event]"]
  obtain bus where b: "publish_all bus0 [status_event, status_event] = Inr bus" by auto
  from resume_after_exact [OF b0 _ b, of 1] resume_after_exact [OF b0 _ b, of 0] b0 b
  show ?thesis by auto
qed

end
