(* ===== verification/Presence.thy ===== *)
theory Presence
  imports Domain
begin

text \<open>
  The presence engine of \<open>lattice-intelligence/src/presence.rs\<close>, definitions: the
  configuration and its validation, evidence, transitions, per-device state, and every
  operation of \<open>PresenceEngine\<close> that the service calls (ingestion, verified enforcement,
  timer evaluation, the replay cursor). Operations that take \<open>&mut self\<close> return the result
  together with the engine they leave behind. The checkpoint format is in
  \<open>Presence_Checkpoint\<close>, the invariants are in \<open>Presence_Invariants\<close>.
\<close>

section \<open>Configuration\<close>

record presence_config =
  pc_online_window :: duration
  pc_correction_window :: duration
  pc_retention :: duration
  pc_future_skew :: duration
  pc_confirmation_window :: duration
  pc_trusted_sources :: "string list"
  pc_join_confirmations :: nat
  pc_departure_confirmations :: nat
  pc_max_devices :: nat
  pc_max_evidence_per_device :: nat
  pc_max_history_per_device :: nat
  pc_max_source_len :: nat

definition default_presence_config :: presence_config where
  "default_presence_config =
     \<lparr> pc_online_window = seconds 30, pc_correction_window = minutes 5,
       pc_retention = hours 24, pc_future_skew = seconds 5,
       pc_confirmation_window = minutes 2, pc_trusted_sources = [''sensor-a''],
       pc_join_confirmations = 2, pc_departure_confirmations = 2, pc_max_devices = 4096,
       pc_max_evidence_per_device = 256, pc_max_history_per_device = 128,
       pc_max_source_len = 128 \<rparr>"

datatype presence_error =
    InvalidConfig | Untrusted | InvalidEvidence string | Capacity string | DeviceNotFound
  | ClockRollback | SequenceExhausted | CursorExpired | InvalidCheckpoint string

definition validate_config :: "presence_config \<Rightarrow> presence_error + unit" where
  "validate_config c =
     (if pc_online_window c \<le> 0 \<or> pc_correction_window c \<le> 0
         \<or> pc_retention c < pc_correction_window c
         \<or> pc_retention c < pc_online_window c
         \<or> pc_retention c < pc_confirmation_window c
         \<or> pc_confirmation_window c \<le> 0 \<or> pc_future_skew c < 0
      then Inl InvalidConfig
      else if pc_trusted_sources c = [] \<or> 256 < length (pc_trusted_sources c)
         \<or> list_ex (\<lambda>s. s = [] \<or> pc_max_source_len c < length s) (pc_trusted_sources c)
      then Inl InvalidConfig
      else if 0 \<in> set [pc_join_confirmations c, pc_departure_confirmations c, pc_max_devices c,
                        pc_max_evidence_per_device c, pc_max_history_per_device c,
                        pc_max_source_len c]
      then Inl InvalidConfig
      else Inr ())"

section \<open>Evidence and transitions\<close>

datatype presence_evidence_kind =
    Traffic | Lease | RouterAssociation | NeighborCache | ProbeSuccess | ConfirmationFailure
  | EnforcementBlocked | EnforcementUnblocked | SensorImpaired | SensorRecovered
  | Contradiction | ContradictionCleared | Evaluation

text \<open>The derived \<open>Ord\<close> follows the declaration order.\<close>

fun kind_rank :: "presence_evidence_kind \<Rightarrow> nat" where
  "kind_rank Traffic = 0"
| "kind_rank Lease = 1"
| "kind_rank RouterAssociation = 2"
| "kind_rank NeighborCache = 3"
| "kind_rank ProbeSuccess = 4"
| "kind_rank ConfirmationFailure = 5"
| "kind_rank EnforcementBlocked = 6"
| "kind_rank EnforcementUnblocked = 7"
| "kind_rank SensorImpaired = 8"
| "kind_rank SensorRecovered = 9"
| "kind_rank Contradiction = 10"
| "kind_rank ContradictionCleared = 11"
| "kind_rank Evaluation = 12"

lemma kind_rank_inject: "kind_rank k = kind_rank k' \<Longrightarrow> k = k'"
  by (cases k; cases k'; simp)

instantiation presence_evidence_kind :: linorder
begin

definition less_eq_presence_evidence_kind ::
  "presence_evidence_kind \<Rightarrow> presence_evidence_kind \<Rightarrow> bool" where
  "less_eq_presence_evidence_kind k k' \<longleftrightarrow> kind_rank k \<le> kind_rank k'"

definition less_presence_evidence_kind ::
  "presence_evidence_kind \<Rightarrow> presence_evidence_kind \<Rightarrow> bool" where
  "less_presence_evidence_kind k k' \<longleftrightarrow> kind_rank k < kind_rank k'"

instance
  by standard
    (auto simp: less_eq_presence_evidence_kind_def less_presence_evidence_kind_def
      intro: kind_rank_inject)

end

fun kind_as_str :: "presence_evidence_kind \<Rightarrow> string" where
  "kind_as_str Traffic = ''traffic''"
| "kind_as_str Lease = ''lease''"
| "kind_as_str RouterAssociation = ''router_association''"
| "kind_as_str NeighborCache = ''neighbor_cache''"
| "kind_as_str ProbeSuccess = ''probe_success''"
| "kind_as_str ConfirmationFailure = ''confirmation_failure''"
| "kind_as_str EnforcementBlocked = ''enforcement_blocked''"
| "kind_as_str EnforcementUnblocked = ''enforcement_unblocked''"
| "kind_as_str SensorImpaired = ''sensor_impaired''"
| "kind_as_str SensorRecovered = ''sensor_recovered''"
| "kind_as_str Contradiction = ''contradiction''"
| "kind_as_str ContradictionCleared = ''contradiction_cleared''"
| "kind_as_str Evaluation = ''evaluation''"

record presence_evidence =
  pe_device_id :: device_id
  pe_source :: string
  pe_kind :: presence_evidence_kind
  pe_observed_at :: instant
  pe_valid_until :: "instant option"

record presence_trigger =
  pt_source :: string
  pt_kind :: presence_evidence_kind
  pt_observed_at :: instant
  pt_valid_until :: "instant option"
  pt_arrival_at :: instant

record presence_transition =
  tr_id :: u64
  tr_device_id :: device_id
  tr_from :: presence_state
  tr_to :: presence_state
  tr_occurred_at :: instant
  tr_trigger :: presence_trigger
  tr_correction_of :: "u64 option"

definition changed_from_transition :: "presence_transition \<Rightarrow> presence_changed" where
  "changed_from_transition t =
     \<lparr> ch_transition_id = tr_id t, ch_device_id = tr_device_id t, ch_from = tr_from t,
       ch_to = tr_to t, ch_occurred_at = tr_occurred_at t,
       ch_reason = (if tr_correction_of t \<noteq> None then ''late_evidence_correction''
                    else ''presence_evidence''),
       ch_trigger_source = pt_source (tr_trigger t),
       ch_trigger_kind = kind_as_str (pt_kind (tr_trigger t)),
       ch_evidence_observed_at = pt_observed_at (tr_trigger t),
       ch_evidence_valid_until = pt_valid_until (tr_trigger t),
       ch_trigger_arrival_at = pt_arrival_at (tr_trigger t),
       ch_correction_of = tr_correction_of t \<rparr>"

section \<open>State\<close>

record device_presence =
  d_state :: presence_state
  d_evidence :: "presence_evidence list"
  d_history :: "presence_transition list"
  d_last_evaluation :: instant
  d_ever_supported :: bool
  d_blocked :: bool
  d_impaired :: bool
  d_contradictory :: bool
  d_enforcement_clock :: "instant option"
  d_impairment_clock :: "instant option"
  d_contradiction_clock :: "instant option"
  d_evicted_through :: "u64 option"

record presence_engine =
  e_cfg :: presence_config
  e_devices :: "(device_id, device_presence) hmap"
  e_next_transition :: u64

record presence_snapshot =
  sn_devices :: nat
  sn_evidence :: nat
  sn_history :: nat
  sn_next_transition :: u64

section \<open>Controls: enforcement, impairment, contradiction\<close>

definition apply_flags :: "device_presence \<Rightarrow> presence_evidence \<Rightarrow> device_presence" where
  "apply_flags d e =
     (let t = pe_observed_at e in
      case pe_kind e of
        EnforcementBlocked \<Rightarrow>
          if is_none_or (d_enforcement_clock d) (\<lambda>x. x \<le> t)
          then d \<lparr> d_blocked := True, d_enforcement_clock := Some t \<rparr> else d
      | EnforcementUnblocked \<Rightarrow>
          if is_none_or (d_enforcement_clock d) (\<lambda>x. x \<le> t)
          then d \<lparr> d_blocked := False, d_enforcement_clock := Some t \<rparr> else d
      | SensorImpaired \<Rightarrow>
          if is_none_or (d_impairment_clock d) (\<lambda>x. x \<le> t)
          then d \<lparr> d_impaired := True, d_impairment_clock := Some t \<rparr> else d
      | SensorRecovered \<Rightarrow>
          if is_none_or (d_impairment_clock d) (\<lambda>x. x \<le> t)
          then d \<lparr> d_impaired := False, d_impairment_clock := Some t \<rparr> else d
      | Contradiction \<Rightarrow>
          if is_none_or (d_contradiction_clock d) (\<lambda>x. x \<le> t)
          then d \<lparr> d_contradictory := True, d_contradiction_clock := Some t \<rparr> else d
      | ContradictionCleared \<Rightarrow>
          if is_none_or (d_contradiction_clock d) (\<lambda>x. x \<le> t)
          then d \<lparr> d_contradictory := False, d_contradiction_clock := Some t \<rparr> else d
      | _ \<Rightarrow> d)"

definition stale_control_at :: "instant option \<Rightarrow> instant \<Rightarrow> bool \<Rightarrow> bool \<Rightarrow> bool" where
  "stale_control_at clock observed_at active incoming_active =
     is_some_and clock
       (\<lambda>c. observed_at < c \<or> (observed_at = c \<and> (active \<or> \<not> incoming_active)))"

definition stale_control :: "device_presence \<Rightarrow> presence_evidence \<Rightarrow> bool" where
  "stale_control d e =
     (case pe_kind e of
        EnforcementBlocked \<Rightarrow>
          stale_control_at (d_enforcement_clock d) (pe_observed_at e) (d_blocked d) True
      | EnforcementUnblocked \<Rightarrow>
          stale_control_at (d_enforcement_clock d) (pe_observed_at e) (d_blocked d) False
      | SensorImpaired \<Rightarrow>
          stale_control_at (d_impairment_clock d) (pe_observed_at e) (d_impaired d) True
      | SensorRecovered \<Rightarrow>
          stale_control_at (d_impairment_clock d) (pe_observed_at e) (d_impaired d) False
      | Contradiction \<Rightarrow>
          stale_control_at (d_contradiction_clock d) (pe_observed_at e) (d_contradictory d) True
      | ContradictionCleared \<Rightarrow>
          stale_control_at (d_contradiction_clock d) (pe_observed_at e) (d_contradictory d) False
      | _ \<Rightarrow> False)"

definition control_state ::
  "presence_evidence list \<Rightarrow> presence_evidence_kind \<Rightarrow> presence_evidence_kind
     \<Rightarrow> bool \<times> instant option" where
  "control_state evidence active inactive =
     (case iter_max (map pe_observed_at
             (filter (\<lambda>e. pe_kind e = active \<or> pe_kind e = inactive) evidence)) of
        None \<Rightarrow> (False, None)
      | Some clock \<Rightarrow>
          (list_ex (\<lambda>e. pe_kind e = active \<and> pe_observed_at e = clock) evidence, Some clock))"

definition conflicting_controls ::
  "presence_evidence list \<Rightarrow> presence_evidence_kind \<Rightarrow> presence_evidence_kind \<Rightarrow> bool" where
  "conflicting_controls evidence active inactive =
     list_ex (\<lambda>left. pe_kind left = active \<and>
       list_ex (\<lambda>right. pe_kind right = inactive \<and> pe_observed_at right = pe_observed_at left)
         evidence) evidence"

definition control_family :: "presence_evidence_kind \<Rightarrow> nat option" where
  "control_family kind =
     (if kind \<in> {EnforcementBlocked, EnforcementUnblocked} then Some 0
      else if kind \<in> {SensorImpaired, SensorRecovered} then Some 1
      else if kind \<in> {Contradiction, ContradictionCleared} then Some 2
      else None)"

definition prune_family :: "presence_evidence list \<Rightarrow> nat \<Rightarrow> presence_evidence list" where
  "prune_family evidence family =
     (let latest = iter_max (map pe_observed_at
             (filter (\<lambda>e. control_family (pe_kind e) = Some family) evidence))
      in filter (\<lambda>e. control_family (pe_kind e) \<noteq> Some family
                     \<or> is_none_or latest (\<lambda>at. pe_observed_at e = at)) evidence)"

definition prune_control_evidence :: "presence_evidence list \<Rightarrow> presence_evidence list" where
  "prune_control_evidence evidence = foldl prune_family evidence [0, 1, 2]"

section \<open>Evidence\<close>

definition is_support_kind :: "presence_evidence_kind \<Rightarrow> bool" where
  "is_support_kind k \<longleftrightarrow> k \<in> {Lease, RouterAssociation, NeighborCache, ProbeSuccess}"

definition is_control_kind :: "presence_evidence_kind \<Rightarrow> bool" where
  "is_control_kind k \<longleftrightarrow>
     k \<in> {EnforcementBlocked, EnforcementUnblocked, SensorImpaired, SensorRecovered,
          Contradiction, ContradictionCleared}"

definition semantically_retained ::
  "presence_evidence \<Rightarrow> instant \<Rightarrow> presence_config \<Rightarrow> bool" where
  "semantically_retained e arrival c =
     (if is_control_kind (pe_kind e) then True
      else if is_support_kind (pe_kind e) then
        (case pe_valid_until e of
           None \<Rightarrow> arrival - pe_observed_at e \<le> pc_retention c
         | Some until \<Rightarrow> arrival - until \<le> pc_correction_window c)
      else if pe_kind e = ConfirmationFailure then
        arrival - pe_observed_at e \<le> pc_confirmation_window c
      else if pe_kind e = Traffic then
        arrival - pe_observed_at e \<le> max (pc_online_window c) (pc_correction_window c)
      else arrival - pe_observed_at e \<le> pc_retention c)"

definition is_real_positive :: "presence_evidence_kind \<Rightarrow> bool" where
  "is_real_positive k \<longleftrightarrow> k \<in> {Traffic, Lease, RouterAssociation, NeighborCache}"

definition is_positive :: "presence_evidence_kind \<Rightarrow> bool" where
  "is_positive k \<longleftrightarrow> is_real_positive k \<or> k = ProbeSuccess"

definition support_at ::
  "presence_evidence \<Rightarrow> instant \<Rightarrow> bool \<Rightarrow> duration \<Rightarrow> presence_state option" where
  "support_at e at ever online =
     (if at < pe_observed_at e then None
      else if pe_kind e = Traffic \<and> at - pe_observed_at e < online then Some Online
      else if pe_kind e \<in> {Lease, RouterAssociation, NeighborCache}
              \<and> is_some_and (pe_valid_until e) (\<lambda>x. at \<le> x) then Some Quiet
      else if pe_kind e = ProbeSuccess \<and> ever
              \<and> is_some_and (pe_valid_until e) (\<lambda>x. at \<le> x) then Some Quiet
      else None)"

definition evidence_key ::
  "presence_evidence \<Rightarrow> instant \<times> string \<times> presence_evidence_kind \<times> instant option" where
  "evidence_key e = (pe_observed_at e, pe_source e, pe_kind e, pe_valid_until e)"

definition sort_evidence :: "presence_evidence list \<Rightarrow> presence_evidence list" where
  "sort_evidence v = sort_key evidence_key v"

definition distinct_count :: "presence_evidence list \<Rightarrow> nat" where
  "distinct_count v = card (set (map (\<lambda>e. (pe_source e, pe_kind e, pe_observed_at e)) v))"

definition confirmations ::
  "device_presence \<Rightarrow> instant \<Rightarrow> duration \<Rightarrow> (presence_evidence_kind \<Rightarrow> bool) \<Rightarrow> nat" where
  "confirmations d at window pred =
     distinct_count (filter (\<lambda>e. pred (pe_kind e) \<and> pe_observed_at e \<le> at
                                 \<and> at - pe_observed_at e \<le> window) (d_evidence d))"

definition support_end :: "calendar \<Rightarrow> presence_config \<Rightarrow> presence_evidence list \<Rightarrow> instant option" where
  "support_end cal c evidence =
     iter_max (List.map_filter
       (\<lambda>e. if pe_kind e = Traffic then cal (pe_observed_at e) (pc_online_window c)
            else if is_support_kind (pe_kind e) then pe_valid_until e
            else None) evidence)"

definition departure_failures ::
  "calendar \<Rightarrow> device_presence \<Rightarrow> instant \<Rightarrow> presence_config \<Rightarrow> nat" where
  "departure_failures cal d at c =
     distinct_count (filter (\<lambda>e. pe_kind e = ConfirmationFailure \<and> pe_observed_at e \<le> at
         \<and> is_none_or (support_end cal c (d_evidence d)) (\<lambda>limit. limit < pe_observed_at e)
         \<and> at - pe_observed_at e \<le> pc_confirmation_window c) (d_evidence d))"

definition candidate ::
  "calendar \<Rightarrow> device_presence \<Rightarrow> instant \<Rightarrow> presence_config \<Rightarrow> presence_state" where
  "candidate cal d at c =
     (if d_blocked d then Blocked
      else if d_impaired d \<or> d_contradictory d then Unknown
      else if list_ex (\<lambda>e. pe_kind e = Traffic \<and> pe_observed_at e \<le> at
                           \<and> at - pe_observed_at e < pc_online_window c) (d_evidence d)
      then Online
      else if list_ex (\<lambda>e. is_support_kind (pe_kind e) \<and> pe_observed_at e \<le> at
                           \<and> is_some_and (pe_valid_until e) (\<lambda>x. at \<le> x)) (d_evidence d)
              \<and> d_ever_supported d
      then Quiet
      else if d_ever_supported d \<and> pc_departure_confirmations c \<le> departure_failures cal d at c
      then Offline
      else if d_state d \<in> {Online, Quiet} then d_state d
      else Unknown)"

section \<open>Bounded history\<close>

fun pop_dependents ::
  "u64 \<Rightarrow> u64 option \<Rightarrow> presence_transition list \<Rightarrow> u64 option \<times> presence_transition list" where
  "pop_dependents evicted through [] = (through, [])"
| "pop_dependents evicted through (next # rest) =
     (if tr_correction_of next = Some evicted
      then pop_dependents evicted (Some (tr_id next)) rest
      else (through, next # rest))"

lemma pop_dependents_shorter [termination_simp]:
  "length (snd (pop_dependents evicted through h)) \<le> length h"
  by (induction evicted through h rule: pop_dependents.induct) auto

fun evict_history ::
  "nat \<Rightarrow> u64 option \<Rightarrow> presence_transition list \<Rightarrow> u64 option \<times> presence_transition list" where
  "evict_history cap through [] = (through, [])"
| "evict_history cap through (evicted # rest) =
     (if cap \<le> length (evicted # rest)
      then (let popped = pop_dependents (tr_id evicted) (Some (tr_id evicted)) rest
            in evict_history cap (fst popped) (snd popped))
      else (through, evicted # rest))"

definition push_history :: "nat \<Rightarrow> device_presence \<Rightarrow> presence_transition \<Rightarrow> device_presence" where
  "push_history cap d t =
     (let kept = evict_history cap (d_evicted_through d) (d_history d)
      in d \<lparr> d_evicted_through := fst kept, d_history := snd kept @ [t] \<rparr>)"

section \<open>The engine\<close>

definition new_with_transition_sequence ::
  "presence_config \<Rightarrow> u64 \<Rightarrow> presence_error + presence_engine" where
  "new_with_transition_sequence cfg next_transition =
     (case validate_config cfg of
        Inl err \<Rightarrow> Inl err
      | Inr _ \<Rightarrow>
          if next_transition = 0 then Inl InvalidConfig
          else Inr \<lparr> e_cfg = cfg, e_devices = [], e_next_transition = next_transition \<rparr>)"

definition new_presence :: "presence_config \<Rightarrow> presence_error + presence_engine" where
  "new_presence cfg = new_with_transition_sequence cfg 1"

definition snapshot :: "presence_engine \<Rightarrow> presence_snapshot" where
  "snapshot s =
     \<lparr> sn_devices = length (e_devices s),
       sn_evidence = sum_list (map (\<lambda>(_, d). length (d_evidence d)) (e_devices s)),
       sn_history = sum_list (map (\<lambda>(_, d). length (d_history d)) (e_devices s)),
       sn_next_transition = e_next_transition s \<rparr>"

definition state_of :: "presence_engine \<Rightarrow> device_id \<Rightarrow> presence_state option" where
  "state_of s i = map_option d_state (hm_get (e_devices s) i)"

definition history_of :: "presence_engine \<Rightarrow> device_id \<Rightarrow> presence_error + presence_transition list" where
  "history_of s i =
     (case hm_get (e_devices s) i of None \<Rightarrow> Inl DeviceNotFound | Some d \<Rightarrow> Inr (d_history d))"

definition domain_events_since ::
  "presence_engine \<Rightarrow> device_id \<Rightarrow> u64 \<Rightarrow> presence_error + presence_changed list" where
  "domain_events_since s i cursor =
     (case hm_get (e_devices s) i of
        None \<Rightarrow> Inl DeviceNotFound
      | Some d \<Rightarrow>
          if is_some_and (d_evicted_through d) (\<lambda>evicted. cursor < evicted)
          then Inl CursorExpired
          else Inr (map changed_from_transition
                      (filter (\<lambda>t. cursor < tr_id t) (d_history d))))"

definition validate ::
  "calendar \<Rightarrow> presence_engine \<Rightarrow> presence_evidence \<Rightarrow> instant \<Rightarrow> bool \<Rightarrow> presence_error + unit" where
  "validate cal s e arrival enforcement_authorized =
     (if pe_source e \<notin> set (pc_trusted_sources (e_cfg s)) then Inl Untrusted
      else if pe_source e = [] \<or> pc_max_source_len (e_cfg s) < length (pe_source e)
      then Inl (InvalidEvidence ''source'')
      else case cal arrival (pc_future_skew (e_cfg s)) of
          None \<Rightarrow> Inl (InvalidEvidence ''time overflow'')
        | Some future_limit \<Rightarrow>
            if future_limit < pe_observed_at e then Inl (InvalidEvidence ''future skew'')
            else if is_some_and (pe_valid_until e) (\<lambda>x. x < pe_observed_at e)
            then Inl (InvalidEvidence ''validity'')
            else if pe_kind e = NeighborCache \<and> pe_valid_until e = None
            then Inl (InvalidEvidence ''validity'')
            else if pe_kind e = Traffic
                    \<and> cal (pe_observed_at e) (pc_online_window (e_cfg s)) = None
            then Inl (InvalidEvidence ''time overflow'')
            else if pe_kind e \<in> {EnforcementBlocked, EnforcementUnblocked}
                    \<and> \<not> enforcement_authorized
            then Inl (InvalidEvidence ''reserved enforcement'')
            else if pe_kind e = Evaluation then Inl (InvalidEvidence ''reserved kind'')
            else Inr ())"

definition make_transition ::
  "presence_engine \<Rightarrow> device_id \<Rightarrow> presence_state \<Rightarrow> presence_state \<Rightarrow> presence_evidence
     \<Rightarrow> instant \<Rightarrow> u64 option \<Rightarrow> (presence_error + presence_transition) \<times> presence_engine" where
  "make_transition s i from to e at correction =
     (case checked_add (e_next_transition s) 1 of
        None \<Rightarrow> (Inl SequenceExhausted, s)
      | Some following \<Rightarrow>
          (Inr \<lparr> tr_id = e_next_transition s, tr_device_id = i, tr_from = from, tr_to = to,
                 tr_occurred_at = at,
                 tr_trigger = \<lparr> pt_source = pe_source e, pt_kind = pe_kind e,
                                pt_observed_at = pe_observed_at e,
                                pt_valid_until = pe_valid_until e, pt_arrival_at = at \<rparr>,
                 tr_correction_of = correction \<rparr>,
           s \<lparr> e_next_transition := following \<rparr>))"

definition put_device :: "presence_engine \<Rightarrow> device_id \<Rightarrow> device_presence \<Rightarrow> presence_engine" where
  "put_device s i d = s \<lparr> e_devices := hm_insert i d (e_devices s) \<rparr>"

definition gated_state ::
  "calendar \<Rightarrow> presence_config \<Rightarrow> device_presence \<Rightarrow> instant \<Rightarrow> presence_state" where
  "gated_state cal c d at =
     (let cand = candidate cal d at c in
      if cand \<in> {Online, Quiet} \<and> d_state d \<in> {Unknown, Offline}
         \<and> confirmations d at (pc_confirmation_window c) is_real_positive < pc_join_confirmations c
      then d_state d else cand)"

definition synthetic_evidence :: "device_id \<Rightarrow> instant \<Rightarrow> presence_evidence" where
  "synthetic_evidence i at =
     \<lparr> pe_device_id = i, pe_source = ''presence.timer'', pe_kind = Evaluation,
       pe_observed_at = at, pe_valid_until = None \<rparr>"

definition recompute ::
  "calendar \<Rightarrow> presence_engine \<Rightarrow> device_id \<Rightarrow> instant \<Rightarrow> presence_evidence option
     \<Rightarrow> (presence_error + presence_transition option) \<times> presence_engine" where
  "recompute cal s i at trigger =
     (case hm_get (e_devices s) i of
        None \<Rightarrow> (Inl DeviceNotFound, s)
      | Some d \<Rightarrow>
          (let gated = gated_state cal (e_cfg s) d at in
           if gated = d_state d then (Inr None, s)
           else
             (let source = (case trigger of Some e \<Rightarrow> e | None \<Rightarrow> synthetic_evidence i at)
              in case make_transition s i (d_state d) gated source at None of
                   (Inl err, s') \<Rightarrow> (Inl err, s')
                 | (Inr tr, s') \<Rightarrow>
                     (case hm_get (e_devices s') i of
                        None \<Rightarrow> (Inl DeviceNotFound, s')
                      | Some d' \<Rightarrow>
                          (Inr (Some tr),
                           put_device s' i (push_history (pc_max_history_per_device (e_cfg s'))
                             (d' \<lparr> d_state := gated \<rparr>) tr))))))"

definition initial_device :: "instant \<Rightarrow> device_presence" where
  "initial_device arrival =
     \<lparr> d_state = Unknown, d_evidence = [], d_history = [], d_last_evaluation = arrival,
       d_ever_supported = False, d_blocked = False, d_impaired = False,
       d_contradictory = False, d_enforcement_clock = None, d_impairment_clock = None,
       d_contradiction_clock = None, d_evicted_through = None \<rparr>"

text \<open>
  The checks before any mutation (lines 565 to 588): an error, \<open>Inr None\<close> for the
  duplicate or stale input that returns no events, or \<open>Inr (Some retain_input)\<close>.
\<close>

definition admit ::
  "calendar \<Rightarrow> presence_engine \<Rightarrow> presence_evidence \<Rightarrow> instant \<Rightarrow> bool
     \<Rightarrow> presence_error + bool option" where
  "admit cal s e arrival enforcement_authorized =
     (case validate cal s e arrival enforcement_authorized of
        Inl err \<Rightarrow> Inl err
      | Inr _ \<Rightarrow>
          if \<not> hm_contains (e_devices s) (pe_device_id e)
             \<and> pc_max_devices (e_cfg s) \<le> length (e_devices s)
          then Inl (Capacity ''devices'')
          else
            (let retain_input = semantically_retained e arrival (e_cfg s);
                 checked = (case hm_get (e_devices s) (pe_device_id e) of
                     None \<Rightarrow> Inr (Some retain_input)
                   | Some d \<Rightarrow>
                       if arrival < d_last_evaluation d then Inl ClockRollback
                       else if e \<in> set (d_evidence d) \<or> stale_control d e then Inr None
                       else if retain_input \<and> pc_max_evidence_per_device (e_cfg s)
                                \<le> length (filter (\<lambda>x. semantically_retained x arrival (e_cfg s))
                                            (d_evidence d))
                       then Inl (Capacity ''evidence'')
                       else Inr (Some retain_input))
             in case checked of
                  Inl err \<Rightarrow> Inl err
                | Inr None \<Rightarrow> Inr None
                | Inr (Some r) \<Rightarrow>
                    if checked_add (e_next_transition s) 2 = None then Inl SequenceExhausted
                    else Inr (Some r)))"

text \<open>
  What one piece of evidence does to its device before any transition is decided (lines 606
  to 651): the new device, the departure it corrects with the corrected state, and whether
  it is late without being currently valid.
\<close>

definition absorb ::
  "presence_config \<Rightarrow> presence_evidence \<Rightarrow> instant \<Rightarrow> bool \<Rightarrow> device_presence
     \<Rightarrow> device_presence \<times> (u64 \<times> presence_state) option \<times> bool" where
  "absorb c e arrival retain_input d0 =
     (let d1 = d0 \<lparr> d_evidence := filter (\<lambda>x. semantically_retained x arrival c) (d_evidence d0),
                    d_last_evaluation := arrival \<rparr>;
          any_departure = rfind (\<lambda>x. tr_to x = Offline) (d_history d1);
          correct = Option.bind
            (rfind (\<lambda>x. tr_to x = Offline
                        \<and> arrival - tr_occurred_at x \<le> pc_correction_window c) (d_history d1))
            (\<lambda>dep. map_option (\<lambda>target. (dep, target))
               (support_at e (tr_occurred_at dep) (d_ever_supported d1) (pc_online_window c)));
          late = is_some_and any_departure
            (\<lambda>dep. is_positive (pe_kind e) \<and> pe_observed_at e \<le> tr_occurred_at dep);
          current_valid =
            (support_at e arrival (d_ever_supported d1) (pc_online_window c) \<noteq> None);
          d2 = apply_flags d1 e;
          d3 = (if is_real_positive (pe_kind e) \<and> (\<not> late \<or> current_valid)
                then d2 \<lparr> d_ever_supported := True \<rparr> else d2);
          d4 = (if retain_input \<and> (\<not> late \<or> current_valid \<or> \<not> is_positive (pe_kind e))
                then d3 \<lparr> d_evidence :=
                       prune_control_evidence (sort_evidence (d_evidence d3 @ [e])) \<rparr>
                else d3)
      in (d4, map_option (\<lambda>(dep, target). (tr_id dep, target)) correct,
          late \<and> \<not> current_valid))"

text \<open>The transitions an absorbed piece of evidence causes (lines 653 to 676).\<close>

definition emit_correction ::
  "presence_engine \<Rightarrow> presence_evidence \<Rightarrow> instant \<Rightarrow> (u64 \<times> presence_state) option
     \<Rightarrow> (presence_error + presence_transition list) \<times> presence_engine" where
  "emit_correction s e arrival correction =
     (case correction of
        None \<Rightarrow> (Inr [], s)
      | Some (departure_id, target) \<Rightarrow>
          (case make_transition s (pe_device_id e) Offline target e arrival (Some departure_id) of
             (Inl err, s') \<Rightarrow> (Inl err, s')
           | (Inr tr, s') \<Rightarrow>
               (case hm_get (e_devices s') (pe_device_id e) of
                  None \<Rightarrow> (Inl DeviceNotFound, s')
                | Some d \<Rightarrow>
                    (Inr [tr],
                     put_device s' (pe_device_id e)
                       (push_history (pc_max_history_per_device (e_cfg s')) d tr)))))"

definition ingest_authorized ::
  "calendar \<Rightarrow> presence_engine \<Rightarrow> presence_evidence \<Rightarrow> instant \<Rightarrow> bool
     \<Rightarrow> (presence_error + presence_transition list) \<times> presence_engine" where
  "ingest_authorized cal s e arrival enforcement_authorized =
     (case admit cal s e arrival enforcement_authorized of
        Inl err \<Rightarrow> (Inl err, s)
      | Inr None \<Rightarrow> (Inr [], s)
      | Inr (Some retain_input) \<Rightarrow>
          (let i = pe_device_id e;
               d0 = (case hm_get (e_devices s) i of Some d \<Rightarrow> d | None \<Rightarrow> initial_device arrival);
               (d, correction, late_only) = absorb (e_cfg s) e arrival retain_input d0;
               s1 = put_device s i d
           in case emit_correction s1 e arrival correction of
                (Inl err, s2) \<Rightarrow> (Inl err, s2)
              | (Inr events, s2) \<Rightarrow>
                  if late_only \<and> events = [] then (Inr events, s2)
                  else (case recompute cal s2 i arrival (Some e) of
                          (Inl err, s3) \<Rightarrow> (Inl err, s3)
                        | (Inr None, s3) \<Rightarrow> (Inr events, s3)
                        | (Inr (Some current), s3) \<Rightarrow> (Inr (events @ [current]), s3))))"

definition ingest_events ::
  "calendar \<Rightarrow> presence_engine \<Rightarrow> presence_evidence \<Rightarrow> instant
     \<Rightarrow> (presence_error + presence_transition list) \<times> presence_engine" where
  "ingest_events cal s e arrival = ingest_authorized cal s e arrival False"

fun pop_last :: "presence_error + presence_transition list
     \<Rightarrow> presence_error + presence_transition option" where
  "pop_last (Inl err) = Inl err"
| "pop_last (Inr events) = Inr (if events = [] then None else Some (last events))"

definition ingest ::
  "calendar \<Rightarrow> presence_engine \<Rightarrow> presence_evidence \<Rightarrow> instant
     \<Rightarrow> (presence_error + presence_transition option) \<times> presence_engine" where
  "ingest cal s e arrival = apfst pop_last (ingest_events cal s e arrival)"

definition record_verified_enforcement ::
  "calendar \<Rightarrow> presence_engine \<Rightarrow> device_id \<Rightarrow> bool \<Rightarrow> string \<Rightarrow> instant \<Rightarrow> instant
     \<Rightarrow> (presence_error + presence_transition option) \<times> presence_engine" where
  "record_verified_enforcement cal s i blocked source observed_at arrival =
     apfst pop_last (ingest_authorized cal s
       \<lparr> pe_device_id = i, pe_source = source,
         pe_kind = (if blocked then EnforcementBlocked else EnforcementUnblocked),
         pe_observed_at = observed_at, pe_valid_until = None \<rparr> arrival True)"

definition evaluate_device ::
  "calendar \<Rightarrow> presence_engine \<Rightarrow> device_id \<Rightarrow> instant
     \<Rightarrow> (presence_error + presence_transition option) \<times> presence_engine" where
  "evaluate_device cal s i at =
     (case hm_get (e_devices s) i of
        None \<Rightarrow> (Inl DeviceNotFound, s)
      | Some d \<Rightarrow>
          if at < d_last_evaluation d then (Inl ClockRollback, s)
          else if e_next_transition s = - 1 then (Inl SequenceExhausted, s)
          else recompute cal (put_device s i (d \<lparr> d_last_evaluation := at \<rparr>)) i at None)"

end
