(* ===== verification/Presence_Invariants.thy ===== *)
theory Presence_Invariants
  imports Presence
begin

text \<open>
  The presence engine refined to one device at a time, and what every operation keeps.
  \<open>ingest_device\<close> and \<open>settle\<close> are the abstract operations on a single device; the
  engine's operations are shown to perform exactly them and to leave every other device
  alone. The history is a \<open>forgetting_log\<close>; the three control domains (enforcement,
  impairment, contradiction) are instances of one contract, \<open>control_domain\<close>; the engine
  with its operations as steps is an \<open>invariant_system\<close>.
\<close>

section \<open>One device at a time\<close>

definition transition_of ::
  "u64 \<Rightarrow> device_id \<Rightarrow> presence_state \<Rightarrow> presence_state \<Rightarrow> presence_evidence \<Rightarrow> instant
     \<Rightarrow> u64 option \<Rightarrow> presence_transition" where
  "transition_of n i from to e at correction =
     \<lparr> tr_id = n, tr_device_id = i, tr_from = from, tr_to = to, tr_occurred_at = at,
       tr_trigger = \<lparr> pt_source = pe_source e, pt_kind = pe_kind e,
                      pt_observed_at = pe_observed_at e, pt_valid_until = pe_valid_until e,
                      pt_arrival_at = at \<rparr>,
       tr_correction_of = correction \<rparr>"

definition settle ::
  "calendar \<Rightarrow> presence_config \<Rightarrow> device_id \<Rightarrow> instant \<Rightarrow> presence_evidence \<Rightarrow> u64
     \<Rightarrow> device_presence \<Rightarrow> presence_transition list \<times> device_presence" where
  "settle cal c i at e n d =
     (let g = gated_state cal c d at in
      if g = d_state d then ([], d)
      else (let tr = transition_of n i (d_state d) g e at None
            in ([tr], push_history (pc_max_history_per_device c) (d \<lparr> d_state := g \<rparr>) tr)))"

definition correct_device ::
  "presence_config \<Rightarrow> device_id \<Rightarrow> instant \<Rightarrow> presence_evidence \<Rightarrow> u64
     \<Rightarrow> (u64 \<times> presence_state) option \<Rightarrow> device_presence
     \<Rightarrow> presence_transition list \<times> device_presence" where
  "correct_device c i at e n correction d =
     (case correction of
        None \<Rightarrow> ([], d)
      | Some (departure, target) \<Rightarrow>
          (let tr = transition_of n i Offline target e at (Some departure)
           in ([tr], push_history (pc_max_history_per_device c) d tr)))"

definition ingest_device ::
  "calendar \<Rightarrow> presence_config \<Rightarrow> presence_evidence \<Rightarrow> instant \<Rightarrow> bool \<Rightarrow> u64
     \<Rightarrow> device_presence \<Rightarrow> presence_transition list \<times> device_presence" where
  "ingest_device cal c e arrival r n d0 =
     (let (d, correction, late_only) = absorb c e arrival r d0;
          (ev1, d1) = correct_device c (pe_device_id e) arrival e n correction d
      in if late_only \<and> ev1 = [] then ([], d1)
         else (let (ev2, d2) = settle cal c (pe_device_id e) arrival e
                                 (n + of_nat (length ev1)) d1
               in (ev1 @ ev2, d2)))"

definition device_or_initial :: "presence_engine \<Rightarrow> device_id \<Rightarrow> instant \<Rightarrow> device_presence" where
  "device_or_initial s i arrival =
     (case hm_get (e_devices s) i of Some d \<Rightarrow> d | None \<Rightarrow> initial_device arrival)"

definition with_device :: "presence_engine \<Rightarrow> device_id \<Rightarrow> device_presence \<Rightarrow> u64 \<Rightarrow> presence_engine" where
  "with_device s i d n = s \<lparr> e_devices := hm_insert i d (e_devices s), e_next_transition := n \<rparr>"

lemma with_device_simps [simp]:
  "e_cfg (with_device s i d n) = e_cfg s"
  "e_devices (with_device s i d n) = hm_insert i d (e_devices s)"
  "e_next_transition (with_device s i d n) = n"
  "put_device s i d = with_device s i d (e_next_transition s)"
  "with_device (with_device s i d n) i d' n' = with_device s i d' n'"
  "with_device (s \<lparr> e_next_transition := m \<rparr>) i d n = with_device s i d n"
  "(with_device s i d n) \<lparr> e_next_transition := m \<rparr> = with_device s i d m"
  by (simp_all add: with_device_def put_device_def hm_insert_overwrite)

lemma make_transition_room:
  "checked_add (e_next_transition s) 1 = Some m \<Longrightarrow>
     make_transition s i from to e at correction =
       (Inr (transition_of (e_next_transition s) i from to e at correction),
        s \<lparr> e_next_transition := m \<rparr>)"
  by (simp add: make_transition_def transition_of_def)

lemma recompute_device:
  assumes "hm_get (e_devices s) i = Some d"
    and "checked_add (e_next_transition s) 1 = Some m"
  shows "recompute cal s i at trigger =
    (case settle cal (e_cfg s) i at
            (case trigger of Some e \<Rightarrow> e | None \<Rightarrow> synthetic_evidence i at) (e_next_transition s) d of
       ([], _) \<Rightarrow> (Inr None, s)
     | (tr # _, d') \<Rightarrow> (Inr (Some tr), with_device s i d' m))"
  using assms by (simp add: recompute_def settle_def make_transition_room Let_def split: option.split)

lemma settle_length: "length (fst (settle cal c i at e n d)) \<le> 1"
  by (simp add: settle_def Let_def)

lemma correct_device_length: "length (fst (correct_device c i at e n k d)) \<le> 1"
  by (simp add: correct_device_def Let_def split: option.splits prod.splits)

lemma admit_SomeD:
  assumes "admit cal s e arrival auth = Inr (Some r)"
  shows "validate cal s e arrival auth = Inr ()"
    and "hm_contains (e_devices s) (pe_device_id e) \<or> length (e_devices s) < pc_max_devices (e_cfg s)"
    and "r = semantically_retained e arrival (e_cfg s)"
    and "checked_add (e_next_transition s) 2 \<noteq> None"
    and "\<And>d. hm_get (e_devices s) (pe_device_id e) = Some d \<Longrightarrow>
          d_last_evaluation d \<le> arrival \<and> e \<notin> set (d_evidence d) \<and> \<not> stale_control d e \<and>
          (r \<longrightarrow> length (filter (\<lambda>x. semantically_retained x arrival (e_cfg s)) (d_evidence d))
                  < pc_max_evidence_per_device (e_cfg s))"
  using assms by (auto simp: admit_def Let_def split: sum.splits if_splits option.splits)

text \<open>The engine's ingestion is the device operation on the addressed device.\<close>

lemma ingest_refines_device:
  assumes admitted: "admit cal s e arrival auth = Inr (Some r)"
    and device: "ingest_device cal (e_cfg s) e arrival r (e_next_transition s)
      (device_or_initial s (pe_device_id e) arrival) = (events, d')"
  shows "ingest_authorized cal s e arrival auth =
    (Inr events, with_device s (pe_device_id e) d' (e_next_transition s + of_nat (length events)))"
proof -
  let ?i = "pe_device_id e" and ?n = "e_next_transition s"
  note room = checked_add_two_one [OF admit_SomeD(4) [OF admitted]]
  obtain d corr late where ab:
    "absorb (e_cfg s) e arrival r (device_or_initial s ?i arrival) = (d, corr, late)"
    by (metis prod_cases3)
  obtain ev1 d1 where co: "correct_device (e_cfg s) ?i arrival e ?n corr d = (ev1, d1)"
    by fastforce
  have emit: "emit_correction (put_device s ?i d) e arrival corr
      = (Inr ev1, with_device s ?i d1 (?n + of_nat (length ev1)))"
    using co room(1)
    by (auto simp: emit_correction_def correct_device_def make_transition_room Let_def
        split: option.splits prod.splits)
  have len: "length ev1 \<le> 1" using correct_device_length co by (metis fst_conv)
  have next1: "checked_add (?n + of_nat (length ev1)) 1 = Some (?n + of_nat (length ev1) + 1)"
    using len room(1,2) by (cases ev1) (auto simp: add.assoc)
  obtain ev2 d2 where se: "settle cal (e_cfg s) ?i arrival e (?n + of_nat (length ev1)) d1 = (ev2, d2)"
    by fastforce
  have "length ev2 \<le> 1" using settle_length se by (metis fst_conv)
  then consider "ev2 = []" | tr where "ev2 = [tr]" by (cases ev2) auto
  then have rec: "recompute cal (with_device s ?i d1 (?n + of_nat (length ev1))) ?i arrival (Some e)
      = (case ev2 of [] \<Rightarrow> (Inr None, with_device s ?i d1 (?n + of_nat (length ev1)))
         | tr # _ \<Rightarrow> (Inr (Some tr), with_device s ?i d2 (?n + of_nat (length ev1) + 1)))"
    by (subst recompute_device [where d = d1 and m = "?n + of_nat (length ev1) + 1"])
      (use se next1 in \<open>simp_all split: list.splits\<close>)
  have same: "d2 = d1" if "ev2 = []"
    using se that by (auto simp: settle_def Let_def split: if_splits)
  show ?thesis
    using admitted device ab co emit rec se same \<open>length ev2 \<le> 1\<close>
    by (cases ev2)
      (auto simp: ingest_authorized_def ingest_device_def device_or_initial_def [symmetric] Let_def
        add.assoc add.commute split: if_splits)
qed

lemma ingest_authorized_cases:
  obtains
    (refused) err where "ingest_authorized cal s e arrival auth = (Inl err, s)"
      "admit cal s e arrival auth = Inl err"
  | (ignored) "ingest_authorized cal s e arrival auth = (Inr [], s)"
      "admit cal s e arrival auth = Inr None"
  | (absorbed) r events d' where "admit cal s e arrival auth = Inr (Some r)"
      "ingest_device cal (e_cfg s) e arrival r (e_next_transition s)
         (device_or_initial s (pe_device_id e) arrival) = (events, d')"
      "ingest_authorized cal s e arrival auth =
         (Inr events, with_device s (pe_device_id e) d' (e_next_transition s + of_nat (length events)))"
proof (cases "admit cal s e arrival auth")
  case (Inl err)
  then show thesis using refused by (simp add: ingest_authorized_def)
next
  case (Inr a)
  show thesis
  proof (cases a)
    case None
    with Inr show thesis using ignored by (simp add: ingest_authorized_def)
  next
    case (Some r)
    obtain events d' where dev: "ingest_device cal (e_cfg s) e arrival r (e_next_transition s)
         (device_or_initial s (pe_device_id e) arrival) = (events, d')" by fastforce
    from Inr Some have "admit cal s e arrival auth = Inr (Some r)" by simp
    from absorbed [OF this dev ingest_refines_device [OF this dev]] show thesis .
  qed
qed

lemma evaluate_device_cases:
  obtains
    (refused) err where "evaluate_device cal s i at = (Inl err, s)"
  | (settled) d events d' where "hm_get (e_devices s) i = Some d" "d_last_evaluation d \<le> at"
      "checked_add (e_next_transition s) 1 = Some (e_next_transition s + 1)"
      "settle cal (e_cfg s) i at (synthetic_evidence i at) (e_next_transition s)
         (d \<lparr> d_last_evaluation := at \<rparr>) = (events, d')"
      "evaluate_device cal s i at =
         (Inr (case events of [] \<Rightarrow> None | tr # _ \<Rightarrow> Some tr),
          with_device s i d' (e_next_transition s + of_nat (length events)))"
proof (cases "hm_get (e_devices s) i")
  case None
  then show thesis using refused by (simp add: evaluate_device_def)
next
  case (Some d)
  show thesis
  proof (cases "at < d_last_evaluation d \<or> e_next_transition s = - 1")
    case True
    then obtain err where "evaluate_device cal s i at = (Inl err, s)"
      using Some by (cases "at < d_last_evaluation d") (auto simp: evaluate_device_def)
    then show thesis by (rule refused)
  next
    case False
    let ?d = "d \<lparr> d_last_evaluation := at \<rparr>" and ?n = "e_next_transition s"
    have room: "checked_add ?n 1 = Some (?n + 1)"
      using False by (simp add: checked_add_one_room)
    obtain events d' where se: "settle cal (e_cfg s) i at (synthetic_evidence i at) ?n ?d = (events, d')"
      by fastforce
    have len: "length events \<le> 1" using settle_length se by (metis fst_conv)
    have same: "d' = ?d" if "events = []"
      using se that by (auto simp: settle_def Let_def split: if_splits)
    have "evaluate_device cal s i at =
         (Inr (case events of [] \<Rightarrow> None | tr # _ \<Rightarrow> Some tr),
          with_device s i d' (?n + of_nat (length events)))"
      using Some False se len same
        recompute_device [of "put_device s i ?d" i ?d "?n + 1" cal at None] room
      by (cases events) (auto simp: evaluate_device_def)
    with Some False room se show thesis using settled by auto
  qed
qed

section \<open>The history is a forgetting log\<close>

text \<open>
  \<open>retains full d\<close>: the device's history is what is left of \<open>full\<close>, the list of all its
  transitions, after a prefix was evicted, and \<open>evicted_through\<close> is the last evicted one.
\<close>

definition evicted_mark :: "nat \<Rightarrow> u64 option \<Rightarrow> presence_transition list \<Rightarrow> u64 option" where
  "evicted_mark k through h = (if k = 0 then through else Some (tr_id (h ! (k - 1))))"

definition retains :: "presence_transition list \<Rightarrow> device_presence \<Rightarrow> bool" where
  "retains full d \<longleftrightarrow>
     (\<exists>k \<le> length full. d_history d = drop k full \<and> d_evicted_through d = evicted_mark k None full)"

lemma pop_dependents_drop:
  "\<exists>k \<le> length h. pop_dependents evicted through h = (evicted_mark k through h, drop k h)"
proof (induction evicted through h rule: pop_dependents.induct)
  case (1 evicted through)
  then show ?case by (simp add: evicted_mark_def)
next
  case (2 evicted through t h)
  show ?case
  proof (cases "tr_correction_of t = Some evicted")
    case True
    with 2 obtain k where k: "k \<le> length h"
      "pop_dependents evicted (Some (tr_id t)) h = (evicted_mark k (Some (tr_id t)) h, drop k h)"
      by blast
    with True show ?thesis
      by (intro exI [of _ "Suc k"]) (cases k, simp_all add: evicted_mark_def)
  next
    case False
    then show ?thesis by (intro exI [of _ 0]) (simp add: evicted_mark_def)
  qed
qed

lemma evict_history_drop:
  "\<exists>k \<le> length h. evict_history cap through h = (evicted_mark k through h, drop k h)"
proof (induction cap through h rule: evict_history.induct)
  case (1 cap through)
  then show ?case by (simp add: evicted_mark_def)
next
  case (2 cap through t h)
  show ?case
  proof (cases "cap \<le> length (t # h)")
    case True
    obtain j where j: "j \<le> length h"
      "pop_dependents (tr_id t) (Some (tr_id t)) h = (evicted_mark j (Some (tr_id t)) h, drop j h)"
      using pop_dependents_drop by blast
    with 2 [OF True refl] obtain k where k: "k \<le> length (drop j h)"
      "evict_history cap (evicted_mark j (Some (tr_id t)) h) (drop j h)
         = (evicted_mark k (evicted_mark j (Some (tr_id t)) h) (drop j h), drop k (drop j h))"
      by auto
    have "evicted_mark k (evicted_mark j (Some (tr_id t)) h) (drop j h)
        = evicted_mark (Suc (j + k)) through (t # h)"
      using j k by (cases j; cases k) (auto simp: evicted_mark_def nth_Cons')
    with True j k show ?thesis
      by (intro exI [of _ "Suc (j + k)"]) (simp add: add.commute)
  next
    case False
    then show ?thesis by (intro exI [of _ 0]) (simp add: evicted_mark_def)
  qed
qed

lemma evict_history_shorter: "0 < cap \<Longrightarrow> length (snd (evict_history cap through h)) < cap"
  by (induction cap through h rule: evict_history.induct) (auto simp: Let_def)

lemma push_history_fields [simp]:
  "d_state (push_history cap d t) = d_state d"
  "d_evidence (push_history cap d t) = d_evidence d"
  "d_last_evaluation (push_history cap d t) = d_last_evaluation d"
  "d_ever_supported (push_history cap d t) = d_ever_supported d"
  "d_blocked (push_history cap d t) = d_blocked d"
  "d_impaired (push_history cap d t) = d_impaired d"
  "d_contradictory (push_history cap d t) = d_contradictory d"
  "d_enforcement_clock (push_history cap d t) = d_enforcement_clock d"
  "d_impairment_clock (push_history cap d t) = d_impairment_clock d"
  "d_contradiction_clock (push_history cap d t) = d_contradiction_clock d"
  by (simp_all add: push_history_def Let_def)

interpretation hist_log: forgetting_log tr_id d_history "push_history cap" for cap
proof unfold_locales
  fix d :: device_presence and t
  obtain k where "k \<le> length (d_history d)"
    "evict_history cap (d_evicted_through d) (d_history d)
       = (evicted_mark k (d_evicted_through d) (d_history d), drop k (d_history d))"
    using evict_history_drop by blast
  then show "\<exists>k \<le> length (d_history d). d_history (push_history cap d t) = drop k (d_history d @ [t])"
    by (intro exI [of _ k]) (simp add: push_history_def)
qed

lemma push_history_length:
  "0 < cap \<Longrightarrow> length (d_history (push_history cap d t)) \<le> cap"
  using evict_history_shorter [of cap "d_evicted_through d" "d_history d"]
  by (simp add: push_history_def Let_def)

lemma retains_push_history:
  assumes "retains full d"
  shows "retains (full @ [t]) (push_history cap d t)"
proof -
  obtain k where k: "k \<le> length full" "d_history d = drop k full"
    "d_evicted_through d = evicted_mark k None full"
    using assms by (auto simp: retains_def)
  obtain j where j: "j \<le> length (d_history d)"
    "evict_history cap (d_evicted_through d) (d_history d)
       = (evicted_mark j (d_evicted_through d) (d_history d), drop j (d_history d))"
    using evict_history_drop by blast
  have "evicted_mark j (evicted_mark k None full) (drop k full) = evicted_mark (k + j) None (full @ [t])"
    using k j by (cases j) (auto simp: evicted_mark_def nth_append)
  with k j show ?thesis
    unfolding retains_def push_history_def
    by (intro exI [of _ "k + j"]) (simp add: add.commute)
qed

lemma retains_initial: "retains [] (initial_device arrival)"
  by (simp add: retains_def initial_device_def evicted_mark_def)

section \<open>Absorbing evidence\<close>

lemma apply_flags_frame [simp]:
  "d_state (apply_flags d e) = d_state d"
  "d_evidence (apply_flags d e) = d_evidence d"
  "d_history (apply_flags d e) = d_history d"
  "d_last_evaluation (apply_flags d e) = d_last_evaluation d"
  "d_ever_supported (apply_flags d e) = d_ever_supported d"
  "d_evicted_through (apply_flags d e) = d_evicted_through d"
  by (simp_all add: apply_flags_def Let_def split: presence_evidence_kind.split)

lemma apply_flags_not_control:
  "\<not> is_control_kind (pe_kind e) \<Longrightarrow> apply_flags d e = d"
  by (cases "pe_kind e") (auto simp: apply_flags_def is_control_kind_def)

lemma set_prune_family: "set (prune_family ev f) \<subseteq> set ev"
  by (auto simp: prune_family_def Let_def)

lemma set_prune: "set (prune_control_evidence ev) \<subseteq> set ev"
  unfolding prune_control_evidence_def by simp (meson set_prune_family subset_trans)

lemma length_prune: "length (prune_control_evidence ev) \<le> length ev"
proof -
  have "length (prune_family xs f) \<le> length xs" for xs f
    by (simp add: prune_family_def Let_def)
  then show ?thesis unfolding prune_control_evidence_def
    by simp (meson le_trans)
qed

text \<open>The two conditional updates of \<open>absorb\<close> as one unconditional update.\<close>

lemma conditional_updates:
  "(if q then (if p then d \<lparr> d_ever_supported := True \<rparr> else d)
               \<lparr> d_evidence := f (d_evidence (if p then d \<lparr> d_ever_supported := True \<rparr> else d)) \<rparr>
    else (if p then d \<lparr> d_ever_supported := True \<rparr> else d))
   = d \<lparr> d_ever_supported := p \<or> d_ever_supported d,
         d_evidence := (if q then f (d_evidence d) else d_evidence d) \<rparr>"
  by (cases p; cases q) (auto intro: device_presence.equality)

text \<open>What \<open>absorb\<close> leaves of the device, in one place.\<close>

lemma absorb_device:
  assumes "absorb c e arrival r d0 = (d, correction, late_only)"
  obtains ever pushed where
    "d = (apply_flags (d0 \<lparr> d_evidence := filter (\<lambda>x. semantically_retained x arrival c) (d_evidence d0),
                             d_last_evaluation := arrival \<rparr>) e)
           \<lparr> d_ever_supported := ever,
             d_evidence := (let kept = filter (\<lambda>x. semantically_retained x arrival c) (d_evidence d0)
                            in if pushed then prune_control_evidence (sort_evidence (kept @ [e]))
                               else kept) \<rparr>"
    and "pushed \<longrightarrow> r" and "r \<and> \<not> is_positive (pe_kind e) \<longrightarrow> pushed"
    and "late_only \<longrightarrow> is_positive (pe_kind e)"
    and "ever \<longrightarrow> d_ever_supported d0 \<or> is_real_positive (pe_kind e)"
    and "d_ever_supported d0 \<longrightarrow> ever"
    and "r \<and> (\<forall>dep \<in> set (d_history d0). tr_to dep = Offline \<longrightarrow> tr_occurred_at dep < pe_observed_at e)
           \<longrightarrow> pushed"
proof -
  let ?kept = "filter (\<lambda>x. semantically_retained x arrival c) (d_evidence d0)"
  let ?d1 = "d0 \<lparr> d_evidence := ?kept, d_last_evaluation := arrival \<rparr>"
  let ?late = "is_some_and (rfind (\<lambda>x. tr_to x = Offline) (d_history ?d1))
    (\<lambda>dep. is_positive (pe_kind e) \<and> pe_observed_at e \<le> tr_occurred_at dep)"
  let ?valid = "support_at e arrival (d_ever_supported ?d1) (pc_online_window c) \<noteq> None"
  let ?pushed = "r \<and> (\<not> ?late \<or> ?valid \<or> \<not> is_positive (pe_kind e))"
  let ?real = "is_real_positive (pe_kind e) \<and> (\<not> ?late \<or> ?valid)"
  let ?d2 = "apply_flags ?d1 e"
  have "d = ?d2 \<lparr> d_ever_supported := ?real \<or> d_ever_supported ?d2,
      d_evidence := (if ?pushed then prune_control_evidence (sort_evidence (d_evidence ?d2 @ [e]))
                     else d_evidence ?d2) \<rparr>"
    using arg_cong [OF assms, of fst]
    unfolding absorb_def Let_def fst_conv
    by (rule sym [THEN trans]) (rule conditional_updates)
  moreover have ev: "d_evidence ?d2 = ?kept" and su: "d_ever_supported ?d2 = d_ever_supported d0"
    by simp_all
  ultimately have d: "d = ?d2 \<lparr> d_ever_supported := ?real \<or> d_ever_supported d0,
        d_evidence := (let kept = ?kept in if ?pushed then prune_control_evidence (sort_evidence (kept @ [e]))
                       else kept) \<rparr>"
    unfolding ev su Let_def by iprover
  have late: "late_only \<longrightarrow> is_positive (pe_kind e)"
    using assms by (auto simp: absorb_def Let_def split: option.splits)
  have "\<not> ?late"
    if "\<forall>dep \<in> set (d_history d0). tr_to dep = Offline \<longrightarrow> tr_occurred_at dep < pe_observed_at e"
    using that by (auto split: option.splits dest!: rfind_SomeD)
  with late show thesis by (intro that [OF d]) auto
qed

lemma absorb_frame:
  assumes "absorb c e arrival r d0 = (d, correction, late_only)"
  shows "d_state d = d_state d0" and "d_history d = d_history d0"
    and "d_evicted_through d = d_evicted_through d0" and "d_last_evaluation d = arrival"
    and "set (d_evidence d) \<subseteq> insert e (set (d_evidence d0))"
    and "late_only \<Longrightarrow> is_positive (pe_kind e)"
    and "\<not> is_control_kind (pe_kind e) \<Longrightarrow> d_blocked d = d_blocked d0 \<and>
           d_impaired d = d_impaired d0 \<and> d_contradictory d = d_contradictory d0"
proof -
  obtain ever pushed where d:
    "d = (apply_flags (d0 \<lparr> d_evidence := filter (\<lambda>x. semantically_retained x arrival c) (d_evidence d0),
                             d_last_evaluation := arrival \<rparr>) e)
           \<lparr> d_ever_supported := ever,
             d_evidence := (let kept = filter (\<lambda>x. semantically_retained x arrival c) (d_evidence d0)
                            in if pushed then prune_control_evidence (sort_evidence (kept @ [e]))
                               else kept) \<rparr>"
    and late: "late_only \<longrightarrow> is_positive (pe_kind e)"
    using absorb_device [OF assms] by metis
  have sub: "set (prune_control_evidence (sort_evidence (xs @ [e]))) \<subseteq> insert e (set xs)" for xs
    using set_prune [of "sort_evidence (xs @ [e])"] by (auto simp: sort_evidence_def)
  show "d_state d = d_state d0" "d_history d = d_history d0"
    "d_evicted_through d = d_evicted_through d0" "d_last_evaluation d = arrival"
    by (simp_all add: d)
  show "set (d_evidence d) \<subseteq> insert e (set (d_evidence d0))"
    using sub [of "filter (\<lambda>x. semantically_retained x arrival c) (d_evidence d0)"]
    by (cases pushed) (auto simp: d Let_def)
  show "late_only \<Longrightarrow> is_positive (pe_kind e)" using late by simp
  show "\<not> is_control_kind (pe_kind e) \<Longrightarrow> d_blocked d = d_blocked d0 \<and>
      d_impaired d = d_impaired d0 \<and> d_contradictory d = d_contradictory d0"
    by (simp add: d apply_flags_not_control)
qed

lemma absorb_evidence_bound:
  assumes ab: "absorb c e arrival r d0 = (d, correction, late_only)"
    and "length (d_evidence d0) \<le> m"
    and "r \<Longrightarrow> length (filter (\<lambda>x. semantically_retained x arrival c) (d_evidence d0)) < m"
  shows "length (d_evidence d) \<le> m"
proof (rule absorb_device [OF ab])
  fix ever pushed
  let ?kept = "filter (\<lambda>x. semantically_retained x arrival c) (d_evidence d0)"
  assume d: "d = (apply_flags (d0 \<lparr> d_evidence := ?kept, d_last_evaluation := arrival \<rparr>) e)
      \<lparr> d_ever_supported := ever,
        d_evidence := (let kept = ?kept in if pushed then prune_control_evidence (sort_evidence (kept @ [e]))
                       else kept) \<rparr>" and "pushed \<longrightarrow> r"
  have "length ?kept \<le> m" using assms(2) length_filter_le le_trans by blast
  moreover have "length (prune_control_evidence (sort_evidence (?kept @ [e]))) \<le> Suc (length ?kept)"
    using length_prune [of "sort_evidence (?kept @ [e])"] by (simp add: sort_evidence_def)
  ultimately show ?thesis
    using assms(3) \<open>pushed \<longrightarrow> r\<close> by (auto simp: d Let_def)
qed

section \<open>The control domains\<close>

text \<open>
  The latest control evidence of a pair of kinds decides \<open>control_state\<close>; pruning and the
  retention filter keep it.
\<close>

definition latest_controls ::
  "presence_evidence_kind \<Rightarrow> presence_evidence_kind \<Rightarrow> presence_evidence set \<Rightarrow> presence_evidence set" where
  "latest_controls a i E =
     {e \<in> E. pe_kind e \<in> {a, i} \<and>
        (\<forall>e' \<in> E. pe_kind e' \<in> {a, i} \<longrightarrow> pe_observed_at e' \<le> pe_observed_at e)}"

lemma retained_control: "is_control_kind (pe_kind e) \<Longrightarrow> semantically_retained e at c"
  by (simp add: semantically_retained_def)

lemma latest_controls_same:
  "{e \<in> E. pe_kind e \<in> {a, i}} = {e \<in> E'. pe_kind e \<in> {a, i}} \<Longrightarrow>
     latest_controls a i E = latest_controls a i E'"
  unfolding latest_controls_def by blast

lemma latest_controls_prune:
  assumes "\<exists>e \<in> E. pe_kind e \<in> {a, i} \<and> pe_observed_at e = m"
    and "\<forall>e \<in> E. pe_kind e \<in> {a, i} \<longrightarrow> pe_observed_at e \<le> m"
  shows "latest_controls a i {e \<in> E. pe_kind e \<notin> {a, i} \<or> pe_observed_at e = m}
    = latest_controls a i E" (is "?L = ?R")
proof -
  have "?L = {e \<in> E. pe_kind e \<in> {a, i} \<and> pe_observed_at e = m}"
    using assms by (auto simp: latest_controls_def)
  also have "\<dots> = ?R"
  proof (intro set_eqI iffI)
    fix e assume "e \<in> ?R"
    moreover obtain x where "x \<in> E" "pe_kind x \<in> {a, i}" "pe_observed_at x = m" using assms(1) by blast
    ultimately have "e \<in> E" "pe_kind e \<in> {a, i}" "m \<le> pe_observed_at e"
      unfolding latest_controls_def by blast+
    with assms(2) show "e \<in> {e \<in> E. pe_kind e \<in> {a, i} \<and> pe_observed_at e = m}"
      using order_antisym [of "pe_observed_at e" m] by blast
  qed (use assms(2) in \<open>simp add: latest_controls_def\<close>)
  finally show ?thesis .
qed

lemma latest_controls_nonempty:
  assumes "finite E" and "e \<in> E" and "pe_kind e \<in> {a, i}"
  shows "latest_controls a i E \<noteq> {}"
proof -
  let ?C = "{e \<in> E. pe_kind e \<in> {a, i}}"
  have C: "finite ?C" "?C \<noteq> {}" using assms by auto
  then have "Max (pe_observed_at ` ?C) \<in> pe_observed_at ` ?C" by (intro Max_in) auto
  then obtain x where "x \<in> ?C" "pe_observed_at x = Max (pe_observed_at ` ?C)" by force
  moreover have "\<forall>y \<in> ?C. pe_observed_at y \<le> Max (pe_observed_at ` ?C)"
    using C(1) by (intro ballI Max_ge) auto
  ultimately have "x \<in> latest_controls a i E" by (auto simp: latest_controls_def)
  then show ?thesis by blast
qed

lemma control_state_None:
  "(\<forall>e \<in> set ev. pe_kind e \<notin> {a, i}) \<Longrightarrow> control_state ev a i = (False, None)"
  by (auto simp: control_state_def filter_empty_conv)

lemma control_state_latest:
  assumes "e \<in> latest_controls a i (set ev)"
  shows "control_state ev a i
    = (\<exists>e' \<in> latest_controls a i (set ev). pe_kind e' = a, Some (pe_observed_at e))"
proof -
  have "iter_max (map pe_observed_at (filter (\<lambda>e. pe_kind e = a \<or> pe_kind e = i) ev))
      = Some (pe_observed_at e)"
    using assms by (auto simp: iter_max_Some_iff latest_controls_def)
  then have "control_state ev a i
      = (list_ex (\<lambda>x. pe_kind x = a \<and> pe_observed_at x = pe_observed_at e) ev,
         Some (pe_observed_at e))"
    by (simp add: control_state_def)
  moreover have "list_ex (\<lambda>x. pe_kind x = a \<and> pe_observed_at x = pe_observed_at e) ev
      \<longleftrightarrow> (\<exists>e' \<in> latest_controls a i (set ev). pe_kind e' = a)"
    using assms by (auto simp: list_ex_iff latest_controls_def intro: order_antisym)
  ultimately show ?thesis by simp
qed

lemma control_state_cong:
  assumes "latest_controls a i (set ev) = latest_controls a i (set ev')"
  shows "control_state ev a i = control_state ev' a i"
proof (cases "latest_controls a i (set ev) = {}")
  case True
  then have "\<forall>e \<in> set ev. pe_kind e \<notin> {a, i}" "\<forall>e \<in> set ev'. pe_kind e \<notin> {a, i}"
    using assms latest_controls_nonempty [of "set ev"] latest_controls_nonempty [of "set ev'"] by auto
  then show ?thesis by (simp add: control_state_None)
next
  case False
  then obtain e where "e \<in> latest_controls a i (set ev)" by blast
  with assms show ?thesis by (simp add: control_state_latest)
qed

text \<open>
  One control domain: a pair of kinds that switch a flag of the device on and off, with the
  clock of the last switch. The contract is what \<open>stale_control\<close>, \<open>apply_flags\<close> and
  \<open>control_family\<close> promise of the pair, and that nothing else touches the flag.
\<close>

locale control_domain =
  fixes on off :: presence_evidence_kind
    and flag :: "device_presence \<Rightarrow> bool"
    and clock :: "device_presence \<Rightarrow> instant option"
    and family :: nat
  assumes on_off: "on \<noteq> off"
    and family_kinds: "control_family k = Some family \<longleftrightarrow> k \<in> {on, off}"
    and control_kinds: "k \<in> {on, off} \<Longrightarrow> is_control_kind k"
    and stale: "pe_kind e \<in> {on, off} \<Longrightarrow>
      stale_control d e \<longleftrightarrow> stale_control_at (clock d) (pe_observed_at e) (flag d) (pe_kind e = on)"
    and switch: "pe_kind e \<in> {on, off} \<Longrightarrow> is_none_or (clock d) (\<lambda>x. x \<le> pe_observed_at e) \<Longrightarrow>
      flag (apply_flags d e) = (pe_kind e = on) \<and> clock (apply_flags d e) = Some (pe_observed_at e)"
    and other: "pe_kind e \<notin> {on, off} \<Longrightarrow>
      flag (apply_flags d e) = flag d \<and> clock (apply_flags d e) = clock d"
    and frame:
      "flag (d \<lparr> d_evidence := ev \<rparr>) = flag d" "clock (d \<lparr> d_evidence := ev \<rparr>) = clock d"
      "flag (d \<lparr> d_last_evaluation := at \<rparr>) = flag d"
      "clock (d \<lparr> d_last_evaluation := at \<rparr>) = clock d"
      "flag (d \<lparr> d_ever_supported := b \<rparr>) = flag d"
      "clock (d \<lparr> d_ever_supported := b \<rparr>) = clock d"
      "flag (d \<lparr> d_state := st \<rparr>) = flag d" "clock (d \<lparr> d_state := st \<rparr>) = clock d"
      "flag (push_history cap d t) = flag d" "clock (push_history cap d t) = clock d"
    and fresh: "flag (initial_device at) = False" "clock (initial_device at) = None"
begin

definition tracks :: "device_presence \<Rightarrow> bool" where
  "tracks d \<longleftrightarrow> control_state (d_evidence d) on off = (flag d, clock d)"

lemma tracks_initial: "tracks (initial_device at)"
  unfolding tracks_def fresh by (simp add: control_state_def initial_device_def)

lemma tracks_flag:
  assumes "tracks d"
  shows "flag d \<longleftrightarrow> (\<exists>e \<in> latest_controls on off (set (d_evidence d)). pe_kind e = on)"
proof (cases "latest_controls on off (set (d_evidence d)) = {}")
  case True
  then have "control_state (d_evidence d) on off = (False, None)"
    using latest_controls_nonempty [of "set (d_evidence d)"] by (intro control_state_None) blast
  with assms True show ?thesis by (simp add: tracks_def)
next
  case False
  then obtain e where "e \<in> latest_controls on off (set (d_evidence d))" by blast
  from control_state_latest [OF this] assms show ?thesis by (simp add: tracks_def)
qed

lemma latest_retained:
  "latest_controls on off (set (filter (\<lambda>x. semantically_retained x at c) ev))
     = latest_controls on off (set ev)"
  using control_kinds retained_control by (intro latest_controls_same) auto

lemma latest_prune_family:
  "latest_controls on off (set (prune_family ev f)) = latest_controls on off (set ev)"
proof (cases "f = family")
  case True
  show ?thesis
  proof (cases "iter_max (map pe_observed_at (filter (\<lambda>e. control_family (pe_kind e) = Some family) ev))")
    case None
    then show ?thesis by (auto simp: True prune_family_def Let_def latest_controls_def)
  next
    case (Some m)
    then have m: "\<exists>e \<in> set ev. pe_kind e \<in> {on, off} \<and> pe_observed_at e = m"
      "\<forall>e \<in> set ev. pe_kind e \<in> {on, off} \<longrightarrow> pe_observed_at e \<le> m"
      by (auto simp: iter_max_Some_iff family_kinds)
    have "set (prune_family ev f) = {e \<in> set ev. pe_kind e \<notin> {on, off} \<or> pe_observed_at e = m}"
      using Some by (auto simp: True prune_family_def Let_def family_kinds)
    with latest_controls_prune [OF m] show ?thesis by (simp only:)
  qed
next
  case False
  then have "pe_kind e \<in> {on, off} \<Longrightarrow> control_family (pe_kind e) \<noteq> Some f" for e
    using family_kinds [of "pe_kind e"] by simp
  then show ?thesis by (intro latest_controls_same) (auto simp: prune_family_def Let_def)
qed

lemma latest_prune:
  "latest_controls on off (set (prune_control_evidence ev)) = latest_controls on off (set ev)"
  by (simp add: prune_control_evidence_def latest_prune_family)

lemma latest_absorbed:
  "latest_controls on off (set (prune_control_evidence (sort_evidence
       (filter (\<lambda>x. semantically_retained x at c) ev @ [e]))))
     = latest_controls on off (insert e (set ev))"
proof -
  have "latest_controls on off (insert e (set (filter (\<lambda>x. semantically_retained x at c) ev)))
      = latest_controls on off (insert e (set ev))"
    using control_kinds retained_control by (intro latest_controls_same) auto
  then show ?thesis by (simp add: latest_prune sort_evidence_def)
qed

text \<open>A control that is not stale is the latest one.\<close>

lemma not_stale_clock:
  assumes "pe_kind e \<in> {on, off}" and "\<not> stale_control d e"
  shows "is_none_or (clock d) (\<lambda>x. x \<le> pe_observed_at e)"
  using stale [OF assms(1)] assms(2) by (auto simp: stale_control_at_def split: option.splits)

lemma not_stale_older:
  assumes tr: "tracks d" and kind: "pe_kind e \<in> {on, off}" and fresh_e: "\<not> stale_control d e"
    and x: "x \<in> set (d_evidence d)" "pe_kind x \<in> {on, off}"
  shows "pe_observed_at x \<le> pe_observed_at e \<and> (pe_kind e = off \<longrightarrow> pe_observed_at x < pe_observed_at e)"
proof -
  let ?E = "set (d_evidence d)"
  have nst: "\<not> stale_control_at (clock d) (pe_observed_at e) (flag d) (pe_kind e = on)"
    using stale [OF kind] fresh_e by simp
  from latest_controls_nonempty [of ?E x on off] x obtain y
    where y: "y \<in> latest_controls on off ?E" by auto
  then have "clock d = Some (pe_observed_at y)" "pe_observed_at x \<le> pe_observed_at y"
    using tr control_state_latest [OF y] x by (auto simp: tracks_def latest_controls_def)
  then show ?thesis
    using nst on_off by (auto simp: stale_control_at_def)
qed

lemma not_stale_latest:
  assumes "tracks d" and "pe_kind e \<in> {on, off}" and "\<not> stale_control d e"
  shows "e \<in> latest_controls on off (insert e (set (d_evidence d)))"
  using not_stale_older [OF assms] assms(2) by (auto simp: latest_controls_def)

lemma control_state_switch:
  assumes tr: "tracks d" and kind: "pe_kind e \<in> {on, off}" and fresh_e: "\<not> stale_control d e"
    and ev: "latest_controls on off (set ev) = latest_controls on off (insert e (set (d_evidence d)))"
  shows "control_state ev on off = (pe_kind e = on, Some (pe_observed_at e))"
proof -
  have "(\<exists>e' \<in> latest_controls on off (insert e (set (d_evidence d))). pe_kind e' = on) \<longleftrightarrow> pe_kind e = on"
    using not_stale_older [OF tr kind fresh_e] not_stale_latest [OF tr kind fresh_e] kind
    by (fastforce simp: latest_controls_def)
  then show ?thesis
    using control_state_latest [of e on off ev] not_stale_latest [OF tr kind fresh_e] ev by simp
qed

lemma switched_retained:
  assumes "tracks d" and "pe_kind e \<in> {on, off}" and "\<not> stale_control d e"
  shows "e \<in> set (prune_control_evidence (sort_evidence
    (filter (\<lambda>x. semantically_retained x at c) (d_evidence d) @ [e])))"
  using not_stale_latest [OF assms] latest_absorbed [of at c "d_evidence d" e]
  by (auto simp: latest_controls_def)

lemma tracks_absorb:
  assumes ab: "absorb c e at r d0 = (d, correction, late_only)"
    and tr: "tracks d0" and fresh_e: "\<not> stale_control d0 e"
    and r: "is_control_kind (pe_kind e) \<Longrightarrow> r"
  shows "tracks d"
proof (rule absorb_device [OF ab])
  fix ever pushed
  let ?kept = "filter (\<lambda>x. semantically_retained x at c) (d_evidence d0)"
  let ?d1 = "d0 \<lparr> d_evidence := ?kept, d_last_evaluation := at \<rparr>"
  let ?ev = "if pushed then prune_control_evidence (sort_evidence (?kept @ [e])) else ?kept"
  assume d: "d = (apply_flags ?d1 e) \<lparr> d_ever_supported := ever, d_evidence :=
      (let kept = ?kept in if pushed then prune_control_evidence (sort_evidence (kept @ [e])) else kept) \<rparr>"
    and p: "pushed \<longrightarrow> r" "r \<and> \<not> is_positive (pe_kind e) \<longrightarrow> pushed"
  have d': "flag d = flag (apply_flags ?d1 e)" "clock d = clock (apply_flags ?d1 e)" "d_evidence d = ?ev"
    by (simp_all add: d frame Let_def)
  have d1: "flag ?d1 = flag d0" "clock ?d1 = clock d0" by (simp_all only: frame)
  show "tracks d"
  proof (cases "pe_kind e \<in> {on, off}")
    case True
    then have ctl: "is_control_kind (pe_kind e)" by (rule control_kinds)
    then have "\<not> is_positive (pe_kind e)"
      by (auto simp: is_control_kind_def is_positive_def is_real_positive_def)
    with p(2) r [OF ctl] have "pushed" by simp
    then have "latest_controls on off (set ?ev) = latest_controls on off (insert e (set (d_evidence d0)))"
      by (simp add: latest_absorbed)
    note sw = control_state_switch [OF tr True fresh_e this] not_stale_clock [OF True fresh_e]
    from switch [OF True, of ?d1] sw d' d1 show ?thesis by (simp only: tracks_def)
  next
    case False
    have "latest_controls on off (set ?ev) = latest_controls on off (set (d_evidence d0))"
      using False latest_absorbed [of at c "d_evidence d0" e] latest_retained [of at c "d_evidence d0"]
        latest_controls_same [of "insert e (set (d_evidence d0))" on off "set (d_evidence d0)"]
      by auto
    then have "control_state ?ev on off = control_state (d_evidence d0) on off"
      by (rule control_state_cong)
    with other [OF False, of ?d1] d' d1 tr show ?thesis by (simp only: tracks_def)
  qed
qed

lemma absorb_other:
  assumes ab: "absorb c e at r d0 = (d, correction, late_only)" and "pe_kind e \<notin> {on, off}"
  shows "flag d = flag d0"
proof -
  obtain ever ev where "d = (apply_flags (d0 \<lparr> d_evidence :=
      filter (\<lambda>x. semantically_retained x at c) (d_evidence d0), d_last_evaluation := at \<rparr>) e)
        \<lparr> d_ever_supported := ever, d_evidence := ev \<rparr>"
    by (rule absorb_device [OF ab])
  then show ?thesis using other [OF assms(2)] by (simp only: frame)
qed

lemma ingest_other:
  assumes dev: "ingest_device cal c e at r n d0 = (evs, d')" and kind: "pe_kind e \<notin> {on, off}"
  shows "flag d' = flag d0"
proof -
  have se: "flag d2 = flag d1" if "settle cal c i at e n' d1 = (evs, d2)" for i n' d1 evs d2
    using that by (auto simp: settle_def Let_def frame split: if_splits)
  have co: "flag d2 = flag d1" if "correct_device c i at e n' k d1 = (evs, d2)" for i n' k d1 evs d2
    using that by (auto simp: correct_device_def Let_def frame split: option.splits prod.splits)
  show ?thesis
    using dev absorb_other [OF _ kind] se co
    by (auto simp: ingest_device_def Let_def split: prod.splits if_splits)
qed

lemma tracks_settle: "settle cal c i at e n d = (evs, d') \<Longrightarrow> tracks d \<Longrightarrow> tracks d'"
  by (auto simp: settle_def Let_def tracks_def frame split: if_splits)

lemma tracks_correct: "correct_device c i at e n k d = (evs, d') \<Longrightarrow> tracks d \<Longrightarrow> tracks d'"
  by (auto simp: correct_device_def Let_def tracks_def frame split: option.splits prod.splits)

lemma tracks_ingest:
  assumes "ingest_device cal c e at r n d0 = (evs, d')" and "tracks d0" and "\<not> stale_control d0 e"
    and "is_control_kind (pe_kind e) \<Longrightarrow> r"
  shows "tracks d'"
  using assms(1) tracks_absorb [OF _ assms(2-4)] tracks_correct tracks_settle
  by (auto simp: ingest_device_def Let_def split: prod.splits if_splits)

lemma tracks_evaluate:
  "settle cal c i at e n (d \<lparr> d_last_evaluation := at' \<rparr>) = (evs, d') \<Longrightarrow> tracks d \<Longrightarrow> tracks d'"
  by (erule tracks_settle) (simp add: tracks_def frame)

end


lemmas control_defs = is_control_kind_def control_family_def stale_control_def apply_flags_def
  initial_device_def

interpretation enforcement: control_domain EnforcementBlocked EnforcementUnblocked d_blocked
  d_enforcement_clock 0
  by unfold_locales (auto simp: control_defs Let_def split: if_splits presence_evidence_kind.splits)

interpretation impairment: control_domain SensorImpaired SensorRecovered d_impaired
  d_impairment_clock 1
  by unfold_locales (auto simp: control_defs Let_def split: if_splits presence_evidence_kind.splits)

interpretation contradiction: control_domain Contradiction ContradictionCleared d_contradictory
  d_contradiction_clock 2
  by unfold_locales (auto simp: control_defs Let_def split: if_splits presence_evidence_kind.splits)

section \<open>The device invariant\<close>

text \<open>
  What every operation keeps of a device: the history is what is left of all its
  transitions \<open>full\<close>, evidence and history stay within the configured bounds, evidence is
  trusted and about this device, the three flags follow the latest control evidence, and
  enforcement and impairment decide the state.
\<close>

definition evidence_ok :: "presence_config \<Rightarrow> device_id \<Rightarrow> presence_evidence \<Rightarrow> bool" where
  "evidence_ok c i e \<longleftrightarrow>
     pe_device_id e = i \<and> pe_source e \<in> set (pc_trusted_sources c) \<and> pe_kind e \<noteq> Evaluation"

definition controls_ok :: "device_presence \<Rightarrow> bool" where
  "controls_ok d \<longleftrightarrow> enforcement.tracks d \<and> impairment.tracks d \<and> contradiction.tracks d"

definition mode_ok :: "device_presence \<Rightarrow> bool" where
  "mode_ok d \<longleftrightarrow> (d_state d = Blocked \<longleftrightarrow> d_blocked d)
     \<and> (\<not> d_blocked d \<and> (d_impaired d \<or> d_contradictory d) \<longrightarrow> d_state d = Unknown)"

definition device_inv ::
  "presence_config \<Rightarrow> device_id \<Rightarrow> presence_transition list \<Rightarrow> device_presence \<Rightarrow> bool" where
  "device_inv c i full d \<longleftrightarrow>
     retains full d
     \<and> length (d_history d) \<le> pc_max_history_per_device c
     \<and> length (d_evidence d) \<le> pc_max_evidence_per_device c
     \<and> (\<forall>e \<in> set (d_evidence d). evidence_ok c i e)
     \<and> controls_ok d \<and> mode_ok d"

lemma gated_not_blocked:
  "\<not> d_blocked d \<Longrightarrow> gated_state cal c d at \<noteq> Blocked"
  by (auto simp: gated_state_def candidate_def Let_def split: if_splits)

lemma gated_mode:
  "mode_ok (d \<lparr> d_state := gated_state cal c d at \<rparr>)"
  using gated_not_blocked [where d = d and cal = cal and c = c and at = at]
  by (auto simp: mode_ok_def gated_state_def candidate_def Let_def)

lemma settle_frame:
  assumes "settle cal c i at e n d = (evs, d')"
  shows "d_evidence d' = d_evidence d" and "d_last_evaluation d' = d_last_evaluation d"
    and "d_blocked d' = d_blocked d" and "d_impaired d' = d_impaired d"
    and "d_contradictory d' = d_contradictory d" and "d_ever_supported d' = d_ever_supported d"
    and "d_state d' = gated_state cal c d at"
  using assms by (auto simp: settle_def Let_def split: if_splits)

lemma settle_mode: "settle cal c i at e n d = (evs, d') \<Longrightarrow> mode_ok d'"
  using gated_mode [where d = d and cal = cal and c = c and at = at]
    settle_frame [of cal c i at e n d evs d']
  by (simp add: mode_ok_def)

lemma correct_frame:
  assumes "correct_device c i at e n k d = (evs, d')"
  shows "d_evidence d' = d_evidence d" and "d_last_evaluation d' = d_last_evaluation d"
    and "d_blocked d' = d_blocked d" and "d_impaired d' = d_impaired d"
    and "d_contradictory d' = d_contradictory d" and "d_ever_supported d' = d_ever_supported d"
    and "d_state d' = d_state d"
  using assms by (auto simp: correct_device_def Let_def split: option.splits prod.splits)

lemma settle_history:
  assumes "settle cal c i at e n d = (evs, d')" and "0 < pc_max_history_per_device c"
    and "retains full d" and "length (d_history d) \<le> pc_max_history_per_device c"
  shows "retains (full @ evs) d'" and "length (d_history d') \<le> pc_max_history_per_device c"
  using assms push_history_length retains_push_history [of full "d \<lparr> d_state := gated_state cal c d at \<rparr>"]
  by (auto simp: settle_def Let_def retains_def split: if_splits)

lemma correct_history:
  assumes "correct_device c i at e n k d = (evs, d')" and "0 < pc_max_history_per_device c"
    and "retains full d" and "length (d_history d) \<le> pc_max_history_per_device c"
  shows "retains (full @ evs) d'" and "length (d_history d') \<le> pc_max_history_per_device c"
  using assms push_history_length retains_push_history [of full d]
  by (auto simp: correct_device_def Let_def split: option.splits prod.splits)

text \<open>The emitted transitions carry consecutive numbers from \<open>n\<close> and the device's identifier.\<close>

definition emitted_from :: "u64 \<Rightarrow> device_id \<Rightarrow> presence_transition list \<Rightarrow> bool" where
  "emitted_from n i evs \<longleftrightarrow>
     map tr_id evs = take (length evs) [n, n + 1] \<and> (\<forall>t \<in> set evs. tr_device_id t = i)"

lemma settle_emitted:
  "settle cal c i at e n d = (evs, d') \<Longrightarrow>
     evs = [] \<or> (\<exists>t. evs = [t] \<and> tr_id t = n \<and> tr_device_id t = i)"
  by (auto simp: settle_def Let_def transition_of_def split: if_splits)

lemma correct_emitted:
  "correct_device c i at e n k d = (evs, d') \<Longrightarrow>
     evs = [] \<or> (\<exists>t. evs = [t] \<and> tr_id t = n \<and> tr_device_id t = i)"
  by (auto simp: correct_device_def Let_def transition_of_def split: option.splits prod.splits)

lemma ingest_device_parts:
  assumes "ingest_device cal c e at r n d0 = (evs, d')"
  obtains d k late ev1 d1 where "absorb c e at r d0 = (d, k, late)"
    and "correct_device c (pe_device_id e) at e n k d = (ev1, d1)"
    and "late \<Longrightarrow> ev1 = [] \<Longrightarrow> evs = [] \<and> d' = d"
    and "\<not> (late \<and> ev1 = []) \<Longrightarrow>
      \<exists>ev2. settle cal c (pe_device_id e) at e (n + of_nat (length ev1)) d1 = (ev2, d') \<and> evs = ev1 @ ev2"
proof -
  obtain d k late where ab: "absorb c e at r d0 = (d, k, late)" by (metis prod_cases3)
  obtain ev1 d1 where co: "correct_device c (pe_device_id e) at e n k d = (ev1, d1)" by fastforce
  have "d1 = d" if "ev1 = []"
    using co that by (auto simp: correct_device_def Let_def split: option.splits prod.splits)
  then show thesis
    using assms ab co
    by (intro that [OF ab co]) (auto simp: ingest_device_def Let_def split: prod.splits)
qed

lemma ingest_device_emitted:
  assumes "ingest_device cal c e at r n d0 = (evs, d')"
  shows "emitted_from n (pe_device_id e) evs"
proof (rule ingest_device_parts [OF assms])
  fix d k late ev1 d1
  assume co: "correct_device c (pe_device_id e) at e n k d = (ev1, d1)"
    and early: "late \<Longrightarrow> ev1 = [] \<Longrightarrow> evs = [] \<and> d' = d"
    and go: "\<not> (late \<and> ev1 = []) \<Longrightarrow>
      \<exists>ev2. settle cal c (pe_device_id e) at e (n + of_nat (length ev1)) d1 = (ev2, d') \<and> evs = ev1 @ ev2"
  show ?thesis
  proof (cases "late \<and> ev1 = []")
    case True
    with early show ?thesis by (simp add: emitted_from_def)
  next
    case False
    with go obtain ev2 where
      "settle cal c (pe_device_id e) at e (n + of_nat (length ev1)) d1 = (ev2, d')" "evs = ev1 @ ev2"
      by blast
    with settle_emitted [OF this(1)] correct_emitted [OF co] show ?thesis
      by (auto simp: emitted_from_def)
  qed
qed

lemma ingest_device_inv:
  assumes dev: "ingest_device cal c e at r n d0 = (evs, d')"
    and inv: "device_inv c (pe_device_id e) full d0"
    and ev: "evidence_ok c (pe_device_id e) e" and fresh: "\<not> stale_control d0 e"
    and room: "r \<Longrightarrow> length (filter (\<lambda>x. semantically_retained x at c) (d_evidence d0))
      < pc_max_evidence_per_device c"
    and kept: "is_control_kind (pe_kind e) \<Longrightarrow> r" and cap: "0 < pc_max_history_per_device c"
  shows "device_inv c (pe_device_id e) (full @ evs) d'"
proof (rule ingest_device_parts [OF dev])
  fix d k late ev1 d1
  assume ab: "absorb c e at r d0 = (d, k, late)"
    and co: "correct_device c (pe_device_id e) at e n k d = (ev1, d1)"
    and early: "late \<Longrightarrow> ev1 = [] \<Longrightarrow> evs = [] \<and> d' = d"
    and go: "\<not> (late \<and> ev1 = []) \<Longrightarrow>
      \<exists>ev2. settle cal c (pe_device_id e) at e (n + of_nat (length ev1)) d1 = (ev2, d') \<and> evs = ev1 @ ev2"
  note abs = absorb_frame [OF ab]
  have hist: "retains full d" "length (d_history d) \<le> pc_max_history_per_device c"
    using inv abs by (simp_all add: device_inv_def retains_def)
  have evid: "length (d_evidence d) \<le> pc_max_evidence_per_device c"
    "\<forall>x \<in> set (d_evidence d). evidence_ok c (pe_device_id e) x"
    using absorb_evidence_bound [OF ab _ room] inv abs(5) ev by (auto simp: device_inv_def)
  have ctl: "controls_ok d'"
    using inv enforcement.tracks_ingest [OF dev _ fresh kept] impairment.tracks_ingest [OF dev _ fresh kept]
      contradiction.tracks_ingest [OF dev _ fresh kept]
    by (simp add: device_inv_def controls_ok_def)
  show ?thesis
  proof (cases "late \<and> ev1 = []")
    case True
    then have "\<not> is_control_kind (pe_kind e)"
      using abs(6) by (auto simp: is_control_kind_def is_positive_def is_real_positive_def)
    then have "mode_ok d" using inv abs(1,7) by (simp add: device_inv_def mode_ok_def)
    with True early hist evid ctl show ?thesis by (auto simp: device_inv_def)
  next
    case False
    with go obtain ev2 where
      se: "settle cal c (pe_device_id e) at e (n + of_nat (length ev1)) d1 = (ev2, d')" "evs = ev1 @ ev2"
      by blast
    show ?thesis
      using settle_history [OF se(1) cap correct_history [OF co cap hist]] settle_mode [OF se(1)]
        settle_frame(1) [OF se(1)] correct_frame(1) [OF co] evid ctl se(2)
      by (auto simp: device_inv_def)
  qed
qed

lemma evaluate_device_inv:
  assumes se: "settle cal c i at e n (d \<lparr> d_last_evaluation := at' \<rparr>) = (evs, d')"
    and inv: "device_inv c i full d" and cap: "0 < pc_max_history_per_device c"
  shows "device_inv c i (full @ evs) d'" and "emitted_from n i evs"
proof -
  let ?d = "d \<lparr> d_last_evaluation := at' \<rparr>"
  have hist: "retains full ?d" "length (d_history ?d) \<le> pc_max_history_per_device c"
    using inv by (simp_all add: device_inv_def retains_def)
  have "controls_ok d'"
    using inv enforcement.tracks_evaluate [OF se] impairment.tracks_evaluate [OF se]
      contradiction.tracks_evaluate [OF se]
    by (simp add: device_inv_def controls_ok_def)
  with settle_history [OF se cap hist] settle_mode [OF se] settle_frame(1) [OF se] inv
  show "device_inv c i (full @ evs) d'" by (simp add: device_inv_def)
  show "emitted_from n i evs" using settle_emitted [OF se] by (auto simp: emitted_from_def)
qed

lemma device_inv_initial:
  "device_inv c i [] (initial_device at)"
  using enforcement.tracks_initial impairment.tracks_initial contradiction.tracks_initial
  by (auto simp: device_inv_def controls_ok_def mode_ok_def retains_initial)
    (auto simp: initial_device_def)

end
