(* ===== verification/Presence_Engine.thy ===== *)
theory Presence_Engine
  imports Presence_Invariants
begin

text \<open>
  The presence engine as a step system. A step is one successful call of the engine's
  mutating interface; the second component of a state is the log of every transition the
  engine has handed to its caller so far, which the bounded per-device history does not
  keep. The engine invariant is proved for every reachable state through the contract
  \<open>invariant_system\<close>, and the properties of the presence engine follow.
\<close>

section \<open>Steps and the engine invariant\<close>

type_synonym presence_run = "presence_engine \<times> presence_transition list"

definition option_list :: "'a option \<Rightarrow> 'a list" where
  "option_list x = (case x of None \<Rightarrow> [] | Some v \<Rightarrow> [v])"

definition presence_init :: "presence_config \<Rightarrow> presence_run \<Rightarrow> bool" where
  "presence_init cfg r \<longleftrightarrow>
     (\<exists>n. new_with_transition_sequence cfg n = Inr (fst r)) \<and> snd r = []"

inductive presence_step :: "calendar \<Rightarrow> presence_run \<Rightarrow> presence_run \<Rightarrow> bool" for cal where
  observe: "ingest_events cal s e arrival = (Inr evs, s') \<Longrightarrow>
    presence_step cal (s, log) (s', log @ evs)"
| enforce: "record_verified_enforcement cal s i blocked source observed_at arrival = (Inr ev, s') \<Longrightarrow>
    presence_step cal (s, log) (s', log @ option_list ev)"
| tick: "evaluate_device cal s i at = (Inr ev, s') \<Longrightarrow>
    presence_step cal (s, log) (s', log @ option_list ev)"

inductive_cases presence_stepE: "presence_step cal r r'"

abbreviation presence_reachable :: "calendar \<Rightarrow> presence_config \<Rightarrow> presence_run \<Rightarrow> bool" where
  "presence_reachable cal cfg \<equiv> reachable (presence_init cfg) (presence_step cal)"

definition of_device :: "device_id \<Rightarrow> presence_transition list \<Rightarrow> presence_transition list" where
  "of_device i log = filter (\<lambda>t. tr_device_id t = i) log"

definition engine_inv :: "presence_config \<Rightarrow> presence_run \<Rightarrow> bool" where
  "engine_inv cfg r \<longleftrightarrow> (case r of (s, log) \<Rightarrow>
     e_cfg s = cfg \<and> validate_config cfg = Inr () \<and> hm_ok (e_devices s)
     \<and> length (e_devices s) \<le> pc_max_devices cfg
     \<and> increasing tr_id log
     \<and> (\<forall>t \<in> set log. tr_id t < e_next_transition s \<and> hm_contains (e_devices s) (tr_device_id t))
     \<and> (\<forall>i d. hm_get (e_devices s) i = Some d \<longrightarrow> device_inv cfg i (of_device i log) d))"

lemma validate_config_capacity:
  "validate_config cfg = Inr () \<Longrightarrow> 0 < pc_max_history_per_device cfg
     \<and> 0 < pc_max_evidence_per_device cfg \<and> 0 < pc_max_devices cfg
     \<and> 0 < pc_join_confirmations cfg \<and> 0 < pc_departure_confirmations cfg"
  by (auto simp: validate_config_def split: if_splits)

lemma emitted_from_increasing:
  assumes "emitted_from n i evs" and "checked_add n (2 :: u64) \<noteq> None \<or> length evs \<le> 1 \<and> checked_add n 1 = Some (n + 1)"
  shows "increasing tr_id evs" and "\<forall>t \<in> set evs. n \<le> tr_id t \<and> tr_id t < n + of_nat (length evs)"
    and "n \<le> n + of_nat (length evs)"
proof -
  have "length (map tr_id evs) = length (take (length evs) [n, n + 1])"
    using assms(1) by (simp only: emitted_from_def)
  then have len: "length evs \<le> 2" by simp
  have one: "n < n + 1" if "evs \<noteq> []"
    using assms(2) checked_add_two_one(3) [of n] checked_add_one_less [of n] by auto
  have two: "n + 1 < n + 2" if "length evs = 2"
    using assms(2) that checked_add_two_one(4) [of n] by auto
  consider "evs = []" | a where "evs = [a]" | a b where "evs = [a, b]"
    using len by (cases evs; cases "tl evs") (auto simp: length_Suc_conv)
  note shapes = this
  show "increasing tr_id evs"
    by (rule shapes) (use assms(1) one in \<open>auto simp: emitted_from_def increasing_def\<close>)
  show "\<forall>t \<in> set evs. n \<le> tr_id t \<and> tr_id t < n + of_nat (length evs)"
    by (rule shapes) (use assms(1) one two in \<open>auto simp: emitted_from_def\<close>)
  show "n \<le> n + of_nat (length evs)"
    by (rule shapes) (use one two in auto)
qed

lemma engine_inv_update:
  assumes inv: "engine_inv cfg (s, log)" and em: "emitted_from (e_next_transition s) i evs"
    and room: "checked_add (e_next_transition s) 2 \<noteq> None
      \<or> length evs \<le> 1 \<and> checked_add (e_next_transition s) 1 = Some (e_next_transition s + 1)"
    and place: "hm_contains (e_devices s) i \<or> length (e_devices s) < pc_max_devices cfg"
    and dev: "device_inv cfg i (of_device i log @ evs) d'"
  shows "engine_inv cfg (with_device s i d' (e_next_transition s + of_nat (length evs)), log @ evs)"
proof -
  let ?n = "e_next_transition s"
  note em' = emitted_from_increasing [OF em room]
  have ids: "\<forall>t \<in> set evs. tr_device_id t = i" using em by (simp add: emitted_from_def)
  have log: "increasing tr_id log" "\<forall>t \<in> set log. tr_id t < ?n \<and> hm_contains (e_devices s) (tr_device_id t)"
    using inv by (simp_all add: engine_inv_def)
  have "increasing tr_id (log @ evs)"
    using log em'(1,2) by (auto simp: increasing_append dest: order_less_le_trans)
  moreover have "\<forall>t \<in> set (log @ evs). tr_id t < ?n + of_nat (length evs)"
    using log em'(2,3) order_less_le_trans by auto
  moreover have "of_device i (log @ evs) = of_device i log @ evs"
    using ids by (auto simp: of_device_def filter_id_conv)
  moreover have "of_device j (log @ evs) = of_device j log" if "j \<noteq> i" for j
    using ids that by (auto simp: of_device_def filter_empty_conv)
  ultimately show ?thesis
    using inv ids place dev
    by (auto simp: engine_inv_def length_hm_insert)
qed

section \<open>Every operation keeps the invariant\<close>

lemma validate_cong:
  assumes "e_cfg s' = e_cfg s"
  shows "validate cal s' e arrival auth = validate cal s e arrival auth"
  unfolding validate_def assms ..

lemma validate_evidence_ok:
  "validate cal s e arrival auth = Inr () \<Longrightarrow> evidence_ok (e_cfg s) (pe_device_id e) e"
  by (auto simp: validate_def evidence_ok_def split: if_splits option.splits)

lemma stale_control_initial [simp]: "\<not> stale_control (initial_device at) e"
  by (auto simp: stale_control_def initial_device_def stale_control_at_def
      split: presence_evidence_kind.split)

lemma of_device_absent:
  "engine_inv cfg (s, log) \<Longrightarrow> hm_get (e_devices s) i = None \<Longrightarrow> of_device i log = []"
  by (auto simp: engine_inv_def of_device_def filter_empty_conv hm_contains_def)

lemma device_or_initial_inv:
  assumes "engine_inv cfg (s, log)"
  shows "device_inv cfg i (of_device i log) (device_or_initial s i arrival)"
  using assms of_device_absent [OF assms, of i] device_inv_initial
  by (cases "hm_get (e_devices s) i") (auto simp: device_or_initial_def engine_inv_def)

lemma ingest_authorized_inv:
  assumes inv: "engine_inv cfg (s, log)"
    and run: "ingest_authorized cal s e arrival auth = (Inr evs, s')"
  shows "engine_inv cfg (s', log @ evs)"
proof (cases rule: ingest_authorized_cases [of cal s e arrival auth])
  case (absorbed r events d')
  let ?i = "pe_device_id e"
  let ?d0 = "device_or_initial s ?i arrival"
  note adm = admit_SomeD [OF absorbed(1)]
  have cfg: "e_cfg s = cfg" and caps: "0 < pc_max_history_per_device cfg" "0 < pc_max_evidence_per_device cfg"
    using inv validate_config_capacity by (auto simp: engine_inv_def)
  have fresh: "\<not> stale_control ?d0 e"
    using adm(5) by (cases "hm_get (e_devices s) ?i") (auto simp: device_or_initial_def)
  have room: "r \<Longrightarrow> length (filter (\<lambda>x. semantically_retained x arrival cfg) (d_evidence ?d0))
      < pc_max_evidence_per_device cfg"
    using adm(5) caps(2) cfg
    by (cases "hm_get (e_devices s) ?i") (auto simp: device_or_initial_def initial_device_def)
  have kept: "is_control_kind (pe_kind e) \<Longrightarrow> r"
    using adm(3) retained_control by simp
  have ok: "evidence_ok cfg ?i e" using validate_evidence_ok [OF adm(1)] cfg by simp
  have dev: "ingest_device cal cfg e arrival r (e_next_transition s) ?d0 = (events, d')"
    using absorbed(2) cfg by simp
  from ingest_device_inv [OF dev device_or_initial_inv [OF inv] ok fresh room kept caps(1)]
  have "device_inv cfg ?i (of_device ?i log @ events) d'" .
  with engine_inv_update [OF inv ingest_device_emitted [OF dev]] adm(2,4) cfg
  have "engine_inv cfg (with_device s ?i d' (e_next_transition s + of_nat (length events)), log @ events)"
    by simp
  with absorbed(3) run show ?thesis by simp
qed (use assms in auto)

lemma control_not_supporting: "is_control_kind (pe_kind e) \<Longrightarrow> support_at e at ever online = None"
  by (auto simp: support_at_def is_control_kind_def)

lemma control_absorb_no_correction:
  "is_control_kind (pe_kind e) \<Longrightarrow> absorb c e at r d0 = (d, k, late) \<Longrightarrow> k = None"
  by (drule arg_cong [of _ _ "fst \<circ> snd"]) (simp add: absorb_def control_not_supporting Let_def)

lemma control_single_event:
  assumes run: "ingest_authorized cal s e arrival auth = (Inr evs, s')"
    and ctl: "is_control_kind (pe_kind e)"
  shows "length evs \<le> 1"
proof (cases rule: ingest_authorized_cases [of cal s e arrival auth])
  case (absorbed r events d')
  have "length events \<le> 1"
  proof (rule ingest_device_parts [OF absorbed(2)])
    fix d k late ev1 d1
    assume ab: "absorb (e_cfg s) e arrival r (device_or_initial s (pe_device_id e) arrival) = (d, k, late)"
      and co: "correct_device (e_cfg s) (pe_device_id e) arrival e (e_next_transition s) k d = (ev1, d1)"
      and parts: "late \<Longrightarrow> ev1 = [] \<Longrightarrow> events = [] \<and> d' = d"
        "\<not> (late \<and> ev1 = []) \<Longrightarrow> \<exists>ev2. settle cal (e_cfg s) (pe_device_id e) arrival e
           (e_next_transition s + of_nat (length ev1)) d1 = (ev2, d') \<and> events = ev1 @ ev2"
    have "ev1 = []"
      using control_absorb_no_correction [OF ctl ab] co by (simp add: correct_device_def)
    show "length events \<le> 1"
    proof (cases late)
      case False
      with parts(2) \<open>ev1 = []\<close> obtain ev2 where
        "settle cal (e_cfg s) (pe_device_id e) arrival e (e_next_transition s) d1 = (ev2, d')"
        "events = ev2" by auto
      then show ?thesis using settle_length by (metis fst_conv)
    qed (use parts(1) \<open>ev1 = []\<close> in simp)
  qed
  with absorbed(3) run show ?thesis by simp
qed (use run in auto)

lemma record_verified_enforcement_run:
  assumes "record_verified_enforcement cal s i blocked source observed_at arrival = (Inr ev, s')"
  obtains e where "ingest_authorized cal s e arrival True = (Inr (option_list ev), s')"
    and "pe_kind e = (if blocked then EnforcementBlocked else EnforcementUnblocked)"
    and "pe_device_id e = i" and "pe_observed_at e = observed_at" and "pe_source e = source"
proof -
  let ?e = "\<lparr> pe_device_id = i, pe_source = source,
     pe_kind = (if blocked then EnforcementBlocked else EnforcementUnblocked),
     pe_observed_at = observed_at, pe_valid_until = None \<rparr>"
  obtain res s2 where res: "ingest_authorized cal s ?e arrival True = (res, s2)" by fastforce
  with assms have "pop_last res = Inr ev" "s2 = s'" by (simp_all add: record_verified_enforcement_def)
  then obtain evs where evs: "res = Inr evs" by (cases res) auto
  have "length evs \<le> 1"
    using control_single_event [of cal s ?e arrival True evs s2] res evs by (simp add: is_control_kind_def)
  then have "evs = option_list ev"
    using \<open>pop_last res = Inr ev\<close> evs by (cases evs) (auto simp: option_list_def)
  with res evs \<open>s2 = s'\<close> show thesis by (intro that [of ?e]) auto
qed

lemma evaluate_device_keeps:
  assumes inv: "engine_inv cfg (s, log)" and run: "evaluate_device cal s i at = (Inr ev, s')"
  shows "engine_inv cfg (s', log @ option_list ev)"
proof (cases rule: evaluate_device_cases [of cal s i at])
  case (settled d events d')
  have cfg: "e_cfg s = cfg" and cap: "0 < pc_max_history_per_device cfg"
    using inv validate_config_capacity by (auto simp: engine_inv_def)
  have dinv: "device_inv cfg i (of_device i log) d"
    using inv settled(1) by (simp add: engine_inv_def)
  note se = settled(4) [unfolded cfg]
  have len: "length events \<le> 1" using settle_length se by (metis fst_conv)
  have "engine_inv cfg (with_device s i d' (e_next_transition s + of_nat (length events)), log @ events)"
    by (rule engine_inv_update [OF inv evaluate_device_inv(2) [OF se dinv cap] _ _
          evaluate_device_inv(1) [OF se dinv cap]])
      (use len settled(1,3) in \<open>simp_all add: hm_contains_def\<close>)
  moreover have "option_list ev = events"
    using run settled(5) len by (cases events) (auto simp: option_list_def)
  ultimately show ?thesis using run settled(5) by simp
qed (use assms in auto)

lemma presence_step_inv:
  assumes "engine_inv cfg r" and "presence_step cal r r'"
  shows "engine_inv cfg r'"
  using assms(2,1)
proof (cases rule: presence_step.cases)
  case (observe s e arrival evs s' log)
  with assms(1) show ?thesis by (simp add: ingest_events_def ingest_authorized_inv)
next
  case (enforce s i blocked source observed_at arrival ev s' log)
  then show ?thesis
    using assms(1) by (metis ingest_authorized_inv record_verified_enforcement_run)
next
  case (tick s i at ev s' log)
  with assms(1) show ?thesis by (simp add: evaluate_device_keeps)
qed

interpretation presence_system: invariant_system "presence_init cfg" "presence_step cal" "engine_inv cfg"
  for cfg cal
proof unfold_locales
  fix r assume "presence_init cfg r"
  then obtain n where n: "new_with_transition_sequence cfg n = Inr (fst r)" "snd r = []"
    by (auto simp: presence_init_def)
  then have "validate_config cfg = Inr ()"
    by (cases "validate_config cfg") (auto simp: new_with_transition_sequence_def)
  with n show "engine_inv cfg r"
    by (cases r) (auto simp: new_with_transition_sequence_def engine_inv_def split: if_splits)
qed (rule presence_step_inv)

section \<open>Lemmas on single operations\<close>

lemma settle_transition:
  assumes "settle cal c i at e n d = (evs, d')" and "t \<in> set evs"
  shows "t = transition_of n i (d_state d) (gated_state cal c d at) e at None"
    and "gated_state cal c d at \<noteq> d_state d"
  using assms by (auto simp: settle_def Let_def split: if_splits)

lemma settle_transition_states:
  assumes "settle cal c i at e n d = ([t], d')"
  shows "tr_from t = d_state d" and "tr_to t = gated_state cal c d at" and "tr_from t \<noteq> tr_to t"
  using settle_transition [OF assms, of t] by (auto simp: transition_of_def)

lemma gated_join:
  "gated_state cal c d at \<in> {Online, Quiet} \<Longrightarrow> d_state d \<in> {Unknown, Offline} \<Longrightarrow>
     pc_join_confirmations c \<le> confirmations d at (pc_confirmation_window c) is_real_positive"
  by (rule ccontr) (auto simp: gated_state_def Let_def not_le split: if_splits)

lemma gated_offline:
  "gated_state cal c d at = Offline \<Longrightarrow> d_state d \<noteq> Offline \<Longrightarrow> candidate cal d at c = Offline"
  by (auto simp: gated_state_def Let_def split: if_splits)

lemma candidate_offline:
  assumes "candidate cal d at c = Offline"
  shows "d_ever_supported d" and "pc_departure_confirmations c \<le> departure_failures cal d at c"
    and "\<forall>e \<in> set (d_evidence d). support_at e at ever (pc_online_window c) = None"
  using assms
  by (auto simp: candidate_def support_at_def is_support_kind_def list_ex_iff split: if_splits option.splits)

lemma correct_transition:
  assumes "correct_device c i at e n k d = (evs, d')" and "t \<in> set evs"
  shows "tr_correction_of t \<noteq> None" and "tr_from t = Offline"
    and "\<exists>dep target. k = Some (dep, target) \<and> tr_to t = target \<and> tr_correction_of t = Some dep"
  using assms by (auto simp: correct_device_def Let_def transition_of_def split: option.splits prod.splits)

text \<open>A transition that is not a correction was decided by \<open>settle\<close> on the device left behind.\<close>

lemma step_transition_settled:
  assumes "presence_step cal (s, log) (s', log @ evs)" and t: "t \<in> set evs" and nc: "tr_correction_of t = None"
  obtains i d e n d' where "hm_get (e_devices s') i = Some d'"
    and "settle cal (e_cfg s) i (tr_occurred_at t) e n d = ([t], d')"
    and "tr_device_id t = i"
proof -
  note found = that
  have single: "xs = [t]"
    if "settle cal c i at e n d = (xs, d')" "t \<in> set xs" for cal c i at e n d xs d'
    using that by (auto simp: settle_def Let_def split: if_splits)
  have ingest: thesis if run: "ingest_authorized cal s e arrival auth = (Inr evs, s')" for e arrival auth
  proof (cases rule: ingest_authorized_cases [of cal s e arrival auth])
    case (absorbed r events d')
    then have ev: "events = evs" and s': "hm_get (e_devices s') (pe_device_id e) = Some d'"
      using run by auto
    show thesis
    proof (rule ingest_device_parts [OF absorbed(2)])
      fix d k late ev1 d1
      assume co: "correct_device (e_cfg s) (pe_device_id e) arrival e (e_next_transition s) k d = (ev1, d1)"
        and parts: "late \<Longrightarrow> ev1 = [] \<Longrightarrow> events = [] \<and> d' = d"
          "\<not> (late \<and> ev1 = []) \<Longrightarrow> \<exists>ev2. settle cal (e_cfg s) (pe_device_id e) arrival e
             (e_next_transition s + of_nat (length ev1)) d1 = (ev2, d') \<and> events = ev1 @ ev2"
      have "\<not> (late \<and> ev1 = [])" using parts(1) t ev by auto
      from parts(2) [OF this] ev obtain ev2 where se: "settle cal (e_cfg s) (pe_device_id e) arrival e
          (e_next_transition s + of_nat (length ev1)) d1 = (ev2, d')" and "evs = ev1 @ ev2" by auto
      moreover have "t \<notin> set ev1" using correct_transition(1) [OF co] nc by blast
      ultimately have "t \<in> set ev2" using t by simp
      from single [OF se this] settle_transition(1) [OF se this] se s' show thesis
        using found [of "pe_device_id e" d' e "e_next_transition s + of_nat (length ev1)" d1]
        by (simp add: transition_of_def)
    qed
  qed (use run t in auto)
  from assms(1) show thesis
  proof (cases rule: presence_step.cases)
    case (observe e arrival)
    then show thesis using ingest by (simp add: ingest_events_def)
  next
    case (enforce i blocked source observed_at arrival ev)
    then show thesis using ingest by (metis record_verified_enforcement_run same_append_eq)
  next
    case (tick i at ev)
    show thesis
    proof (cases rule: evaluate_device_cases [of cal s i at])
      case (settled d events d')
      have "length events \<le> 1" using settle_length settled(4) by (metis fst_conv)
      then have "evs = events"
        using tick settled(5) by (cases events) (auto simp: option_list_def)
      then have "t \<in> set events" using t by simp
      from single [OF settled(4) this] settle_transition(1) [OF settled(4) this] settled(4,5) tick
      show thesis
        using found [of i d' "synthetic_evidence i at" "e_next_transition s" "d \<lparr> d_last_evaluation := at \<rparr>"]
        by (auto simp: transition_of_def)
    qed (use tick in simp)
  qed
qed

lemma reachable_device_inv:
  "presence_reachable cal cfg (s, log) \<Longrightarrow> hm_get (e_devices s) i = Some d \<Longrightarrow>
     device_inv cfg i (of_device i log) d"
  using presence_system.reachable_inv [of cfg cal "(s, log)"] by (simp add: engine_inv_def)

lemma sum_list_map_bound:
  "(\<forall>x \<in> set xs. f x \<le> (b :: nat)) \<Longrightarrow> sum_list (map f xs) \<le> length xs * b"
  by (induction xs) auto

lemma engine_inv_counts:
  assumes inv: "engine_inv cfg (s, log)"
  shows "sn_evidence (snapshot s) \<le> pc_max_devices cfg * pc_max_evidence_per_device cfg"
    and "sn_history (snapshot s) \<le> pc_max_devices cfg * pc_max_history_per_device cfg"
proof -
  have dev: "device_inv cfg i (of_device i log) d" if "(i, d) \<in> set (e_devices s)" for i d
    using inv that by (auto simp: engine_inv_def hm_get_Some_iff)
  have len: "length (e_devices s) \<le> pc_max_devices cfg" using inv by (simp add: engine_inv_def)
  have "\<forall>x \<in> set (e_devices s). length (d_evidence (snd x)) \<le> pc_max_evidence_per_device cfg"
    "\<forall>x \<in> set (e_devices s). length (d_history (snd x)) \<le> pc_max_history_per_device cfg"
    using dev by (auto simp: device_inv_def)
  from this [THEN sum_list_map_bound] mult_le_mono1 [OF len] show
    "sn_evidence (snapshot s) \<le> pc_max_devices cfg * pc_max_evidence_per_device cfg"
    "sn_history (snapshot s) \<le> pc_max_devices cfg * pc_max_history_per_device cfg"
    by (auto simp: snapshot_def case_prod_unfold intro: order_trans)
qed

lemma evicted_mark_take:
  assumes "increasing tr_id full" and "k \<le> length full"
  shows "is_some_and (evicted_mark k None full) (\<lambda>x. c < x) \<longleftrightarrow> (\<exists>t \<in> set (take k full). c < tr_id t)"
proof (cases k)
  case (Suc j)
  have "full ! j \<in> set (take k full)" using assms(2) Suc by (auto simp: in_set_conv_nth)
  moreover have "tr_id t \<le> tr_id (full ! j)" if t: "t \<in> set (take k full)" for t
  proof -
    from t obtain m where m: "m < k" "t = full ! m" using assms(2) by (auto simp: in_set_conv_nth)
    then consider "m = j" | "m < j" using Suc by linarith
    then show ?thesis
      by cases (use m assms Suc in \<open>auto simp: increasing_def sorted_wrt_iff_nth_less less_imp_le\<close>)
  qed
  ultimately show ?thesis using Suc by (auto simp: evicted_mark_def intro: order_less_le_trans)
qed (simp add: evicted_mark_def)

lemma retains_forgotten:
  assumes "increasing tr_id full" and "retains full d"
  shows "is_some_and (d_evicted_through d) (\<lambda>x. c < x) \<longleftrightarrow>
    (\<exists>t \<in> set full. t \<notin> set (d_history d) \<and> c < tr_id t)"
proof -
  obtain k where k: "k \<le> length full" "d_history d = drop k full"
    "d_evicted_through d = evicted_mark k None full"
    using assms(2) by (auto simp: retains_def)
  have "distinct full"
    using assms(1) by (auto simp: increasing_def sorted_wrt_iff_nth_less distinct_conv_nth)
      (metis less_irrefl linorder_neqE_nat)
  then have "set (take k full) = set full - set (drop k full)"
    using set_take_disj_set_drop_if_distinct [of full k k] append_take_drop_id [of k full]
    by (metis Diff_Un Diff_cancel Diff_triv Int_Diff Un_empty_right order_refl set_append inf.idem Diff_Int_distrib2 Un_Diff)
  then have "(\<exists>t \<in> set (take k full). c < tr_id t) \<longleftrightarrow>
      (\<exists>t \<in> set full. t \<notin> set (drop k full) \<and> c < tr_id t)" by auto
  with evicted_mark_take [OF assms(1) k(1)] k show ?thesis by simp
qed

lemma retains_replay:
  assumes "increasing tr_id full" and "retains full d"
    and "\<not> (\<exists>t \<in> set full. t \<notin> set (d_history d) \<and> c < tr_id t)"
  shows "filter (\<lambda>t. c < tr_id t) (d_history d) = filter (\<lambda>t. c < tr_id t) full"
proof -
  obtain k where k: "k \<le> length full" "d_history d = drop k full"
    "d_evicted_through d = evicted_mark k None full"
    using assms(2) by (auto simp: retains_def)
  have "\<not> (\<exists>t \<in> set (take k full). c < tr_id t)"
    using assms(3) retains_forgotten [OF assms(1,2), of c] evicted_mark_take [OF assms(1) k(1)] k(3)
    by simp
  then show ?thesis
    unfolding k(2) by (intro increasing_filter_drop [OF assms(1)]) (auto simp: not_less)
qed

lemma increasing_of_device: "increasing tr_id log \<Longrightarrow> increasing tr_id (of_device i log)"
  by (simp add: increasing_def of_device_def sorted_wrt_filter)

lemma kind_as_str_inject: "kind_as_str k = kind_as_str k' \<Longrightarrow> k = k'"
  by (cases k; cases k') simp_all

lemma absorb_correction:
  assumes "absorb c e at r d0 = (d, Some (k, target), late)"
  obtains dep where "dep \<in> set (d_history d0)" and "tr_id dep = k" and "tr_to dep = Offline"
    and "at - tr_occurred_at dep \<le> pc_correction_window c"
    and "support_at e (tr_occurred_at dep) (d_ever_supported d0) (pc_online_window c) = Some target"
proof -
  let ?d1 = "d0 \<lparr> d_evidence := filter (\<lambda>x. semantically_retained x at c) (d_evidence d0),
      d_last_evaluation := at \<rparr>"
  have d1: "d_history ?d1 = d_history d0" "d_ever_supported ?d1 = d_ever_supported d0" by simp_all
  have "map_option (\<lambda>(dep, target). (tr_id dep, target))
      (Option.bind (rfind (\<lambda>x. tr_to x = Offline \<and> at - tr_occurred_at x \<le> pc_correction_window c)
          (d_history d0))
        (\<lambda>dep. map_option (\<lambda>target. (dep, target))
           (support_at e (tr_occurred_at dep) (d_ever_supported d0) (pc_online_window c))))
      = Some (k, target)"
    using arg_cong [OF assms, of "\<lambda>x. fst (snd x)"]
    unfolding absorb_def Let_def fst_conv snd_conv d1 .
  then obtain dep where
    dep: "rfind (\<lambda>x. tr_to x = Offline \<and> at - tr_occurred_at x \<le> pc_correction_window c) (d_history d0)
       = Some dep"
    and "tr_id dep = k"
    and "support_at e (tr_occurred_at dep) (d_ever_supported d0) (pc_online_window c) = Some target"
    by (auto simp: bind_eq_Some_conv)
  with rfind_SomeD [OF dep] show thesis by (intro that [of dep]) auto
qed

lemma ingest_device_correction:
  assumes dev: "ingest_device cal c e at r n d0 = (evs, d')" and t: "t \<in> set evs"
    and k: "tr_correction_of t = Some k"
  obtains dep where "dep \<in> set (d_history d0)" and "tr_id dep = k" and "tr_to dep = Offline"
    and "at - tr_occurred_at dep \<le> pc_correction_window c" and "tr_from t = Offline"
    and "support_at e (tr_occurred_at dep) (d_ever_supported d0) (pc_online_window c) = Some (tr_to t)"
    and "evs = [t] \<Longrightarrow> d_state d' = d_state d0"
proof (rule ingest_device_parts [OF dev])
  fix d k' late ev1 d1
  assume ab: "absorb c e at r d0 = (d, k', late)"
    and co: "correct_device c (pe_device_id e) at e n k' d = (ev1, d1)"
    and parts: "late \<Longrightarrow> ev1 = [] \<Longrightarrow> evs = [] \<and> d' = d"
      "\<not> (late \<and> ev1 = []) \<Longrightarrow> \<exists>ev2. settle cal c (pe_device_id e) at e
         (n + of_nat (length ev1)) d1 = (ev2, d') \<and> evs = ev1 @ ev2"
  have "\<not> (late \<and> ev1 = [])" using parts(1) t by auto
  from parts(2) [OF this] obtain ev2 where
    se: "settle cal c (pe_device_id e) at e (n + of_nat (length ev1)) d1 = (ev2, d')"
    and evs: "evs = ev1 @ ev2" by blast
  have "tr_correction_of x = None" if "x \<in> set ev2" for x
    using settle_transition(1) [OF se that] by (simp add: transition_of_def)
  with t evs k have t1: "t \<in> set ev1" by auto
  note ct = correct_transition [OF co t1]
  from ct(3) obtain dep_id target where "k' = Some (dep_id, target)" "tr_to t = target" "dep_id = k"
    using k by auto
  with ab have "absorb c e at r d0 = (d, Some (k, tr_to t), late)" by simp
  then obtain dep where dep: "dep \<in> set (d_history d0)" "tr_id dep = k" "tr_to dep = Offline"
    "at - tr_occurred_at dep \<le> pc_correction_window c"
    "support_at e (tr_occurred_at dep) (d_ever_supported d0) (pc_online_window c) = Some (tr_to t)"
    by (rule absorb_correction)
  have "d_state d' = d_state d0" if "evs = [t]"
  proof -
    have "ev2 = []" using that evs t1 by (cases ev1) auto
    then have "d' = d1" using se by (auto simp: settle_def Let_def split: if_splits)
    with correct_frame(7) [OF co] absorb_frame(1) [OF ab] show ?thesis by simp
  qed
  with dep ct(2) show thesis by (intro that) auto
qed

lemma prune_keeps_uncontrolled:
  assumes "e \<in> set ev" and "control_family (pe_kind e) = None"
  shows "e \<in> set (prune_control_evidence ev)"
  using assms by (simp add: prune_control_evidence_def prune_family_def Let_def)

lemma absorb_retains:
  assumes ab: "absorb c e at r d0 = (d, k, late)" and ctl: "controls_ok d0" and fresh: "\<not> stale_control d0 e"
    and r: r and after: "\<forall>dep \<in> set (d_history d0). tr_to dep = Offline \<longrightarrow> tr_occurred_at dep < pe_observed_at e"
  shows "e \<in> set (d_evidence d)"
proof -
  let ?ev = "prune_control_evidence (sort_evidence
    (filter (\<lambda>x. semantically_retained x at c) (d_evidence d0) @ [e]))"
  have "d_evidence d = ?ev"
    by (rule absorb_device [OF ab]) (use r after in \<open>simp add: Let_def\<close>)
  moreover have "e \<in> set ?ev"
  proof (cases "control_family (pe_kind e)")
    case None
    then show ?thesis by (intro prune_keeps_uncontrolled) (simp_all add: sort_evidence_def)
  next
    case (Some f)
    then consider "pe_kind e \<in> {EnforcementBlocked, EnforcementUnblocked}"
      | "pe_kind e \<in> {SensorImpaired, SensorRecovered}" | "pe_kind e \<in> {Contradiction, ContradictionCleared}"
      by (auto simp: control_family_def split: if_splits)
    then show ?thesis
      by cases (use ctl fresh enforcement.switched_retained impairment.switched_retained
          contradiction.switched_retained in \<open>auto simp: controls_ok_def\<close>)
  qed
  ultimately show ?thesis by simp
qed

end
