(* ===== verification/Presence_Properties.thy ===== *)
theory Presence_Properties
  imports Presence_Engine
begin

text \<open>
  The properties of the presence engine: bounds, who may block a device, atomic failures,
  the evidence behind joins, departures and corrections, exact replay, and redelivery.
  \<open>exec_calls\<close> runs a sequence of calls, so that concrete reachable runs can be evaluated;
  \<open>visit\<close> is the example used by the witnesses: a device joins, departs and is corrected by
  a late lease, then is blocked and unblocked.
\<close>

section \<open>Running calls\<close>

datatype presence_call =
    Observe presence_evidence instant
  | Enforce device_id bool string instant instant
  | Tick device_id instant

text \<open>A call that fails leaves the log alone; that it also leaves the engine alone is proved below.\<close>

fun exec_call :: "calendar \<Rightarrow> presence_run \<Rightarrow> presence_call \<Rightarrow> presence_run" where
  "exec_call cal (s, log) (Observe e arrival) =
     (case ingest_events cal s e arrival of
        (Inl _, _) \<Rightarrow> (s, log) | (Inr evs, s') \<Rightarrow> (s', log @ evs))"
| "exec_call cal (s, log) (Enforce i blocked source observed_at arrival) =
     (case record_verified_enforcement cal s i blocked source observed_at arrival of
        (Inl _, _) \<Rightarrow> (s, log) | (Inr ev, s') \<Rightarrow> (s', log @ option_list ev))"
| "exec_call cal (s, log) (Tick i at) =
     (case evaluate_device cal s i at of
        (Inl _, _) \<Rightarrow> (s, log) | (Inr ev, s') \<Rightarrow> (s', log @ option_list ev))"

definition exec_calls :: "calendar \<Rightarrow> presence_run \<Rightarrow> presence_call list \<Rightarrow> presence_run" where
  "exec_calls cal r calls = foldl (exec_call cal) r calls"

definition sample_config :: presence_config where
  "sample_config = default_presence_config \<lparr> pc_max_devices := 4, pc_max_evidence_per_device := 8,
     pc_max_history_per_device := 4, pc_max_source_len := 10 \<rparr>"

definition sample_start :: presence_run where
  "sample_start = (\<lparr> e_cfg = sample_config, e_devices = [], e_next_transition = 1 \<rparr>, [])"

definition sighting ::
  "presence_evidence_kind \<Rightarrow> int \<Rightarrow> int option \<Rightarrow> presence_evidence" where
  "sighting kind at until =
     \<lparr> pe_device_id = 7, pe_source = ''sensor-a'', pe_kind = kind, pe_observed_at = seconds at,
       pe_valid_until = map_option seconds until \<rparr>"

text \<open>Joined at 101 s, departed at 141 s.\<close>

definition visit :: "presence_call list" where
  "visit =
     [Observe (sighting Traffic 100 None) (seconds 100),
      Observe (sighting Traffic 101 None) (seconds 101),
      Observe (sighting ConfirmationFailure 140 None) (seconds 140),
      Observe (sighting ConfirmationFailure 141 None) (seconds 141)]"

text \<open>A lease that was valid at the departure, delivered at 200 s.\<close>

definition late_lease :: presence_evidence where
  "late_lease = sighting Lease 120 (Some 145)"

definition blocked_visit :: "presence_call list" where
  "blocked_visit = visit @ [Enforce 7 True ''sensor-a'' (seconds 210) (seconds 210)]"

text \<open>The transitions of the visit: the join, the departure, and the late lease's correction.\<close>

definition sample_transition ::
  "u64 \<Rightarrow> presence_state \<Rightarrow> presence_state \<Rightarrow> presence_evidence \<Rightarrow> int \<Rightarrow> u64 option
     \<Rightarrow> presence_transition" where
  "sample_transition n from to e at correction =
     transition_of n 7 from to e (seconds at) correction"

definition joined :: presence_transition where
  "joined = sample_transition 1 Unknown Online (sighting Traffic 101 None) 101 None"

definition departed :: presence_transition where
  "departed = sample_transition 2 Online Offline (sighting ConfirmationFailure 141 None) 141 None"

definition corrected :: presence_transition where
  "corrected = sample_transition 3 Offline Quiet late_lease 200 (Some 2)"

abbreviation sample_run :: "presence_call list \<Rightarrow> presence_run" where
  "sample_run calls \<equiv> exec_calls utc_calendar sample_start calls"

section \<open>Shared lemmas\<close>

lemma exec_call_reachable:
  "presence_reachable cal cfg r \<Longrightarrow> presence_reachable cal cfg (exec_call cal r call)"
  by (cases "(cal, r, call)" rule: exec_call.cases)
    (auto split: prod.splits sum.splits intro: reachable.move presence_step.intros)

lemma exec_calls_reachable:
  "presence_reachable cal cfg r \<Longrightarrow> presence_reachable cal cfg (exec_calls cal r calls)"
  unfolding exec_calls_def
  by (induction calls arbitrary: r) (simp_all del: exec_call.simps split_paired_All add: exec_call_reachable)

lemma sample_start_init: "presence_init sample_config sample_start"
proof -
  have "new_with_transition_sequence sample_config 1 = Inr (fst sample_start)" by code_simp
  then show ?thesis by (auto simp: presence_init_def sample_start_def)
qed

lemma sample_reachable:
  "presence_reachable utc_calendar sample_config (fst (sample_run calls), snd (sample_run calls))"
  using exec_calls_reachable [OF reachable.start [where init = "presence_init sample_config", OF sample_start_init]]
  by simp

lemma observe_step:
  "fst (ingest_events cal s e arrival) = Inr evs \<Longrightarrow>
     presence_step cal (s, log) (snd (ingest_events cal s e arrival), log @ evs)"
  by (rule presence_step.observe [of _ _ e arrival]) (metis prod.collapse)

lemma joins: "fst (ingest_events utc_calendar (fst (sample_run (take 1 visit)))
    (sighting Traffic 101 None) (seconds 101)) = Inr [joined]"
  by code_simp

lemma departs: "fst (ingest_events utc_calendar (fst (sample_run (take 3 visit)))
    (sighting ConfirmationFailure 141 None) (seconds 141)) = Inr [departed]"
  by code_simp

lemma corrects: "fst (ingest_events utc_calendar (fst (sample_run visit)) late_lease (seconds 200))
    = Inr [corrected]"
  by code_simp

lemma distinct_count_set:
  "distinct_count (filter p ev)
     = card ((\<lambda>e. (pe_source e, pe_kind e, pe_observed_at e)) ` {e \<in> set ev. p e})"
  by (simp add: distinct_count_def)

lemma support_end_bound:
  assumes "is_none_or (support_end cal c ev) (\<lambda>limit. limit < t)" and "x \<in> set ev"
    and "(if pe_kind x = Traffic then cal (pe_observed_at x) (pc_online_window c)
          else if is_support_kind (pe_kind x) then pe_valid_until x else None) = Some u"
  shows "u < t"
proof -
  let ?f = "\<lambda>e. if pe_kind e = Traffic then cal (pe_observed_at e) (pc_online_window c)
     else if is_support_kind (pe_kind e) then pe_valid_until e else None"
  have "u \<in> set (List.map_filter ?f ev)"
    using assms(2,3) by (rule in_set_map_filterI)
  then obtain m where "iter_max (List.map_filter ?f ev) = Some m" "u \<le> m"
    by (cases "iter_max (List.map_filter ?f ev)") (auto simp: iter_max_Some_iff)
  with assms(1) show ?thesis by (simp add: support_end_def)
qed

lemma observation_keeps_blocked:
  assumes reach: "presence_reachable cal cfg (s, log)" and dev: "hm_get (e_devices s) i = Some d"
  shows "state_of (snd (ingest_events cal s e arrival)) i = Some Blocked \<longleftrightarrow> d_state d = Blocked"
proof (cases rule: ingest_authorized_cases [of cal s e arrival False])
  case (absorbed r events d')
  then have run: "ingest_events cal s e arrival =
      (Inr events, with_device s (pe_device_id e) d' (e_next_transition s + of_nat (length events)))"
    by (simp add: ingest_events_def)
  show ?thesis
  proof (cases "i = pe_device_id e")
    case True
    have kind: "pe_kind e \<notin> {EnforcementBlocked, EnforcementUnblocked}"
      using admit_SomeD(1) [OF absorbed(1)] by (auto simp: validate_def split: if_splits option.splits)
    have "d_blocked d' = d_blocked d"
      using enforcement.ingest_other [OF absorbed(2) kind] dev True by (simp add: device_or_initial_def)
    moreover have "device_inv cfg i (of_device i (log @ events)) d'"
      by (rule reachable_device_inv [OF reachable.move [OF reach presence_step.observe [OF run]]])
        (simp add: True)
    ultimately show ?thesis
      using reachable_device_inv [OF reach dev] True run
      by (simp add: state_of_def device_inv_def mode_ok_def)
  qed (use dev run in \<open>simp add: state_of_def\<close>)
qed (use dev in \<open>simp_all add: ingest_events_def state_of_def\<close>)

section \<open>Bounds and precedence\<close>

text \<open>C5. Memory stays bounded: in every reachable state the number of devices, the
  evidence per device and the history per device stay within the configuration, so the
  totals of the snapshot are bounded by their products, and every retained piece of evidence
  is about its device, from a trusted source and not a synthetic evaluation.\<close>

theorem presence_bounds:
  assumes "presence_reachable cal cfg (s, log)"
  shows "sn_devices (snapshot s) \<le> pc_max_devices cfg
    \<and> sn_evidence (snapshot s) \<le> pc_max_devices cfg * pc_max_evidence_per_device cfg
    \<and> sn_history (snapshot s) \<le> pc_max_devices cfg * pc_max_history_per_device cfg
    \<and> (\<forall>i d. hm_get (e_devices s) i = Some d \<longrightarrow>
          length (d_evidence d) \<le> pc_max_evidence_per_device cfg
          \<and> length (d_history d) \<le> pc_max_history_per_device cfg
          \<and> (\<forall>e \<in> set (d_evidence d). pe_device_id e = i
                \<and> pe_source e \<in> set (pc_trusted_sources cfg) \<and> pe_kind e \<noteq> Evaluation))"
proof -
  note inv = presence_system.reachable_inv [OF assms]
  have "sn_devices (snapshot s) \<le> pc_max_devices cfg"
    using inv by (simp add: engine_inv_def snapshot_def)
  with engine_inv_counts [OF inv] reachable_device_inv [OF assms] show ?thesis
    by (auto simp: device_inv_def evidence_ok_def)
qed

theorem presence_bounds_witness:
  "sn_devices (snapshot (fst (sample_run visit))) \<le> 4
     \<and> sn_evidence (snapshot (fst (sample_run visit))) \<le> 32
     \<and> sn_history (snapshot (fst (sample_run visit))) \<le> 16"
  using presence_bounds [OF sample_reachable [of visit]] by (simp add: sample_config_def)

text \<open>C6. \<open>Blocked\<close> means verified enforcement. In every reachable state a device is Blocked
  exactly when the latest enforcement evidence it retains includes a verified block; an
  unblocked device with an impaired sensor or a contradiction is Unknown; and no ordinary
  observation, whatever it claims, makes a device Blocked or stops it from being Blocked.\<close>

theorem blocked_means_verified_enforcement:
  assumes "presence_reachable cal cfg (s, log)" and "hm_get (e_devices s) i = Some d"
  shows "(d_state d = Blocked \<longleftrightarrow>
      (\<exists>e \<in> set (d_evidence d). pe_kind e = EnforcementBlocked \<and>
         (\<forall>e' \<in> set (d_evidence d). pe_kind e' \<in> {EnforcementBlocked, EnforcementUnblocked} \<longrightarrow>
            pe_observed_at e' \<le> pe_observed_at e)))
    \<and> (d_state d \<noteq> Blocked \<and> (d_impaired d \<or> d_contradictory d) \<longrightarrow> d_state d = Unknown)
    \<and> (state_of (snd (ingest_events cal s e arrival)) i = Some Blocked \<longleftrightarrow> d_state d = Blocked)"
proof -
  note inv = reachable_device_inv [OF assms]
  have mode: "mode_ok d" and tracks: "enforcement.tracks d"
    using inv by (simp_all add: device_inv_def controls_ok_def)
  have "d_blocked d \<longleftrightarrow> (\<exists>e \<in> latest_controls EnforcementBlocked EnforcementUnblocked (set (d_evidence d)).
      pe_kind e = EnforcementBlocked)"
    by (rule enforcement.tracks_flag [OF tracks])
  then have "d_state d = Blocked \<longleftrightarrow>
      (\<exists>e \<in> set (d_evidence d). pe_kind e = EnforcementBlocked \<and>
         (\<forall>e' \<in> set (d_evidence d). pe_kind e' \<in> {EnforcementBlocked, EnforcementUnblocked} \<longrightarrow>
            pe_observed_at e' \<le> pe_observed_at e))"
    using mode by (auto simp: mode_ok_def latest_controls_def)
  moreover have "state_of (snd (ingest_events cal s e arrival)) i = Some Blocked \<longleftrightarrow> d_state d = Blocked"
    by (rule observation_keeps_blocked [OF assms])
  ultimately show ?thesis using mode by (auto simp: mode_ok_def)
qed

theorem blocked_means_verified_enforcement_witness:
  "state_of (fst (sample_run blocked_visit)) 7 = Some Blocked \<and>
   state_of (snd (ingest_events utc_calendar (fst (sample_run blocked_visit))
     (sighting EnforcementUnblocked 220 None) (seconds 220))) 7 = Some Blocked"
proof -
  have st: "state_of (fst (sample_run blocked_visit)) 7 = Some Blocked" by code_simp
  then obtain d where d: "hm_get (e_devices (fst (sample_run blocked_visit))) 7 = Some d"
    "d_state d = Blocked" by (auto simp: state_of_def)
  show ?thesis
    using blocked_means_verified_enforcement [OF sample_reachable d(1),
        of "sighting EnforcementUnblocked 220 None" "seconds 220"] d(2) st by simp
qed

section \<open>Failures\<close>

text \<open>C7. A refused call changes nothing: whatever error ingestion, verified enforcement or a
  timer evaluation returns, the engine is left exactly as it was, although the code prunes
  evidence, switches flags and stamps the clock before it numbers a transition.\<close>

theorem refused_calls_change_nothing:
  "(ingest_events cal s e arrival = (Inl err, s1) \<longrightarrow> s1 = s)
    \<and> (record_verified_enforcement cal s i blocked source observed_at arrival = (Inl err, s2) \<longrightarrow> s2 = s)
    \<and> (evaluate_device cal s i at = (Inl err, s3) \<longrightarrow> s3 = s)"
proof -
  have ingest: "s' = s" if "ingest_authorized cal s x a auth = (Inl err', s')" for x a auth err' s'
    using that by (cases rule: ingest_authorized_cases [of cal s x a auth]) auto
  have pop: "pop_last res = Inl err \<Longrightarrow> \<exists>err'. res = Inl err'" for res by (cases res) auto
  have enforce: "s2 = s"
    if run: "record_verified_enforcement cal s i blocked source observed_at arrival = (Inl err, s2)"
  proof -
    let ?e = "\<lparr> pe_device_id = i, pe_source = source,
       pe_kind = (if blocked then EnforcementBlocked else EnforcementUnblocked),
       pe_observed_at = observed_at, pe_valid_until = None \<rparr>"
    obtain res s' where res: "ingest_authorized cal s ?e arrival True = (res, s')" by fastforce
    with run have "pop_last res = Inl err" "s' = s2" by (simp_all add: record_verified_enforcement_def)
    with pop res ingest show ?thesis by metis
  qed
  have "s3 = s" if "evaluate_device cal s i at = (Inl err, s3)"
    using that by (cases rule: evaluate_device_cases [of cal s i at]) auto
  with ingest enforce show ?thesis by (auto simp: ingest_events_def)
qed

theorem refused_calls_change_nothing_witness:
  "fst (evaluate_device utc_calendar (fst (sample_run visit)) 7 (seconds 140)) = Inl ClockRollback
     \<and> snd (evaluate_device utc_calendar (fst (sample_run visit)) 7 (seconds 140))
         = fst (sample_run visit)"
proof -
  let ?s = "fst (sample_run visit)"
  have err: "fst (evaluate_device utc_calendar ?s 7 (seconds 140)) = Inl ClockRollback" by code_simp
  then have "evaluate_device utc_calendar ?s 7 (seconds 140)
      = (Inl ClockRollback, snd (evaluate_device utc_calendar ?s 7 (seconds 140)))"
    by (metis prod.collapse)
  with refused_calls_change_nothing [where cal = utc_calendar and s = ?s and err = ClockRollback
      and i = 7 and at = "seconds 140"] err
  show ?thesis by blast
qed

section \<open>The evidence behind a transition\<close>

text \<open>C8. Joining takes the configured confirmations: a device that was Unknown or Offline is
  reported Online or Quiet by a current transition only when its evidence holds at least
  \<open>join_confirmations\<close> distinct sightings (source, kind, observation time) of real presence
  inside the confirmation window; a probe does not count.\<close>

theorem join_needs_confirmations:
  assumes "presence_step cal (s, log) (s', log @ evs)" and "t \<in> set evs"
    and "tr_correction_of t = None" and "tr_from t \<in> {Unknown, Offline}" and "tr_to t \<in> {Online, Quiet}"
  shows "\<exists>d. hm_get (e_devices s') (tr_device_id t) = Some d \<and>
    pc_join_confirmations (e_cfg s) \<le>
      card ((\<lambda>e. (pe_source e, pe_kind e, pe_observed_at e)) `
        {e \<in> set (d_evidence d). pe_kind e \<in> {Traffic, Lease, RouterAssociation, NeighborCache}
           \<and> pe_observed_at e \<le> tr_occurred_at t
           \<and> tr_occurred_at t - pe_observed_at e \<le> pc_confirmation_window (e_cfg s)})"
proof -
  obtain i d e n d' where d': "hm_get (e_devices s') i = Some d'"
    and se: "settle cal (e_cfg s) i (tr_occurred_at t) e n d = ([t], d')" and i: "tr_device_id t = i"
    by (rule step_transition_settled [OF assms(1-3)])
  note tr = settle_transition_states [OF se]
  have "pc_join_confirmations (e_cfg s) \<le>
      confirmations d (tr_occurred_at t) (pc_confirmation_window (e_cfg s)) is_real_positive"
    by (rule gated_join [OF assms(5) [unfolded tr(2)] assms(4) [unfolded tr(1)]])
  then have "pc_join_confirmations (e_cfg s) \<le>
      confirmations d' (tr_occurred_at t) (pc_confirmation_window (e_cfg s)) is_real_positive"
    by (simp add: confirmations_def settle_frame(1) [OF se])
  with d' i show ?thesis
    by (intro exI [of _ d']) (simp add: confirmations_def distinct_count_set is_real_positive_def)
qed

theorem join_needs_confirmations_witness:
  "\<exists>d. hm_get (e_devices (snd (ingest_events utc_calendar (fst (sample_run (take 1 visit)))
       (sighting Traffic 101 None) (seconds 101)))) 7 = Some d \<and>
     2 \<le> card ((\<lambda>e. (pe_source e, pe_kind e, pe_observed_at e)) `
        {e \<in> set (d_evidence d). pe_kind e \<in> {Traffic, Lease, RouterAssociation, NeighborCache}
           \<and> pe_observed_at e \<le> seconds 101 \<and> seconds 101 - pe_observed_at e \<le> minutes 2})"
proof -
  have cfg: "e_cfg (fst (sample_run (take 1 visit))) = sample_config" by code_simp
  show ?thesis
    using join_needs_confirmations [OF observe_step [OF joins, of "[]"], of joined]
    unfolding cfg
    by (simp add: joined_def sample_transition_def transition_of_def sample_config_def
        default_presence_config_def)
qed

text \<open>C9. \<open>Offline\<close> is never a guess: a transition to Offline happens only for a device that
  was really present before, when no retained evidence supports it at that instant any more,
  and with at least \<open>departure_confirmations\<close> distinct failed confirmations inside the
  window, each strictly after the end of every support (the online window of traffic, the
  validity of leases, associations, neighbour entries and probes).\<close>

theorem departure_needs_failures:
  assumes "presence_step cal (s, log) (s', log @ evs)" and "t \<in> set evs"
    and "tr_correction_of t = None" and "tr_to t = Offline"
  shows "\<exists>d. hm_get (e_devices s') (tr_device_id t) = Some d \<and> d_ever_supported d
    \<and> (\<forall>e \<in> set (d_evidence d). support_at e (tr_occurred_at t) True (pc_online_window (e_cfg s)) = None)
    \<and> (\<exists>F \<subseteq> set (d_evidence d).
         pc_departure_confirmations (e_cfg s)
           \<le> card ((\<lambda>e. (pe_source e, pe_kind e, pe_observed_at e)) ` F)
         \<and> (\<forall>f \<in> F. pe_kind f = ConfirmationFailure \<and> pe_observed_at f \<le> tr_occurred_at t
              \<and> tr_occurred_at t - pe_observed_at f \<le> pc_confirmation_window (e_cfg s)
              \<and> (\<forall>x \<in> set (d_evidence d). \<forall>u.
                   (if pe_kind x = Traffic then cal (pe_observed_at x) (pc_online_window (e_cfg s))
                    else if is_support_kind (pe_kind x) then pe_valid_until x else None) = Some u
                     \<longrightarrow> u < pe_observed_at f)))"
proof -
  obtain i d e n d' where d': "hm_get (e_devices s') i = Some d'"
    and se: "settle cal (e_cfg s) i (tr_occurred_at t) e n d = ([t], d')" and i: "tr_device_id t = i"
    by (rule step_transition_settled [OF assms(1-3)])
  note tr = settle_transition_states [OF se] and frame = settle_frame [OF se]
  let ?F = "{f \<in> set (d_evidence d). pe_kind f = ConfirmationFailure \<and> pe_observed_at f \<le> tr_occurred_at t
     \<and> is_none_or (support_end cal (e_cfg s) (d_evidence d)) (\<lambda>limit. limit < pe_observed_at f)
     \<and> tr_occurred_at t - pe_observed_at f \<le> pc_confirmation_window (e_cfg s)}"
  have "candidate cal d (tr_occurred_at t) (e_cfg s) = Offline"
    by (rule gated_offline) (use tr assms(4) in auto)
  note off = candidate_offline [OF this]
  have "pc_departure_confirmations (e_cfg s) \<le> card ((\<lambda>e. (pe_source e, pe_kind e, pe_observed_at e)) ` ?F)"
    using off(2) by (simp add: departure_failures_def distinct_count_set)
  moreover have "\<forall>f \<in> ?F. \<forall>x \<in> set (d_evidence d). \<forall>u.
      (if pe_kind x = Traffic then cal (pe_observed_at x) (pc_online_window (e_cfg s))
       else if is_support_kind (pe_kind x) then pe_valid_until x else None) = Some u
         \<longrightarrow> u < pe_observed_at f"
    using support_end_bound by blast
  ultimately have "\<exists>F \<subseteq> set (d_evidence d).
         pc_departure_confirmations (e_cfg s)
           \<le> card ((\<lambda>e. (pe_source e, pe_kind e, pe_observed_at e)) ` F)
         \<and> (\<forall>f \<in> F. pe_kind f = ConfirmationFailure \<and> pe_observed_at f \<le> tr_occurred_at t
              \<and> tr_occurred_at t - pe_observed_at f \<le> pc_confirmation_window (e_cfg s)
              \<and> (\<forall>x \<in> set (d_evidence d). \<forall>u.
                   (if pe_kind x = Traffic then cal (pe_observed_at x) (pc_online_window (e_cfg s))
                    else if is_support_kind (pe_kind x) then pe_valid_until x else None) = Some u
                     \<longrightarrow> u < pe_observed_at f))"
    by (intro exI [of _ ?F]) simp
  then show ?thesis
    using d' i off(1) off(3) [of True] frame(1,6) by (intro exI [of _ d']) simp
qed

theorem departure_needs_failures_witness:
  "\<exists>d. hm_get (e_devices (snd (ingest_events utc_calendar (fst (sample_run (take 3 visit)))
       (sighting ConfirmationFailure 141 None) (seconds 141)))) 7 = Some d \<and> d_ever_supported d
    \<and> (\<forall>e \<in> set (d_evidence d). support_at e (seconds 141) True (seconds 30) = None)"
proof -
  have cfg: "e_cfg (fst (sample_run (take 3 visit))) = sample_config" by code_simp
  show ?thesis
    using departure_needs_failures [OF observe_step [OF departs, of "[]"], of departed]
    unfolding cfg
    by (auto simp: departed_def sample_transition_def transition_of_def sample_config_def
        default_presence_config_def)
qed

text \<open>C31. A correction is justified and historical: it names a departure of the same device
  that the engine really reported, no longer ago than the correction window; traffic corrects
  to Online only when its online window covered the departure, a lease, association,
  neighbour entry or probe corrects to Quiet only when its validity spanned it; and a
  correction alone leaves the current state as it was.\<close>

theorem corrections_are_justified:
  assumes "presence_reachable cal cfg (s, log)"
    and "ingest_events cal s e arrival = (Inr evs, s')"
    and "t \<in> set evs" and "tr_correction_of t = Some k"
  shows "\<exists>dep \<in> set log. tr_id dep = k \<and> tr_device_id dep = pe_device_id e \<and> tr_to dep = Offline
    \<and> arrival - tr_occurred_at dep \<le> pc_correction_window cfg
    \<and> tr_device_id t = pe_device_id e \<and> tr_from t = Offline
    \<and> pe_observed_at e \<le> tr_occurred_at dep
    \<and> (if pe_kind e = Traffic
       then tr_to t = Online \<and> tr_occurred_at dep - pe_observed_at e < pc_online_window cfg
       else tr_to t = Quiet \<and> is_support_kind (pe_kind e)
            \<and> is_some_and (pe_valid_until e) (\<lambda>u. tr_occurred_at dep \<le> u))
    \<and> (evs = [t] \<longrightarrow> state_of s' (pe_device_id e) = state_of s (pe_device_id e))"
proof (cases rule: ingest_authorized_cases [of cal s e arrival False])
  case (absorbed r events d')
  let ?i = "pe_device_id e"
  note inv = presence_system.reachable_inv [OF assms(1)]
  have cfg: "e_cfg s = cfg" using inv by (simp add: engine_inv_def)
  from absorbed(3) assms(2) have ev: "events = evs"
    and s': "hm_get (e_devices s') ?i = Some d'" by (auto simp: ingest_events_def)
  from assms(3) ev have "t \<in> set events" by simp
  then obtain dep where dep: "dep \<in> set (d_history (device_or_initial s ?i arrival))" "tr_id dep = k"
    "tr_to dep = Offline" "arrival - tr_occurred_at dep \<le> pc_correction_window cfg"
    "tr_from t = Offline"
    "support_at e (tr_occurred_at dep) (d_ever_supported (device_or_initial s ?i arrival))
       (pc_online_window cfg) = Some (tr_to t)"
    "evs = [t] \<Longrightarrow> d_state d' = d_state (device_or_initial s ?i arrival)"
    using ingest_device_correction [OF absorbed(2) _ assms(4)] cfg ev by metis
  then obtain d where d: "hm_get (e_devices s) ?i = Some d" "device_or_initial s ?i arrival = d"
    by (cases "hm_get (e_devices s) ?i") (auto simp: device_or_initial_def initial_device_def)
  have "dep \<in> set (of_device ?i log)"
    using reachable_device_inv [OF assms(1) d(1)] dep(1) d(2)
    by (auto simp: device_inv_def retains_def dest: in_set_dropD)
  then have "dep \<in> set log" "tr_device_id dep = ?i" by (simp_all add: of_device_def)
  moreover have "tr_device_id t = ?i"
    using ingest_device_emitted [OF absorbed(2)] assms(3) ev by (simp add: emitted_from_def)
  moreover have "pe_observed_at e \<le> tr_occurred_at dep \<and> (if pe_kind e = Traffic
       then tr_to t = Online \<and> tr_occurred_at dep - pe_observed_at e < pc_online_window cfg
       else tr_to t = Quiet \<and> is_support_kind (pe_kind e)
            \<and> is_some_and (pe_valid_until e) (\<lambda>u. tr_occurred_at dep \<le> u))"
    using dep(6) by (auto simp: support_at_def is_support_kind_def split: if_splits)
  ultimately show ?thesis
    using dep d s' by (intro bexI [of _ dep]) (auto simp: state_of_def)
qed (use assms in \<open>auto simp: ingest_events_def\<close>)

theorem corrections_are_justified_witness:
  "\<exists>dep \<in> set (snd (sample_run visit)). tr_id dep = 2 \<and> tr_to dep = Offline \<and>
     seconds 200 - tr_occurred_at dep \<le> minutes 5"
proof -
  let ?r = "ingest_events utc_calendar (fst (sample_run visit)) late_lease (seconds 200)"
  have run: "?r = (Inr [corrected], snd ?r)" using corrects by (metis prod.collapse)
  have "tr_correction_of corrected = Some 2" by code_simp
  from corrections_are_justified [OF sample_reachable run _ this]
  show ?thesis by (auto simp: sample_config_def default_presence_config_def)
qed

section \<open>Events and replay\<close>

text \<open>C11. Bounded replay never skips: asked for a known device's events after a cursor, the
  engine answers \<open>CursorExpired\<close> exactly when an event after the cursor was evicted, and
  otherwise returns exactly the device's events after the cursor, in order, out of everything
  the engine ever emitted.\<close>

theorem replay_is_exact:
  assumes "presence_reachable cal cfg (s, log)" and "hm_get (e_devices s) i = Some d"
  shows "domain_events_since s i cursor =
    (if \<exists>t \<in> set (of_device i log). t \<notin> set (d_history d) \<and> cursor < tr_id t
     then Inl CursorExpired
     else Inr (map changed_from_transition (filter (\<lambda>t. cursor < tr_id t) (of_device i log))))"
proof -
  have inc: "increasing tr_id (of_device i log)"
    using presence_system.reachable_inv [OF assms(1)] by (auto simp: engine_inv_def intro: increasing_of_device)
  have ret: "retains (of_device i log) d"
    using reachable_device_inv [OF assms] by (simp add: device_inv_def)
  show ?thesis
  proof (cases "\<exists>t \<in> set (of_device i log). t \<notin> set (d_history d) \<and> cursor < tr_id t")
    case True
    with retains_forgotten [OF inc ret] assms(2) show ?thesis by (simp add: domain_events_since_def)
  next
    case False
    with retains_forgotten [OF inc ret, of cursor] retains_replay [OF inc ret False] assms(2)
    show ?thesis by (simp add: domain_events_since_def)
  qed
qed

theorem replay_is_exact_witness:
  "domain_events_since (fst (sample_run visit)) 7 1 = Inr [changed_from_transition departed]"
proof -
  let ?s = "fst (sample_run visit)"
  obtain d where d: "hm_get (e_devices ?s) 7 = Some d" "d_history d = [joined, departed]"
  proof -
    have "map_option d_history (hm_get (e_devices ?s) 7) = Some [joined, departed]" by code_simp
    then show thesis using that by auto
  qed
  have log: "of_device 7 (snd (sample_run visit)) = [joined, departed]" by code_simp
  have ids: "tr_id joined = 1" "tr_id departed = 2"
    by (simp_all add: joined_def departed_def sample_transition_def transition_of_def)
  show ?thesis
    using replay_is_exact [OF sample_reachable d(1), of 1] d(2) log ids by simp
qed

text \<open>The public event loses nothing: two different transitions never give the same
  \<open>PresenceChanged\<close> event.\<close>

theorem events_are_lossless: "inj changed_from_transition"
proof (rule injI)
  fix t t' assume eq: "changed_from_transition t = changed_from_transition t'"
  then have "tr_trigger t = tr_trigger t'"
    by (intro presence_trigger.equality)
      (auto simp: changed_from_transition_def intro: kind_as_str_inject)
  with eq show "t = t'"
    by (intro presence_transition.equality) (auto simp: changed_from_transition_def)
qed

section \<open>Redelivery\<close>

text \<open>At-least-once delivery is safe: evidence that the retention rule keeps and that is
  newer than every departure reported for its device is absorbed once. Delivering it a second
  time at the same arrival returns no event and leaves the engine unchanged.\<close>

theorem redelivery_is_ignored:
  assumes "presence_reachable cal cfg (s, log)"
    and "ingest_events cal s e arrival = (Inr evs, s')"
    and "semantically_retained e arrival cfg"
    and "\<forall>dep \<in> set log. tr_device_id dep = pe_device_id e \<and> tr_to dep = Offline \<longrightarrow>
           tr_occurred_at dep < pe_observed_at e"
  shows "ingest_events cal s' e arrival = (Inr [], s')"
proof (cases rule: ingest_authorized_cases [of cal s e arrival False])
  case (absorbed r events d')
  let ?i = "pe_device_id e" and ?d0 = "device_or_initial s (pe_device_id e) arrival"
  note adm = admit_SomeD [OF absorbed(1)]
  note inv = presence_system.reachable_inv [OF assms(1)]
  have cfg: "e_cfg s = cfg" using inv by (simp add: engine_inv_def)
  have s': "s' = with_device s ?i d' (e_next_transition s + of_nat (length events))"
    using absorbed(3) assms(2) by (auto simp: ingest_events_def)
  have d0: "device_inv cfg ?i (of_device ?i log) ?d0" by (rule device_or_initial_inv [OF inv])
  have fresh: "\<not> stale_control ?d0 e"
    using adm(5) by (cases "hm_get (e_devices s) ?i") (auto simp: device_or_initial_def)
  have after: "\<forall>dep \<in> set (d_history ?d0). tr_to dep = Offline \<longrightarrow> tr_occurred_at dep < pe_observed_at e"
    using d0 assms(4) by (fastforce simp: device_inv_def retains_def of_device_def dest: in_set_dropD)
  have r: r using adm(3) assms(3) cfg by simp
  have "e \<in> set (d_evidence d') \<and> d_last_evaluation d' = arrival"
  proof (rule ingest_device_parts [OF absorbed(2)])
    fix d k late ev1 d1
    assume ab: "absorb (e_cfg s) e arrival r ?d0 = (d, k, late)"
      and co: "correct_device (e_cfg s) ?i arrival e (e_next_transition s) k d = (ev1, d1)"
      and parts: "late \<Longrightarrow> ev1 = [] \<Longrightarrow> events = [] \<and> d' = d"
        "\<not> (late \<and> ev1 = []) \<Longrightarrow> \<exists>ev2. settle cal (e_cfg s) ?i arrival e
           (e_next_transition s + of_nat (length ev1)) d1 = (ev2, d') \<and> events = ev1 @ ev2"
    have "e \<in> set (d_evidence d)"
      using absorb_retains [OF ab _ fresh r after] d0 by (simp add: device_inv_def)
    moreover have "d_last_evaluation d = arrival" using absorb_frame(4) [OF ab] .
    ultimately show ?thesis
      using parts settle_frame(1,2) correct_frame(1,2) [OF co] by (cases "late \<and> ev1 = []") metis+
  qed
  moreover have "validate cal s' e arrival False = Inr ()"
    using adm(1) validate_cong [of s' s] s' by simp
  ultimately have "admit cal s' e arrival False = Inr None"
    using s' by (simp add: admit_def)
  then show ?thesis by (simp add: ingest_events_def ingest_authorized_def)
qed (use assms in \<open>auto simp: ingest_events_def\<close>)

theorem redelivery_is_ignored_witness:
  "ingest_events utc_calendar
     (snd (ingest_events utc_calendar (fst (sample_run visit)) (sighting Traffic 150 None) (seconds 150)))
     (sighting Traffic 150 None) (seconds 150)
   = (Inr [], snd (ingest_events utc_calendar (fst (sample_run visit)) (sighting Traffic 150 None) (seconds 150)))"
proof -
  let ?r = "ingest_events utc_calendar (fst (sample_run visit)) (sighting Traffic 150 None) (seconds 150)"
  have "fst ?r = Inr (projr (fst ?r))" by code_simp
  then have run: "?r = (Inr (projr (fst ?r)), snd ?r)" by (metis prod.collapse)
  have "semantically_retained (sighting Traffic 150 None) (seconds 150) sample_config" by code_simp
  moreover have "\<forall>dep \<in> set (snd (sample_run visit)). tr_device_id dep = pe_device_id (sighting Traffic 150 None)
      \<and> tr_to dep = Offline \<longrightarrow> tr_occurred_at dep < pe_observed_at (sighting Traffic 150 None)"
    by code_simp
  ultimately show ?thesis by (rule redelivery_is_ignored [OF sample_reachable run])
qed

end
