(* ===== verification/Presence_Checkpoint.thy ===== *)
theory Presence_Checkpoint
  imports Presence_Properties
begin

text \<open>
  The checkpoint format of the presence engine: \<open>checkpoint\<close> writes every device sorted by
  the printed identifier, \<open>from_checkpoint\<close> validates and rebuilds the engine. The loops of
  \<open>from_checkpoint\<close> are the recursive functions below, one per loop, with the tests in the
  order of the source and the \<open>?\<close> on a calendar overflow as its own error. \<open>to_string\<close> is
  the uuid library's printing of an identifier.
\<close>

section \<open>The format\<close>

record checkpoint_device =
  ck_device_id :: device_id
  ck_state :: presence_state
  ck_evidence :: "presence_evidence list"
  ck_history :: "presence_transition list"
  ck_last_evaluation :: instant
  ck_ever_supported :: bool
  ck_blocked :: bool
  ck_impaired :: bool
  ck_contradictory :: bool
  ck_enforcement_clock :: "instant option"
  ck_impairment_clock :: "instant option"
  ck_contradiction_clock :: "instant option"
  ck_evicted_through :: "u64 option"

record presence_checkpoint =
  pcp_version :: u16
  pcp_devices :: "checkpoint_device list"
  pcp_next_transition :: u64

definition checkpoint_of_device :: "device_id \<times> device_presence \<Rightarrow> checkpoint_device" where
  "checkpoint_of_device x = (case x of (i, d) \<Rightarrow>
     \<lparr> ck_device_id = i, ck_state = d_state d, ck_evidence = d_evidence d,
       ck_history = d_history d, ck_last_evaluation = d_last_evaluation d,
       ck_ever_supported = d_ever_supported d, ck_blocked = d_blocked d,
       ck_impaired = d_impaired d, ck_contradictory = d_contradictory d,
       ck_enforcement_clock = d_enforcement_clock d, ck_impairment_clock = d_impairment_clock d,
       ck_contradiction_clock = d_contradiction_clock d,
       ck_evicted_through = d_evicted_through d \<rparr>)"

definition device_of_checkpoint :: "checkpoint_device \<Rightarrow> device_presence" where
  "device_of_checkpoint x =
     \<lparr> d_state = ck_state x, d_evidence = ck_evidence x, d_history = ck_history x,
       d_last_evaluation = ck_last_evaluation x, d_ever_supported = ck_ever_supported x,
       d_blocked = ck_blocked x, d_impaired = ck_impaired x,
       d_contradictory = ck_contradictory x, d_enforcement_clock = ck_enforcement_clock x,
       d_impairment_clock = ck_impairment_clock x,
       d_contradiction_clock = ck_contradiction_clock x,
       d_evicted_through = ck_evicted_through x \<rparr>"

definition checkpoint :: "(device_id \<Rightarrow> string) \<Rightarrow> presence_engine \<Rightarrow> presence_checkpoint" where
  "checkpoint to_string s =
     \<lparr> pcp_version = 1,
       pcp_devices = sort_key (\<lambda>d. to_string (ck_device_id d))
                       (map checkpoint_of_device (e_devices s)),
       pcp_next_transition = e_next_transition s \<rparr>"

section \<open>Validation\<close>

text \<open>The condition of the first test of the history loop (lines 288 to 297).\<close>

definition history_entry_bad ::
  "calendar \<Rightarrow> presence_config \<Rightarrow> checkpoint_device \<Rightarrow> u64 set \<Rightarrow> u64 \<Rightarrow> presence_state option
     \<Rightarrow> presence_transition \<Rightarrow> presence_error + bool" where
  "history_entry_bad cal cfg x ids last_id previous t =
     (if tr_id t = 0 \<or> tr_id t \<in> ids \<or> tr_id t \<le> last_id \<or> tr_device_id t \<noteq> ck_device_id x
         \<or> is_some_and previous (\<lambda>state. tr_from t \<noteq> state)
      then Inr True
      else case cal (ck_last_evaluation x) (pc_future_skew cfg) of
          None \<Rightarrow> Inl (InvalidCheckpoint ''time'')
        | Some limit \<Rightarrow> Inr (limit < tr_occurred_at t))"

text \<open>The condition of the second test (lines 303 to 319).\<close>

definition trigger_bad ::
  "calendar \<Rightarrow> presence_config \<Rightarrow> presence_trigger \<Rightarrow> presence_error + bool" where
  "trigger_bad cal cfg g =
     (if pt_source g = [] \<or> pc_max_source_len cfg < length (pt_source g)
         \<or> pt_source g \<notin> set (pc_trusted_sources cfg) \<or> pt_kind g = Evaluation
         \<or> (pt_kind g = NeighborCache \<and> pt_valid_until g = None)
         \<or> pt_arrival_at g < pt_observed_at g
         \<or> is_some_and (pt_valid_until g) (\<lambda>v. v < pt_observed_at g)
      then Inr True
      else case cal (pt_arrival_at g) (pc_future_skew cfg) of
          None \<Rightarrow> Inl (InvalidCheckpoint ''time'')
        | Some limit \<Rightarrow> Inr (limit < pt_observed_at g))"

text \<open>
  The history loop: the identifiers seen so far (over all devices), the largest one, and
  the \<open>retained\<close> map of this device.
\<close>

fun check_history ::
  "calendar \<Rightarrow> presence_config \<Rightarrow> checkpoint_device \<Rightarrow> presence_transition list \<Rightarrow> u64
     \<Rightarrow> presence_state option \<Rightarrow> u64 set \<times> u64 \<Rightarrow> (u64, presence_transition) hmap
     \<Rightarrow> presence_error + (u64 set \<times> u64) \<times> (u64, presence_transition) hmap" where
  "check_history cal cfg x [] last_id previous (ids, max_id) retained = Inr ((ids, max_id), retained)"
| "check_history cal cfg x (t # ts) last_id previous (ids, max_id) retained =
     (case history_entry_bad cal cfg x ids last_id previous t of
        Inl err \<Rightarrow> Inl err
      | Inr True \<Rightarrow> Inl (InvalidCheckpoint ''history'')
      | Inr False \<Rightarrow>
          (case trigger_bad cal cfg (tr_trigger t) of
             Inl err \<Rightarrow> Inl err
           | Inr True \<Rightarrow> Inl (InvalidCheckpoint ''trigger'')
           | Inr False \<Rightarrow>
               check_history cal cfg x ts (tr_id t) (Some (tr_to t))
                 (insert (tr_id t) ids, max max_id (tr_id t)) (hm_insert (tr_id t) t retained)))"

definition correction_targets_ok ::
  "(u64, presence_transition) hmap \<Rightarrow> presence_transition list \<Rightarrow> bool" where
  "correction_targets_ok retained history =
     list_all (\<lambda>t. case tr_correction_of t of
         None \<Rightarrow> True
       | Some target \<Rightarrow>
           (case hm_get retained target of
              None \<Rightarrow> False
            | Some target' \<Rightarrow> tr_id target' < tr_id t \<and> tr_to target' = Offline)) history"

fun check_evidence ::
  "presence_config \<Rightarrow> checkpoint_device \<Rightarrow> presence_evidence list \<Rightarrow> presence_error + unit" where
  "check_evidence cfg x [] = Inr ()"
| "check_evidence cfg x (e # es) =
     (if pe_device_id e \<noteq> ck_device_id x \<or> pe_source e = []
         \<or> pc_max_source_len cfg < length (pe_source e) \<or> pe_kind e = Evaluation
         \<or> (pe_kind e = NeighborCache \<and> pe_valid_until e = None)
         \<or> is_some_and (pe_valid_until e) (\<lambda>v. v < pe_observed_at e)
      then Inl (InvalidCheckpoint ''evidence'')
      else if pe_source e \<notin> set (pc_trusted_sources cfg) then Inl (InvalidCheckpoint ''source'')
      else if ck_last_evaluation x < pe_observed_at e
              \<or> is_some_and (pe_valid_until e) (\<lambda>v. v < pe_observed_at e)
      then Inl (InvalidCheckpoint ''evidence time'')
      else check_evidence cfg x es)"

definition cursor_bad :: "u64 \<Rightarrow> checkpoint_device \<Rightarrow> bool" where
  "cursor_bad next_transition x \<longleftrightarrow>
     is_some_and (ck_evicted_through x) (\<lambda>v. next_transition \<le> v)
     \<or> (case (ck_evicted_through x, ck_history x) of
          (Some evicted, first # _) \<Rightarrow> tr_id first \<le> evicted
        | _ \<Rightarrow> False)"

definition enforcement_trigger_bad :: "checkpoint_device \<Rightarrow> bool" where
  "enforcement_trigger_bad x =
     list_ex (\<lambda>t. pt_kind (tr_trigger t) \<in> {EnforcementBlocked, EnforcementUnblocked}
       \<and> \<not> list_ex (\<lambda>e. pe_source e = pt_source (tr_trigger t) \<and> pe_kind e = pt_kind (tr_trigger t)
               \<and> pe_observed_at e = pt_observed_at (tr_trigger t)
               \<and> pe_valid_until e = pt_valid_until (tr_trigger t)
               \<and> pe_observed_at e
                   \<le> (case snd (control_state (ck_evidence x) EnforcementBlocked EnforcementUnblocked) of
                        None \<Rightarrow> pe_observed_at e | Some clock \<Rightarrow> clock)) (ck_evidence x))
       (ck_history x)"

definition enforcement_evidence_bad :: "checkpoint_device \<Rightarrow> bool" where
  "enforcement_evidence_bad x =
     list_ex (\<lambda>e. pe_kind e \<in> {EnforcementBlocked, EnforcementUnblocked}
       \<and> \<not> list_ex (\<lambda>t. pt_source (tr_trigger t) = pe_source e \<and> pt_kind (tr_trigger t) = pe_kind e
               \<and> pt_observed_at (tr_trigger t) = pe_observed_at e
               \<and> pt_valid_until (tr_trigger t) = pe_valid_until e) (ck_history x)
       \<and> \<not> (ck_evicted_through x \<noteq> None \<and> ck_enforcement_clock x = Some (pe_observed_at e)
             \<and> pe_valid_until e = None)) (ck_evidence x)"

text \<open>The checks of one device after its history loop (lines 324 to 432), in order.\<close>

definition check_device_rest ::
  "presence_config \<Rightarrow> u64 \<Rightarrow> checkpoint_device \<Rightarrow> (u64, presence_transition) hmap
     \<Rightarrow> presence_error + unit" where
  "check_device_rest cfg next_transition x retained =
     (if \<not> correction_targets_ok retained (ck_history x)
      then Inl (InvalidCheckpoint ''correction target'')
      else if ck_history x \<noteq> [] \<and> tr_to (last (ck_history x)) \<noteq> ck_state x
      then Inl (InvalidCheckpoint ''final state'')
      else case check_evidence cfg x (ck_evidence x) of
          Inl err \<Rightarrow> Inl err
        | Inr _ \<Rightarrow>
            if conflicting_controls (ck_evidence x) EnforcementBlocked EnforcementUnblocked
               \<or> conflicting_controls (ck_evidence x) SensorImpaired SensorRecovered
               \<or> conflicting_controls (ck_evidence x) Contradiction ContradictionCleared
            then Inl (InvalidCheckpoint ''conflicting controls'')
            else if cursor_bad next_transition x then Inl (InvalidCheckpoint ''cursor'')
            else if (ck_blocked x, ck_enforcement_clock x)
                      \<noteq> control_state (ck_evidence x) EnforcementBlocked EnforcementUnblocked
                    \<or> (ck_impaired x, ck_impairment_clock x)
                      \<noteq> control_state (ck_evidence x) SensorImpaired SensorRecovered
                    \<or> (ck_contradictory x, ck_contradiction_clock x)
                      \<noteq> control_state (ck_evidence x) Contradiction ContradictionCleared
            then Inl (InvalidCheckpoint ''control state'')
            else if enforcement_trigger_bad x then Inl (InvalidCheckpoint ''enforcement trigger'')
            else if enforcement_evidence_bad x then Inl (InvalidCheckpoint ''enforcement evidence'')
            else Inr ())"

text \<open>The device loop.\<close>

fun restore_devices ::
  "calendar \<Rightarrow> presence_config \<Rightarrow> u64 \<Rightarrow> checkpoint_device list
     \<Rightarrow> (device_id, device_presence) hmap \<Rightarrow> u64 set \<times> u64
     \<Rightarrow> presence_error + (device_id, device_presence) hmap \<times> u64" where
  "restore_devices cal cfg next_transition [] devices (ids, max_id) = Inr (devices, max_id)"
| "restore_devices cal cfg next_transition (x # xs) devices (ids, max_id) =
     (if hm_contains devices (ck_device_id x)
         \<or> pc_max_evidence_per_device cfg < length (ck_evidence x)
         \<or> pc_max_history_per_device cfg < length (ck_history x)
      then Inl (InvalidCheckpoint ''duplicate or capacity'')
      else case check_history cal cfg x (ck_history x) 0
                  (if ck_evicted_through x \<noteq> None then None else Some Unknown) (ids, max_id) [] of
          Inl err \<Rightarrow> Inl err
        | Inr (seen, retained) \<Rightarrow>
            (case check_device_rest cfg next_transition x retained of
               Inl err \<Rightarrow> Inl err
             | Inr _ \<Rightarrow>
                 restore_devices cal cfg next_transition xs
                   (hm_insert (ck_device_id x) (device_of_checkpoint x) devices) seen))"

definition from_checkpoint ::
  "calendar \<Rightarrow> presence_config \<Rightarrow> presence_checkpoint \<Rightarrow> presence_error + presence_engine" where
  "from_checkpoint cal cfg c =
     (case validate_config cfg of
        Inl err \<Rightarrow> Inl err
      | Inr _ \<Rightarrow>
          if pcp_version c \<noteq> 1 \<or> pcp_next_transition c = 0
             \<or> pc_max_devices cfg < length (pcp_devices c)
          then Inl (InvalidCheckpoint ''version, sequence, or capacity'')
          else case restore_devices cal cfg (pcp_next_transition c) (pcp_devices c) [] ({}, 0) of
              Inl err \<Rightarrow> Inl err
            | Inr (devices, max_id) \<Rightarrow>
                if pcp_next_transition c \<le> max_id then Inl (InvalidCheckpoint ''sequence'')
                else Inr \<lparr> e_cfg = cfg, e_devices = devices,
                           e_next_transition = pcp_next_transition c \<rparr>)"

section \<open>What restoring establishes\<close>

lemma checkpoint_of_device_of_checkpoint [simp]:
  "checkpoint_of_device (ck_device_id x, device_of_checkpoint x) = x"
  by (simp add: checkpoint_of_device_def device_of_checkpoint_def)

lemma device_of_checkpoint_of_device [simp]:
  "device_of_checkpoint (checkpoint_of_device (i, d)) = d"
  "ck_device_id (checkpoint_of_device (i, d)) = i"
  by (simp_all add: checkpoint_of_device_def device_of_checkpoint_def)

text \<open>What the two history tests rule out.\<close>

definition history_entry_ok :: "presence_config \<Rightarrow> device_id \<Rightarrow> presence_transition \<Rightarrow> bool" where
  "history_entry_ok cfg i t \<longleftrightarrow> tr_device_id t = i
     \<and> pt_source (tr_trigger t) \<in> set (pc_trusted_sources cfg) \<and> pt_kind (tr_trigger t) \<noteq> Evaluation"

lemma check_history_Cons:
  assumes "check_history cal cfg x (t # h) last_id previous (ids, m) retained = Inr res"
  shows "check_history cal cfg x h (tr_id t) (Some (tr_to t))
      (insert (tr_id t) ids, max m (tr_id t)) (hm_insert (tr_id t) t retained) = Inr res"
    and "last_id < tr_id t" and "tr_id t \<notin> ids" and "history_entry_ok cfg (ck_device_id x) t"
  using assms
  by (auto simp: history_entry_bad_def trigger_bad_def history_entry_ok_def not_le
      split: sum.splits bool.splits if_splits option.splits)

lemma check_history_Inr:
  assumes "check_history cal cfg x h last_id previous (ids, m) retained = Inr ((ids', m'), retained')"
  shows "increasing tr_id h \<and> m \<le> m' \<and> ids' = ids \<union> tr_id ` set h \<and>
    (\<forall>t \<in> set h. last_id < tr_id t \<and> tr_id t \<le> m' \<and> tr_id t \<notin> ids
       \<and> history_entry_ok cfg (ck_device_id x) t)"
  using assms
proof (induction h arbitrary: last_id previous ids m retained)
  case (Cons t h)
  note step = check_history_Cons [OF Cons.prems]
  from Cons.IH [OF step(1)] step(2-4) show ?case
    by (auto simp: increasing_def dest: order_less_trans)
qed simp

lemma check_evidence_Inr:
  "check_evidence cfg x es = Inr () \<Longrightarrow> \<forall>e \<in> set es. evidence_ok cfg (ck_device_id x) e
     \<and> pe_observed_at e \<le> ck_last_evaluation x"
proof (induction es)
  case (Cons e es)
  then have "check_evidence cfg x es = Inr ()" "evidence_ok cfg (ck_device_id x) e"
    "pe_observed_at e \<le> ck_last_evaluation x"
    by (simp_all add: evidence_ok_def split: if_split_asm)
  with Cons.IH show ?case by simp
qed simp

definition restored_ok :: "presence_config \<Rightarrow> u64 \<Rightarrow> device_id \<Rightarrow> device_presence \<Rightarrow> bool" where
  "restored_ok cfg max_id i d \<longleftrightarrow>
     length (d_evidence d) \<le> pc_max_evidence_per_device cfg
     \<and> length (d_history d) \<le> pc_max_history_per_device cfg
     \<and> (\<forall>e \<in> set (d_evidence d). evidence_ok cfg i e) \<and> controls_ok d
     \<and> increasing tr_id (d_history d)
     \<and> (\<forall>t \<in> set (d_history d). 0 < tr_id t \<and> tr_id t \<le> max_id \<and> tr_device_id t = i)
     \<and> (d_history d \<noteq> [] \<longrightarrow> d_state d = tr_to (last (d_history d)))"

lemma check_device_restored:
  assumes "check_history cal cfg x (ck_history x) 0 previous (ids, m) [] = Inr ((ids', m'), retained)"
    and "check_device_rest cfg next_transition x retained = Inr ()"
    and "length (ck_evidence x) \<le> pc_max_evidence_per_device cfg"
    and "length (ck_history x) \<le> pc_max_history_per_device cfg" and "m' \<le> bound"
  shows "restored_ok cfg bound (ck_device_id x) (device_of_checkpoint x)"
proof -
  have rest: "check_evidence cfg x (ck_evidence x) = Inr ()"
    "(ck_blocked x, ck_enforcement_clock x) = control_state (ck_evidence x) EnforcementBlocked EnforcementUnblocked"
    "(ck_impaired x, ck_impairment_clock x) = control_state (ck_evidence x) SensorImpaired SensorRecovered"
    "(ck_contradictory x, ck_contradiction_clock x) = control_state (ck_evidence x) Contradiction ContradictionCleared"
    "ck_history x \<noteq> [] \<longrightarrow> tr_to (last (ck_history x)) = ck_state x"
    using assms(2) by (auto simp: check_device_rest_def split: if_splits sum.splits)
  have "controls_ok (device_of_checkpoint x)"
    using rest(2-4) by (simp add: controls_ok_def enforcement.tracks_def impairment.tracks_def
        contradiction.tracks_def device_of_checkpoint_def)
  moreover have "increasing tr_id (ck_history x) \<and> (\<forall>t \<in> set (ck_history x).
      0 < tr_id t \<and> tr_id t \<le> bound \<and> tr_device_id t = ck_device_id x)"
    using check_history_Inr [OF assms(1)] assms(5) by (auto simp: history_entry_ok_def)
  ultimately show ?thesis
    using check_evidence_Inr [OF rest(1)] rest(5) assms(3,4)
    by (auto simp: restored_ok_def device_of_checkpoint_def)
qed

lemma restore_devices_Cons:
  assumes "restore_devices cal cfg n (x # xs) devs (ids, m) = Inr res"
  obtains ids1 m1 retained where "check_history cal cfg x (ck_history x) 0
        (if ck_evicted_through x \<noteq> None then None else Some Unknown) (ids, m) [] = Inr ((ids1, m1), retained)"
    and "check_device_rest cfg n x retained = Inr ()" and "\<not> hm_contains devs (ck_device_id x)"
    and "length (ck_evidence x) \<le> pc_max_evidence_per_device cfg"
    and "length (ck_history x) \<le> pc_max_history_per_device cfg"
    and "restore_devices cal cfg n xs (devs @ [(ck_device_id x, device_of_checkpoint x)]) (ids1, m1) = Inr res"
  using assms by (auto simp: hm_insert_absent split: if_splits sum.splits)

lemma restore_devices_Inr:
  assumes "restore_devices cal cfg n xs devs (ids, m) = Inr (devs', m')" and "hm_ok devs"
  shows "devs' = devs @ map (\<lambda>x. (ck_device_id x, device_of_checkpoint x)) xs \<and> hm_ok devs' \<and> m \<le> m'
    \<and> (\<forall>x \<in> set xs. restored_ok cfg m' (ck_device_id x) (device_of_checkpoint x))"
  using assms
proof (induction xs arbitrary: devs ids m)
  case (Cons x xs)
  show ?case
  proof (rule restore_devices_Cons [OF Cons.prems(1)])
    fix ids1 m1 retained
    assume hist: "check_history cal cfg x (ck_history x) 0
        (if ck_evicted_through x \<noteq> None then None else Some Unknown) (ids, m) [] = Inr ((ids1, m1), retained)"
      and rest: "check_device_rest cfg n x retained = Inr ()"
      and absent: "\<not> hm_contains devs (ck_device_id x)"
      and caps: "length (ck_evidence x) \<le> pc_max_evidence_per_device cfg"
        "length (ck_history x) \<le> pc_max_history_per_device cfg"
      and rec: "restore_devices cal cfg n xs (devs @ [(ck_device_id x, device_of_checkpoint x)]) (ids1, m1)
        = Inr (devs', m')"
    have "hm_ok (devs @ [(ck_device_id x, device_of_checkpoint x)])"
      using hm_ok_insert [OF Cons.prems(2)] hm_insert_absent [OF absent] by metis
    note ih = Cons.IH [OF rec this]
    from check_history_Inr [OF hist] check_device_restored [OF hist rest caps, where bound = m'] ih show ?thesis
      by auto
  qed
qed simp

lemma from_checkpoint_Inr:
  assumes "from_checkpoint cal cfg c = Inr s"
  obtains m where "validate_config cfg = Inr ()" and "pcp_version c = 1"
    and "length (pcp_devices c) \<le> pc_max_devices cfg" and "m < pcp_next_transition c"
    and "restore_devices cal cfg (pcp_next_transition c) (pcp_devices c) [] ({}, 0) = Inr (e_devices s, m)"
    and "s = \<lparr> e_cfg = cfg, e_devices = e_devices s, e_next_transition = pcp_next_transition c \<rparr>"
proof -
  have valid: "validate_config cfg = Inr ()"
    using assms by (cases "validate_config cfg") (auto simp: from_checkpoint_def)
  with assms obtain devs m where
    "restore_devices cal cfg (pcp_next_transition c) (pcp_devices c) [] ({}, 0) = Inr (devs, m)"
    by (auto simp: from_checkpoint_def split: if_splits sum.splits)
  with valid assms show thesis
    by (intro that [of m]) (auto simp: from_checkpoint_def split: if_splits)
qed

lemma mset_sorted_checkpoint:
  "mset (map (\<lambda>x. (ck_device_id x, device_of_checkpoint x)) (pcp_devices (checkpoint to_string s)))
     = mset (e_devices s)"
proof -
  have "(ck_device_id (checkpoint_of_device x), device_of_checkpoint (checkpoint_of_device x)) = x" for x
    by (cases x) simp
  then show ?thesis by (simp add: checkpoint_def multiset.map_comp comp_def)
qed

lemma reachable_hm_ok: "presence_reachable cal cfg (s, log) \<Longrightarrow> hm_ok (e_devices s)"
  using presence_system.reachable_inv [of cfg cal "(s, log)"] by (simp add: engine_inv_def)

text \<open>The finding runs: a verified block and unblock; a visit that ends in Quiet by the timer.\<close>

definition unblocked_visit :: "presence_call list" where
  "unblocked_visit = blocked_visit @ [Enforce 7 False ''sensor-a'' (seconds 220) (seconds 220)]"

definition quiet_visit :: "presence_call list" where
  "quiet_visit = take 2 visit @
     [Observe (sighting Lease 102 (Some 400)) (seconds 102), Tick 7 (seconds 140)]"

definition unproven_blocked :: presence_checkpoint where
  "unproven_blocked =
     \<lparr> pcp_version = 1,
       pcp_devices = [checkpoint_of_device (7, (initial_device 0) \<lparr> d_state := Blocked \<rparr>)],
       pcp_next_transition = 1 \<rparr>"

section \<open>Properties\<close>

text \<open>C10. Checkpoints round trip. Writing the checkpoint of a restored engine gives back the
  checkpoint it was restored from, with the devices sorted; and an engine that restores from
  its own checkpoint finds every device and the transition counter exactly as they were,
  whatever the iteration order of the map was.\<close>

theorem checkpoint_round_trip:
  "(from_checkpoint cal cfg c = Inr s \<longrightarrow>
      checkpoint to_string s
        = c \<lparr> pcp_devices := sort_key (\<lambda>d. to_string (ck_device_id d)) (pcp_devices c) \<rparr>)
   \<and> (from_checkpoint cal cfg (checkpoint to_string s0) = Inr s \<and> hm_ok (e_devices s0) \<longrightarrow>
      (\<forall>i. hm_get (e_devices s) i = hm_get (e_devices s0) i)
      \<and> e_next_transition s = e_next_transition s0)"
proof (intro conjI impI)
  assume run: "from_checkpoint cal cfg c = Inr s"
  obtain m where m: "pcp_version c = 1"
    "restore_devices cal cfg (pcp_next_transition c) (pcp_devices c) [] ({}, 0) = Inr (e_devices s, m)"
    "s = \<lparr> e_cfg = cfg, e_devices = e_devices s, e_next_transition = pcp_next_transition c \<rparr>"
    by (rule from_checkpoint_Inr [OF run])
  have "e_devices s = map (\<lambda>x. (ck_device_id x, device_of_checkpoint x)) (pcp_devices c)"
    using restore_devices_Inr [OF m(2)] by simp
  moreover have "e_next_transition s = pcp_next_transition c" using m(3) by (metis presence_engine.select_convs(3))
  ultimately show "checkpoint to_string s
      = c \<lparr> pcp_devices := sort_key (\<lambda>d. to_string (ck_device_id d)) (pcp_devices c) \<rparr>"
    using m(1) by (simp add: checkpoint_def comp_def)
next
  assume run: "from_checkpoint cal cfg (checkpoint to_string s0) = Inr s \<and> hm_ok (e_devices s0)"
  let ?c = "checkpoint to_string s0"
  obtain m where m:
    "restore_devices cal cfg (pcp_next_transition ?c) (pcp_devices ?c) [] ({}, 0) = Inr (e_devices s, m)"
    "s = \<lparr> e_cfg = cfg, e_devices = e_devices s, e_next_transition = pcp_next_transition ?c \<rparr>"
    using run by (auto elim: from_checkpoint_Inr)
  have "e_devices s = map (\<lambda>x. (ck_device_id x, device_of_checkpoint x)) (pcp_devices ?c)"
    using restore_devices_Inr [OF m(1)] by simp
  then have "mset (e_devices s0) = mset (e_devices s)" using mset_sorted_checkpoint by metis
  from hm_get_mset [OF this] run show "\<forall>i. hm_get (e_devices s) i = hm_get (e_devices s0) i" by simp
  show "e_next_transition s = e_next_transition s0"
    using m(2) by (metis checkpoint_def presence_checkpoint.select_convs(3) presence_engine.select_convs(3))
qed

theorem checkpoint_round_trip_witness:
  "\<exists>s. from_checkpoint utc_calendar sample_config (checkpoint (\<lambda>_. ''id'') (fst (sample_run visit))) = Inr s
     \<and> hm_get (e_devices s) 7 = hm_get (e_devices (fst (sample_run visit))) 7 \<and> e_next_transition s = 3"
proof -
  let ?s0 = "fst (sample_run visit)"
  let ?r = "from_checkpoint utc_calendar sample_config (checkpoint (\<lambda>_. ''id'') ?s0)"
  have "isl ?r = False" by code_simp
  then obtain s where s: "?r = Inr s" by (cases ?r) auto
  have ok: "hm_ok (e_devices ?s0)" by (rule reachable_hm_ok [OF sample_reachable])
  have next3: "e_next_transition ?s0 = 3" by code_simp
  from checkpoint_round_trip [of utc_calendar sample_config "checkpoint (\<lambda>_. ''id'') ?s0" s "\<lambda>_. ''id''" ?s0]
    s ok next3 show ?thesis by auto
qed

text \<open>Restoring validates: an engine that \<open>from_checkpoint\<close> accepts has distinct devices
  within the capacity, and for each of them bounded, trusted evidence about that device,
  flags and clocks that follow its latest control evidence, and a history of strictly
  increasing positive transition numbers below the engine's counter, all of that device,
  whose last entry is the current state.\<close>

theorem restored_engine_is_valid:
  assumes "from_checkpoint cal cfg c = Inr s"
  shows "e_cfg s = cfg \<and> hm_ok (e_devices s) \<and> length (e_devices s) \<le> pc_max_devices cfg
    \<and> (\<forall>i d. hm_get (e_devices s) i = Some d \<longrightarrow>
        length (d_evidence d) \<le> pc_max_evidence_per_device cfg
        \<and> length (d_history d) \<le> pc_max_history_per_device cfg
        \<and> (\<forall>e \<in> set (d_evidence d). pe_device_id e = i \<and> pe_source e \<in> set (pc_trusted_sources cfg)
              \<and> pe_kind e \<noteq> Evaluation)
        \<and> control_state (d_evidence d) EnforcementBlocked EnforcementUnblocked
            = (d_blocked d, d_enforcement_clock d)
        \<and> control_state (d_evidence d) SensorImpaired SensorRecovered = (d_impaired d, d_impairment_clock d)
        \<and> control_state (d_evidence d) Contradiction ContradictionCleared
            = (d_contradictory d, d_contradiction_clock d)
        \<and> increasing tr_id (d_history d)
        \<and> (\<forall>t \<in> set (d_history d). 0 < tr_id t \<and> tr_id t < e_next_transition s \<and> tr_device_id t = i)
        \<and> (d_history d \<noteq> [] \<longrightarrow> d_state d = tr_to (last (d_history d))))"
proof -
  obtain m where m: "length (pcp_devices c) \<le> pc_max_devices cfg" "m < pcp_next_transition c"
    "restore_devices cal cfg (pcp_next_transition c) (pcp_devices c) [] ({}, 0) = Inr (e_devices s, m)"
    and s: "s = \<lparr> e_cfg = cfg, e_devices = e_devices s, e_next_transition = pcp_next_transition c \<rparr>"
    by (rule from_checkpoint_Inr [OF assms])
  have fields: "e_cfg s = cfg" "e_next_transition s = pcp_next_transition c"
    using s by (metis presence_engine.select_convs(1,3))+
  note res = restore_devices_Inr [OF m(3) hm_ok_Nil]
  have "restored_ok cfg m i d" if "hm_get (e_devices s) i = Some d" for i d
    using res hm_get_SomeD [OF that] by auto
  then have "\<forall>i d. hm_get (e_devices s) i = Some d \<longrightarrow> restored_ok cfg m i d" by blast
  moreover have "hm_ok (e_devices s)" using res by blast
  moreover have "length (e_devices s) \<le> pc_max_devices cfg" using res m(1) by simp
  ultimately show ?thesis
    using fields m(2)
    by (simp add: restored_ok_def controls_ok_def enforcement.tracks_def impairment.tracks_def
        contradiction.tracks_def evidence_ok_def) (meson order_le_less_trans)
qed

theorem restored_engine_is_valid_witness:
  "\<exists>s. from_checkpoint utc_calendar sample_config (checkpoint (\<lambda>_. ''id'') (fst (sample_run visit))) = Inr s
     \<and> length (e_devices s) \<le> 4"
proof -
  let ?r = "from_checkpoint utc_calendar sample_config (checkpoint (\<lambda>_. ''id'') (fst (sample_run visit)))"
  have "isl ?r = False" by code_simp
  then obtain s where s: "?r = Inr s" by (cases ?r) auto
  from restored_engine_is_valid [OF s] s show ?thesis by (auto simp: sample_config_def)
qed

text \<open>Runs behind the reported defects. The engine does not always accept its own checkpoint. Three runs of the public
  interface end in states whose checkpoint \<open>from_checkpoint\<close> refuses: after a verified block
  and unblock, pruning has dropped the block's evidence that the history still names; after a
  transition decided by the timer, the synthetic trigger is not a trusted source; and after a
  late correction, the last history entry is not the current state. Conversely a device that
  claims to be Blocked without any evidence or history is accepted.\<close>

lemma own_checkpoint_can_be_refused:
  "from_checkpoint utc_calendar sample_config (checkpoint to_string (fst (sample_run unblocked_visit)))
     = Inl (InvalidCheckpoint ''enforcement trigger'')
   \<and> from_checkpoint utc_calendar sample_config (checkpoint to_string (fst (sample_run quiet_visit)))
     = Inl (InvalidCheckpoint ''trigger'')
   \<and> from_checkpoint utc_calendar sample_config (checkpoint to_string
       (fst (sample_run (visit @ [Observe late_lease (seconds 200)]))))
     = Inl (InvalidCheckpoint ''final state'')
   \<and> map_sum id (\<lambda>s. state_of s 7) (from_checkpoint utc_calendar sample_config unproven_blocked)
     = Inr (Some Blocked)"
  by (intro conjI; code_simp)

text \<open>
  Why the redelivery property asks for evidence newer than the departures: a late lease that
  only corrects is not stored, so delivering it again emits a second correction of the same
  departure.
\<close>

lemma late_redelivery_corrects_again:
  "map_sum id (map (\<lambda>t. (tr_id t, tr_correction_of t)))
     (fst (ingest_events utc_calendar (fst (sample_run (visit @ [Observe late_lease (seconds 200)])))
        late_lease (seconds 200)))
   = Inr [(4, Some 2)]"
  by code_simp

end
