(* ===== verification/Ieee754.thy ===== *)
theory Ieee754
  imports Prelude
begin

text \<open>
  The part of IEEE 754 binary64 arithmetic (Rust's \<open>f64\<close>) that the network doctor uses:
  classification, the partial order, \<open>total_cmp\<close>, subtraction, multiplication, division and
  conversion from integers, with round-to-nearest-even. A float is its bit pattern. A finite
  float is a whole number of units of 2 to the power -1074, so subtraction is exact integer
  arithmetic followed by one rounding, and the magnitude bits of a float are the rank of its
  magnitude. Every not-a-number result is the canonical quiet pattern.
\<close>

section \<open>Bit patterns\<close>

type_synonym f64 = "64 word"

definition f64_sign :: "f64 \<Rightarrow> bool" where
  "f64_sign a \<longleftrightarrow> 2 ^ 63 \<le> uint a"

definition f64_mag :: "f64 \<Rightarrow> int" where
  "f64_mag a = uint a mod 2 ^ 63"

definition f64_exp :: "f64 \<Rightarrow> int" where
  "f64_exp a = f64_mag a div 2 ^ 52"

definition f64_infinite_mag :: int where
  "f64_infinite_mag = 2047 * 2 ^ 52"

definition f64_make :: "bool \<Rightarrow> int \<Rightarrow> f64" where
  "f64_make sign mag = word_of_int ((if sign then 2 ^ 63 else 0) + mag)"

definition f64_is_nan :: "f64 \<Rightarrow> bool" where
  "f64_is_nan a \<longleftrightarrow> f64_infinite_mag < f64_mag a"

definition is_finite :: "f64 \<Rightarrow> bool" where
  "is_finite a \<longleftrightarrow> f64_mag a < f64_infinite_mag"

definition f64_nan :: f64 where "f64_nan = f64_make False (2047 * 2 ^ 52 + 2 ^ 51)"

section \<open>Order\<close>

text \<open>\<open>f64_key\<close> orders every float that is not a NaN; both zeros have key 0.\<close>

definition f64_key :: "f64 \<Rightarrow> int" where
  "f64_key a = (if f64_sign a then - f64_mag a else f64_mag a)"

definition f64_le :: "f64 \<Rightarrow> f64 \<Rightarrow> bool" where
  "f64_le a b \<longleftrightarrow> \<not> f64_is_nan a \<and> \<not> f64_is_nan b \<and> f64_key a \<le> f64_key b"

definition f64_total_key :: "f64 \<Rightarrow> int" where
  "f64_total_key a = (if f64_sign a then - f64_mag a - 1 else f64_mag a)"

section \<open>Rounding and arithmetic\<close>

text \<open>The magnitude of a finite float in units of 2 to the power -1074.\<close>

definition f64_units :: "f64 \<Rightarrow> int" where
  "f64_units a =
     (if f64_exp a = 0 then f64_mag a
      else (2 ^ 52 + f64_mag a mod 2 ^ 52) * 2 ^ nat (f64_exp a - 1))"

definition f64_value :: "f64 \<Rightarrow> int" where
  "f64_value a = (if f64_sign a then - f64_units a else f64_units a)"

function bit_count :: "int \<Rightarrow> nat" where
  "bit_count n = (if n \<le> 0 then 0 else Suc (bit_count (n div 2)))"
  by auto
termination by (relation "measure nat") auto

declare bit_count.simps [simp del]

text \<open>
  The magnitude bits of the float nearest to \<open>num / den\<close> units, ties to even; a result beyond
  the largest finite float is infinite. The quotient is shifted to at most 53 bits, and
  because the encoding is contiguous, a carry out of the significand moves to the next binade.
\<close>

definition round_mag :: "int \<Rightarrow> int \<Rightarrow> int" where
  "round_mag num den =
     (let s = bit_count (num div den) - 53;
          d = den * 2 ^ s;
          q = num div d;
          r = num mod d;
          up = d < 2 * r \<or> (2 * r = d \<and> odd q);
          mag = int s * 2 ^ 52 + q + (if up then 1 else 0)
      in min mag f64_infinite_mag)"

definition f64_neg :: "f64 \<Rightarrow> f64" where
  "f64_neg a = f64_make (\<not> f64_sign a) (f64_mag a)"

definition f64_sub :: "f64 \<Rightarrow> f64 \<Rightarrow> f64" where
  "f64_sub a b =
     (if f64_is_nan a \<or> f64_is_nan b then f64_nan
      else if \<not> is_finite a then (if \<not> is_finite b \<and> f64_sign a = f64_sign b then f64_nan else a)
      else if \<not> is_finite b then f64_neg b
      else (let x = f64_value a - f64_value b
            in if x = 0 then f64_make (f64_sign a \<and> \<not> f64_sign b) 0
               else f64_make (x < 0) (round_mag \<bar>x\<bar> 1)))"

definition f64_mul :: "f64 \<Rightarrow> f64 \<Rightarrow> f64" where
  "f64_mul a b =
     (let sign = (f64_sign a \<noteq> f64_sign b) in
      if f64_is_nan a \<or> f64_is_nan b then f64_nan
      else if \<not> is_finite a \<or> \<not> is_finite b
      then (if f64_mag a = 0 \<or> f64_mag b = 0 then f64_nan else f64_make sign f64_infinite_mag)
      else f64_make sign (round_mag (f64_units a * f64_units b) (2 ^ 1074)))"

definition f64_div :: "f64 \<Rightarrow> f64 \<Rightarrow> f64" where
  "f64_div a b =
     (let sign = (f64_sign a \<noteq> f64_sign b) in
      if f64_is_nan a \<or> f64_is_nan b then f64_nan
      else if \<not> is_finite a
      then (if \<not> is_finite b then f64_nan else f64_make sign f64_infinite_mag)
      else if \<not> is_finite b then f64_make sign 0
      else if f64_mag b = 0
      then (if f64_mag a = 0 then f64_nan else f64_make sign f64_infinite_mag)
      else f64_make sign (round_mag (f64_units a * 2 ^ 1074) (f64_units b)))"

text \<open>\<open>as f64\<close> and \<open>f64::from\<close> of an integer.\<close>

definition f64_of_int :: "int \<Rightarrow> f64" where
  "f64_of_int n = f64_make (n < 0) (round_mag (\<bar>n\<bar> * 2 ^ 1074) 1)"

section \<open>Lemmas\<close>

lemma f64_mag_bounds: "0 \<le> f64_mag a" "f64_mag a < 2 ^ 63"
  by (simp_all add: f64_mag_def)

lemma round_mag_nonneg: "0 \<le> num \<Longrightarrow> 0 < den \<Longrightarrow> 0 \<le> round_mag num den"
  by (auto simp: round_mag_def Let_def f64_infinite_mag_def pos_imp_zdiv_nonneg_iff)

lemma round_mag_le_infinite: "round_mag num den \<le> f64_infinite_mag"
  by (simp add: round_mag_def Let_def)

lemma f64_make_fields:
  assumes "0 \<le> mag" "mag < 2 ^ 63"
  shows "f64_mag (f64_make sign mag) = mag" and "f64_sign (f64_make sign mag) = sign"
proof -
  have "uint (f64_make sign mag) = (if sign then 2 ^ 63 else 0) + mag"
    using assms unfolding f64_make_def uint_word_of_int by (simp add: mod_pos_pos_trivial)
  then show "f64_mag (f64_make sign mag) = mag" "f64_sign (f64_make sign mag) = sign"
    using assms by (auto simp: f64_mag_def f64_sign_def)
qed

lemma f64_key_make:
  "0 \<le> mag \<Longrightarrow> mag < 2 ^ 63 \<Longrightarrow> f64_key (f64_make sign mag) = (if sign then - mag else mag)"
  by (simp add: f64_key_def f64_make_fields)

lemma f64_nan_make: "0 \<le> mag \<Longrightarrow> mag \<le> f64_infinite_mag \<Longrightarrow> \<not> f64_is_nan (f64_make sign mag)"
  by (simp add: f64_is_nan_def f64_make_fields f64_infinite_mag_def)

lemma is_finite_not_nan: "is_finite a \<Longrightarrow> \<not> f64_is_nan a"
  by (simp add: is_finite_def f64_is_nan_def)

lemma f64_sub_finite:
  assumes "is_finite a" "is_finite b"
  shows "\<not> f64_is_nan (f64_sub a b)"
    and "f64_key (f64_sub a b)
      = sgn (f64_value a - f64_value b) * (if f64_value a = f64_value b then 0
          else round_mag \<bar>f64_value a - f64_value b\<bar> 1)"
proof -
  let ?x = "f64_value a - f64_value b"
  have mag: "0 \<le> round_mag \<bar>?x\<bar> 1" "round_mag \<bar>?x\<bar> 1 \<le> f64_infinite_mag"
    by (simp_all add: round_mag_nonneg round_mag_le_infinite)
  moreover have "f64_infinite_mag < 2 ^ 63" by (simp add: f64_infinite_mag_def)
  ultimately have lt: "round_mag \<bar>?x\<bar> 1 < 2 ^ 63" by linarith
  have inf: "(0 :: int) \<le> f64_infinite_mag" by (simp add: f64_infinite_mag_def)
  have sub: "f64_sub a b = (if ?x = 0 then f64_make (f64_sign a \<and> \<not> f64_sign b) 0
      else f64_make (?x < 0) (round_mag \<bar>?x\<bar> 1))"
    using assms by (simp add: f64_sub_def is_finite_not_nan Let_def)
  show "\<not> f64_is_nan (f64_sub a b)"
    using mag inf by (simp add: sub f64_nan_make)
  show "f64_key (f64_sub a b) = sgn ?x * (if f64_value a = f64_value b then 0 else round_mag \<bar>?x\<bar> 1)"
    using mag(1) lt by (simp add: sub f64_key_make sgn_if)
qed

lemma f64_key_sub_flip:
  "is_finite a \<Longrightarrow> is_finite b \<Longrightarrow> f64_key (f64_sub b a) = - f64_key (f64_sub a b)"
  by (simp add: f64_sub_finite abs_minus_commute sgn_if)

lemma f64_neg_fields: "f64_key (f64_neg a) = - f64_key a" "f64_is_nan (f64_neg a) = f64_is_nan a"
  using f64_mag_bounds [of a]
  by (auto simp: f64_neg_def f64_key_def f64_is_nan_def f64_make_fields)

section \<open>Rounding is monotone\<close>

lemma bit_count_bounds: "0 < n \<Longrightarrow> 2 ^ (bit_count n - 1) \<le> n \<and> n < 2 ^ bit_count n \<and> 0 < bit_count n"
proof (induction n rule: bit_count.induct)
  case (1 n)
  show ?case
  proof (cases "n = 1")
    case False
    with 1 have half: "2 ^ (bit_count (n div 2) - 1) \<le> n div 2" "n div 2 < 2 ^ bit_count (n div 2)"
      "0 < bit_count (n div 2)" by auto
    have "2 ^ bit_count (n div 2) = 2 * (2 :: int) ^ (bit_count (n div 2) - 1)"
      using half(3) by (simp flip: power_Suc)
    then have "2 ^ bit_count (n div 2) \<le> n" "n < 2 * 2 ^ bit_count (n div 2)"
      using half(1,2) by linarith+
    with 1(2) show ?thesis by (subst (1 2 3) bit_count.simps) simp
  qed (simp add: bit_count.simps)
qed

lemma bit_count_unique:
  assumes "2 ^ k \<le> n" and "n < 2 ^ Suc k"
  shows "bit_count n = Suc k"
proof -
  have pos: "0 < n" using assms(1) zero_less_power [of "2 :: int" k] by linarith
  note b = bit_count_bounds [OF pos]
  have "(2 :: int) ^ k < 2 ^ bit_count n" using assms(1) b by linarith
  then have "k < bit_count n" by (simp add: power_less_imp_less_exp)
  moreover have "(2 :: int) ^ (bit_count n - 1) < 2 ^ Suc k" using assms(2) b by linarith
  then have "bit_count n - 1 < Suc k" by (rule power_less_imp_less_exp [rotated]) simp
  ultimately show ?thesis by linarith
qed

lemma bit_count_mono:
  assumes "0 < n" and "n \<le> m"
  shows "bit_count n \<le> bit_count m"
proof -
  have "(2 :: int) ^ (bit_count n - 1) < 2 ^ bit_count m"
    using bit_count_bounds [OF assms(1)] bit_count_bounds [of m] assms by linarith
  then have "bit_count n - 1 < bit_count m" using power_less_imp_less_exp [of "2 :: int"] by simp
  then show ?thesis by linarith
qed

text \<open>The encoding of a finite magnitude, in the terms of \<open>round_mag\<close>.\<close>

lemma f64_mag_encoding:
  assumes "0 < f64_mag a"
  shows "f64_mag a = int (bit_count (f64_units a) - 53) * 2 ^ 52
      + f64_units a div 2 ^ (bit_count (f64_units a) - 53)"
    and "0 < f64_units a"
proof -
  have mag: "f64_mag a = f64_exp a * 2 ^ 52 + f64_mag a mod 2 ^ 52" "0 \<le> f64_exp a"
    using f64_mag_bounds [of a] by (simp_all add: f64_exp_def pos_imp_zdiv_nonneg_iff)
  have "f64_mag a = int (bit_count (f64_units a) - 53) * 2 ^ 52
      + f64_units a div 2 ^ (bit_count (f64_units a) - 53) \<and> 0 < f64_units a"
  proof (cases "f64_exp a = 0")
    case True
    then have "f64_units a = f64_mag a" by (simp add: f64_units_def)
    moreover have "f64_mag a = f64_mag a mod 2 ^ 52"
      using mag(1) by (simp only: True mult_zero_left add_0)
    then have "f64_mag a < 2 ^ 52" using pos_mod_bound [of "2 ^ 52" "f64_mag a"] by simp
    moreover from this have "bit_count (f64_mag a) - 1 < 52"
      using bit_count_bounds [OF assms] power_less_imp_less_exp [of "2 :: int" "bit_count (f64_mag a) - 1" 52]
      by linarith
    ultimately show ?thesis using assms by simp
  next
    case False
    define k where "k = nat (f64_exp a - 1)"
    define f where "f = 2 ^ 52 + f64_mag a mod 2 ^ 52"
    have k: "f64_exp a = int k + 1" using False mag(2) by (simp add: k_def)
    have f: "2 ^ 52 \<le> f" "f < 2 ^ 53" by (simp_all add: f_def)
    have u: "f64_units a = f * 2 ^ k" using False by (simp add: f64_units_def f_def k_def)
    have "bit_count (f64_units a) = Suc (52 + k)"
      by (rule bit_count_unique) (use f in \<open>simp_all add: u power_add\<close>)
    then have "f64_units a div 2 ^ (bit_count (f64_units a) - 53) = f"
      "bit_count (f64_units a) - 53 = k" by (simp_all add: u)
    moreover have "0 < f * 2 ^ k" using f by simp
    ultimately show ?thesis using mag(1) k u by (simp add: f_def algebra_simps)
  qed
  then show "f64_mag a = int (bit_count (f64_units a) - 53) * 2 ^ 52
      + f64_units a div 2 ^ (bit_count (f64_units a) - 53)" "0 < f64_units a" by blast+
qed

lemma div_less_of_less_mult:
  fixes a b c :: int
  assumes "a < c * b" and "0 < b"
  shows "a div b < c"
proof (rule ccontr)
  assume "\<not> a div b < c"
  then have "c * b \<le> a div b * b" using assms(2) by (simp add: mult_right_mono)
  also have "a div b * b \<le> a" using div_mult_mod_eq [of a b] pos_mod_sign [OF assms(2), of a] by linarith
  finally show False using assms(1) by simp
qed

text \<open>A distance of at least the units of \<open>a\<close> rounds to at least \<open>a\<close>.\<close>

lemma round_mag_at_least:
  assumes "is_finite a" and "f64_units a \<le> x" and "0 < f64_mag a"
  shows "f64_mag a \<le> round_mag x 1"
proof -
  let ?s = "bit_count x - 53" and ?t = "bit_count (f64_units a) - 53"
  note enc = f64_mag_encoding [OF assms(3)]
  have "f64_mag a \<le> int ?s * 2 ^ 52 + x div 2 ^ ?s"
  proof (cases "?t = ?s")
    case True
    then show ?thesis using enc zdiv_mono1 [OF assms(2), of "2 ^ ?s"] by simp
  next
    case False
    then have lt: "?t < ?s" using bit_count_mono [OF enc(2) assms(2)] by linarith
    have x: "2 ^ (bit_count x - 1) \<le> x" using bit_count_bounds [of x] enc(2) assms(2) by linarith
    have split: "bit_count x - 1 = 52 + ?s" using lt by linarith
    have "2 ^ 52 * 2 ^ ?s \<le> x" using x unfolding split power_add .
    then have "2 ^ 52 \<le> x div 2 ^ ?s" using zdiv_mono1 [of "2 ^ 52 * 2 ^ ?s" x "2 ^ ?s"] by simp
    moreover have "f64_units a < 2 ^ 53 * 2 ^ ?t"
    proof -
      have "f64_units a < 2 ^ bit_count (f64_units a)" using bit_count_bounds [OF enc(2)] by simp
      also have "(2 :: int) ^ bit_count (f64_units a) \<le> 2 ^ (53 + ?t)" by (intro power_increasing) auto
      finally show ?thesis by (simp add: power_add)
    qed
    then have "f64_units a div 2 ^ ?t < 2 ^ 53" by (rule div_less_of_less_mult) simp
    moreover have "int ?t * 2 ^ 52 + 2 ^ 52 \<le> int ?s * 2 ^ 52" using lt by simp
    moreover have "(2 :: int) ^ 53 = 2 ^ 52 + 2 ^ 52" by simp
    ultimately show ?thesis using enc(1) by linarith
  qed
  moreover have "f64_mag a \<le> f64_infinite_mag" using assms(1) by (simp add: is_finite_def)
  ultimately show ?thesis by (simp add: round_mag_def Let_def)
qed

section \<open>Small integers convert exactly\<close>

lemma bit_count_shift: "0 < n \<Longrightarrow> bit_count (n * 2 ^ k) = bit_count n + k"
proof -
  assume pos: "0 < n"
  note b = bit_count_bounds [OF pos]
  have one: "2 ^ (bit_count n - 1 + k) \<le> n * 2 ^ k"
    unfolding power_add using b by (intro mult_right_mono) auto
  have two: "n * 2 ^ k < 2 ^ Suc (bit_count n - 1 + k)"
  proof -
    have "n * 2 ^ k < 2 ^ bit_count n * 2 ^ k" using b by simp
    also have "\<dots> = 2 ^ Suc (bit_count n - 1 + k)" using b by (simp flip: power_add power_Suc)
    finally show ?thesis .
  qed
  from bit_count_unique [OF one two] show ?thesis using b by simp
qed

lemma round_mag_integer:
  assumes "0 < n" and "bit_count n \<le> 53"
  shows "round_mag (n * 2 ^ 1074) 1
    = int (bit_count n + 1021) * 2 ^ 52 + n * 2 ^ (53 - bit_count n)"
proof -
  let ?s = "bit_count n + 1021"
  have s: "bit_count (n * 2 ^ 1074) - 53 = ?s" unfolding bit_count_shift [OF assms(1)] by simp
  have split: "n * 2 ^ 1074 = (n * 2 ^ (53 - bit_count n)) * 2 ^ ?s"
    using assms(2) by (simp add: mult.assoc flip: power_add)
  have q: "n * 2 ^ 1074 div 2 ^ ?s = n * 2 ^ (53 - bit_count n)" "n * 2 ^ 1074 mod 2 ^ ?s = 0"
    unfolding split by (rule nonzero_mult_div_cancel_right, simp) (rule mod_mult_self2_is_0)
  have "n < 2 ^ bit_count n" using bit_count_bounds [OF assms(1)] by simp
  then have "n * 2 ^ (53 - bit_count n) \<le> 2 ^ bit_count n * 2 ^ (53 - bit_count n)" by simp
  also have "\<dots> = 2 ^ 53" using assms(2) by (simp flip: power_add)
  finally have "int ?s * 2 ^ 52 + n * 2 ^ (53 - bit_count n) \<le> f64_infinite_mag"
    using assms(2) by (simp add: f64_infinite_mag_def)
  then show ?thesis unfolding round_mag_def Let_def div_by_1 s mult_1 q by simp
qed

lemma f64_of_small_int:
  "0 < n \<Longrightarrow> bit_count n \<le> 53 \<Longrightarrow>
     f64_of_int n = f64_make False (int (bit_count n + 1021) * 2 ^ 52 + n * 2 ^ (53 - bit_count n))"
  by (simp only: f64_of_int_def round_mag_integer abs_of_pos not_less_iff_gr_or_eq) simp

lemma f64_of_int_0 [simp]: "f64_of_int 0 = 0"
  by (simp add: f64_of_int_def round_mag_def f64_make_def f64_infinite_mag_def bit_count.simps)

lemma f64_of_int_1 [simp]: "f64_of_int 1 = 4607182418800017408"
  by (subst f64_of_small_int) (simp_all add: bit_count.simps f64_make_def)

lemma f64_of_int_2 [simp]: "f64_of_int 2 = 4611686018427387904"
  by (subst f64_of_small_int) (simp_all add: bit_count.simps f64_make_def)

lemma f64_of_int_100 [simp]: "f64_of_int 100 = 4636737291354636288"
  by (subst f64_of_small_int) (simp_all add: bit_count.simps f64_make_def)

end
