(* ===== verification/Doctor_Checks.thy ===== *)
theory Doctor_Checks
  imports Ieee754
begin

text \<open>
  The data of the network doctor (\<open>lattice-doctor\<close>: \<open>lib.rs\<close>, \<open>probe.rs\<close>, \<open>check.rs\<close>):
  probe requests and responses, the check graph, measurements, results, the probe budget and
  the report. Where two Rust enums share a variant name, the less central one carries its
  enum's name (\<open>Detail...\<close> for \<open>CheckDetail\<close>, \<open>...Reply\<close> for \<open>ProbeResponse\<close>).
\<close>

section \<open>Errors\<close>

datatype doctor_error =
    InvalidConfidence | InvalidBudget string | InvalidDoctorConfig string | InvalidSymptom string
  | InvalidApproval

section \<open>Probes\<close>

definition MAX_PROBE_TIMEOUT_MS :: u32 where "MAX_PROBE_TIMEOUT_MS = 10000"

datatype probe_request =
    CollectorStatus
  | LinkStatus string
  | IpConfig string
  | ArpProbe string string
  | WifiMetrics string
  | Ping (ping_target: string) (ping_payload_bytes: u16) (ping_dont_fragment: bool)
  | DnsQuery string string
  | RouteTable
  | RouterStatus
  | ReachIp string u16

datatype lease_state = LeaseStatic | LeaseValid | LeaseExpired | LeaseMissing

datatype dns_failure_reason = DnsTimeout | DnsRefused | DnsServFail | DnsNoAnswer

record route_entry =
  rt_interface :: string
  rt_gateway :: string
  rt_is_vpn :: bool
  rt_metric :: u32

datatype probe_response =
    CollectorStatusReply bool bool bool
  | LinkStatusReply bool "u32 option"
  | IpConfigReply "string option" lease_state
  | ArpProbeReply "string list"
  | WifiMetricsReply bool "int option" "f64 option"
  | PingReply f64
  | PingTimeout
  | FragmentationNeeded u16
  | DnsAnswer "string list" f64
  | DnsFailureReply dns_failure_reason
  | RouteTableReply "route_entry list"
  | RouterStatusReply bool "u64 option"
  | Reachable f64
  | Unreachable

datatype probe_error = ProbeTimeout | ProbeUnsupported | ProbeTransport string

definition probe_error_text :: "probe_error \<Rightarrow> string" where
  "probe_error_text e =
     (case e of
        ProbeTimeout \<Rightarrow> ''probe timed out at the transport layer''
      | ProbeUnsupported \<Rightarrow> ''probe kind is unsupported on this platform''
      | ProbeTransport s \<Rightarrow> ''probe transport failed: '' @ s)"

record probe =
  pr_request :: probe_request
  pr_timeout_ms :: u32

section \<open>The check graph\<close>

datatype check_kind =
    CollectorHealth | AdapterLink | AddressDhcp | DuplicateIp | WifiQuality | Gateway
  | RouterHealth | LossLatency | Mtu | Dns | RouteVpn | InternetReachability

definition EXECUTION_ORDER :: "check_kind list" where
  "EXECUTION_ORDER =
     [CollectorHealth, AdapterLink, AddressDhcp, DuplicateIp, WifiQuality, Gateway,
      RouterHealth, LossLatency, Mtu, Dns, RouteVpn, InternetReachability]"

fun dependencies :: "check_kind \<Rightarrow> check_kind list" where
  "dependencies CollectorHealth = []"
| "dependencies AdapterLink = [CollectorHealth]"
| "dependencies AddressDhcp = [AdapterLink]"
| "dependencies WifiQuality = [AdapterLink]"
| "dependencies DuplicateIp = [AddressDhcp]"
| "dependencies Gateway = [AddressDhcp]"
| "dependencies RouterHealth = [Gateway]"
| "dependencies LossLatency = [Gateway]"
| "dependencies Mtu = [Gateway]"
| "dependencies Dns = [Gateway]"
| "dependencies RouteVpn = [Dns]"
| "dependencies InternetReachability = [AddressDhcp]"

record confidence =
  basis_points :: u16

definition CONFIDENCE_LOW :: confidence where "CONFIDENCE_LOW = \<lparr> basis_points = 4000 \<rparr>"
definition CONFIDENCE_MEDIUM :: confidence where "CONFIDENCE_MEDIUM = \<lparr> basis_points = 7000 \<rparr>"
definition CONFIDENCE_HIGH :: confidence where "CONFIDENCE_HIGH = \<lparr> basis_points = 9500 \<rparr>"

definition confidence_try_new :: "u16 \<Rightarrow> doctor_error + confidence" where
  "confidence_try_new points =
     (if 10000 < points then Inl InvalidConfidence else Inr \<lparr> basis_points = points \<rparr>)"

datatype metric =
    CollectorPrivileged | CaptureHealthy | WorkerRunning | LinkUp | LinkSpeedMbps
  | AddressPresent | LeaseValidMetric | ConflictingMacCount | RssiDbm | RetryPercent | RttMs
  | LossPercent | DnsLatencyMs | ResolverFailureCount | DefaultRouteCount | RouterResponsive
  | PassingMtuBytes | FailingMtuBytes | ReachabilitySuccess

text \<open>The derived \<open>Debug\<close> text of a metric, which error messages quote.\<close>

fun metric_debug :: "metric \<Rightarrow> string" where
  "metric_debug CollectorPrivileged = ''CollectorPrivileged''"
| "metric_debug CaptureHealthy = ''CaptureHealthy''"
| "metric_debug WorkerRunning = ''WorkerRunning''"
| "metric_debug LinkUp = ''LinkUp''"
| "metric_debug LinkSpeedMbps = ''LinkSpeedMbps''"
| "metric_debug AddressPresent = ''AddressPresent''"
| "metric_debug LeaseValidMetric = ''LeaseValid''"
| "metric_debug ConflictingMacCount = ''ConflictingMacCount''"
| "metric_debug RssiDbm = ''RssiDbm''"
| "metric_debug RetryPercent = ''RetryPercent''"
| "metric_debug RttMs = ''RttMs''"
| "metric_debug LossPercent = ''LossPercent''"
| "metric_debug DnsLatencyMs = ''DnsLatencyMs''"
| "metric_debug ResolverFailureCount = ''ResolverFailureCount''"
| "metric_debug DefaultRouteCount = ''DefaultRouteCount''"
| "metric_debug RouterResponsive = ''RouterResponsive''"
| "metric_debug PassingMtuBytes = ''PassingMtuBytes''"
| "metric_debug FailingMtuBytes = ''FailingMtuBytes''"
| "metric_debug ReachabilitySuccess = ''ReachabilitySuccess''"

datatype measure_unit =
  Milliseconds | Percent | Dbm | Bytes | MegabitsPerSecond | Count | Boolean

record measurement =
  me_metric :: metric
  me_value :: f64
  me_unit :: measure_unit
  me_observed_at :: instant

datatype skip_reason =
  DependencyFailed check_kind | DependencySkipped check_kind | BudgetExhausted

datatype check_status = Passed | Failed | Skipped skip_reason

datatype resolver_outcome =
  Answered f64 | ResolverFailed dns_failure_reason | ResolverUnavailable string

record resolver_evidence =
  re_resolver :: string
  re_independent :: bool
  re_outcome :: resolver_outcome

datatype check_detail =
    DetailProbeFailure string
  | DetailCollector bool bool bool
  | DetailLink bool
  | DetailAddress "string option" lease_state
  | DetailDuplicateIp string "string list"
  | DetailWifi bool "int option" "f64 option"
  | DetailGatewayPing u32 u32
  | DetailRouter bool
  | DetailLossLatency f64 "f64 option"
  | DetailMtu "u16 option" "u16 option"
  | DetailDns "resolver_evidence list"
  | DetailRoute "route_entry list" bool
  | DetailInternet bool bool

record check_result =
  cr_kind :: check_kind
  cr_status :: check_status
  cr_evidence :: "measurement list"
  cr_confidence :: confidence
  cr_detail :: "check_detail option"

record diagnostic_budget =
  bu_max_probes :: u32
  bu_per_probe_timeout_ms :: u32

definition new_budget :: "u32 \<Rightarrow> u32 \<Rightarrow> doctor_error + diagnostic_budget" where
  "new_budget max_probes per_probe_timeout_ms =
     (if max_probes = 0 then Inl (InvalidBudget ''max_probes must be at least 1'')
      else if per_probe_timeout_ms = 0 \<or> MAX_PROBE_TIMEOUT_MS < per_probe_timeout_ms
      then Inl (InvalidBudget ''per_probe_timeout_ms must be in 1..=10000'')
      else Inr \<lparr> bu_max_probes = max_probes, bu_per_probe_timeout_ms = per_probe_timeout_ms \<rparr>)"

record diagnostic_report =
  rp_started_at :: instant
  rp_finished_at :: instant
  rp_budget :: diagnostic_budget
  rp_probes_used :: u32
  rp_budget_exhausted :: bool
  rp_checks :: "check_result list"

text \<open>\<open>find\<close> of \<open>engine.rs\<close>, also the body of \<open>DiagnosticReport::check\<close>.\<close>

definition find_check :: "check_result list \<Rightarrow> check_kind \<Rightarrow> check_result option" where
  "find_check checks kind = find (\<lambda>check. cr_kind check = kind) checks"

lemma find_check_append:
  "find_check (xs @ ys) k = (case find_check xs k of None \<Rightarrow> find_check ys k | Some r \<Rightarrow> Some r)"
  by (induction xs) (auto simp: find_check_def)

lemma find_check_None: "find_check checks k = None \<longleftrightarrow> k \<notin> cr_kind ` set checks"
  by (auto simp: find_check_def find_None_iff)

lemma find_check_Some: "find_check checks k = Some r \<Longrightarrow> r \<in> set checks \<and> cr_kind r = k"
  by (auto simp: find_check_def dest: find_SomeD)

lemma find_check_unique:
  "distinct (map cr_kind checks) \<Longrightarrow> r \<in> set checks \<Longrightarrow> find_check checks (cr_kind r) = Some r"
  by (induction checks) (auto simp: find_check_def)

text \<open>The order is topological and complete.\<close>

lemma execution_order_distinct: "distinct EXECUTION_ORDER"
  by (simp add: EXECUTION_ORDER_def)

lemma execution_order_complete: "k \<in> set EXECUTION_ORDER"
  by (cases k) (simp_all add: EXECUTION_ORDER_def)

end
