(* ===== verification/Doctor_Engine.thy ===== *)
theory Doctor_Engine
  imports Doctor_Checks "HOL-Library.State_Monad"
begin

text \<open>
  The diagnostic engine of \<open>lattice-doctor/src/engine.rs\<close>. Every check is a computation in the
  state monad over a session: the probe counter \<open>used\<close> and the world behind the two injected
  interfaces, the probe transport and the clock, which are parameters (\<open>io_probe\<close>,
  \<open>io_now\<close>). The functions follow the source one to one, in its order.
\<close>

section \<open>Configuration\<close>

definition UNEXPECTED_RESPONSE :: string where
  "UNEXPECTED_RESPONSE = ''unexpected probe response''"
definition PING_PAYLOAD_BYTES :: u16 where "PING_PAYLOAD_BYTES = 56"
definition MAX_PING_COUNT :: u8 where "MAX_PING_COUNT = 16"
definition MAX_MTU_PROBE_SIZES :: nat where "MAX_MTU_PROBE_SIZES = 8"
definition MAX_RESOLVERS :: nat where "MAX_RESOLVERS = 8"

record thresholds =
  th_degraded_loss_percent :: f64
  th_degraded_median_rtt_ms :: f64
  th_weak_rssi_dbm :: int

definition default_thresholds :: thresholds where
  "default_thresholds =
     \<lparr> th_degraded_loss_percent = f64_of_int 2, th_degraded_median_rtt_ms = f64_of_int 100,
       th_weak_rssi_dbm = - 75 \<rparr>"

record doctor_config =
  dc_interface :: string
  dc_gateway :: string
  dc_configured_resolvers :: "string list"
  dc_independent_resolver :: string
  dc_internet_probe_address :: string
  dc_internet_probe_port :: u16
  dc_dns_probe_name :: string
  dc_ping_count :: u8
  dc_mtu_probe_sizes :: "u16 list"
  dc_thresholds :: thresholds

definition validate_doctor_config :: "doctor_config \<Rightarrow> doctor_error + unit" where
  "validate_doctor_config c =
     (if dc_interface c = [] then Inl (InvalidDoctorConfig ''interface must not be empty'')
      else if dc_gateway c = [] then Inl (InvalidDoctorConfig ''gateway must not be empty'')
      else if dc_configured_resolvers c = []
      then Inl (InvalidDoctorConfig ''at least one configured resolver is required'')
      else if MAX_RESOLVERS < length (dc_configured_resolvers c)
      then Inl (InvalidDoctorConfig ''too many configured resolvers (max 8)'')
      else if dc_independent_resolver c = []
      then Inl (InvalidDoctorConfig ''independent_resolver must not be empty'')
      else if dc_internet_probe_address c = []
      then Inl (InvalidDoctorConfig ''internet_probe_address must not be empty'')
      else if dc_dns_probe_name c = []
      then Inl (InvalidDoctorConfig ''dns_probe_name must not be empty'')
      else if dc_ping_count c = 0 \<or> MAX_PING_COUNT < dc_ping_count c
      then Inl (InvalidDoctorConfig ''ping_count must be in 1..=16'')
      else if dc_mtu_probe_sizes c = [] \<or> MAX_MTU_PROBE_SIZES < length (dc_mtu_probe_sizes c)
      then Inl (InvalidDoctorConfig ''mtu_probe_sizes must contain 1..=8 sizes'')
      else (let t = dc_thresholds c in
            if \<not> is_finite (th_degraded_loss_percent t)
               \<or> \<not> (f64_le (f64_of_int 0) (th_degraded_loss_percent t)
                    \<and> f64_le (th_degraded_loss_percent t) (f64_of_int 100))
               \<or> \<not> is_finite (th_degraded_median_rtt_ms t)
               \<or> f64_le (th_degraded_median_rtt_ms t) (f64_of_int 0)
            then Inl (InvalidDoctorConfig ''thresholds are out of range'')
            else Inr ()))"

record diagnostic_engine =
  de_config :: doctor_config
  de_budget :: diagnostic_budget

definition new_engine :: "doctor_config \<Rightarrow> diagnostic_budget \<Rightarrow> doctor_error + diagnostic_engine" where
  "new_engine config budget =
     (case validate_doctor_config config of
        Inl err \<Rightarrow> Inl err
      | Inr _ \<Rightarrow> Inr \<lparr> de_config = config, de_budget = budget \<rparr>)"

section \<open>The session\<close>

record 'w doctor_io =
  io_probe :: "'w \<Rightarrow> probe \<Rightarrow> (probe_error + probe_response) \<times> 'w"
  io_now :: "'w \<Rightarrow> instant \<times> 'w"

record 'w session =
  sx_used :: u32
  sx_world :: 'w

definition now :: "'w doctor_io \<Rightarrow> ('w session, instant) state" where
  "now io = State (\<lambda>s. case io_now io (sx_world s) of (t, w) \<Rightarrow> (t, s \<lparr> sx_world := w \<rparr>))"

definition send ::
  "'w doctor_io \<Rightarrow> diagnostic_engine \<Rightarrow> probe_request
     \<Rightarrow> ('w session, probe_error + probe_response) state" where
  "send io g request =
     State (\<lambda>s. case io_probe io (sx_world s)
                   \<lparr> pr_request = request,
                     pr_timeout_ms = bu_per_probe_timeout_ms (de_budget g) \<rparr> of
         (reply, w) \<Rightarrow> (reply, \<lparr> sx_used = saturating_add (sx_used s) 1, sx_world = w \<rparr>))"

section \<open>Results and measurements\<close>

definition measurement ::
  "'w doctor_io \<Rightarrow> metric \<Rightarrow> f64 \<Rightarrow> measure_unit \<Rightarrow> ('w session, measurement) state" where
  "measurement io metric value unit =
     do { t \<leftarrow> now io;
          State_Monad.return
            \<lparr> me_metric = metric, me_value = value, me_unit = unit, me_observed_at = t \<rparr> }"

definition conclude ::
  "check_kind \<Rightarrow> bool \<Rightarrow> measurement list \<Rightarrow> confidence \<Rightarrow> check_detail \<Rightarrow> check_result" where
  "conclude kind pass evidence conf detail =
     \<lparr> cr_kind = kind, cr_status = (if pass then Passed else Failed), cr_evidence = evidence,
       cr_confidence = conf, cr_detail = Some detail \<rparr>"

definition failed_probe :: "check_kind \<Rightarrow> string \<Rightarrow> check_result" where
  "failed_probe kind error =
     \<lparr> cr_kind = kind, cr_status = Failed, cr_evidence = [], cr_confidence = CONFIDENCE_LOW,
       cr_detail = Some (DetailProbeFailure error) \<rparr>"

fun dependency_skip_from :: "check_kind list \<Rightarrow> check_result list \<Rightarrow> skip_reason option" where
  "dependency_skip_from [] checks = None"
| "dependency_skip_from (dependency # ds) checks =
     (case map_option cr_status (find_check checks dependency) of
        Some Passed \<Rightarrow> dependency_skip_from ds checks
      | Some Failed \<Rightarrow> Some (DependencyFailed dependency)
      | Some (Skipped _) \<Rightarrow> Some (DependencySkipped dependency)
      | None \<Rightarrow> Some (DependencySkipped dependency))"

definition dependency_skip :: "check_kind \<Rightarrow> check_result list \<Rightarrow> skip_reason option" where
  "dependency_skip kind checks = dependency_skip_from (dependencies kind) checks"

definition skipped :: "check_kind \<Rightarrow> skip_reason \<Rightarrow> check_result" where
  "skipped kind because =
     \<lparr> cr_kind = kind, cr_status = Skipped because, cr_evidence = [],
       cr_confidence = CONFIDENCE_HIGH, cr_detail = None \<rparr>"

definition bool_value :: "bool \<Rightarrow> f64" where
  "bool_value b = (if b then f64_of_int 1 else f64_of_int 0)"

definition loss_percent :: "u32 \<Rightarrow> u32 \<Rightarrow> f64" where
  "loss_percent sent received =
     (if sent = 0 then f64_of_int 100
      else f64_div (f64_mul (f64_of_int 100) (f64_of_int (uint (saturating_sub sent received))))
             (f64_of_int (uint sent)))"

definition median :: "f64 list \<Rightarrow> f64 option" where
  "median values =
     (if values = [] then None
      else Some (sort_key f64_total_key values ! (length values div 2)))"

definition min_by_total_cmp :: "f64 list \<Rightarrow> f64 option" where
  "min_by_total_cmp values =
     (case values of
        [] \<Rightarrow> None
      | v # vs \<Rightarrow> Some (foldl (\<lambda>a b. if f64_total_key b < f64_total_key a then b else a) v vs))"

section \<open>The checks\<close>

definition check_collector ::
  "'w doctor_io \<Rightarrow> diagnostic_engine \<Rightarrow> ('w session, check_result) state" where
  "check_collector io g =
     do { reply \<leftarrow> send io g CollectorStatus;
          case reply of
            Inr (CollectorStatusReply privileged capture_ok worker_running) \<Rightarrow>
              do { a \<leftarrow> measurement io CollectorPrivileged (bool_value privileged) Boolean;
                   b \<leftarrow> measurement io CaptureHealthy (bool_value capture_ok) Boolean;
                   c \<leftarrow> measurement io WorkerRunning (bool_value worker_running) Boolean;
                   State_Monad.return
                     (conclude CollectorHealth (privileged \<and> capture_ok \<and> worker_running) [a, b, c]
                       CONFIDENCE_HIGH (DetailCollector privileged capture_ok worker_running)) }
          | Inr _ \<Rightarrow> State_Monad.return (failed_probe CollectorHealth UNEXPECTED_RESPONSE)
          | Inl error \<Rightarrow> State_Monad.return (failed_probe CollectorHealth (probe_error_text error)) }"

definition check_adapter_link ::
  "'w doctor_io \<Rightarrow> diagnostic_engine \<Rightarrow> ('w session, check_result) state" where
  "check_adapter_link io g =
     do { reply \<leftarrow> send io g (LinkStatus (dc_interface (de_config g)));
          case reply of
            Inr (LinkStatusReply up speed_mbps) \<Rightarrow>
              do { a \<leftarrow> measurement io LinkUp (bool_value up) Boolean;
                   rest \<leftarrow> (case speed_mbps of
                       None \<Rightarrow> State_Monad.return []
                     | Some speed \<Rightarrow>
                         do { b \<leftarrow> measurement io LinkSpeedMbps (f64_of_int (uint speed)) MegabitsPerSecond;
                              State_Monad.return [b] });
                   State_Monad.return
                     (conclude AdapterLink up (a # rest) CONFIDENCE_HIGH (DetailLink up)) }
          | Inr _ \<Rightarrow> State_Monad.return (failed_probe AdapterLink UNEXPECTED_RESPONSE)
          | Inl error \<Rightarrow> State_Monad.return (failed_probe AdapterLink (probe_error_text error)) }"

definition check_address ::
  "'w doctor_io \<Rightarrow> diagnostic_engine \<Rightarrow> ('w session, check_result) state" where
  "check_address io g =
     do { reply \<leftarrow> send io g (IpConfig (dc_interface (de_config g)));
          case reply of
            Inr (IpConfigReply address lease) \<Rightarrow>
              (let has_address = (address \<noteq> None);
                   lease_ok = (lease \<in> {LeaseValid, LeaseStatic})
               in do { a \<leftarrow> measurement io AddressPresent (bool_value has_address) Boolean;
                       b \<leftarrow> measurement io LeaseValidMetric (bool_value lease_ok) Boolean;
                       State_Monad.return
                         (conclude AddressDhcp (has_address \<and> lease_ok) [a, b] CONFIDENCE_HIGH
                           (DetailAddress address lease)) })
          | Inr _ \<Rightarrow> State_Monad.return (failed_probe AddressDhcp UNEXPECTED_RESPONSE)
          | Inl error \<Rightarrow> State_Monad.return (failed_probe AddressDhcp (probe_error_text error)) }"

definition confirmed_address :: "check_result list \<Rightarrow> string option" where
  "confirmed_address prior =
     Option.bind (find_check prior AddressDhcp) (\<lambda>result.
       case cr_detail result of Some (DetailAddress (Some address) _) \<Rightarrow> Some address | _ \<Rightarrow> None)"

definition check_duplicate_ip ::
  "'w doctor_io \<Rightarrow> diagnostic_engine \<Rightarrow> check_result list \<Rightarrow> ('w session, check_result) state" where
  "check_duplicate_ip io g prior =
     (case confirmed_address prior of
        None \<Rightarrow> State_Monad.return (failed_probe DuplicateIp ''no confirmed local address available'')
      | Some address \<Rightarrow>
          do { reply \<leftarrow> send io g (ArpProbe (dc_interface (de_config g)) address);
               case reply of
                 Inr (ArpProbeReply responding_macs) \<Rightarrow>
                   do { a \<leftarrow> measurement io ConflictingMacCount
                              (f64_of_int (int (length responding_macs))) Count;
                        State_Monad.return
                          (conclude DuplicateIp (length responding_macs \<le> 1) [a] CONFIDENCE_HIGH
                            (DetailDuplicateIp address responding_macs)) }
               | Inr _ \<Rightarrow> State_Monad.return (failed_probe DuplicateIp UNEXPECTED_RESPONSE)
               | Inl error \<Rightarrow> State_Monad.return (failed_probe DuplicateIp (probe_error_text error)) })"

definition check_wifi ::
  "'w doctor_io \<Rightarrow> diagnostic_engine \<Rightarrow> ('w session, check_result) state" where
  "check_wifi io g =
     do { reply \<leftarrow> send io g (WifiMetrics (dc_interface (de_config g)));
          case reply of
            Inr (WifiMetricsReply wireless rssi_dbm retry_percent) \<Rightarrow>
              if \<not> wireless
              then State_Monad.return
                     (conclude WifiQuality True [] CONFIDENCE_HIGH (DetailWifi False None None))
              else (case rssi_dbm of
                  None \<Rightarrow> State_Monad.return
                    (failed_probe WifiQuality ''wireless interface reported no signal metric'')
                | Some rssi \<Rightarrow>
                    do { a \<leftarrow> measurement io RssiDbm (f64_of_int rssi) Dbm;
                         rest \<leftarrow> (case retry_percent of
                             None \<Rightarrow> State_Monad.return []
                           | Some retry \<Rightarrow>
                               do { b \<leftarrow> measurement io RetryPercent retry Percent;
                                    State_Monad.return [b] });
                         State_Monad.return
                           (conclude WifiQuality (th_weak_rssi_dbm (dc_thresholds (de_config g)) \<le> rssi)
                             (a # rest) CONFIDENCE_HIGH (DetailWifi True (Some rssi) retry_percent)) })
          | Inr _ \<Rightarrow> State_Monad.return (failed_probe WifiQuality UNEXPECTED_RESPONSE)
          | Inl error \<Rightarrow> State_Monad.return (failed_probe WifiQuality (probe_error_text error)) }"

text \<open>The loop of \<open>ping_sample\<close>: \<open>n\<close> echoes still to send.\<close>

fun ping_loop ::
  "'w doctor_io \<Rightarrow> diagnostic_engine \<Rightarrow> string \<Rightarrow> nat \<Rightarrow> u32 \<times> f64 list
     \<Rightarrow> ('w session, u32 \<times> f64 list) state" where
  "ping_loop io g target 0 (sent, rtts) = State_Monad.return (sent, rtts)"
| "ping_loop io g target (Suc n) (sent, rtts) =
     do { reply \<leftarrow> send io g (Ping target PING_PAYLOAD_BYTES False);
          ping_loop io g target n
            (sent + 1, case reply of Inr (PingReply rtt_ms) \<Rightarrow> rtts @ [rtt_ms] | _ \<Rightarrow> rtts) }"

definition ping_sample ::
  "'w doctor_io \<Rightarrow> diagnostic_engine \<Rightarrow> string \<Rightarrow> ('w session, u32 \<times> f64 list) state" where
  "ping_sample io g target = ping_loop io g target (unat (dc_ping_count (de_config g))) (0, [])"

definition check_gateway ::
  "'w doctor_io \<Rightarrow> diagnostic_engine \<Rightarrow> ('w session, check_result) state" where
  "check_gateway io g =
     do { sample \<leftarrow> ping_sample io g (dc_gateway (de_config g));
          let sent = fst sample; rtts = snd sample; received = (of_nat (length rtts) :: u32) in
          do { a \<leftarrow> measurement io LossPercent (loss_percent sent received) Percent;
               rest \<leftarrow> (case min_by_total_cmp rtts of
                   None \<Rightarrow> State_Monad.return []
                 | Some best \<Rightarrow>
                     do { b \<leftarrow> measurement io RttMs best Milliseconds; State_Monad.return [b] });
               State_Monad.return
                 (conclude Gateway (1 \<le> received) (a # rest) CONFIDENCE_HIGH
                   (DetailGatewayPing sent received)) } }"

definition check_router ::
  "'w doctor_io \<Rightarrow> diagnostic_engine \<Rightarrow> ('w session, check_result) state" where
  "check_router io g =
     do { reply \<leftarrow> send io g RouterStatus;
          case reply of
            Inr (RouterStatusReply responsive _) \<Rightarrow>
              do { a \<leftarrow> measurement io RouterResponsive (bool_value responsive) Boolean;
                   State_Monad.return
                     (conclude RouterHealth responsive [a] CONFIDENCE_MEDIUM (DetailRouter responsive)) }
          | Inr _ \<Rightarrow> State_Monad.return (failed_probe RouterHealth UNEXPECTED_RESPONSE)
          | Inl error \<Rightarrow> State_Monad.return (failed_probe RouterHealth (probe_error_text error)) }"

definition check_loss_latency ::
  "'w doctor_io \<Rightarrow> diagnostic_engine \<Rightarrow> ('w session, check_result) state" where
  "check_loss_latency io g =
     do { sample \<leftarrow> ping_sample io g (dc_gateway (de_config g));
          let sent = fst sample; rtts = snd sample; received = (of_nat (length rtts) :: u32);
              loss = loss_percent sent received; med = median rtts;
              t = dc_thresholds (de_config g);
              healthy = (f64_le loss (th_degraded_loss_percent t)
                         \<and> is_none_or med (\<lambda>m. f64_le m (th_degraded_median_rtt_ms t))
                         \<and> 1 \<le> received)
          in do { a \<leftarrow> measurement io LossPercent loss Percent;
                  rest \<leftarrow> (case med of
                      None \<Rightarrow> State_Monad.return []
                    | Some median_rtt \<Rightarrow>
                        do { b \<leftarrow> measurement io RttMs median_rtt Milliseconds;
                             State_Monad.return [b] });
                  State_Monad.return
                    (conclude LossLatency healthy (a # rest) CONFIDENCE_MEDIUM
                      (DetailLossLatency loss med)) } }"

text \<open>
  The loop of \<open>check_mtu\<close>: an early return with an error text, or the passing and silently
  failing sizes.
\<close>

fun mtu_loop ::
  "'w doctor_io \<Rightarrow> diagnostic_engine \<Rightarrow> u16 list \<Rightarrow> u16 list \<times> u16 list
     \<Rightarrow> ('w session, string + u16 list \<times> u16 list) state" where
  "mtu_loop io g [] (passing, silent_failures) = State_Monad.return (Inr (passing, silent_failures))"
| "mtu_loop io g (bytes # sizes) (passing, silent_failures) =
     do { reply \<leftarrow> send io g (Ping (dc_internet_probe_address (de_config g)) bytes True);
          case reply of
            Inr (PingReply _) \<Rightarrow> mtu_loop io g sizes (passing @ [bytes], silent_failures)
          | Inr PingTimeout \<Rightarrow> mtu_loop io g sizes (passing, silent_failures @ [bytes])
          | Inr (FragmentationNeeded _) \<Rightarrow> mtu_loop io g sizes (passing, silent_failures)
          | Inr _ \<Rightarrow> State_Monad.return (Inl UNEXPECTED_RESPONSE)
          | Inl error \<Rightarrow> State_Monad.return (Inl (probe_error_text error)) }"

definition mtu_sizes :: "diagnostic_engine \<Rightarrow> u16 list" where
  "mtu_sizes g = remdups_adj (rev (sort (dc_mtu_probe_sizes (de_config g))))"

definition iter_min :: "'a::linorder list \<Rightarrow> 'a option" where
  "iter_min xs = (if xs = [] then None else Some (fold min (tl xs) (hd xs)))"

definition check_mtu ::
  "'w doctor_io \<Rightarrow> diagnostic_engine \<Rightarrow> ('w session, check_result) state" where
  "check_mtu io g =
     do { outcome \<leftarrow> mtu_loop io g (mtu_sizes g) ([], []);
          case outcome of
            Inl error \<Rightarrow> State_Monad.return (failed_probe Mtu error)
          | Inr (passing, silent_failures) \<Rightarrow>
              do { pass \<leftarrow> (case iter_max passing of
                       None \<Rightarrow> State_Monad.return []
                     | Some bytes \<Rightarrow>
                         do { a \<leftarrow> measurement io PassingMtuBytes (f64_of_int (uint bytes)) Bytes;
                              State_Monad.return [a] });
                   fail \<leftarrow> (case iter_min silent_failures of
                       None \<Rightarrow> State_Monad.return []
                     | Some bytes \<Rightarrow>
                         do { b \<leftarrow> measurement io FailingMtuBytes (f64_of_int (uint bytes)) Bytes;
                              State_Monad.return [b] });
                   State_Monad.return
                     (conclude Mtu (silent_failures = []) (pass @ fail) CONFIDENCE_MEDIUM
                       (DetailMtu (iter_max passing) (iter_min silent_failures))) } }"

definition query_resolver ::
  "'w doctor_io \<Rightarrow> diagnostic_engine \<Rightarrow> string \<Rightarrow> bool \<Rightarrow> ('w session, resolver_evidence) state" where
  "query_resolver io g resolver independent =
     do { reply \<leftarrow> send io g (DnsQuery resolver (dc_dns_probe_name (de_config g)));
          State_Monad.return
            \<lparr> re_resolver = resolver, re_independent = independent,
              re_outcome = (case reply of
                  Inr (DnsAnswer _ latency_ms) \<Rightarrow> Answered latency_ms
                | Inr (DnsFailureReply reason) \<Rightarrow> ResolverFailed reason
                | Inr _ \<Rightarrow> ResolverUnavailable UNEXPECTED_RESPONSE
                | Inl error \<Rightarrow> ResolverUnavailable (probe_error_text error)) \<rparr> }"

fun query_resolvers ::
  "'w doctor_io \<Rightarrow> diagnostic_engine \<Rightarrow> string list \<Rightarrow> ('w session, resolver_evidence list) state" where
  "query_resolvers io g [] = State_Monad.return []"
| "query_resolvers io g (resolver # rs) =
     do { r \<leftarrow> query_resolver io g resolver False;
          rest \<leftarrow> query_resolvers io g rs;
          State_Monad.return (r # rest) }"

definition answered_latency :: "resolver_evidence \<Rightarrow> f64 option" where
  "answered_latency r = (case re_outcome r of Answered latency_ms \<Rightarrow> Some latency_ms | _ \<Rightarrow> None)"

definition check_dns ::
  "'w doctor_io \<Rightarrow> diagnostic_engine \<Rightarrow> ('w session, check_result) state" where
  "check_dns io g =
     do { configured \<leftarrow> query_resolvers io g (dc_configured_resolvers (de_config g));
          independent \<leftarrow> query_resolver io g (dc_independent_resolver (de_config g)) True;
          let resolvers = configured @ [independent];
              configured_failures =
                length (filter (\<lambda>r. answered_latency r = None)
                         (filter (\<lambda>r. \<not> re_independent r) resolvers))
          in do { a \<leftarrow> measurement io ResolverFailureCount (f64_of_int (int configured_failures)) Count;
                  rest \<leftarrow> (case min_by_total_cmp (List.map_filter answered_latency resolvers) of
                      None \<Rightarrow> State_Monad.return []
                    | Some latency \<Rightarrow>
                        do { b \<leftarrow> measurement io DnsLatencyMs latency Milliseconds;
                             State_Monad.return [b] });
                  State_Monad.return
                    (conclude Dns (configured_failures < length (dc_configured_resolvers (de_config g)))
                      (a # rest)
                      (if configured_failures = 0 then CONFIDENCE_HIGH else CONFIDENCE_MEDIUM)
                      (DetailDns resolvers)) } }"

definition check_route_vpn ::
  "'w doctor_io \<Rightarrow> diagnostic_engine \<Rightarrow> ('w session, check_result) state" where
  "check_route_vpn io g =
     do { reply \<leftarrow> send io g RouteTable;
          case reply of
            Inr (RouteTableReply default_routes) \<Rightarrow>
              do { a \<leftarrow> measurement io DefaultRouteCount (f64_of_int (int (length default_routes))) Count;
                   State_Monad.return
                     (conclude RouteVpn (length default_routes = 1) [a] CONFIDENCE_HIGH
                       (DetailRoute default_routes (1 < length default_routes))) }
          | Inr _ \<Rightarrow> State_Monad.return (failed_probe RouteVpn UNEXPECTED_RESPONSE)
          | Inl error \<Rightarrow> State_Monad.return (failed_probe RouteVpn (probe_error_text error)) }"

definition check_internet ::
  "'w doctor_io \<Rightarrow> diagnostic_engine \<Rightarrow> check_result list \<Rightarrow> ('w session, check_result) state" where
  "check_internet io g prior =
     (let lan_ok = is_some_and (find_check prior Gateway) (\<lambda>result. cr_status result = Passed)
      in do { reply \<leftarrow> send io g (ReachIp (dc_internet_probe_address (de_config g))
                                       (dc_internet_probe_port (de_config g)));
              case reply of
                Inr (Reachable latency_ms) \<Rightarrow>
                  do { a \<leftarrow> measurement io ReachabilitySuccess (f64_of_int 1) Boolean;
                       b \<leftarrow> measurement io RttMs latency_ms Milliseconds;
                       State_Monad.return
                         (conclude InternetReachability True [a, b] CONFIDENCE_HIGH
                           (DetailInternet True lan_ok)) }
              | Inr Unreachable \<Rightarrow>
                  do { a \<leftarrow> measurement io ReachabilitySuccess (f64_of_int 0) Boolean;
                       State_Monad.return
                         (conclude InternetReachability False [a] CONFIDENCE_HIGH
                           (DetailInternet False lan_ok)) }
              | Inr _ \<Rightarrow> State_Monad.return (failed_probe InternetReachability UNEXPECTED_RESPONSE)
              | Inl error \<Rightarrow> State_Monad.return
                  (failed_probe InternetReachability (probe_error_text error)) })"

section \<open>The run\<close>

definition probe_cost :: "diagnostic_engine \<Rightarrow> check_kind \<Rightarrow> u32" where
  "probe_cost g kind =
     (case kind of
        Gateway \<Rightarrow> ucast (dc_ping_count (de_config g))
      | LossLatency \<Rightarrow> ucast (dc_ping_count (de_config g))
      | Mtu \<Rightarrow> of_nat (length (dc_mtu_probe_sizes (de_config g)))
      | Dns \<Rightarrow> of_nat (length (dc_configured_resolvers (de_config g))) + 1
      | _ \<Rightarrow> 1)"

definition run_check ::
  "'w doctor_io \<Rightarrow> diagnostic_engine \<Rightarrow> check_kind \<Rightarrow> check_result list
     \<Rightarrow> ('w session, check_result) state" where
  "run_check io g kind prior =
     (case kind of
        CollectorHealth \<Rightarrow> check_collector io g
      | AdapterLink \<Rightarrow> check_adapter_link io g
      | AddressDhcp \<Rightarrow> check_address io g
      | DuplicateIp \<Rightarrow> check_duplicate_ip io g prior
      | WifiQuality \<Rightarrow> check_wifi io g
      | Gateway \<Rightarrow> check_gateway io g
      | RouterHealth \<Rightarrow> check_router io g
      | LossLatency \<Rightarrow> check_loss_latency io g
      | Mtu \<Rightarrow> check_mtu io g
      | Dns \<Rightarrow> check_dns io g
      | RouteVpn \<Rightarrow> check_route_vpn io g
      | InternetReachability \<Rightarrow> check_internet io g prior)"

definition probes_used :: "('w session, u32) state" where
  "probes_used = State (\<lambda>s. (sx_used s, s))"

text \<open>The loop of \<open>run\<close>: the checks so far and whether the budget is exhausted.\<close>

fun run_checks ::
  "'w doctor_io \<Rightarrow> diagnostic_engine \<Rightarrow> check_kind list \<Rightarrow> check_result list \<Rightarrow> bool
     \<Rightarrow> ('w session, check_result list \<times> bool) state" where
  "run_checks io g [] checks budget_exhausted = State_Monad.return (checks, budget_exhausted)"
| "run_checks io g (kind # kinds) checks budget_exhausted =
     (case dependency_skip kind checks of
        Some because \<Rightarrow> run_checks io g kinds (checks @ [skipped kind because]) budget_exhausted
      | None \<Rightarrow>
          do { used \<leftarrow> probes_used;
               if budget_exhausted
                  \<or> bu_max_probes (de_budget g) < saturating_add used (probe_cost g kind)
               then run_checks io g kinds (checks @ [skipped kind BudgetExhausted]) True
               else do { result \<leftarrow> run_check io g kind checks;
                         run_checks io g kinds (checks @ [result]) budget_exhausted } })"

definition run_engine ::
  "'w doctor_io \<Rightarrow> diagnostic_engine \<Rightarrow> ('w session, diagnostic_report) state" where
  "run_engine io g =
     do { started_at \<leftarrow> now io;
          outcome \<leftarrow> run_checks io g EXECUTION_ORDER [] False;
          finished_at \<leftarrow> now io;
          used \<leftarrow> probes_used;
          State_Monad.return
            \<lparr> rp_started_at = started_at, rp_finished_at = finished_at, rp_budget = de_budget g,
              rp_probes_used = used, rp_budget_exhausted = snd outcome,
              rp_checks = fst outcome \<rparr> }"

definition diagnostic_run ::
  "'w doctor_io \<Rightarrow> diagnostic_engine \<Rightarrow> 'w \<Rightarrow> diagnostic_report \<times> 'w" where
  "diagnostic_run io g w =
     (case run_state (run_engine io g) \<lparr> sx_used = 0, sx_world = w \<rparr> of
        (report, s) \<Rightarrow> (report, sx_world s))"

end
