(* ===== verification/Doctor_Run.thy ===== *)
theory Doctor_Run
  imports Doctor_Engine
begin

text \<open>
  What a diagnostic run guarantees: the checks it reports and why, how many probes it sends,
  and with which timeout. Two small logics over the state monad carry the proofs:
  \<open>yields P m\<close> (every result of \<open>m\<close> satisfies \<open>P\<close>) and \<open>spends g k m\<close> (\<open>m\<close> sends at
  most \<open>k\<close> probes, counts each one, and gives each the budget's timeout). The second speaks of
  a transport wrapped by \<open>logged\<close>, which records every probe as the repository's
  \<open>FakeProbeTransport\<close> does.
\<close>

section \<open>Logged transports\<close>

definition logged :: "'w doctor_io \<Rightarrow> ('w \<times> probe list) doctor_io" where
  "logged io =
     \<lparr> io_probe = (\<lambda>(w, log) p. case io_probe io w p of (reply, w') \<Rightarrow> (reply, (w', log @ [p]))),
       io_now = (\<lambda>(w, log). case io_now io w of (t, w') \<Rightarrow> (t, (w', log))) \<rparr>"

definition fake_transport ::
  "(probe_request \<Rightarrow> probe_error + probe_response) \<Rightarrow> instant \<Rightarrow> (unit \<times> probe list) doctor_io" where
  "fake_transport handler t =
     logged \<lparr> io_probe = (\<lambda>w p. (handler (pr_request p), w)), io_now = (\<lambda>w. (t, w)) \<rparr>"

section \<open>Results\<close>

named_theorems yields_rules \<open>introduction rules of the result logic\<close>
named_theorems spends_rules \<open>introduction rules of the probe accounting\<close>

definition yields :: "('a \<Rightarrow> bool) \<Rightarrow> ('s, 'a) state \<Rightarrow> bool" where
  "yields P m \<longleftrightarrow> (\<forall>s. P (fst (run_state m s)))"

lemma yields_return [yields_rules]: "P x \<Longrightarrow> yields P (State_Monad.return x)"
  by (simp add: yields_def State_Monad.return_def)

lemma yields_bind [yields_rules]: "(\<And>x. yields P (f x)) \<Longrightarrow> yields P (State_Monad.bind m f)"
  by (simp add: yields_def State_Monad.bind_def split: prod.split)

lemma yieldsD: "yields P m \<Longrightarrow> run_state m s = (x, s') \<Longrightarrow> P x"
  unfolding yields_def by (metis fst_conv)

text \<open>The detail of a result is the one its check produces, or a probe failure.\<close>

fun detail_of :: "check_kind \<Rightarrow> check_detail \<Rightarrow> bool" where
  "detail_of k (DetailProbeFailure _) = True"
| "detail_of k (DetailCollector _ _ _) = (k = CollectorHealth)"
| "detail_of k (DetailLink _) = (k = AdapterLink)"
| "detail_of k (DetailAddress _ _) = (k = AddressDhcp)"
| "detail_of k (DetailDuplicateIp _ _) = (k = DuplicateIp)"
| "detail_of k (DetailWifi wireless rssi _) = (k = WifiQuality \<and> (wireless \<longrightarrow> rssi \<noteq> None))"
| "detail_of k (DetailGatewayPing _ _) = (k = Gateway)"
| "detail_of k (DetailRouter _) = (k = RouterHealth)"
| "detail_of k (DetailLossLatency _ _) = (k = LossLatency)"
| "detail_of k (DetailMtu _ _) = (k = Mtu)"
| "detail_of k (DetailDns _) = (k = Dns)"
| "detail_of k (DetailRoute _ _) = (k = RouteVpn)"
| "detail_of k (DetailInternet _ _) = (k = InternetReachability)"

definition result_ok :: "check_kind \<Rightarrow> check_result \<Rightarrow> bool" where
  "result_ok k r \<longleftrightarrow> cr_kind r = k \<and> cr_status r \<in> {Passed, Failed}
     \<and> (\<exists>detail. cr_detail r = Some detail \<and> detail_of k detail
          \<and> (cr_status r = Failed \<longrightarrow> (\<forall>rssi retry. detail \<noteq> DetailWifi False rssi retry)))"

lemma result_ok_failed_probe [simp]: "result_ok k (failed_probe k error)"
  by (simp add: result_ok_def failed_probe_def)

lemma result_ok_conclude:
  "detail_of k detail \<Longrightarrow> (\<not> pass \<Longrightarrow> \<forall>rssi retry. detail \<noteq> DetailWifi False rssi retry) \<Longrightarrow>
     result_ok k (conclude k pass evidence conf detail)"
  by (simp add: result_ok_def conclude_def)

lemmas check_defs = check_collector_def check_adapter_link_def check_address_def
  check_duplicate_ip_def check_wifi_def check_gateway_def check_router_def
  check_loss_latency_def check_mtu_def check_dns_def check_route_vpn_def check_internet_def

lemma run_check_result: "yields (result_ok k) (run_check io g k prior)"
  by (cases k)
    (auto simp: run_check_def check_defs Let_def intro!: yields_rules result_ok_conclude
      split: sum.split probe_response.split option.split prod.split)

section \<open>Accounting\<close>

text \<open>The probes a computation on a logged transport adds to the log.\<close>

definition spends ::
  "diagnostic_engine \<Rightarrow> nat \<Rightarrow> (('w \<times> probe list) session, 'a) state \<Rightarrow> bool" where
  "spends g k m \<longleftrightarrow> (\<forall>s. \<exists>ps.
     snd (sx_world (snd (run_state m s))) = snd (sx_world s) @ ps \<and> length ps \<le> k
     \<and> (\<forall>p \<in> set ps. pr_timeout_ms p = bu_per_probe_timeout_ms (de_budget g))
     \<and> unat (sx_used (snd (run_state m s))) = min (unat (sx_used s) + length ps) (2 ^ 32 - 1))"

lemma unat_u32_bound: "unat (x :: u32) \<le> 2 ^ 32 - 1"
proof -
  have "unat x < 2 ^ 32" using unsigned_less [where w = x] by simp
  then show ?thesis by simp
qed

lemma unat_saturating_succ:
  "unat (saturating_add (x :: u32) 1) = min (unat x + 1) (2 ^ 32 - 1)"
  using unsigned_less [where w = x]
  by (auto simp: saturating_add_def unat_word_ariths unsigned_minus_1_eq_mask mask_eq_exp_minus_1)

lemma spends_return [spends_rules]: "spends g k (State_Monad.return x)"
  unfolding spends_def State_Monad.return_def
  using unat_u32_bound by (auto intro!: exI [of _ "[]"] simp: min_def le_antisym)

lemma spends_now: "spends g k (now (logged io))"
  unfolding spends_def now_def logged_def
  using unat_u32_bound
  by (auto intro!: exI [of _ "[]"] simp: min_def le_antisym split: prod.split)

lemma spends_send: "spends g (Suc 0) (send (logged io) g request)"
  unfolding spends_def send_def logged_def
  by (auto intro!: exI [of _ "[\<lparr> pr_request = request,
      pr_timeout_ms = bu_per_probe_timeout_ms (de_budget g) \<rparr>]"]
      simp: unat_saturating_succ split: prod.split)

lemma spends_bind:
  assumes "spends g a m" and "\<And>x. spends g b (f x)" and "a + b \<le> k"
  shows "spends g k (State_Monad.bind m f)"
  unfolding spends_def
proof
  fix s
  obtain x s1 where m: "run_state m s = (x, s1)" by fastforce
  obtain y s2 where f: "run_state (f x) s1 = (y, s2)" by fastforce
  obtain ps where ps: "snd (sx_world s1) = snd (sx_world s) @ ps" "length ps \<le> a"
    "\<forall>p \<in> set ps. pr_timeout_ms p = bu_per_probe_timeout_ms (de_budget g)"
    "unat (sx_used s1) = min (unat (sx_used s) + length ps) (2 ^ 32 - 1)"
    using assms(1) m unfolding spends_def by (metis snd_conv)
  obtain qs where qs: "snd (sx_world s2) = snd (sx_world s1) @ qs" "length qs \<le> b"
    "\<forall>p \<in> set qs. pr_timeout_ms p = bu_per_probe_timeout_ms (de_budget g)"
    "unat (sx_used s2) = min (unat (sx_used s1) + length qs) (2 ^ 32 - 1)"
    using assms(2) [of x] f unfolding spends_def by (metis snd_conv)
  show "\<exists>ps. snd (sx_world (snd (run_state (State_Monad.bind m f) s))) = snd (sx_world s) @ ps
      \<and> length ps \<le> k
      \<and> (\<forall>p \<in> set ps. pr_timeout_ms p = bu_per_probe_timeout_ms (de_budget g))
      \<and> unat (sx_used (snd (run_state (State_Monad.bind m f) s)))
          = min (unat (sx_used s) + length ps) (2 ^ 32 - 1)"
    by (intro exI [of _ "ps @ qs"]) (use m f ps qs assms(3) in \<open>auto simp: State_Monad.bind_def\<close>)
qed

lemma spends_send_bind [spends_rules]:
  "(\<And>x. spends g k (f x)) \<Longrightarrow> spends g (Suc k) (State_Monad.bind (send (logged io) g request) f)"
  by (rule spends_bind [OF spends_send]) auto

lemma spends_measurement: "spends g k (measurement (logged io) metric value unit)"
  unfolding measurement_def by (rule spends_bind [of g 0 _ k]) (auto intro: spends_now spends_return)

lemma spends_free_bind [spends_rules]:
  "(\<And>k. spends g k m) \<Longrightarrow> (\<And>x. spends g k (f x)) \<Longrightarrow> spends g k (State_Monad.bind m f)"
  by (rule spends_bind [of g 0 m k]) auto

lemmas [spends_rules] = spends_measurement spends_now

lemma spends_mono: "spends g k m \<Longrightarrow> k \<le> k' \<Longrightarrow> spends g k' m"
  unfolding spends_def by (meson le_trans)

lemma spends_ping_loop: "spends g n (ping_loop (logged io) g target n acc)"
  by (induction n arbitrary: acc) (auto simp: split_paired_all intro: spends_rules)

lemma spends_mtu_loop: "spends g (length sizes) (mtu_loop (logged io) g sizes acc)"
proof (induction sizes arbitrary: acc)
  case (Cons bytes sizes)
  then show ?case
    by (cases acc) (auto intro!: spends_send_bind intro: spends_return split: sum.split probe_response.split)
qed (simp add: split_paired_all spends_return)

lemma spends_query_resolver: "spends g (Suc 0) (query_resolver (logged io) g resolver independent)"
  unfolding query_resolver_def by (rule spends_send_bind) (rule spends_return)

lemma spends_query_resolvers: "spends g (length rs) (query_resolvers (logged io) g rs)"
proof (induction rs)
  case (Cons r rs)
  have "spends g (length rs) (State_Monad.bind (query_resolvers (logged io) g rs)
      (\<lambda>rest. State_Monad.return (x # rest)))" for x
    by (rule spends_bind [OF Cons.IH spends_return [of g 0]]) simp
  then show ?case
    unfolding query_resolvers.simps by (rule spends_bind [OF spends_query_resolver]) simp
qed (simp add: spends_return)


section \<open>The cost of a check\<close>

lemma new_engine_bounds:
  assumes "new_engine config budget = Inr g"
  shows "unat (dc_ping_count (de_config g)) \<le> 16" and "length (dc_mtu_probe_sizes (de_config g)) \<le> 8"
    and "length (dc_configured_resolvers (de_config g)) \<le> 8" and "de_budget g = budget"
  using assms
  by (auto simp: new_engine_def validate_doctor_config_def MAX_PING_COUNT_def MAX_MTU_PROBE_SIZES_def
      MAX_RESOLVERS_def word_le_nat_alt Let_def not_less split: sum.splits if_splits)

definition admitted_cost :: "diagnostic_engine \<Rightarrow> check_kind \<Rightarrow> nat" where
  "admitted_cost g k =
     (case k of
        Gateway \<Rightarrow> unat (dc_ping_count (de_config g))
      | LossLatency \<Rightarrow> unat (dc_ping_count (de_config g))
      | Mtu \<Rightarrow> length (dc_mtu_probe_sizes (de_config g))
      | Dns \<Rightarrow> Suc (length (dc_configured_resolvers (de_config g)))
      | _ \<Rightarrow> 1)"

lemma unat_of_nat_u32: "n < 2 ^ 32 \<Longrightarrow> unat (of_nat n :: u32) = n"
  by (simp add: unat_of_nat)

lemma probe_cost_unat:
  assumes "new_engine config budget = Inr g"
  shows "unat (probe_cost g k) = admitted_cost g k" and "admitted_cost g k \<le> 16"
proof -
  note b = new_engine_bounds [OF assms]
  have ping: "unat (ucast (dc_ping_count (de_config g)) :: u32) = unat (dc_ping_count (de_config g))"
    using b(1) by (simp add: unsigned_ucast_eq take_bit_nat_eq_self)
  have mtu: "unat (of_nat (length (dc_mtu_probe_sizes (de_config g))) :: u32)
      = length (dc_mtu_probe_sizes (de_config g))"
    using b(2) by (intro unat_of_nat_u32) simp
  have "unat (of_nat (Suc (length (dc_configured_resolvers (de_config g)))) :: u32)
      = Suc (length (dc_configured_resolvers (de_config g)))"
    using b(3) by (intro unat_of_nat_u32) simp
  then have dns: "unat (of_nat (length (dc_configured_resolvers (de_config g))) + 1 :: u32)
      = Suc (length (dc_configured_resolvers (de_config g)))"
    by (simp add: add.commute)
  show "unat (probe_cost g k) = admitted_cost g k"
    using ping mtu dns by (cases k) (simp_all add: probe_cost_def admitted_cost_def)
  show "admitted_cost g k \<le> 16"
    using b by (cases k) (simp_all add: admitted_cost_def)
qed

lemma length_mtu_sizes: "length (mtu_sizes g) \<le> length (dc_mtu_probe_sizes (de_config g))"
  by (metis mtu_sizes_def remdups_adj_length length_rev length_sort)

lemma spends_check_dns: "spends g (admitted_cost g Dns) (check_dns (logged io) g)"
proof -
  have rest: "spends g 0 (let resolvers = configured @ [independent];
              configured_failures =
                length (filter (\<lambda>r. answered_latency r = None)
                         (filter (\<lambda>r. \<not> re_independent r) resolvers))
          in do { a \<leftarrow> measurement (logged io) ResolverFailureCount (f64_of_int (int configured_failures)) Count;
                  rest \<leftarrow> (case min_by_total_cmp (List.map_filter answered_latency resolvers) of
                      None \<Rightarrow> State_Monad.return []
                    | Some latency \<Rightarrow>
                        do { b \<leftarrow> measurement (logged io) DnsLatencyMs latency Milliseconds;
                             State_Monad.return [b] });
                  State_Monad.return
                    (conclude Dns (configured_failures < length (dc_configured_resolvers (de_config g)))
                      (a # rest)
                      (if configured_failures = 0 then CONFIDENCE_HIGH else CONFIDENCE_MEDIUM)
                      (DetailDns resolvers)) })" for configured independent
    by (auto simp: Let_def intro!: spends_rules split: option.split)
  show ?thesis
    unfolding check_dns_def admitted_cost_def check_kind.case
    by (rule spends_bind [OF spends_query_resolvers])
      (rule spends_bind [OF spends_query_resolver rest, of "Suc 0"], simp_all)
qed

lemma spends_check_mtu: "spends g (admitted_cost g Mtu) (check_mtu (logged io) g)"
  unfolding check_mtu_def admitted_cost_def check_kind.case
  by (rule spends_bind [OF spends_mtu_loop, where b = 0])
    (auto intro!: spends_rules length_mtu_sizes split: sum.split option.split)

lemma spends_check_pings:
  "spends g (admitted_cost g Gateway) (check_gateway (logged io) g)"
  "spends g (admitted_cost g LossLatency) (check_loss_latency (logged io) g)"
  unfolding check_gateway_def check_loss_latency_def ping_sample_def admitted_cost_def check_kind.case
  by (rule spends_bind [OF spends_ping_loop, where b = 0];
      auto simp: Let_def intro!: spends_rules split: option.split)+

lemma spends_run_check: "spends g (admitted_cost g k) (run_check (logged io) g k prior)"
proof (cases "k \<in> {Gateway, LossLatency, Mtu, Dns}")
  case True
  then show ?thesis
    using spends_check_dns spends_check_mtu spends_check_pings by (auto simp: run_check_def)
next
  case False
  then have one: "admitted_cost g k = Suc 0" by (cases k) (auto simp: admitted_cost_def)
  show ?thesis
    unfolding one using False
    by (cases k)
      (auto simp: run_check_def check_defs Let_def intro!: spends_rules
        split: sum.split probe_response.split option.split)
qed

section \<open>The loop\<close>

text \<open>
  The accounting of the loop: starting with room for every remaining check, the counter
  advances by exactly the number of probes sent and stays within the budget.
\<close>

lemma run_checks_accounting:
  assumes eng: "new_engine config budget = Inr g"
    and "unat (sx_used s) + 16 * length kinds < 2 ^ 32 - 1"
    and "unat (sx_used s) \<le> unat (bu_max_probes budget)"
    and "run_state (run_checks (logged io) g kinds checks exhausted) s = (result, s')"
  shows "\<exists>ps. snd (sx_world s') = snd (sx_world s) @ ps
    \<and> (\<forall>p \<in> set ps. pr_timeout_ms p = bu_per_probe_timeout_ms budget)
    \<and> unat (sx_used s') = unat (sx_used s) + length ps
    \<and> unat (sx_used s') \<le> unat (bu_max_probes budget)"
  using assms(2-4)
proof (induction kinds arbitrary: s checks exhausted)
  case Nil
  then show ?case by (auto simp: State_Monad.return_def)
next
  case (Cons k kinds)
  have bud: "de_budget g = budget" by (rule new_engine_bounds(4) [OF eng])
  have room: "unat (sx_used s) + 16 * length kinds < 2 ^ 32 - 1" using Cons.prems(1) by simp
  show ?case
  proof (cases "dependency_skip k checks")
    case (Some because)
    with Cons.prems(3) have "run_state (run_checks (logged io) g kinds (checks @ [skipped k because]) exhausted) s
        = (result, s')" by simp
    from Cons.IH [OF room Cons.prems(2) this] show ?thesis .
  next
    case None
    show ?thesis
    proof (cases "exhausted \<or> bu_max_probes (de_budget g) < saturating_add (sx_used s) (probe_cost g k)")
      case True
      with None Cons.prems(3) have
        "run_state (run_checks (logged io) g kinds (checks @ [skipped k BudgetExhausted]) True) s = (result, s')"
        by (simp add: probes_used_def State_Monad.bind_def)
      from Cons.IH [OF room Cons.prems(2) this] show ?thesis .
    next
      case False
      obtain r s1 where r: "run_state (run_check (logged io) g k checks) s = (r, s1)" by fastforce
      with None False Cons.prems(3) have rec:
        "run_state (run_checks (logged io) g kinds (checks @ [r]) exhausted) s1 = (result, s')"
        by (simp add: probes_used_def State_Monad.bind_def)
      obtain ps where ps: "snd (sx_world s1) = snd (sx_world s) @ ps" "length ps \<le> admitted_cost g k"
        "\<forall>p \<in> set ps. pr_timeout_ms p = bu_per_probe_timeout_ms budget"
        "unat (sx_used s1) = min (unat (sx_used s) + length ps) (2 ^ 32 - 1)"
        using spends_run_check [of g k io checks] r unfolding spends_def bud by (metis snd_conv)
      have cost: "unat (probe_cost g k) = admitted_cost g k" "admitted_cost g k \<le> 16"
        using probe_cost_unat [OF eng] by simp_all
      have "unat (sx_used s) + admitted_cost g k < 2 ^ 32" using Cons.prems(1) cost(2) by simp
      then have "unat (saturating_add (sx_used s) (probe_cost g k)) = unat (sx_used s) + admitted_cost g k"
        using cost(1) by (simp add: saturating_add_def unat_word_ariths)
      with False have fits: "unat (sx_used s) + admitted_cost g k \<le> unat (bu_max_probes budget)"
        by (simp add: bud word_le_nat_alt not_less)
      have used: "unat (sx_used s1) = unat (sx_used s) + length ps"
        using ps(2,4) cost(2) Cons.prems(1) by simp
      have "unat (sx_used s1) + 16 * length kinds < 2 ^ 32 - 1"
        using used ps(2) cost(2) Cons.prems(1) by simp
      moreover have "unat (sx_used s1) \<le> unat (bu_max_probes budget)" using used ps(2) fits by simp
      ultimately obtain qs where "snd (sx_world s') = snd (sx_world s1) @ qs"
        "\<forall>p \<in> set qs. pr_timeout_ms p = bu_per_probe_timeout_ms budget"
        "unat (sx_used s') = unat (sx_used s1) + length qs"
        "unat (sx_used s') \<le> unat (bu_max_probes budget)"
        using Cons.IH [OF _ _ rec] by blast
      with ps used show ?thesis by (intro exI [of _ "ps @ qs"]) auto
    qed
  qed
qed

text \<open>Why each entry of a report has the status it has.\<close>

definition passed :: "check_result list \<Rightarrow> check_kind \<Rightarrow> bool" where
  "passed checks k \<longleftrightarrow> is_some_and (find_check checks k) (\<lambda>r. cr_status r = Passed)"

definition is_skip :: "check_result \<Rightarrow> bool" where
  "is_skip r \<longleftrightarrow> (\<exists>because. cr_status r = Skipped because)"

fun status_justified :: "check_result list \<Rightarrow> check_result \<Rightarrow> bool" where
  "status_justified checks r =
     (case cr_status r of
        Skipped (DependencyFailed d) \<Rightarrow>
          d \<in> set (dependencies (cr_kind r))
          \<and> is_some_and (find_check checks d) (\<lambda>p. cr_status p = Failed)
      | Skipped (DependencySkipped d) \<Rightarrow>
          d \<in> set (dependencies (cr_kind r)) \<and> is_some_and (find_check checks d) is_skip
      | _ \<Rightarrow> (\<forall>d \<in> set (dependencies (cr_kind r)). passed checks d))"

declare status_justified.simps [simp del]

lemma is_some_and_append:
  "is_some_and (find_check checks k) P \<Longrightarrow> is_some_and (find_check (checks @ later) k) P"
  by (simp add: find_check_append split: option.splits)

lemma status_justified_append:
  "status_justified checks r \<Longrightarrow> status_justified (checks @ later) r"
  by (auto simp: status_justified.simps passed_def is_some_and_append
      split: check_status.splits skip_reason.splits)

lemma dependency_skip_from_justified:
  assumes "set ds \<subseteq> cr_kind ` set checks"
  shows "case dependency_skip_from ds checks of
      None \<Rightarrow> \<forall>d \<in> set ds. passed checks d
    | Some (DependencyFailed d) \<Rightarrow>
        d \<in> set ds \<and> is_some_and (find_check checks d) (\<lambda>p. cr_status p = Failed)
    | Some (DependencySkipped d) \<Rightarrow> d \<in> set ds \<and> is_some_and (find_check checks d) is_skip
    | Some BudgetExhausted \<Rightarrow> False"
  using assms
proof (induction ds)
  case (Cons d ds)
  then obtain p where "find_check checks d = Some p"
    by (cases "find_check checks d") (auto simp: find_check_None)
  with Cons show ?case
    by (auto simp: passed_def is_skip_def split: option.splits check_status.splits skip_reason.splits)
qed simp

fun topological :: "check_kind list \<Rightarrow> check_kind list \<Rightarrow> bool" where
  "topological before [] = True"
| "topological before (k # ks) = (set (dependencies k) \<subseteq> set before \<and> topological (before @ [k]) ks)"

lemma execution_order_topological: "topological [] EXECUTION_ORDER"
  by (simp add: EXECUTION_ORDER_def)

text \<open>The invariant of the list of results while the loop runs.\<close>

definition report_inv :: "check_result list \<Rightarrow> bool \<Rightarrow> bool" where
  "report_inv checks exhausted \<longleftrightarrow>
     (\<forall>r \<in> set checks. status_justified checks r \<and> (is_skip r \<or> result_ok (cr_kind r) r))
     \<and> (exhausted \<longleftrightarrow> (\<exists>r \<in> set checks. cr_status r = Skipped BudgetExhausted))
     \<and> sorted_wrt (\<lambda>a b. cr_status a = Skipped BudgetExhausted \<longrightarrow> is_skip b) checks"

lemma report_inv_snoc:
  assumes inv: "report_inv checks exhausted"
    and just: "status_justified checks r" and ok: "is_skip r \<or> result_ok (cr_kind r) r"
    and stop: "exhausted \<longrightarrow> is_skip r"
    and ex: "exhausted' \<longleftrightarrow> exhausted \<or> cr_status r = Skipped BudgetExhausted"
  shows "report_inv (checks @ [r]) exhausted'"
  using assms by (auto simp: report_inv_def sorted_wrt_append status_justified_append)

lemma status_justified_skip:
  assumes "set (dependencies k) \<subseteq> cr_kind ` set checks"
  shows "dependency_skip k checks = Some because \<Longrightarrow> status_justified checks (skipped k because)
      \<and> because \<noteq> BudgetExhausted"
    and "dependency_skip k checks = None \<Longrightarrow> status_justified checks (skipped k BudgetExhausted)"
    and "dependency_skip k checks = None \<Longrightarrow> result_ok k r \<Longrightarrow> status_justified checks r"
  using dependency_skip_from_justified [OF assms]
  by (auto simp: dependency_skip_def status_justified.simps skipped_def result_ok_def
      split: skip_reason.splits)

lemma skipped_fields [simp]:
  "cr_kind (skipped k because) = k" "cr_status (skipped k because) = Skipped because"
  "is_skip (skipped k because)"
  by (simp_all add: skipped_def is_skip_def)

text \<open>One iteration of the loop: the check is skipped for a dependency or the budget, or it runs.\<close>

lemma run_checks_cases:
  assumes "run_state (run_checks io g (k # kinds) checks exhausted) s = out"
  obtains (dependency) because where "dependency_skip k checks = Some because"
      "run_state (run_checks io g kinds (checks @ [skipped k because]) exhausted) s = out"
  | (budget) "dependency_skip k checks = None"
      "run_state (run_checks io g kinds (checks @ [skipped k BudgetExhausted]) True) s = out"
  | (ran) r s1 where "dependency_skip k checks = None" "\<not> exhausted"
      "run_state (run_check io g k checks) s = (r, s1)" "result_ok k r"
      "run_state (run_checks io g kinds (checks @ [r]) exhausted) s1 = out"
proof (cases "dependency_skip k checks")
  case (Some because)
  with assms show ?thesis by (intro dependency) simp_all
next
  case None
  obtain r s1 where r: "run_state (run_check io g k checks) s = (r, s1)" by fastforce
  have ok: "result_ok k r" by (rule yieldsD [OF run_check_result r])
  show ?thesis
  proof (cases "exhausted \<or> bu_max_probes (de_budget g) < saturating_add (sx_used s) (probe_cost g k)")
    case True
    with None assms show ?thesis
      by (intro budget) (simp_all add: probes_used_def State_Monad.bind_def)
  next
    case False
    with None assms r ok show ?thesis
      by (intro ran [of r s1]) (simp_all add: probes_used_def State_Monad.bind_def)
  qed
qed

lemma run_checks_report:
  assumes "run_state (run_checks io g kinds checks exhausted) s = ((checks', exhausted'), s')"
    and "report_inv checks exhausted" and "topological before kinds" and "map cr_kind checks = before"
  shows "report_inv checks' exhausted' \<and> map cr_kind checks' = before @ kinds"
  using assms
proof (induction kinds arbitrary: s checks exhausted before)
  case Nil
  then show ?case by (simp add: State_Monad.return_def)
next
  case (Cons k kinds)
  have deps: "set (dependencies k) \<subseteq> cr_kind ` set checks"
    using Cons.prems(3,4) by (metis list.set_map topological.simps(2))
  have topo: "topological (before @ [k]) kinds" using Cons.prems(3) by simp
  have step: ?case
    if "run_state (run_checks io g kinds (checks @ [r]) ex) t = ((checks', exhausted'), s')"
      "report_inv (checks @ [r]) ex" "cr_kind r = k" for r ex t
    using Cons.IH [OF that(1,2) topo] Cons.prems(4) that(3) by simp
  note just = status_justified_skip [OF deps]
  from Cons.prems(1) show ?case
  proof (cases rule: run_checks_cases)
    case (dependency because)
    have "report_inv (checks @ [skipped k because]) exhausted"
      by (rule report_inv_snoc [OF Cons.prems(2)]) (use just(1) [OF dependency(1)] in auto)
    from step [OF dependency(2) this] show ?thesis by simp
  next
    case budget
    have "report_inv (checks @ [skipped k BudgetExhausted]) True"
      by (rule report_inv_snoc [OF Cons.prems(2)]) (use just(2) [OF budget(1)] in auto)
    from step [OF budget(2) this] show ?thesis by simp
  next
    case (ran r s1)
    have "report_inv (checks @ [r]) exhausted"
      by (rule report_inv_snoc [OF Cons.prems(2)])
        (use just(3) [OF ran(1,4)] ran(2,4) in \<open>auto simp: result_ok_def\<close>)
    from step [OF ran(5) this] ran(4) show ?thesis by (simp add: result_ok_def)
  qed
qed

lemma diagnostic_run_report:
  assumes "diagnostic_run io g w = (report, w')"
  shows "report_inv (rp_checks report) (rp_budget_exhausted report)"
    and "map cr_kind (rp_checks report) = EXECUTION_ORDER" and "rp_budget report = de_budget g"
proof -
  obtain checks ex t1 t2 used s s1 s2 where
    loop: "run_state (run_checks io g EXECUTION_ORDER [] False) s = ((checks, ex), s1)"
    and rep: "report = \<lparr> rp_started_at = t1, rp_finished_at = t2, rp_budget = de_budget g,
              rp_probes_used = used, rp_budget_exhausted = ex, rp_checks = checks \<rparr>"
    using assms
    by (auto simp: diagnostic_run_def run_engine_def State_Monad.bind_def State_Monad.return_def
        split: prod.splits)
  have "report_inv [] False" by (simp add: report_inv_def)
  from run_checks_report [OF loop this execution_order_topological] rep
  show "report_inv (rp_checks report) (rp_budget_exhausted report)"
    "map cr_kind (rp_checks report) = EXECUTION_ORDER" "rp_budget report = de_budget g" by simp_all
qed

lemma run_now_logged:
  "run_state (now (logged io)) s = (t, s') \<Longrightarrow>
     snd (sx_world s') = snd (sx_world s) \<and> sx_used s' = sx_used s"
  by (auto simp: now_def logged_def split: prod.splits)

definition sample_doctor_config :: doctor_config where
  "sample_doctor_config =
     \<lparr> dc_interface = ''eth0'', dc_gateway = ''10.0.0.1'', dc_configured_resolvers = [''10.0.0.1''],
       dc_independent_resolver = ''9.9.9.9'', dc_internet_probe_address = ''1.1.1.1'',
       dc_internet_probe_port = 443, dc_dns_probe_name = ''example.com'', dc_ping_count = 2,
       dc_mtu_probe_sizes = [1472, 1400], dc_thresholds = default_thresholds \<rparr>"

definition sample_engine :: diagnostic_engine where
  "sample_engine = \<lparr> de_config = sample_doctor_config,
     de_budget = \<lparr> bu_max_probes = 3, bu_per_probe_timeout_ms = 500 \<rparr> \<rparr>"

text \<open>A healthy collector and link, and no address.\<close>

definition no_address :: "probe_request \<Rightarrow> probe_error + probe_response" where
  "no_address request =
     (case request of
        CollectorStatus \<Rightarrow> Inr (CollectorStatusReply True True True)
      | LinkStatus _ \<Rightarrow> Inr (LinkStatusReply True None)
      | IpConfig _ \<Rightarrow> Inr (IpConfigReply None LeaseExpired)
      | _ \<Rightarrow> Inl ProbeUnsupported)"

lemma sample_engine_valid: "new_engine sample_doctor_config (de_budget sample_engine) = Inr sample_engine"
  by (simp add: new_engine_def validate_doctor_config_def sample_engine_def sample_doctor_config_def
      default_thresholds_def MAX_RESOLVERS_def MAX_PING_COUNT_def MAX_MTU_PROBE_SIZES_def f64_le_def
      is_finite_def f64_is_nan_def f64_key_def f64_sign_def f64_mag_def f64_infinite_mag_def Let_def)

section \<open>Properties\<close>

text \<open>C12. A diagnostic run reports each of the twelve checks once, in the execution order, and
  every status has its reason: a check that ran had all its dependencies passed; a check
  skipped for a dependency names one that failed or was skipped; a check skipped for the
  budget had its dependencies passed. The report is labelled as exhausted exactly when some
  check was skipped for the budget, and after the first such check nothing else ran.\<close>

theorem run_reports_every_check:
  "let report = fst (diagnostic_run io g w); checks = rp_checks report in
     map cr_kind checks = EXECUTION_ORDER
     \<and> (\<forall>r \<in> set checks. case cr_status r of
           Skipped (DependencyFailed d) \<Rightarrow> d \<in> set (dependencies (cr_kind r))
             \<and> is_some_and (find_check checks d) (\<lambda>p. cr_status p = Failed)
         | Skipped (DependencySkipped d) \<Rightarrow> d \<in> set (dependencies (cr_kind r))
             \<and> is_some_and (find_check checks d) (\<lambda>p. \<exists>because. cr_status p = Skipped because)
         | _ \<Rightarrow> \<forall>d \<in> set (dependencies (cr_kind r)).
             is_some_and (find_check checks d) (\<lambda>p. cr_status p = Passed))
     \<and> (rp_budget_exhausted report \<longleftrightarrow> (\<exists>r \<in> set checks. cr_status r = Skipped BudgetExhausted))
     \<and> (\<forall>i j. i < j \<and> j < length checks \<and> cr_status (checks ! i) = Skipped BudgetExhausted
           \<longrightarrow> (\<exists>because. cr_status (checks ! j) = Skipped because))"
proof -
  obtain report w' where run: "diagnostic_run io g w = (report, w')" by fastforce
  note inv = diagnostic_run_report [OF run]
  have "\<forall>r \<in> set (rp_checks report). case cr_status r of
      Skipped (DependencyFailed d) \<Rightarrow> d \<in> set (dependencies (cr_kind r))
        \<and> is_some_and (find_check (rp_checks report) d) (\<lambda>p. cr_status p = Failed)
    | Skipped (DependencySkipped d) \<Rightarrow> d \<in> set (dependencies (cr_kind r))
        \<and> is_some_and (find_check (rp_checks report) d) (\<lambda>p. \<exists>because. cr_status p = Skipped because)
    | _ \<Rightarrow> \<forall>d \<in> set (dependencies (cr_kind r)).
        is_some_and (find_check (rp_checks report) d) (\<lambda>p. cr_status p = Passed)"
    using inv(1) unfolding report_inv_def status_justified.simps passed_def is_skip_def by blast
  moreover have "\<forall>i j. i < j \<and> j < length (rp_checks report)
      \<and> cr_status (rp_checks report ! i) = Skipped BudgetExhausted
      \<longrightarrow> (\<exists>because. cr_status (rp_checks report ! j) = Skipped because)"
    using inv(1) unfolding report_inv_def sorted_wrt_iff_nth_less is_skip_def by blast
  ultimately show ?thesis
    using inv by (simp add: run report_inv_def Let_def)
qed

theorem run_reports_every_check_witness:
  "map cr_kind (rp_checks (fst (diagnostic_run (fake_transport no_address 0) sample_engine ((), []))))
     = [CollectorHealth, AdapterLink, AddressDhcp, DuplicateIp, WifiQuality, Gateway,
        RouterHealth, LossLatency, Mtu, Dns, RouteVpn, InternetReachability]"
  using run_reports_every_check [of "fake_transport no_address 0" sample_engine "((), [])"]
  unfolding Let_def EXECUTION_ORDER_def by blast

text \<open>C13. The probe budget is a hard limit: for an engine built by the constructor and any
  transport, the number of probes the transport received is exactly the number the report
  states, it never exceeds \<open>max_probes\<close>, and every probe carries the per-probe timeout of the
  budget.\<close>

theorem run_respects_budget:
  assumes "new_engine config budget = Inr g"
    and "diagnostic_run (logged io) g (w, []) = (report, (w', log))"
  shows "unat (rp_probes_used report) = length log \<and> rp_probes_used report \<le> bu_max_probes budget
    \<and> (\<forall>p \<in> set log. pr_timeout_ms p = bu_per_probe_timeout_ms budget)"
proof -
  obtain t1 s1 where one: "run_state (now (logged io)) \<lparr> sx_used = 0, sx_world = (w, []) \<rparr> = (t1, s1)"
    by fastforce
  obtain res s2 where two: "run_state (run_checks (logged io) g EXECUTION_ORDER [] False) s1 = (res, s2)"
    by fastforce
  obtain t2 s3 where three: "run_state (now (logged io)) s2 = (t2, s3)" by fastforce
  have "rp_probes_used report = sx_used s3" "log = snd (sx_world s3)"
    using assms(2) one two three
    by (auto simp: diagnostic_run_def run_engine_def State_Monad.bind_def State_Monad.return_def
        probes_used_def)
  moreover have "\<exists>ps. snd (sx_world s2) = snd (sx_world s1) @ ps
      \<and> (\<forall>p \<in> set ps. pr_timeout_ms p = bu_per_probe_timeout_ms budget)
      \<and> unat (sx_used s2) = unat (sx_used s1) + length ps
      \<and> unat (sx_used s2) \<le> unat (bu_max_probes budget)"
    by (rule run_checks_accounting [OF assms(1) _ _ two])
      (use run_now_logged [OF one] in \<open>simp_all add: EXECUTION_ORDER_def\<close>)
  ultimately show ?thesis
    using run_now_logged [OF one] run_now_logged [OF three] by (auto simp: word_le_nat_alt)
qed

theorem run_respects_budget_witness:
  "unat (rp_probes_used (fst (diagnostic_run (fake_transport no_address 0) sample_engine ((), []))))
     = length (snd (snd (diagnostic_run (fake_transport no_address 0) sample_engine ((), []))))
   \<and> rp_probes_used (fst (diagnostic_run (fake_transport no_address 0) sample_engine ((), []))) \<le> 3"
proof -
  let ?r = "diagnostic_run (fake_transport no_address 0) sample_engine ((), [])"
  obtain report w' log where r: "?r = (report, (w', log))" by (metis prod.collapse)
  from run_respects_budget [OF sample_engine_valid r [unfolded fake_transport_def]] r
  show ?thesis by (simp add: sample_engine_def)
qed

end
