(* ===== verification/Doctor_Diagnosis.thy ===== *)
theory Doctor_Diagnosis
  imports Doctor_Run
begin

text \<open>
  From a report to proposed remedies: the typed diagnoses of \<open>lattice-doctor/src/diagnosis.rs\<close>
  and the classification of repairs of \<open>repair.rs\<close>. The properties are about reports the
  diagnostic engine really produces: each diagnosis has the failed check as its cause and every
  ancestor of that check passed, and a proposed repair only uses values the run measured or
  the owner configured. A variant name that another enum of the crate already uses carries a
  distinguishing affix (\<open>DuplicateIpFault\<close>, \<open>...Plan\<close>).
\<close>

section \<open>Diagnoses\<close>

datatype diagnosis_kind =
    CollectorFault bool bool bool
  | AdapterLinkDown
  | AddressMissing lease_state
  | DuplicateIpFault string "string list"
  | WeakWifiQuality int
  | GatewayUnreachable
  | RouterFault
  | LossLatencyDegraded f64 "f64 option"
  | MtuBlackhole "u16 option" "u16 option"
  | DnsFailure "resolver_evidence list"
  | RouteVpnConflict "route_entry list"
  | InternetUnreachable bool
  | DiagnosticProbeFailure check_kind string

record diagnosis =
  di_kind :: diagnosis_kind
  di_evidence :: "measurement list"
  di_confidence :: confidence
  di_impact :: string

definition kind_for :: "check_result \<Rightarrow> diagnosis_kind" where
  "kind_for r =
     (case cr_detail r of
        Some (DetailProbeFailure error) \<Rightarrow> DiagnosticProbeFailure (cr_kind r) error
      | _ \<Rightarrow>
         (case (cr_kind r, cr_detail r) of
            (CollectorHealth, Some (DetailCollector privileged capture_ok worker_running)) \<Rightarrow>
              CollectorFault privileged capture_ok worker_running
          | (AdapterLink, _) \<Rightarrow> AdapterLinkDown
          | (AddressDhcp, Some (DetailAddress _ lease)) \<Rightarrow> AddressMissing lease
          | (DuplicateIp, Some (DetailDuplicateIp address macs)) \<Rightarrow> DuplicateIpFault address macs
          | (WifiQuality, Some (DetailWifi _ (Some rssi) _)) \<Rightarrow> WeakWifiQuality rssi
          | (Gateway, _) \<Rightarrow> GatewayUnreachable
          | (RouterHealth, _) \<Rightarrow> RouterFault
          | (LossLatency, Some (DetailLossLatency loss median_rtt)) \<Rightarrow>
              LossLatencyDegraded loss median_rtt
          | (Mtu, Some (DetailMtu largest_passing smallest_failing)) \<Rightarrow>
              MtuBlackhole largest_passing smallest_failing
          | (Dns, Some (DetailDns resolvers)) \<Rightarrow> DnsFailure resolvers
          | (RouteVpn, Some (DetailRoute default_routes _)) \<Rightarrow> RouteVpnConflict default_routes
          | (InternetReachability, Some (DetailInternet _ lan_ok)) \<Rightarrow> InternetUnreachable lan_ok
          | (check, _) \<Rightarrow>
              DiagnosticProbeFailure check ''diagnostic detail missing or inconsistent''))"

fun impact_for :: "diagnosis_kind \<Rightarrow> string" where
  "impact_for (CollectorFault _ _ _) =
     ''NeonHearth cannot observe the network; monitoring and protection are degraded.''"
| "impact_for AdapterLinkDown =
     ''No traffic can flow on this adapter; every dependent service is offline.''"
| "impact_for (AddressMissing _) =
     ''The host has no usable IP address; nothing on the network can be reached.''"
| "impact_for (DuplicateIpFault _ _) =
     ''Two devices claim the same address; connections will fail intermittently.''"
| "impact_for (WeakWifiQuality _) =
     ''Weak Wi-Fi signal causes slow transfers and dropped connections.''"
| "impact_for GatewayUnreachable =
     ''The router cannot be reached; all traffic beyond this host is blocked.''"
| "impact_for RouterFault =
     ''The router's management interface is unhealthy; visibility and control are reduced.''"
| "impact_for (LossLatencyDegraded _ _) =
     ''Packet loss or latency is elevated; calls, streams, and games will stutter.''"
| "impact_for (MtuBlackhole _ _) =
     ''Large packets are silently dropped; some sites and VPNs will hang.''"
| "impact_for (DnsFailure _) =
     ''Name resolution is failing; sites appear down even though the connection is up.''"
| "impact_for (RouteVpnConflict _) =
     ''The default route is missing or contested; traffic may take a broken path.''"
| "impact_for (InternetUnreachable True) =
     ''The local network works but the internet is down; the fault is on the WAN side.''"
| "impact_for (InternetUnreachable False) =
     ''Neither the local network nor the internet is reachable from this host.''"
| "impact_for (DiagnosticProbeFailure _ _) =
     ''A diagnostic probe could not run; this area of the network is unassessed.''"

definition diagnosis_for :: "check_result \<Rightarrow> diagnosis" where
  "diagnosis_for r =
     (let kind = kind_for r in
      \<lparr> di_kind = kind, di_evidence = cr_evidence r, di_confidence = cr_confidence r,
        di_impact = impact_for kind \<rparr>)"

definition diagnose :: "diagnostic_report \<Rightarrow> diagnosis list" where
  "diagnose report =
     map diagnosis_for (filter (\<lambda>check. cr_status check = Failed) (rp_checks report))"

section \<open>Repairs\<close>

definition MAX_APPROVAL_ID_BYTES :: nat where "MAX_APPROVAL_ID_BYTES = 128"

record approval_id =
  approval_token :: string

text \<open>
  \<open>chars().any(char::is_control)\<close> on UTF-8 bytes: the scalar values below 32, 127, and 128 to
  159, which are encoded as the byte 194 followed by themselves.
\<close>

fun has_control_char :: "string \<Rightarrow> bool" where
  "has_control_char [] = False"
| "has_control_char (a # s) =
     (let n = (of_char a :: nat) in
      n < 32 \<or> n = 127
      \<or> (n = 194 \<and> (case s of [] \<Rightarrow> False
             | b # _ \<Rightarrow> 128 \<le> (of_char b :: nat) \<and> (of_char b :: nat) \<le> 159))
      \<or> has_control_char s)"

definition approval_try_new :: "string \<Rightarrow> doctor_error + approval_id" where
  "approval_try_new token =
     (if token = [] \<or> MAX_APPROVAL_ID_BYTES < length token \<or> has_control_char token
      then Inl InvalidApproval else Inr \<lparr> approval_token = token \<rparr>)"

datatype repair_class =
  SafeAutomatic | ApprovalRequiredReversible | GuidedPhysical | ObservationOnly

datatype safe_action =
    RestartCollectorWorker | RefreshAppCaches | RenewCollectorLease | RetryRouterSession
  | RepairTailscaleServe

datatype approval_action =
    ResetAdapter string
  | ChangeDnsServers "string list"
  | SetDhcpReservation string string
  | BlockDevice string
  | UnblockDevice string
  | RebootRouter
  | RenewDhcpLease string
  | SetInterfaceMtu string u16

datatype guided_action = CheckCables | MoveHardware | ContactIsp | FactoryReset | InstallFirmware

datatype repair_plan =
    SafeAutomaticPlan safe_action string
  | ApprovalRequiredPlan approval_action string
  | GuidedPhysicalPlan guided_action string
  | ObservationOnlyPlan string

fun plan_class :: "repair_plan \<Rightarrow> repair_class" where
  "plan_class (SafeAutomaticPlan _ _) = SafeAutomatic"
| "plan_class (ApprovalRequiredPlan _ _) = ApprovalRequiredReversible"
| "plan_class (GuidedPhysicalPlan _ _) = GuidedPhysical"
| "plan_class (ObservationOnlyPlan _) = ObservationOnly"

record repair_context =
  rc_interface :: string
  rc_lease_renewal_severs_only_management_path :: bool
  rc_fallback_dns_servers :: "string list"

definition plan_repair :: "diagnosis_kind \<Rightarrow> repair_context \<Rightarrow> repair_plan" where
  "plan_repair diagnosis ctx =
     (case diagnosis of
        CollectorFault _ _ _ \<Rightarrow>
          SafeAutomaticPlan RestartCollectorWorker
            ''restarting the NeonHearth worker is local, safe, and reversible''
      | AdapterLinkDown \<Rightarrow>
          ApprovalRequiredPlan (ResetAdapter (rc_interface ctx))
            ''an adapter reset briefly disconnects the host and needs approval''
      | AddressMissing _ \<Rightarrow>
          if rc_lease_renewal_severs_only_management_path ctx
          then ApprovalRequiredPlan (RenewDhcpLease (rc_interface ctx))
                 ''renewing this lease could sever the only management path, so it must be approved''
          else SafeAutomaticPlan RenewCollectorLease
                 ''lease renewal cannot sever the management path here''
      | DuplicateIpFault address macs \<Rightarrow>
          ApprovalRequiredPlan
            (SetDhcpReservation (case macs of [] \<Rightarrow> [] | mac # _ \<Rightarrow> mac) address)
            ''a DHCP reservation change affects another device and needs approval''
      | WeakWifiQuality _ \<Rightarrow>
          GuidedPhysicalPlan MoveHardware
            ''signal strength is a physical placement problem the Doctor cannot change remotely''
      | GatewayUnreachable \<Rightarrow>
          ApprovalRequiredPlan RebootRouter
            ''a router reboot disconnects every device and needs approval''
      | RouterFault \<Rightarrow>
          SafeAutomaticPlan RetryRouterSession
            ''retrying the router management session is local and harmless''
      | LossLatencyDegraded _ _ \<Rightarrow>
          ObservationOnlyPlan
            ''degradation needs more samples before any disruptive change is worth proposing''
      | MtuBlackhole (Some mtu) _ \<Rightarrow>
          ApprovalRequiredPlan (SetInterfaceMtu (rc_interface ctx) mtu)
            ''lowering the interface MTU alters traffic for the whole host and needs approval''
      | MtuBlackhole None _ \<Rightarrow>
          ObservationOnlyPlan ''no working MTU was measured, so no safe value can be proposed''
      | DnsFailure _ \<Rightarrow>
          if rc_fallback_dns_servers ctx = []
          then ObservationOnlyPlan ''no known-good fallback resolver is configured''
          else ApprovalRequiredPlan (ChangeDnsServers (rc_fallback_dns_servers ctx))
                 ''changing DNS servers alters resolution for the whole host and needs approval''
      | RouteVpnConflict _ \<Rightarrow>
          ObservationOnlyPlan
            ''route and VPN configuration belongs to the owner; the Doctor only reports the conflict''
      | InternetUnreachable True \<Rightarrow>
          GuidedPhysicalPlan ContactIsp
            ''the LAN is healthy, so the outage is on the provider side''
      | InternetUnreachable False \<Rightarrow>
          ApprovalRequiredPlan RebootRouter
            ''both LAN and WAN are down; a router reboot needs approval''
      | DiagnosticProbeFailure _ _ \<Rightarrow>
          ObservationOnlyPlan ''the probe itself failed; no repair can be justified from it'')"

datatype state_key =
    WorkerState | CacheState | DhcpLease | RouterSession | TailscaleConfig | AdapterConfig
  | DnsServers | DhcpReservations | FirewallRules

record approved_repair =
  ar_action :: approval_action
  ar_approval :: approval_id

definition approved_new :: "approval_action \<Rightarrow> approval_id \<Rightarrow> approved_repair" where
  "approved_new action approval = \<lparr> ar_action = action, ar_approval = approval \<rparr>"

datatype executable_repair = SafeRepair safe_action | ApprovedRepair approved_repair

fun repair_class_of :: "executable_repair \<Rightarrow> repair_class" where
  "repair_class_of (SafeRepair _) = SafeAutomatic"
| "repair_class_of (ApprovedRepair _) = ApprovalRequiredReversible"

fun reversible :: "executable_repair \<Rightarrow> bool" where
  "reversible (SafeRepair action) = (action \<in> {RefreshAppCaches, RepairTailscaleServe})"
| "reversible (ApprovedRepair _) = True"

definition state_keys :: "executable_repair \<Rightarrow> state_key list" where
  "state_keys repair =
     (case repair of
        SafeRepair action \<Rightarrow>
          (case action of
             RestartCollectorWorker \<Rightarrow> [WorkerState]
           | RefreshAppCaches \<Rightarrow> [CacheState]
           | RenewCollectorLease \<Rightarrow> [DhcpLease]
           | RetryRouterSession \<Rightarrow> [RouterSession]
           | RepairTailscaleServe \<Rightarrow> [TailscaleConfig])
      | ApprovedRepair approved \<Rightarrow>
          (case ar_action approved of
             ResetAdapter _ \<Rightarrow> [AdapterConfig]
           | SetInterfaceMtu _ _ \<Rightarrow> [AdapterConfig]
           | ChangeDnsServers _ \<Rightarrow> [DnsServers]
           | SetDhcpReservation _ _ \<Rightarrow> [DhcpReservations]
           | BlockDevice _ \<Rightarrow> [FirewallRules]
           | UnblockDevice _ \<Rightarrow> [FirewallRules]
           | RebootRouter \<Rightarrow> [RouterSession]
           | RenewDhcpLease _ \<Rightarrow> [DhcpLease]))"

definition describe :: "executable_repair \<Rightarrow> string" where
  "describe repair =
     (case repair of
        SafeRepair action \<Rightarrow>
          (case action of
             RestartCollectorWorker \<Rightarrow> ''restart_collector_worker''
           | RefreshAppCaches \<Rightarrow> ''refresh_app_caches''
           | RenewCollectorLease \<Rightarrow> ''renew_collector_lease''
           | RetryRouterSession \<Rightarrow> ''retry_router_session''
           | RepairTailscaleServe \<Rightarrow> ''repair_tailscale_serve'')
      | ApprovedRepair approved \<Rightarrow>
          (case ar_action approved of
             ResetAdapter interface \<Rightarrow> ''reset_adapter '' @ interface
           | ChangeDnsServers servers \<Rightarrow> ''change_dns_servers '' @ join '','' servers
           | SetDhcpReservation device address \<Rightarrow>
               ''set_dhcp_reservation '' @ device @ '' -> '' @ address
           | BlockDevice device \<Rightarrow> ''block_device '' @ device
           | UnblockDevice device \<Rightarrow> ''unblock_device '' @ device
           | RebootRouter \<Rightarrow> ''reboot_router''
           | RenewDhcpLease interface \<Rightarrow> ''renew_dhcp_lease '' @ interface
           | SetInterfaceMtu interface mtu \<Rightarrow>
               ''set_interface_mtu '' @ interface @ '' '' @ show_nat (unat mtu)))"

text \<open>The check a diagnosis is about, and the direct dependency relation between checks.\<close>

fun diagnosed_check :: "diagnosis_kind \<Rightarrow> check_kind" where
  "diagnosed_check (CollectorFault _ _ _) = CollectorHealth"
| "diagnosed_check AdapterLinkDown = AdapterLink"
| "diagnosed_check (AddressMissing _) = AddressDhcp"
| "diagnosed_check (DuplicateIpFault _ _) = DuplicateIp"
| "diagnosed_check (WeakWifiQuality _) = WifiQuality"
| "diagnosed_check GatewayUnreachable = Gateway"
| "diagnosed_check RouterFault = RouterHealth"
| "diagnosed_check (LossLatencyDegraded _ _) = LossLatency"
| "diagnosed_check (MtuBlackhole _ _) = Mtu"
| "diagnosed_check (DnsFailure _) = Dns"
| "diagnosed_check (RouteVpnConflict _) = RouteVpn"
| "diagnosed_check (InternetUnreachable _) = InternetReachability"
| "diagnosed_check (DiagnosticProbeFailure check _) = check"

definition depends_on :: "(check_kind \<times> check_kind) set" where
  "depends_on = {(d, k). d \<in> set (dependencies k)}"

section \<open>What a failed check measured\<close>

text \<open>
  The facts behind a result that the repair planner relies on, stated relative to the checks
  that ran before it.
\<close>

definition measured :: "diagnostic_engine \<Rightarrow> check_result list \<Rightarrow> check_result \<Rightarrow> bool" where
  "measured g checks r =
     (case cr_detail r of
        Some (DetailDuplicateIp _ macs) \<Rightarrow> cr_status r = Failed \<longrightarrow> 1 < length macs
      | Some (DetailMtu (Some mtu) _) \<Rightarrow> mtu \<in> set (dc_mtu_probe_sizes (de_config g))
      | Some (DetailInternet _ lan_ok) \<Rightarrow>
          Gateway \<in> cr_kind ` set checks \<and> (lan_ok \<longleftrightarrow> passed checks Gateway)
      | _ \<Rightarrow> True)"

lemma passed_append: "k \<in> cr_kind ` set checks \<Longrightarrow> passed (checks @ later) k = passed checks k"
  by (cases "find_check checks k") (auto simp: passed_def find_check_append find_check_None)

lemma measured_append: "measured g checks r \<Longrightarrow> measured g (checks @ later) r"
  by (auto simp: measured_def passed_append split: option.splits check_detail.splits)

lemma measured_skipped: "measured g checks (skipped k because)"
  by (simp add: measured_def skipped_def)

lemma measured_failed_probe [simp]: "measured g checks (failed_probe k error)"
  by (simp add: measured_def failed_probe_def)

lemma measured_conclude [simp]:
  "measured g checks (conclude k pass evidence conf detail) =
     (case detail of
        DetailDuplicateIp _ macs \<Rightarrow> pass \<or> 1 < length macs
      | DetailMtu (Some mtu) _ \<Rightarrow> mtu \<in> set (dc_mtu_probe_sizes (de_config g))
      | DetailInternet _ lan_ok \<Rightarrow>
          Gateway \<in> cr_kind ` set checks \<and> (lan_ok \<longleftrightarrow> passed checks Gateway)
      | _ \<Rightarrow> True)"
  by (simp add: measured_def conclude_def split: check_detail.split)

lemma yields_bind_using:
  "yields Q m \<Longrightarrow> (\<And>x. Q x \<Longrightarrow> yields P (f x)) \<Longrightarrow> yields P (State_Monad.bind m f)"
  unfolding yields_def by (simp add: State_Monad.bind_def split: prod.split) (metis fst_conv)

lemma mtu_loop_passing:
  "yields (\<lambda>x. \<forall>p f. x = Inr (p, f) \<longrightarrow> set p \<subseteq> set passing \<union> set sizes)
     (mtu_loop io g sizes (passing, silent_failures))"
proof (induction sizes arbitrary: passing silent_failures)
  case (Cons bytes sizes)
  have weaken: "yields P m \<Longrightarrow> (\<And>x. P x \<Longrightarrow> Q x) \<Longrightarrow> yields Q m" for P Q and m :: "('s, 'b) state"
    by (simp add: yields_def)
  show ?case
    apply (auto intro!: yields_rules weaken [OF Cons.IH] split: sum.split probe_response.split)
      apply blast+
    done
qed (simp add: yields_def State_Monad.return_def)

lemma check_mtu_measured: "yields (measured g prior) (check_mtu io g)"
  unfolding check_mtu_def
  by (rule yields_bind_using [OF mtu_loop_passing])
    (auto intro!: yields_rules simp: mtu_sizes_def iter_max_Some_iff
      split: sum.split option.split)

lemma run_check_measured:
  assumes "k = InternetReachability \<Longrightarrow> Gateway \<in> cr_kind ` set prior"
  shows "yields (measured g prior) (run_check io g k prior)"
proof (cases "k = Mtu")
  case True
  then show ?thesis using check_mtu_measured by (simp add: run_check_def)
next
  case False
  with assms show ?thesis
    by (cases k)
      (auto simp: run_check_def check_defs Let_def passed_def
        intro!: yields_rules split: sum.split probe_response.split option.split prod.split)
qed

text \<open>A fact about results that holds when a check is added still holds in the final report.\<close>

lemma run_checks_every:
  assumes "run_state (run_checks io g kinds checks exhausted) s = ((checks', exhausted'), s')"
    and "\<forall>r \<in> set checks. Q checks r"
    and "\<And>pre k post. kinds = pre @ k # post \<Longrightarrow> S k \<subseteq> cr_kind ` set checks \<union> set pre"
    and "\<And>checks r later. Q checks r \<Longrightarrow> Q (checks @ later) r"
    and "\<And>checks k because. Q checks (skipped k because)"
    and "\<And>k prior. S k \<subseteq> cr_kind ` set prior \<Longrightarrow> yields (Q prior) (run_check io g k prior)"
  shows "\<forall>r \<in> set checks'. Q checks' r"
  using assms(1-3)
proof (induction kinds arbitrary: s checks exhausted)
  case Nil
  then show ?case by (simp add: State_Monad.return_def)
next
  case (Cons k kinds)
  have add: ?case
    if "run_state (run_checks io g kinds (checks @ [r]) ex) t = ((checks', exhausted'), s')"
      "Q checks r" "cr_kind r = k" for r ex t
  proof (rule Cons.IH [OF that(1)])
    show "\<forall>r' \<in> set (checks @ [r]). Q (checks @ [r]) r'"
      using Cons.prems(2) that(2) assms(4) by auto
  next
    fix pre k' post
    assume "kinds = pre @ k' # post"
    then have "S k' \<subseteq> cr_kind ` set checks \<union> set (k # pre)"
      using Cons.prems(3) [of "k # pre" k' post] by simp
    then show "S k' \<subseteq> cr_kind ` set (checks @ [r]) \<union> set pre" using that(3) by auto
  qed
  have "S k \<subseteq> cr_kind ` set checks" using Cons.prems(3) [of "[]"] by simp
  then have Q: "Q checks r" if "run_state (run_check io g k checks) s = (r, s1)" for r s1
    using yieldsD [OF assms(6) that] by blast
  from Cons.prems(1) show ?case
  proof (cases rule: run_checks_cases)
    case (ran r s1)
    show ?thesis by (rule add [OF ran(5) Q [OF ran(3)]]) (use ran(4) in \<open>simp add: result_ok_def\<close>)
  qed (erule add; simp add: assms(5))+
qed

lemma diagnostic_run_measured:
  "\<forall>r \<in> set (rp_checks (fst (diagnostic_run io g w))).
     measured g (rp_checks (fst (diagnostic_run io g w))) r"
proof -
  obtain t s0 where "run_state (now io) \<lparr> sx_used = 0, sx_world = w \<rparr> = (t, s0)" by fastforce
  moreover obtain checks ex s1 where
    loop: "run_state (run_checks io g EXECUTION_ORDER [] False) s0 = ((checks, ex), s1)"
    by (metis surj_pair)
  ultimately have "rp_checks (fst (diagnostic_run io g w)) = checks"
    by (simp add: diagnostic_run_def run_engine_def State_Monad.bind_def State_Monad.return_def
        probes_used_def split: prod.split)
  moreover have "\<forall>r \<in> set checks. measured g checks r"
  proof (rule run_checks_every [OF loop, where S = "\<lambda>k. if k = InternetReachability then {Gateway} else {}"])
    fix pre k post assume "EXECUTION_ORDER = pre @ k # post"
    then show "(if k = InternetReachability then {Gateway} else {}) \<subseteq> cr_kind ` set [] \<union> set pre"
      by (auto simp: EXECUTION_ORDER_def Cons_eq_append_conv)
  qed (auto simp: measured_append measured_skipped intro!: run_check_measured split: if_splits)
  ultimately show ?thesis by simp
qed

section \<open>Properties\<close>

lemma di_kind_diagnosis_for [simp]: "di_kind (diagnosis_for r) = kind_for r"
  by (simp add: diagnosis_for_def Let_def)

lemma kind_for_failed:
  assumes "result_ok (cr_kind r) r" and "cr_status r = Failed"
  shows "diagnosed_check (kind_for r) = cr_kind r"
    and "kind_for r = DiagnosticProbeFailure k error \<Longrightarrow> cr_detail r = Some (DetailProbeFailure error)"
proof -
  obtain detail where "cr_detail r = Some detail" "detail_of (cr_kind r) detail"
    "\<forall>rssi retry. detail \<noteq> DetailWifi False rssi retry"
    using assms by (auto simp: result_ok_def)
  then show "diagnosed_check (kind_for r) = cr_kind r"
    "kind_for r = DiagnosticProbeFailure k error \<Longrightarrow> cr_detail r = Some (DetailProbeFailure error)"
    by (cases detail; auto simp: kind_for_def split: option.splits)+
qed

lemma ancestors_passed:
  assumes inv: "report_inv checks ex" and uniq: "distinct (map cr_kind checks)"
    and "(a, k) \<in> depends_on\<^sup>+" and "r \<in> set checks" "cr_kind r = k" "cr_status r \<in> {Passed, Failed}"
  shows "passed checks a"
  using assms(3-6)
proof (induction arbitrary: r rule: converse_trancl_induct)
  case (base a)
  with inv show ?case
    by (auto simp: report_inv_def depends_on_def status_justified.simps split: check_status.splits)
next
  case (step a b)
  from step.IH [OF step.prems] obtain p where "p \<in> set checks" "cr_kind p = b" "cr_status p = Passed"
    by (auto simp: passed_def dest: find_check_Some split: option.splits)
  with inv step(1) show ?case
    by (force simp: report_inv_def depends_on_def status_justified.simps split: check_status.splits)
qed

lemma run_failed_result:
  assumes "report = fst (diagnostic_run io g w)" and "d \<in> set (diagnose report)"
  obtains r where "r \<in> set (rp_checks report)" "cr_status r = Failed" "d = diagnosis_for r"
    "result_ok (cr_kind r) r" "find_check (rp_checks report) (cr_kind r) = Some r"
    "measured g (rp_checks report) r"
proof -
  obtain w' where run: "diagnostic_run io g w = (report, w')" using assms(1) by (metis prod.collapse)
  note inv = diagnostic_run_report [OF run]
  obtain r where r: "r \<in> set (rp_checks report)" "cr_status r = Failed" "d = diagnosis_for r"
    using assms(2) by (auto simp: diagnose_def)
  moreover have "result_ok (cr_kind r) r" using inv(1) r by (auto simp: report_inv_def is_skip_def)
  moreover have "find_check (rp_checks report) (cr_kind r) = Some r"
    by (rule find_check_unique) (use inv(2) r in \<open>simp_all add: execution_order_distinct\<close>)
  moreover have "measured g (rp_checks report) r" using diagnostic_run_measured [of io g w] r(1) assms(1) by simp
  ultimately show ?thesis by (rule that)
qed

lemma no_address_failures:
  "filter (\<lambda>r. cr_status r = Failed)
       (rp_checks (fst (diagnostic_run (fake_transport no_address 0) sample_engine ((), []))))
     = [\<lparr> cr_kind = AddressDhcp, cr_status = Failed,
          cr_evidence = [\<lparr> me_metric = AddressPresent, me_value = 0, me_unit = Boolean, me_observed_at = 0 \<rparr>,
                         \<lparr> me_metric = LeaseValidMetric, me_value = 0, me_unit = Boolean, me_observed_at = 0 \<rparr>],
          cr_confidence = CONFIDENCE_HIGH, cr_detail = Some (DetailAddress None LeaseExpired) \<rparr>]"
  by (simp add: diagnostic_run_def run_engine_def EXECUTION_ORDER_def run_check_def check_defs
      State_Monad.bind_def State_Monad.return_def now_def send_def probes_used_def fake_transport_def
      logged_def no_address_def measurement_def dependency_skip_def find_check_def skipped_def
      conclude_def sample_engine_def probe_cost_def saturating_add_def bool_value_def)

text \<open>C14. Diagnoses are root causes: the diagnoses of a run are, in execution order, one for each
  failed check and for no other; every check that the diagnosed one depends on, directly or
  not, passed; and a diagnosis says that the probe could not run only when the failed check
  recorded exactly that error, so the planner's case for inconsistent results never occurs.\<close>

theorem diagnoses_are_root_causes:
  "let report = fst (diagnostic_run io g w); checks = rp_checks report; ds = diagnose report in
     map (\<lambda>d. diagnosed_check (di_kind d)) ds
       = filter (\<lambda>k. is_some_and (find_check checks k) (\<lambda>r. cr_status r = Failed)) EXECUTION_ORDER
     \<and> (\<forall>d \<in> set ds. \<forall>a. (a, diagnosed_check (di_kind d)) \<in> depends_on\<^sup>+ \<longrightarrow>
           is_some_and (find_check checks a) (\<lambda>r. cr_status r = Passed))
     \<and> (\<forall>d \<in> set ds. \<forall>k error. di_kind d = DiagnosticProbeFailure k error \<longrightarrow>
           is_some_and (find_check checks k) (\<lambda>r. cr_detail r = Some (DetailProbeFailure error)))"
proof -
  obtain report w' where run: "diagnostic_run io g w = (report, w')" by fastforce
  note inv = diagnostic_run_report [OF run]
  let ?checks = "rp_checks report" and ?failed = "\<lambda>r. cr_status r = Failed"
  have uniq: "distinct (map cr_kind ?checks)" by (simp add: inv(2) execution_order_distinct)
  have kinds: "diagnosed_check (di_kind (diagnosis_for r)) = cr_kind r"
    if "r \<in> set ?checks" "?failed r" for r
    using that inv(1) kind_for_failed(1) [of r] by (auto simp: report_inv_def is_skip_def)
  have "map (\<lambda>d. diagnosed_check (di_kind d)) (diagnose report) = map cr_kind (filter ?failed ?checks)"
    using kinds by (simp add: diagnose_def)
  also have "\<dots> = filter (\<lambda>k. is_some_and (find_check ?checks k) ?failed) (map cr_kind ?checks)"
    unfolding filter_map o_def
    by (rule arg_cong [where f = "map cr_kind"], rule filter_cong)
      (simp_all add: find_check_unique [OF uniq])
  finally have order: "map (\<lambda>d. diagnosed_check (di_kind d)) (diagnose report)
      = filter (\<lambda>k. is_some_and (find_check ?checks k) ?failed) EXECUTION_ORDER" by (simp add: inv(2))
  have "is_some_and (find_check ?checks a) (\<lambda>r. cr_status r = Passed)"
    if d: "d \<in> set (diagnose report)" and a: "(a, diagnosed_check (di_kind d)) \<in> depends_on\<^sup>+" for d a
  proof -
    obtain r where r: "r \<in> set ?checks" "?failed r" "d = diagnosis_for r"
      using d by (auto simp: diagnose_def)
    with a kinds have "(a, cr_kind r) \<in> depends_on\<^sup>+" by simp
    from ancestors_passed [OF inv(1) uniq this r(1)] r(2) show ?thesis by (simp add: passed_def)
  qed
  moreover have "is_some_and (find_check ?checks k) (\<lambda>r. cr_detail r = Some (DetailProbeFailure error))"
    if d: "d \<in> set (diagnose report)" and k: "di_kind d = DiagnosticProbeFailure k error" for d k error
  proof -
    obtain r where r: "cr_status r = Failed" "d = diagnosis_for r" "result_ok (cr_kind r) r"
      "find_check ?checks (cr_kind r) = Some r"
      by (rule run_failed_result [OF _ d, of io g w]) (simp add: run)
    then have kind: "kind_for r = DiagnosticProbeFailure k error" using k by simp
    with kind_for_failed(1) [OF r(3,1)] have "cr_kind r = k" by simp
    with kind_for_failed(2) [OF r(3,1) kind] r(4) show ?thesis by simp
  qed
  ultimately show ?thesis using order by (simp add: run Let_def)
qed

theorem diagnoses_are_root_causes_witness:
  "map (\<lambda>d. diagnosed_check (di_kind d))
       (diagnose (fst (diagnostic_run (fake_transport no_address 0) sample_engine ((), []))))
     = [AddressDhcp]
   \<and> is_some_and (find_check (rp_checks (fst (diagnostic_run (fake_transport no_address 0) sample_engine
         ((), [])))) CollectorHealth) (\<lambda>r. cr_status r = Passed)"
proof -
  let ?report = "fst (diagnostic_run (fake_transport no_address 0) sample_engine ((), []))"
  have one: "map (\<lambda>d. diagnosed_check (di_kind d)) (diagnose ?report) = [AddressDhcp]"
    by (simp add: diagnose_def no_address_failures kind_for_def)
  then obtain d where d: "d \<in> set (diagnose ?report)" "diagnosed_check (di_kind d) = AddressDhcp"
    by (cases "diagnose ?report") auto
  have "(CollectorHealth, AdapterLink) \<in> depends_on" "(AdapterLink, AddressDhcp) \<in> depends_on"
    by (simp_all add: depends_on_def)
  then have "(CollectorHealth, AddressDhcp) \<in> depends_on\<^sup>+" by (meson trancl.simps)
  with diagnoses_are_root_causes [of "fake_transport no_address 0" sample_engine "((), [])"] d one
  show ?thesis unfolding Let_def by metis
qed

text \<open>A proposed repair is grounded in the run. Automatic repairs are proposed only for a
  failed collector check, a failed router check, or a failed address check whose lease renewal
  cannot cut the only management path. An MTU is proposed only if it is one of the probed
  sizes; a DHCP reservation names one of at least two devices that answered for the
  address; resolvers are replaced only by the configured, non-empty fallback list; a router
  reboot is proposed only when the gateway check did not pass, and the provider is blamed only
  when it did. Blocking a device, a factory reset and firmware are never proposed.\<close>

theorem repair_plans_are_grounded:
  assumes "report = fst (diagnostic_run io g w)" and "d \<in> set (diagnose report)"
  shows "\<exists>r. find_check (rp_checks report) (diagnosed_check (di_kind d)) = Some r \<and> cr_status r = Failed
    \<and> (case plan_repair (di_kind d) ctx of
         SafeAutomaticPlan action _ \<Rightarrow>
           (action, cr_kind r) \<in> {(RestartCollectorWorker, CollectorHealth), (RetryRouterSession, RouterHealth)}
           \<or> (action, cr_kind r) = (RenewCollectorLease, AddressDhcp)
               \<and> \<not> rc_lease_renewal_severs_only_management_path ctx
       | ApprovalRequiredPlan action _ \<Rightarrow>
           (case action of
              SetInterfaceMtu interface mtu \<Rightarrow>
                interface = rc_interface ctx \<and> mtu \<in> set (dc_mtu_probe_sizes (de_config g))
            | SetDhcpReservation device address \<Rightarrow>
                (\<exists>macs. cr_detail r = Some (DetailDuplicateIp address macs) \<and> device \<in> set macs
                   \<and> 2 \<le> length macs)
            | ChangeDnsServers servers \<Rightarrow> servers = rc_fallback_dns_servers ctx \<and> servers \<noteq> []
            | RebootRouter \<Rightarrow> \<not> passed (rp_checks report) Gateway
            | RenewDhcpLease interface \<Rightarrow>
                interface = rc_interface ctx \<and> rc_lease_renewal_severs_only_management_path ctx
            | ResetAdapter interface \<Rightarrow> interface = rc_interface ctx \<and> cr_kind r = AdapterLink
            | _ \<Rightarrow> False)
       | GuidedPhysicalPlan action _ \<Rightarrow>
           action = MoveHardware \<and> cr_kind r = WifiQuality
           \<or> action = ContactIsp \<and> cr_kind r = InternetReachability \<and> passed (rp_checks report) Gateway
       | ObservationOnlyPlan _ \<Rightarrow> True)"
proof -
  obtain r where r: "cr_status r = Failed" "d = diagnosis_for r" "result_ok (cr_kind r) r"
    "find_check (rp_checks report) (cr_kind r) = Some r" "measured g (rp_checks report) r"
    by (rule run_failed_result [OF assms])
  obtain detail where detail: "cr_detail r = Some detail" "detail_of (cr_kind r) detail"
    "\<forall>rssi retry. detail \<noteq> DetailWifi False rssi retry"
    using r(1,3) by (auto simp: result_ok_def)
  have gateway: "cr_kind r = Gateway \<Longrightarrow> \<not> passed (rp_checks report) Gateway"
    using r(1,4) by (simp add: passed_def)
  note facts = r(5) [unfolded measured_def]
  show ?thesis
    using detail facts gateway r(1,4) kind_for_failed(1) [OF r(3,1)] unfolding r(2)
    by (cases detail)
      (auto simp: kind_for_def plan_repair_def split: option.splits bool.splits list.splits)
qed

theorem repair_plans_are_grounded_witness:
  "plan_repair (AddressMissing LeaseExpired)
      \<lparr> rc_interface = ''eth0'', rc_lease_renewal_severs_only_management_path = True,
        rc_fallback_dns_servers = [] \<rparr>
     = ApprovalRequiredPlan (RenewDhcpLease ''eth0'')
         ''renewing this lease could sever the only management path, so it must be approved''
   \<and> is_some_and (find_check (rp_checks (fst (diagnostic_run (fake_transport no_address 0) sample_engine
         ((), [])))) AddressDhcp) (\<lambda>r. cr_status r = Failed)"
proof -
  let ?report = "fst (diagnostic_run (fake_transport no_address 0) sample_engine ((), []))"
  let ?ctx = "\<lparr> rc_interface = ''eth0'', rc_lease_renewal_severs_only_management_path = True,
        rc_fallback_dns_servers = [] \<rparr>"
  obtain d where d: "d \<in> set (diagnose ?report)" "di_kind d = AddressMissing LeaseExpired"
    by (simp add: diagnose_def no_address_failures kind_for_def)
  from repair_plans_are_grounded [OF refl d(1), of ?ctx]
  show ?thesis by (auto simp: d(2) plan_repair_def)
qed

end
