(* ===== verification/Doctor_Executor.thy ===== *)
theory Doctor_Executor
  imports Doctor_Diagnosis
begin

text \<open>
  The repair executor of \<open>lattice-doctor/src/executor.rs\<close>: snapshot, baseline, apply, verify and
  roll back, over an injected transport and clock (\<open>repair_io\<close>, a parameter). A computation of
  the executor is a state monad over the world behind the transport and the event log. The
  decimal \<open>Display\<close> of a float, which only error texts use, is the parameter \<open>show_f64\<close>.
  Events carry the prefix \<open>Event\<close>, the calls of the fake transport the suffix \<open>Call\<close>.
\<close>

section \<open>Data\<close>

datatype repair_transport_error =
  SnapshotError string | ApplyError string | RestoreError string | MeasureError string

fun repair_error_text :: "repair_transport_error \<Rightarrow> string" where
  "repair_error_text (SnapshotError s) = ''snapshot failed: '' @ s"
| "repair_error_text (ApplyError s) = ''apply failed: '' @ s"
| "repair_error_text (RestoreError s) = ''restore failed: '' @ s"
| "repair_error_text (MeasureError s) = ''measurement failed: '' @ s"

record state_entry =
  se_key :: state_key
  se_value :: string

record 'w repair_io =
  ri_snapshot :: "'w \<Rightarrow> state_key list \<Rightarrow> (repair_transport_error + state_entry list) \<times> 'w"
  ri_apply :: "'w \<Rightarrow> executable_repair \<Rightarrow> (repair_transport_error + unit) \<times> 'w"
  ri_restore :: "'w \<Rightarrow> state_entry list \<Rightarrow> (repair_transport_error + unit) \<times> 'w"
  ri_measure :: "'w \<Rightarrow> check_kind \<Rightarrow> (repair_transport_error + measurement list) \<times> 'w"
  ri_now :: "'w \<Rightarrow> instant \<times> 'w"

datatype metric_direction = LowerIsBetter | HigherIsBetter

record symptom =
  sy_check :: check_kind
  sy_metric :: metric
  sy_direction :: metric_direction
  sy_min_meaningful_delta :: f64

definition symptom_new ::
  "check_kind \<Rightarrow> metric \<Rightarrow> metric_direction \<Rightarrow> f64 \<Rightarrow> doctor_error + symptom" where
  "symptom_new check metric direction min_meaningful_delta =
     (if \<not> is_finite min_meaningful_delta \<or> f64_le min_meaningful_delta (f64_of_int 0)
      then Inl (InvalidSymptom ''min_meaningful_delta must be finite and positive'')
      else Inr \<lparr> sy_check = check, sy_metric = metric, sy_direction = direction,
                 sy_min_meaningful_delta = min_meaningful_delta \<rparr>)"

datatype verdict = Improved | Unchanged | Regressed

record verification =
  vf_verdict :: verdict
  vf_before :: measurement
  vf_after :: measurement

datatype rollback_skip_reason = NotNeeded | NotReversible

datatype rollback_outcome = NotAttempted rollback_skip_reason | Succeeded | RollbackFailed string

datatype repair_event_kind =
    EventStarted repair_class string
  | EventSnapshotted "state_key list" measurement
  | EventApplied
  | EventApplyFailed string
  | EventVerified verdict measurement measurement
  | EventVerificationFailed string
  | EventRolledBack rollback_outcome

record repair_event =
  ev_sequence :: u32
  ev_at :: instant
  ev_kind :: repair_event_kind

datatype repair_outcome =
    Completed verdict
  | SnapshotFailed string
  | BaselineFailed string
  | ApplyFailed string
  | VerificationFailed string

record repair_report =
  rr_class :: repair_class
  rr_description :: string
  rr_outcome :: repair_outcome
  rr_verification :: "verification option"
  rr_rollback :: rollback_outcome
  rr_events :: "repair_event list"

section \<open>The executor\<close>

text \<open>\<open>EventLog::push\<close> stamps an event with its position and the clock.\<close>

definition push_event ::
  "'w repair_io \<Rightarrow> repair_event_kind \<Rightarrow> ('w \<times> repair_event list, unit) state" where
  "push_event io kind =
     State (\<lambda>(w, events). case ri_now io w of (t, w') \<Rightarrow>
       ((), (w', events @ [\<lparr> ev_sequence = of_nat (length events), ev_at = t, ev_kind = kind \<rparr>])))"

definition transport_call :: "('w \<Rightarrow> 'r \<times> 'w) \<Rightarrow> ('w \<times> 'e, 'r) state" where
  "transport_call f = State (\<lambda>(w, events). case f w of (r, w') \<Rightarrow> (r, (w', events)))"

definition find_metric :: "symptom \<Rightarrow> measurement list \<Rightarrow> string + measurement" where
  "find_metric symptom measurements =
     (case find (\<lambda>m. me_metric m = sy_metric symptom) measurements of
        Some m \<Rightarrow> Inr m
      | None \<Rightarrow> Inl (''symptom metric '' @ metric_debug (sy_metric symptom)
                       @ '' missing from re-measurement''))"

definition finite_measurement :: "(f64 \<Rightarrow> string) \<Rightarrow> measurement \<Rightarrow> string + measurement" where
  "finite_measurement show_f64 m =
     (if is_finite (me_value m) then Inr m
      else Inl (''symptom metric '' @ metric_debug (me_metric m)
                @ '' measured a non-finite value ('' @ show_f64 (me_value m) @ '')''))"

text \<open>\<open>measure_symptom(...).await.and_then(finite)\<close>, given the reply of the transport.\<close>

definition usable ::
  "(f64 \<Rightarrow> string) \<Rightarrow> symptom \<Rightarrow> repair_transport_error + measurement list \<Rightarrow> string + measurement" where
  "usable show_f64 symptom reply =
     (case reply of
        Inl error \<Rightarrow> Inl (repair_error_text error)
      | Inr measurements \<Rightarrow>
          (case find_metric symptom measurements of
             Inl error \<Rightarrow> Inl error
           | Inr m \<Rightarrow> finite_measurement show_f64 m))"

definition measure_symptom ::
  "(f64 \<Rightarrow> string) \<Rightarrow> 'w repair_io \<Rightarrow> symptom \<Rightarrow> ('w \<times> 'e, string + measurement) state" where
  "measure_symptom show_f64 io symptom =
     do { reply \<leftarrow> transport_call (\<lambda>w. ri_measure io w (sy_check symptom));
          State_Monad.return (usable show_f64 symptom reply) }"

definition compare_values :: "symptom \<Rightarrow> f64 \<Rightarrow> f64 \<Rightarrow> verdict" where
  "compare_values symptom before after =
     (let improvement = (case sy_direction symptom of
            LowerIsBetter \<Rightarrow> f64_sub before after
          | HigherIsBetter \<Rightarrow> f64_sub after before)
      in if f64_le (sy_min_meaningful_delta symptom) improvement then Improved
         else if f64_le improvement (f64_neg (sy_min_meaningful_delta symptom)) then Regressed
         else Unchanged)"

definition rollback_verdict ::
  "(f64 \<Rightarrow> string) \<Rightarrow> symptom \<Rightarrow> measurement \<Rightarrow> string + measurement \<Rightarrow> rollback_outcome" where
  "rollback_verdict show_f64 symptom baseline remeasured =
     (case remeasured of
        Inr restored \<Rightarrow>
          (case compare_values symptom (me_value baseline) (me_value restored) of
             Regressed \<Rightarrow> RollbackFailed
               (''restore succeeded but the symptom did not return to baseline: before ''
                @ show_f64 (me_value baseline) @ '' after rollback '' @ show_f64 (me_value restored))
           | _ \<Rightarrow> Succeeded)
      | Inl error \<Rightarrow> RollbackFailed (''restore succeeded but could not be verified: '' @ error))"

definition roll_back ::
  "(f64 \<Rightarrow> string) \<Rightarrow> 'w repair_io \<Rightarrow> executable_repair \<Rightarrow> state_entry list \<Rightarrow> symptom \<Rightarrow> measurement
     \<Rightarrow> ('w \<times> repair_event list, rollback_outcome) state" where
  "roll_back show_f64 io repair entries symptom baseline =
     do { outcome \<leftarrow>
            (if reversible repair
             then do { restored \<leftarrow> transport_call (\<lambda>w. ri_restore io w entries);
                       case restored of
                         Inr _ \<Rightarrow>
                           do { m \<leftarrow> measure_symptom show_f64 io symptom;
                                State_Monad.return (rollback_verdict show_f64 symptom baseline m) }
                       | Inl error \<Rightarrow> State_Monad.return (RollbackFailed (repair_error_text error)) }
             else State_Monad.return (NotAttempted NotReversible));
          _ \<leftarrow> push_event io (EventRolledBack outcome);
          State_Monad.return outcome }"

definition finish ::
  "executable_repair \<Rightarrow> repair_outcome \<Rightarrow> verification option \<Rightarrow> rollback_outcome
     \<Rightarrow> ('w \<times> repair_event list, repair_report) state" where
  "finish repair outcome verification rollback =
     State (\<lambda>(w, events).
       (\<lparr> rr_class = repair_class_of repair, rr_description = describe repair, rr_outcome = outcome,
          rr_verification = verification, rr_rollback = rollback, rr_events = events \<rparr>, (w, events)))"

text \<open>The part of \<open>execute\<close> after the repair was applied: measure again, judge, roll back.\<close>

definition verify_repair ::
  "(f64 \<Rightarrow> string) \<Rightarrow> 'w repair_io \<Rightarrow> executable_repair \<Rightarrow> symptom \<Rightarrow> state_entry list \<Rightarrow> measurement
     \<Rightarrow> ('w \<times> repair_event list, repair_report) state" where
  "verify_repair show_f64 io repair symptom entries baseline =
     do { remeasured \<leftarrow> measure_symptom show_f64 io symptom;
          case remeasured of
            Inl error \<Rightarrow>
              do { _ \<leftarrow> push_event io (EventVerificationFailed error);
                   rollback \<leftarrow> roll_back show_f64 io repair entries symptom baseline;
                   finish repair (VerificationFailed error) None rollback }
          | Inr after \<Rightarrow>
              (let verdict = compare_values symptom (me_value baseline) (me_value after) in
               do { _ \<leftarrow> push_event io (EventVerified verdict baseline after);
                    rollback \<leftarrow> (if verdict = Regressed
                                 then roll_back show_f64 io repair entries symptom baseline
                                 else State_Monad.return (NotAttempted NotNeeded));
                    finish repair (Completed verdict)
                      (Some \<lparr> vf_verdict = verdict, vf_before = baseline, vf_after = after \<rparr>)
                      rollback }) }"

text \<open>The part of \<open>execute\<close> after the snapshot and the baseline: apply, then verify.\<close>

definition apply_repair ::
  "(f64 \<Rightarrow> string) \<Rightarrow> 'w repair_io \<Rightarrow> executable_repair \<Rightarrow> symptom \<Rightarrow> state_entry list \<Rightarrow> measurement
     \<Rightarrow> ('w \<times> repair_event list, repair_report) state" where
  "apply_repair show_f64 io repair symptom entries baseline =
     do { applied \<leftarrow> transport_call (\<lambda>w. ri_apply io w repair);
          case applied of
            Inl error \<Rightarrow>
              do { _ \<leftarrow> push_event io (EventApplyFailed (repair_error_text error));
                   rollback \<leftarrow> roll_back show_f64 io repair entries symptom baseline;
                   finish repair (ApplyFailed (repair_error_text error)) None rollback }
          | Inr _ \<Rightarrow>
              do { _ \<leftarrow> push_event io EventApplied;
                   verify_repair show_f64 io repair symptom entries baseline } }"

definition execute_events ::
  "(f64 \<Rightarrow> string) \<Rightarrow> 'w repair_io \<Rightarrow> executable_repair \<Rightarrow> symptom
     \<Rightarrow> ('w \<times> repair_event list, repair_report) state" where
  "execute_events show_f64 io repair symptom =
     do { _ \<leftarrow> push_event io (EventStarted (repair_class_of repair) (describe repair));
          captured \<leftarrow> transport_call (\<lambda>w. ri_snapshot io w (state_keys repair));
          case captured of
            Inl error \<Rightarrow>
              finish repair (SnapshotFailed (repair_error_text error)) None (NotAttempted NotNeeded)
          | Inr entries \<Rightarrow>
              do { measured \<leftarrow> measure_symptom show_f64 io symptom;
                   case measured of
                     Inl error \<Rightarrow>
                       finish repair (BaselineFailed error) None (NotAttempted NotNeeded)
                   | Inr baseline \<Rightarrow>
                       do { _ \<leftarrow> push_event io (EventSnapshotted (state_keys repair) baseline);
                            apply_repair show_f64 io repair symptom entries baseline } } }"

definition execute ::
  "(f64 \<Rightarrow> string) \<Rightarrow> 'w repair_io \<Rightarrow> executable_repair \<Rightarrow> symptom \<Rightarrow> 'w \<Rightarrow> repair_report \<times> 'w" where
  "execute show_f64 io repair symptom w =
     (case run_state (execute_events show_f64 io repair symptom) (w, []) of
        (report, (w', _)) \<Rightarrow> (report, w'))"

section \<open>The scripted transport\<close>

datatype transport_call_kind = SnapshotCall | ApplyCall | RestoreCall | MeasureCall

record fake_repair_transport =
  fk_snapshot_result :: "repair_transport_error + state_entry list"
  fk_apply_result :: "repair_transport_error + unit"
  fk_restore_result :: "repair_transport_error + unit"
  fk_measurements :: "(repair_transport_error + measurement list) list"
  fk_calls :: "transport_call_kind list"

definition fake_new :: fake_repair_transport where
  "fake_new = \<lparr> fk_snapshot_result = Inr [], fk_apply_result = Inr (), fk_restore_result = Inr (),
     fk_measurements = [], fk_calls = [] \<rparr>"

definition with_snapshot :: "fake_repair_transport \<Rightarrow> state_entry list \<Rightarrow> fake_repair_transport" where
  "with_snapshot t entries = t \<lparr> fk_snapshot_result := Inr entries \<rparr>"

definition with_snapshot_error ::
  "fake_repair_transport \<Rightarrow> repair_transport_error \<Rightarrow> fake_repair_transport" where
  "with_snapshot_error t error = t \<lparr> fk_snapshot_result := Inl error \<rparr>"

definition with_apply_error ::
  "fake_repair_transport \<Rightarrow> repair_transport_error \<Rightarrow> fake_repair_transport" where
  "with_apply_error t error = t \<lparr> fk_apply_result := Inl error \<rparr>"

definition with_restore_error ::
  "fake_repair_transport \<Rightarrow> repair_transport_error \<Rightarrow> fake_repair_transport" where
  "with_restore_error t error = t \<lparr> fk_restore_result := Inl error \<rparr>"

definition push_measurements ::
  "fake_repair_transport \<Rightarrow> measurement list \<Rightarrow> fake_repair_transport" where
  "push_measurements t ms = t \<lparr> fk_measurements := fk_measurements t @ [Inr ms] \<rparr>"

definition push_measure_error ::
  "fake_repair_transport \<Rightarrow> repair_transport_error \<Rightarrow> fake_repair_transport" where
  "push_measure_error t error = t \<lparr> fk_measurements := fk_measurements t @ [Inl error] \<rparr>"

definition record_call ::
  "fake_repair_transport \<Rightarrow> transport_call_kind \<Rightarrow> fake_repair_transport" where
  "record_call t call = t \<lparr> fk_calls := fk_calls t @ [call] \<rparr>"

definition fake_repair_io :: "instant \<Rightarrow> fake_repair_transport repair_io" where
  "fake_repair_io at =
     \<lparr> ri_snapshot = (\<lambda>t _. (fk_snapshot_result t, record_call t SnapshotCall)),
       ri_apply = (\<lambda>t _. (fk_apply_result t, record_call t ApplyCall)),
       ri_restore = (\<lambda>t _. (fk_restore_result t, record_call t RestoreCall)),
       ri_measure = (\<lambda>t _.
          (case fk_measurements t of
             [] \<Rightarrow> (Inl (MeasureError ''no scripted measurement''), record_call t MeasureCall)
           | m # ms \<Rightarrow> (m, record_call (t \<lparr> fk_measurements := ms \<rparr>) MeasureCall))),
       ri_now = (\<lambda>t. (at, t)) \<rparr>"

section \<open>Recorded runs\<close>

text \<open>Every call of the transport with its reply, in order.\<close>

datatype transport_event =
    DidSnapshot "state_key list" "repair_transport_error + state_entry list"
  | DidApply executable_repair "repair_transport_error + unit"
  | DidRestore "state_entry list" "repair_transport_error + unit"
  | DidMeasure check_kind "repair_transport_error + measurement list"

definition recorded :: "'w repair_io \<Rightarrow> ('w \<times> transport_event list) repair_io" where
  "recorded io =
     \<lparr> ri_snapshot = (\<lambda>(w, log) ks. case ri_snapshot io w ks of (r, w') \<Rightarrow> (r, (w', log @ [DidSnapshot ks r]))),
       ri_apply = (\<lambda>(w, log) x. case ri_apply io w x of (r, w') \<Rightarrow> (r, (w', log @ [DidApply x r]))),
       ri_restore = (\<lambda>(w, log) es. case ri_restore io w es of (r, w') \<Rightarrow> (r, (w', log @ [DidRestore es r]))),
       ri_measure = (\<lambda>(w, log) c. case ri_measure io w c of (r, w') \<Rightarrow> (r, (w', log @ [DidMeasure c r]))),
       ri_now = (\<lambda>(w, log). case ri_now io w of (t, w') \<Rightarrow> (t, (w', log))) \<rparr>"

text \<open>
  The abstract lifecycle: which calls are made, which events are reported, and the outcome.
  \<open>rollback_trace\<close> describes the calls and the outcome of one rollback.
\<close>

definition rollback_trace ::
  "(f64 \<Rightarrow> string) \<Rightarrow> executable_repair \<Rightarrow> symptom \<Rightarrow> state_entry list \<Rightarrow> measurement
     \<Rightarrow> transport_event list \<Rightarrow> rollback_outcome \<Rightarrow> bool" where
  "rollback_trace show_f64 repair symptom entries baseline calls outcome \<longleftrightarrow>
     (if reversible repair
      then (\<exists>error. calls = [DidRestore entries (Inl error)]
                \<and> outcome = RollbackFailed (repair_error_text error))
         \<or> (\<exists>reply. calls = [DidRestore entries (Inr ()), DidMeasure (sy_check symptom) reply]
                \<and> outcome = rollback_verdict show_f64 symptom baseline (usable show_f64 symptom reply))
      else calls = [] \<and> outcome = NotAttempted NotReversible)"

inductive lifecycle ::
  "(f64 \<Rightarrow> string) \<Rightarrow> executable_repair \<Rightarrow> symptom \<Rightarrow> transport_event list \<Rightarrow> repair_event_kind list
     \<Rightarrow> repair_outcome \<Rightarrow> verification option \<Rightarrow> rollback_outcome \<Rightarrow> bool"
  for show_f64 repair symptom where
  snapshot_failed:
    "lifecycle show_f64 repair symptom
       [DidSnapshot (state_keys repair) (Inl error)]
       [EventStarted (repair_class_of repair) (describe repair)]
       (SnapshotFailed (repair_error_text error)) None (NotAttempted NotNeeded)"
| baseline_failed:
    "usable show_f64 symptom reply = Inl error \<Longrightarrow>
     lifecycle show_f64 repair symptom
       [DidSnapshot (state_keys repair) (Inr entries), DidMeasure (sy_check symptom) reply]
       [EventStarted (repair_class_of repair) (describe repair)]
       (BaselineFailed error) None (NotAttempted NotNeeded)"
| apply_failed:
    "usable show_f64 symptom reply = Inr baseline \<Longrightarrow>
     rollback_trace show_f64 repair symptom entries baseline calls rollback \<Longrightarrow>
     lifecycle show_f64 repair symptom
       ([DidSnapshot (state_keys repair) (Inr entries), DidMeasure (sy_check symptom) reply,
         DidApply repair (Inl error)] @ calls)
       [EventStarted (repair_class_of repair) (describe repair),
        EventSnapshotted (state_keys repair) baseline,
        EventApplyFailed (repair_error_text error), EventRolledBack rollback]
       (ApplyFailed (repair_error_text error)) None rollback"
| verification_failed:
    "usable show_f64 symptom reply = Inr baseline \<Longrightarrow> usable show_f64 symptom again = Inl error \<Longrightarrow>
     rollback_trace show_f64 repair symptom entries baseline calls rollback \<Longrightarrow>
     lifecycle show_f64 repair symptom
       ([DidSnapshot (state_keys repair) (Inr entries), DidMeasure (sy_check symptom) reply,
         DidApply repair (Inr ()), DidMeasure (sy_check symptom) again] @ calls)
       [EventStarted (repair_class_of repair) (describe repair),
        EventSnapshotted (state_keys repair) baseline, EventApplied,
        EventVerificationFailed error, EventRolledBack rollback]
       (VerificationFailed error) None rollback"
| regressed:
    "usable show_f64 symptom reply = Inr baseline \<Longrightarrow> usable show_f64 symptom again = Inr after \<Longrightarrow>
     compare_values symptom (me_value baseline) (me_value after) = Regressed \<Longrightarrow>
     rollback_trace show_f64 repair symptom entries baseline calls rollback \<Longrightarrow>
     lifecycle show_f64 repair symptom
       ([DidSnapshot (state_keys repair) (Inr entries), DidMeasure (sy_check symptom) reply,
         DidApply repair (Inr ()), DidMeasure (sy_check symptom) again] @ calls)
       [EventStarted (repair_class_of repair) (describe repair),
        EventSnapshotted (state_keys repair) baseline, EventApplied,
        EventVerified Regressed baseline after, EventRolledBack rollback]
       (Completed Regressed)
       (Some \<lparr> vf_verdict = Regressed, vf_before = baseline, vf_after = after \<rparr>) rollback"
| accepted:
    "usable show_f64 symptom reply = Inr baseline \<Longrightarrow> usable show_f64 symptom again = Inr after \<Longrightarrow>
     compare_values symptom (me_value baseline) (me_value after) = verdict \<Longrightarrow> verdict \<noteq> Regressed \<Longrightarrow>
     lifecycle show_f64 repair symptom
       [DidSnapshot (state_keys repair) (Inr entries), DidMeasure (sy_check symptom) reply,
        DidApply repair (Inr ()), DidMeasure (sy_check symptom) again]
       [EventStarted (repair_class_of repair) (describe repair),
        EventSnapshotted (state_keys repair) baseline, EventApplied,
        EventVerified verdict baseline after]
       (Completed verdict)
       (Some \<lparr> vf_verdict = verdict, vf_before = baseline, vf_after = after \<rparr>)
       (NotAttempted NotNeeded)"

section \<open>Running the pieces\<close>

text \<open>
  A weakest-precondition logic of the executor: \<open>wp m Q s\<close> says that running \<open>m\<close> from \<open>s\<close> ends in
  a result and a state that satisfy \<open>Q\<close>. The rules of \<open>wp_rules\<close> run one call on a recorded
  transport and show what it adds to the log and to the events.
\<close>

named_theorems wp_rules \<open>introduction rules of the executor's weakest preconditions\<close>

definition wp :: "('s, 'a) state \<Rightarrow> ('a \<Rightarrow> 's \<Rightarrow> bool) \<Rightarrow> 's \<Rightarrow> bool" where
  "wp m Q s \<longleftrightarrow> (case run_state m s of (x, s') \<Rightarrow> Q x s')"

definition stamped :: "repair_event_kind list \<Rightarrow> repair_event list \<Rightarrow> bool" where
  "stamped kinds events \<longleftrightarrow>
     map ev_kind events = kinds \<and> map ev_sequence events = map of_nat [0..<length events]"

lemma wpD: "wp m Q s \<Longrightarrow> run_state m s = (x, s') \<Longrightarrow> Q x s'"
  by (simp add: wp_def)

lemma wp_bind [wp_rules]: "wp m (\<lambda>x. wp (f x) Q) s \<Longrightarrow> wp (State_Monad.bind m f) Q s"
  by (simp add: wp_def split: prod.splits)

lemma wp_return [wp_rules]: "Q x s \<Longrightarrow> wp (State_Monad.return x) Q s"
  by (simp add: wp_def)

lemma wp_push_event [wp_rules]:
  assumes "stamped kinds events"
    and "\<And>w' events'. stamped (kinds @ [kind]) events' \<Longrightarrow> Q () ((w', log), events')"
  shows "wp (push_event (recorded io) kind) Q ((w, log), events)"
  using assms by (auto simp: wp_def push_event_def recorded_def stamped_def split: prod.splits)

lemma wp_snapshot [wp_rules]:
  "(\<And>r w'. Q r ((w', log @ [DidSnapshot ks r]), events)) \<Longrightarrow>
     wp (transport_call (\<lambda>w. ri_snapshot (recorded io) w ks)) Q ((w, log), events)"
  by (simp add: wp_def transport_call_def recorded_def split: prod.splits)

lemma wp_apply [wp_rules]:
  "(\<And>r w'. Q r ((w', log @ [DidApply x r]), events)) \<Longrightarrow>
     wp (transport_call (\<lambda>w. ri_apply (recorded io) w x)) Q ((w, log), events)"
  by (simp add: wp_def transport_call_def recorded_def split: prod.splits)

lemma wp_restore [wp_rules]:
  "(\<And>r w'. Q r ((w', log @ [DidRestore es r]), events)) \<Longrightarrow>
     wp (transport_call (\<lambda>w. ri_restore (recorded io) w es)) Q ((w, log), events)"
  by (simp add: wp_def transport_call_def recorded_def split: prod.splits)

lemma wp_measure [wp_rules]:
  "(\<And>reply w'. Q (usable show_f64 symptom reply) ((w', log @ [DidMeasure (sy_check symptom) reply]), events)) \<Longrightarrow>
     wp (measure_symptom show_f64 (recorded io) symptom) Q ((w, log), events)"
  by (simp add: wp_def measure_symptom_def transport_call_def recorded_def split: prod.splits)

lemma wp_finish [wp_rules]:
  "Q \<lparr> rr_class = repair_class_of repair, rr_description = describe repair, rr_outcome = outcome,
       rr_verification = verification, rr_rollback = rollback, rr_events = events \<rparr> (w, events) \<Longrightarrow>
     wp (finish repair outcome verification rollback) Q (w, events)"
  by (simp add: wp_def finish_def)

lemma wp_roll_back [wp_rules]:
  assumes "stamped kinds events"
    and "\<And>w' calls outcome events'. stamped (kinds @ [EventRolledBack outcome]) events' \<Longrightarrow>
       rollback_trace show_f64 repair symptom entries baseline calls outcome \<Longrightarrow>
       Q outcome ((w', log @ calls), events')"
  shows "wp (roll_back show_f64 (recorded io) repair entries symptom baseline) Q ((w, log), events)"
proof -
  have post: "wp (push_event (recorded io) (EventRolledBack outcome))
      (\<lambda>_. wp (State_Monad.return outcome) Q) ((w', log @ calls), events)"
    if "rollback_trace show_f64 repair symptom entries baseline calls outcome" for w' calls outcome
    using assms(2) [OF _ that] by (intro wp_push_event [OF assms(1)] wp_return)
  show ?thesis
    unfolding roll_back_def
    by (cases "reversible repair")
      (auto simp: rollback_trace_def intro!: wp_bind wp_restore wp_measure wp_return post
        post [where calls = "[]", simplified] split: sum.split)
qed

text \<open>The contract of a finished execution.\<close>

definition follows ::
  "(f64 \<Rightarrow> string) \<Rightarrow> executable_repair \<Rightarrow> symptom \<Rightarrow> repair_report
     \<Rightarrow> ('w \<times> transport_event list) \<times> repair_event list \<Rightarrow> bool" where
  "follows show_f64 repair symptom report st \<longleftrightarrow>
     rr_events report = snd st \<and> rr_class report = repair_class_of repair
     \<and> rr_description report = describe repair
     \<and> stamped (map ev_kind (snd st)) (snd st)
     \<and> lifecycle show_f64 repair symptom (snd (fst st)) (map ev_kind (snd st)) (rr_outcome report)
          (rr_verification report) (rr_rollback report)"

lemma wp_finish_follows:
  assumes "stamped kinds events" and "lifecycle show_f64 repair symptom log kinds outcome verification rollback"
  shows "wp (finish repair outcome verification rollback) (follows show_f64 repair symptom) ((w, log), events)"
  using assms by (intro wp_finish) (simp add: follows_def stamped_def)

lemma wp_sum:
  "(\<And>a. x = Inl a \<Longrightarrow> wp (f a) Q s) \<Longrightarrow> (\<And>b. x = Inr b \<Longrightarrow> wp (g b) Q s) \<Longrightarrow>
     wp (case x of Inl a \<Rightarrow> f a | Inr b \<Rightarrow> g b) Q s"
  by (cases x) simp_all

lemma wp_roll_back_finish:
  assumes events: "stamped kinds events"
    and life: "\<And>calls rollback. rollback_trace show_f64 repair symptom entries baseline calls rollback \<Longrightarrow>
      lifecycle show_f64 repair symptom (log @ calls) (kinds @ [kind, EventRolledBack rollback])
        outcome verification rollback"
  shows "wp (do { _ \<leftarrow> push_event (recorded io) kind;
               rollback \<leftarrow> roll_back show_f64 (recorded io) repair entries symptom baseline;
               finish repair outcome verification rollback })
      (follows show_f64 repair symptom) ((w, log), events)"
proof (intro wp_bind wp_push_event [OF events])
  fix w1 events1
  assume one: "stamped (kinds @ [kind]) events1"
  show "wp (roll_back show_f64 (recorded io) repair entries symptom baseline)
      (\<lambda>rollback. wp (finish repair outcome verification rollback) (follows show_f64 repair symptom))
      ((w1, log), events1)"
    using life by (intro wp_roll_back [OF one] wp_finish_follows) (simp, assumption?)+
qed

lemma wp_verify:
  assumes "usable show_f64 symptom reply = Inr baseline"
    and "stamped [EventStarted (repair_class_of repair) (describe repair),
          EventSnapshotted (state_keys repair) baseline, EventApplied] events"
  shows "wp (verify_repair show_f64 (recorded io) repair symptom entries baseline)
      (follows show_f64 repair symptom)
      ((w, [DidSnapshot (state_keys repair) (Inr entries), DidMeasure (sy_check symptom) reply,
            DidApply repair (Inr ())]), events)"
  unfolding verify_repair_def Let_def
proof (rule wp_bind, rule wp_measure, rule wp_sum, goal_cases)
  case (1 again w' error)
  show ?case
    by (rule wp_roll_back_finish [OF assms(2)])
      (use verification_failed [OF assms(1)] 1 in fastforce)
next
  case (2 again w' after)
  let ?v = "compare_values symptom (me_value baseline) (me_value after)"
  show ?case
  proof (cases "?v = Regressed")
    case True
    have "wp (do { _ \<leftarrow> push_event (recorded io) (EventVerified ?v baseline after);
               rollback \<leftarrow> roll_back show_f64 (recorded io) repair entries symptom baseline;
               finish repair (Completed ?v)
                 (Some \<lparr> vf_verdict = ?v, vf_before = baseline, vf_after = after \<rparr>) rollback })
        (follows show_f64 repair symptom)
        ((w', [DidSnapshot (state_keys repair) (Inr entries), DidMeasure (sy_check symptom) reply,
            DidApply repair (Inr ())] @ [DidMeasure (sy_check symptom) again]), events)"
      by (rule wp_roll_back_finish [OF assms(2)])
        (use regressed [OF assms(1) 2] True in fastforce)
    with True show ?thesis by simp
  next
    case False
    with assms(1) 2 show ?thesis
      by (simp, intro wp_bind wp_push_event [OF assms(2)])
        (erule wp_finish_follows, force dest: accepted)
  qed
qed

lemma wp_apply_repair:
  assumes "usable show_f64 symptom reply = Inr baseline"
    and "stamped [EventStarted (repair_class_of repair) (describe repair),
          EventSnapshotted (state_keys repair) baseline] events"
  shows "wp (apply_repair show_f64 (recorded io) repair symptom entries baseline)
      (follows show_f64 repair symptom)
      ((w, [DidSnapshot (state_keys repair) (Inr entries), DidMeasure (sy_check symptom) reply]), events)"
  unfolding apply_repair_def
proof (rule wp_bind, rule wp_apply, rule wp_sum, goal_cases)
  case (1 r w' error)
  show ?case
    by (rule wp_roll_back_finish [OF assms(2)]) (use apply_failed [OF assms(1)] 1 in fastforce)
next
  case (2 r w' u)
  then show ?case
    using wp_verify [OF assms(1)] by (intro wp_bind wp_push_event [OF assms(2)]) simp
qed

lemma wp_execute:
  "wp (execute_events show_f64 (recorded io) repair symptom) (follows show_f64 repair symptom) ((w, []), [])"
proof -
  have start: "stamped [] []" by (simp add: stamped_def)
  show ?thesis
    unfolding execute_events_def
  proof (intro wp_bind wp_push_event [OF start] wp_snapshot wp_sum wp_measure, goal_cases)
    case (1 w1 events r w2 error)
    then show ?case by (intro wp_finish_follows) (auto intro: snapshot_failed)
  next
    case (2 w1 events r w2 entries reply w3 error)
    then show ?case by (intro wp_finish_follows) (auto intro: baseline_failed)
  next
    case (3 w1 events r w2 entries reply w3 baseline)
    then show ?case
      using wp_apply_repair [OF 3(3)] by (intro wp_bind wp_push_event [OF 3(1)]) simp
  qed
qed

text \<open>
  A scripted run for the witnesses: changing the resolvers fails half-way, the snapshot is
  restored and the symptom measures as before.
\<close>

definition resolver_failures :: "f64 \<Rightarrow> measurement" where
  "resolver_failures n = \<lparr> me_metric = ResolverFailureCount, me_value = n, me_unit = Count, me_observed_at = 0 \<rparr>"

definition sample_symptom :: symptom where
  "sample_symptom = \<lparr> sy_check = Dns, sy_metric = ResolverFailureCount, sy_direction = LowerIsBetter,
     sy_min_meaningful_delta = f64_of_int 1 \<rparr>"

definition sample_repair :: executable_repair where
  "sample_repair = ApprovedRepair (approved_new (ChangeDnsServers [''9.9.9.9'']) \<lparr> approval_token = ''owner'' \<rparr>)"

definition sample_snapshot :: "state_entry list" where
  "sample_snapshot = [\<lparr> se_key = DnsServers, se_value = ''10.0.0.1'' \<rparr>]"

definition sample_fake :: fake_repair_transport where
  "sample_fake = with_apply_error (push_measurements (push_measurements (with_snapshot fake_new sample_snapshot)
     [resolver_failures 0]) [resolver_failures 0]) (ApplyError ''refused'')"

abbreviation sample_execution :: "repair_report \<times> fake_repair_transport \<times> transport_event list" where
  "sample_execution \<equiv> execute (\<lambda>_. []) (recorded (fake_repair_io 0)) sample_repair sample_symptom (sample_fake, [])"

lemma sample_verdict: "compare_values sample_symptom 0 0 = Unchanged"
  by (simp add: compare_values_def sample_symptom_def f64_le_def f64_sub_def f64_is_nan_def f64_mag_def
      f64_infinite_mag_def is_finite_def f64_value_def f64_units_def f64_exp_def f64_sign_def f64_make_def
      f64_key_def f64_neg_def Let_def)

lemma sample_finite: "is_finite 0"
  by (simp add: is_finite_def f64_mag_def f64_infinite_mag_def)

lemma sample_execution_log:
  "snd (snd sample_execution) =
     [DidSnapshot [DnsServers] (Inr sample_snapshot), DidMeasure Dns (Inr [resolver_failures 0]),
      DidApply sample_repair (Inl (ApplyError ''refused'')), DidRestore sample_snapshot (Inr ()),
      DidMeasure Dns (Inr [resolver_failures 0])]"
  "rr_rollback (fst sample_execution) = Succeeded"
  "length (rr_events (fst sample_execution)) = 4"
  using sample_verdict sample_finite
  by (simp_all add: execute_def execute_events_def apply_repair_def roll_back_def push_event_def finish_def
      transport_call_def measure_symptom_def recorded_def fake_repair_io_def sample_fake_def usable_def
      find_metric_def finite_measurement_def rollback_verdict_def with_apply_error_def push_measurements_def
      with_snapshot_def fake_new_def record_call_def sample_repair_def approved_new_def state_keys_def
      resolver_failures_def sample_symptom_def)

section \<open>Properties\<close>

lemma execute_follows:
  assumes "execute show_f64 (recorded io) repair symptom (w, []) = (report, (w', log))"
  shows "\<exists>events. follows show_f64 repair symptom report ((w', log), events)"
proof -
  obtain st where st: "run_state (execute_events show_f64 (recorded io) repair symptom) ((w, []), []) = (report, st)"
    "fst st = (w', log)"
    using assms by (auto simp: execute_def split: prod.splits)
  from wpD [OF wp_execute st(1)] st(2) show ?thesis by (metis prod.collapse)
qed

text \<open>C15. The executor implements the abstract lifecycle: on every transport, the calls it makes,
  the events it reports and the outcome, verification and rollback of its report are one of
  the six runs of \<open>lifecycle\<close>, and the events are numbered from zero without gaps.\<close>

theorem execute_follows_lifecycle:
  assumes "execute show_f64 (recorded io) repair symptom (w, []) = (report, (w', log))"
  shows "lifecycle show_f64 repair symptom log (map ev_kind (rr_events report)) (rr_outcome report)
      (rr_verification report) (rr_rollback report)
    \<and> map ev_sequence (rr_events report) = map of_nat [0..<length (rr_events report)]
    \<and> rr_class report = repair_class_of repair \<and> rr_description report = describe repair"
  using execute_follows [OF assms] by (auto simp: follows_def stamped_def)

theorem execute_follows_lifecycle_witness:
  "map ev_sequence (rr_events (fst sample_execution)) = [0, 1, 2, 3] \<and> rr_rollback (fst sample_execution) = Succeeded
   \<and> lifecycle (\<lambda>_. []) sample_repair sample_symptom (snd (snd sample_execution))
       (map ev_kind (rr_events (fst sample_execution))) (rr_outcome (fst sample_execution))
       (rr_verification (fst sample_execution)) (rr_rollback (fst sample_execution))"
proof -
  obtain report w' log where run: "sample_execution = (report, (w', log))" by (metis prod.collapse)
  have four: "map of_nat [0..<4] = [0, 1, 2, 3 :: u32]" by (simp add: upt_conv_Cons)
  have "length (rr_events report) = 4" using sample_execution_log(3) by (simp add: run)
  with execute_follows_lifecycle [OF run] sample_execution_log(2) show ?thesis
    by (simp add: run four)
qed

text \<open>C16. State is touched safely: the repair is applied at most once, and only after a
  successful snapshot of its state keys and a finite baseline of the symptom; a restore
  happens only for a reversible repair that was applied (or failed while being applied), gives
  back exactly the snapshot, at most once, and never after a verified improvement or an
  unchanged symptom; a reversible repair that ended in any other way is always restored; and a
  rollback is reported as successful only if the restore succeeded and the symptom, measured
  again, is not worse than the baseline.\<close>

theorem repairs_touch_state_safely:
  assumes "execute show_f64 (recorded io) repair symptom (w, []) = (report, (w', log))"
  shows "(\<forall>pre x res post. log = pre @ DidApply x res # post \<longrightarrow> x = repair
        \<and> (\<exists>entries reply baseline. usable show_f64 symptom reply = Inr baseline
             \<and> pre = [DidSnapshot (state_keys repair) (Inr entries), DidMeasure (sy_check symptom) reply])
        \<and> (\<forall>y r. DidApply y r \<notin> set post))
    \<and> (\<forall>pre es res post. log = pre @ DidRestore es res # post \<longrightarrow> reversible repair
        \<and> DidSnapshot (state_keys repair) (Inr es) \<in> set pre \<and> (\<exists>r. DidApply repair r \<in> set pre)
        \<and> rr_outcome report \<notin> {Completed Improved, Completed Unchanged}
        \<and> (\<forall>e r. DidRestore e r \<notin> set post))
    \<and> (reversible repair \<and> (\<exists>r. DidApply repair r \<in> set log)
        \<and> rr_outcome report \<notin> {Completed Improved, Completed Unchanged}
        \<longrightarrow> (\<exists>es r. DidRestore es r \<in> set log))
    \<and> (rr_rollback report = Succeeded \<longrightarrow> (\<exists>es before mid again baseline restored.
        log = DidSnapshot (state_keys repair) (Inr es) # DidMeasure (sy_check symptom) before # mid
                @ [DidRestore es (Inr ()), DidMeasure (sy_check symptom) again]
        \<and> usable show_f64 symptom before = Inr baseline \<and> usable show_f64 symptom again = Inr restored
        \<and> compare_values symptom (me_value baseline) (me_value restored) \<noteq> Regressed))"
proof -
  have life: "lifecycle show_f64 repair symptom log (map ev_kind (rr_events report)) (rr_outcome report)
      (rr_verification report) (rr_rollback report)"
    using execute_follows [OF assms] by (auto simp: follows_def)
  have succeeded: "\<exists>restored. remeasured = Inr restored
      \<and> compare_values symptom (me_value baseline) (me_value restored) \<noteq> Regressed"
    if "rollback_verdict show_f64 symptom baseline remeasured = Succeeded" for baseline remeasured
    using that by (auto simp: rollback_verdict_def split: sum.splits verdict.splits)
  have third: "v \<noteq> Regressed \<Longrightarrow> v \<noteq> Unchanged \<Longrightarrow> v = Improved" for v by (cases v) simp_all
  from life show ?thesis
    by cases
      (auto simp: Cons_eq_append_conv append_eq_Cons_conv rollback_trace_def dest!: succeeded succeeded [OF sym] intro: third
        split: if_splits)
qed

theorem repairs_touch_state_safely_witness:
  "\<exists>es r. DidRestore es r \<in> set (snd (snd sample_execution)) \<and> reversible sample_repair
     \<and> DidSnapshot [DnsServers] (Inr es) \<in> set (take 3 (snd (snd sample_execution)))"
proof -
  obtain report w' log where run: "sample_execution = (report, (w', log))" by (metis prod.collapse)
  then have log: "log = [DidSnapshot [DnsServers] (Inr sample_snapshot), DidMeasure Dns (Inr [resolver_failures 0]),
      DidApply sample_repair (Inl (ApplyError ''refused''))] @ DidRestore sample_snapshot (Inr ())
      # [DidMeasure Dns (Inr [resolver_failures 0])]"
    using sample_execution_log(1) by simp
  have "reversible sample_repair \<and> DidSnapshot (state_keys sample_repair) (Inr sample_snapshot)
      \<in> set [DidSnapshot [DnsServers] (Inr sample_snapshot), DidMeasure Dns (Inr [resolver_failures 0]),
           DidApply sample_repair (Inl (ApplyError ''refused''))]"
    using repairs_touch_state_safely [OF run] log by blast
  with run log show ?thesis
    by (auto simp: sample_repair_def state_keys_def approved_new_def)
qed

lemma symptom_delta_positive:
  assumes "symptom_new check metric direction delta = Inr s"
  shows "sy_direction s = direction" "sy_min_meaningful_delta s = delta" "is_finite delta"
    "0 < f64_mag delta" "f64_key delta = f64_mag delta" "f64_value delta = f64_units delta"
proof -
  have s: "s = \<lparr> sy_check = check, sy_metric = metric, sy_direction = direction,
      sy_min_meaningful_delta = delta \<rparr>" and fin: "is_finite delta" and pos: "\<not> f64_le delta 0"
    using assms by (auto simp: symptom_new_def split: if_splits)
  then show "sy_direction s = direction" "sy_min_meaningful_delta s = delta" "is_finite delta" by simp_all
  have "\<not> f64_is_nan delta" by (rule is_finite_not_nan [OF fin])
  moreover have "\<not> f64_is_nan 0" "f64_key 0 = 0"
    by (simp_all add: f64_is_nan_def f64_key_def f64_mag_def f64_sign_def
        f64_infinite_mag_def)
  ultimately have "0 < f64_key delta" using pos by (simp add: f64_le_def)
  with f64_mag_bounds [of delta]
  show "0 < f64_mag delta" "f64_key delta = f64_mag delta" "f64_value delta = f64_units delta"
    by (auto simp: f64_key_def f64_value_def split: if_splits)
qed

lemma compare_by_gain:
  assumes "symptom_new check metric direction delta = Inr s" and "is_finite before" and "is_finite after"
    and gain: "gain = (case direction of LowerIsBetter \<Rightarrow> f64_value before - f64_value after
                | HigherIsBetter \<Rightarrow> f64_value after - f64_value before)"
  shows "compare_values s before after =
     (let k = sgn gain * (if gain = 0 then 0 else round_mag \<bar>gain\<bar> 1) in
      if f64_mag delta \<le> k then Improved else if k \<le> - f64_mag delta then Regressed else Unchanged)"
proof -
  note d = symptom_delta_positive [OF assms(1)]
  show ?thesis
    using d is_finite_not_nan [OF d(3)] f64_sub_finite [OF assms(2,3)] f64_sub_finite [OF assms(3,2)]
    by (cases direction) (simp_all add: compare_values_def f64_le_def f64_neg_fields gain Let_def)
qed

text \<open>C17. Verdicts agree with exact arithmetic although the difference is rounded: for a symptom
  built by its constructor and finite measurements, a true gain (in units of the smallest
  positive float, in the symptom's direction) of at least the minimal delta is Improved, a true
  loss of at least the delta is Regressed; Improved implies a real gain and Regressed a real
  loss; and exchanging the two measurements exchanges Improved and Regressed.\<close>

theorem verdicts_agree_with_exact_arithmetic:
  assumes "symptom_new check metric direction delta = Inr s"
    and "is_finite before" and "is_finite after"
    and "gain = (case direction of LowerIsBetter \<Rightarrow> f64_value before - f64_value after
                | HigherIsBetter \<Rightarrow> f64_value after - f64_value before)"
  shows "(f64_value delta \<le> gain \<longrightarrow> compare_values s before after = Improved)
    \<and> (gain \<le> - f64_value delta \<longrightarrow> compare_values s before after = Regressed)
    \<and> (compare_values s before after = Improved \<longrightarrow> 0 < gain)
    \<and> (compare_values s before after = Regressed \<longrightarrow> gain < 0)
    \<and> (compare_values s after before = Improved \<longleftrightarrow> compare_values s before after = Regressed)"
proof -
  note d = symptom_delta_positive [OF assms(1)]
  have units: "0 < f64_units delta" by (rule f64_mag_encoding(2) [OF d(4)])
  have least: "f64_mag delta \<le> round_mag x 1" if "f64_units delta \<le> x" for x
    by (rule round_mag_at_least [OF d(3) that d(4)])
  have nonneg: "0 \<le> round_mag \<bar>gain\<bar> 1" by (rule round_mag_nonneg) simp_all
  have swap: "- gain = (case direction of LowerIsBetter \<Rightarrow> f64_value after - f64_value before
                | HigherIsBetter \<Rightarrow> f64_value before - f64_value after)"
    by (simp add: assms(4) split: metric_direction.split)
  show ?thesis
    using units least [of "\<bar>gain\<bar>"] nonneg d(4,6)
    unfolding compare_by_gain [OF assms] compare_by_gain [OF assms(1,3,2) swap]
    by (auto simp: Let_def sgn_if split: if_splits)
qed

theorem verdicts_agree_with_exact_arithmetic_witness:
  "compare_values sample_symptom (f64_of_int 2) (f64_of_int 0) = Improved
   \<and> compare_values sample_symptom (f64_of_int 0) (f64_of_int 2) = Regressed"
proof -
  have new: "symptom_new Dns ResolverFailureCount LowerIsBetter (f64_of_int 1) = Inr sample_symptom"
    by (simp add: symptom_new_def sample_symptom_def f64_le_def f64_is_nan_def f64_mag_def f64_infinite_mag_def
        is_finite_def f64_sign_def f64_key_def)
  have fin: "is_finite (f64_of_int 2)" "is_finite (f64_of_int 0)"
    by (simp_all add: is_finite_def f64_mag_def f64_infinite_mag_def)
  have gain: "f64_value (f64_of_int 1) \<le> f64_value (f64_of_int 2) - f64_value (f64_of_int 0)"
    by (simp add: f64_value_def f64_units_def f64_exp_def f64_mag_def f64_sign_def)
  from verdicts_agree_with_exact_arithmetic [OF new fin refl] gain
    verdicts_agree_with_exact_arithmetic [OF new fin(2,1) refl]
  show ?thesis by simp
qed

end
