(* ===== verification/Ieee754_Single.thy ===== *)
theory Ieee754_Single
  imports Ieee754
begin

text \<open>
  The part of binary32 (Rust's \<open>f32\<close>) that the identity engine uses for confidences:
  classification, comparisons, \<open>total_cmp\<close>, \<open>min\<close>, \<open>max\<close> and multiplication. A float is its bit
  pattern; a finite one is a whole number of units of 2 to the power -149.
\<close>

type_synonym f32 = "32 word"

definition f32_sign :: "f32 \<Rightarrow> bool" where
  "f32_sign a \<longleftrightarrow> 2 ^ 31 \<le> uint a"

definition f32_mag :: "f32 \<Rightarrow> int" where
  "f32_mag a = uint a mod 2 ^ 31"

definition f32_infinite_mag :: int where
  "f32_infinite_mag = 255 * 2 ^ 23"

definition f32_is_nan :: "f32 \<Rightarrow> bool" where
  "f32_is_nan a \<longleftrightarrow> f32_infinite_mag < f32_mag a"

definition f32_is_finite :: "f32 \<Rightarrow> bool" where
  "f32_is_finite a \<longleftrightarrow> f32_mag a < f32_infinite_mag"

definition f32_key :: "f32 \<Rightarrow> int" where
  "f32_key a = (if f32_sign a then - f32_mag a else f32_mag a)"

definition f32_le :: "f32 \<Rightarrow> f32 \<Rightarrow> bool" where
  "f32_le a b \<longleftrightarrow> \<not> f32_is_nan a \<and> \<not> f32_is_nan b \<and> f32_key a \<le> f32_key b"

definition f32_lt :: "f32 \<Rightarrow> f32 \<Rightarrow> bool" where
  "f32_lt a b \<longleftrightarrow> \<not> f32_is_nan a \<and> \<not> f32_is_nan b \<and> f32_key a < f32_key b"

definition f32_total_key :: "f32 \<Rightarrow> int" where
  "f32_total_key a = (if f32_sign a then - f32_mag a - 1 else f32_mag a)"

text \<open>\<open>f32::min\<close> and \<open>f32::max\<close> ignore a NaN operand.\<close>

definition f32_min :: "f32 \<Rightarrow> f32 \<Rightarrow> f32" where
  "f32_min a b = (if f32_is_nan a then b else if f32_lt b a then b else a)"

definition f32_max :: "f32 \<Rightarrow> f32 \<Rightarrow> f32" where
  "f32_max a b = (if f32_is_nan a then b else if f32_lt a b then b else a)"

definition f32_units :: "f32 \<Rightarrow> int" where
  "f32_units a =
     (if f32_mag a div 2 ^ 23 = 0 then f32_mag a
      else (2 ^ 23 + f32_mag a mod 2 ^ 23) * 2 ^ nat (f32_mag a div 2 ^ 23 - 1))"

definition f32_round_mag :: "int \<Rightarrow> int \<Rightarrow> int" where
  "f32_round_mag num den =
     (let s = bit_count (num div den) - 24;
          d = den * 2 ^ s;
          q = num div d;
          r = num mod d;
          up = d < 2 * r \<or> (2 * r = d \<and> odd q);
          mag = int s * 2 ^ 23 + q + (if up then 1 else 0)
      in min mag f32_infinite_mag)"

definition f32_make :: "bool \<Rightarrow> int \<Rightarrow> f32" where
  "f32_make sign mag = word_of_int ((if sign then 2 ^ 31 else 0) + mag)"

definition f32_mul :: "f32 \<Rightarrow> f32 \<Rightarrow> f32" where
  "f32_mul a b =
     (let sign = (f32_sign a \<noteq> f32_sign b) in
      if f32_is_nan a \<or> f32_is_nan b then f32_make False (255 * 2 ^ 23 + 2 ^ 22)
      else if \<not> f32_is_finite a \<or> \<not> f32_is_finite b
      then (if f32_mag a = 0 \<or> f32_mag b = 0 then f32_make False (255 * 2 ^ 23 + 2 ^ 22)
            else f32_make sign f32_infinite_mag)
      else f32_make sign (f32_round_mag (f32_units a * f32_units b) (2 ^ 149)))"

text \<open>The constants of the source.\<close>

definition F32_ZERO :: f32 where "F32_ZERO = 0"
definition F32_ONE :: f32 where "F32_ONE = 0x3F800000"
definition F32_0_25 :: f32 where "F32_0_25 = 0x3E800000"
definition F32_0_49 :: f32 where "F32_0_49 = 0x3EFAE148"
definition F32_0_85 :: f32 where "F32_0_85 = 0x3F59999A"

text \<open>\<open>(0.0..=1.0).contains(&c)\<close> together with \<open>is_finite\<close>, the test of every confidence.\<close>

definition f32_unit_interval :: "f32 \<Rightarrow> bool" where
  "f32_unit_interval c \<longleftrightarrow> f32_is_finite c \<and> f32_le F32_ZERO c \<and> f32_le c F32_ONE"

lemma f32_is_finite_not_nan: "f32_is_finite a \<Longrightarrow> \<not> f32_is_nan a"
  by (simp add: f32_is_finite_def f32_is_nan_def)

lemma f32_unit_not_nan: "f32_unit_interval c \<Longrightarrow> \<not> f32_is_nan c"
  by (simp add: f32_unit_interval_def f32_is_finite_not_nan)

lemma f32_le_refl: "\<not> f32_is_nan a \<Longrightarrow> f32_le a a"
  by (simp add: f32_le_def)

lemma f32_le_trans: "f32_le a b \<Longrightarrow> f32_le b c \<Longrightarrow> f32_le a c"
  by (auto simp: f32_le_def)

lemma f32_not_le: "\<not> f32_is_nan a \<Longrightarrow> \<not> f32_is_nan b \<Longrightarrow> \<not> f32_le a b \<longleftrightarrow> f32_lt b a"
  by (auto simp: f32_le_def f32_lt_def)

lemma f32_lt_le: "f32_lt a b \<Longrightarrow> f32_le a b"
  by (auto simp: f32_le_def f32_lt_def)

lemma f32_min_cases: "f32_min a b = a \<or> f32_min a b = b"
  by (simp add: f32_min_def)

lemma f32_max_cases: "f32_max a b = a \<or> f32_max a b = b"
  by (simp add: f32_max_def)

lemma f32_le_min:
  "f32_le c (f32_min a b) \<Longrightarrow> \<not> f32_is_nan a \<Longrightarrow> \<not> f32_is_nan b \<Longrightarrow> f32_le c a \<and> f32_le c b"
  by (auto simp: f32_min_def f32_le_def f32_lt_def split: if_splits)

lemma f32_min_unit: "f32_unit_interval a \<Longrightarrow> f32_unit_interval b \<Longrightarrow> f32_unit_interval (f32_min a b)"
  by (metis f32_min_cases)

lemma f32_min_idem: "f32_min (f32_min a b) b = f32_min a b"
  by (auto simp: f32_min_def f32_lt_def)

end
