(* ===== verification/Identity.thy ===== *)
theory Identity
  imports Domain Ieee754_Single
begin

text \<open>
  The identity engine of \<open>lattice-intelligence/src/lib.rs\<close>: evidence facts about devices, merge
  proposals and owner decisions, connected components of accepted merges, automatic
  correlation and identification. The functions follow the source; a method that takes
  \<open>&mut self\<close> returns the engine it leaves behind. The printed form of a device identifier
  comes from the uuid library and is the parameter \<open>to_string\<close>; the wrappers that read the
  system clock are the functions below applied to that instant. Indexing the fact map with an
  unknown device panics in Rust and is the error \<open>IndexPanic\<close> here. Constructors that would
  clash with the presence engine carry the prefix \<open>Identity\<close>.
\<close>

section \<open>Data\<close>

record evidence_fact =
  ef_family :: evidence_family
  ef_source :: string
  ef_key :: string
  ef_value :: string
  ef_confidence :: f32
  ef_observed_at :: instant
  ef_expires_at :: "instant option"
  ef_owner_confirmed :: bool

record identity_config =
  ic_auto_identification_threshold :: f32
  ic_router_hint_cap :: f32
  ic_match_threshold :: f32
  ic_contradiction_threshold :: f32
  ic_max_facts_per_device :: nat
  ic_max_proposals :: nat
  ic_max_devices :: nat
  ic_max_merge_edges :: nat
  ic_max_candidate_work :: nat
  ic_max_output_facts :: nat
  ic_max_audit_records :: nat
  ic_max_key_len :: nat
  ic_max_value_len :: nat
  ic_max_source_len :: nat

definition default_identity_config :: identity_config where
  "default_identity_config =
     \<lparr> ic_auto_identification_threshold = F32_0_85, ic_router_hint_cap = F32_0_49,
       ic_match_threshold = F32_0_85, ic_contradiction_threshold = F32_0_85,
       ic_max_facts_per_device = 256, ic_max_proposals = 1024, ic_max_devices = 4096,
       ic_max_merge_edges = 4096, ic_max_candidate_work = 1000000, ic_max_output_facts = 512,
       ic_max_audit_records = 4096, ic_max_key_len = 96, ic_max_value_len = 1024,
       ic_max_source_len = 128 \<rparr>"

datatype identity_error =
    IdentityInvalidConfidence
  | IdentityInvalidConfig string
  | IdentityInvalidInput string
  | IdentityCapacity string
  | IdentityDeviceNotFound
  | ProposalNotFound
  | IdSourceExhausted
  | CannotUndo
  | IdentityInvalidCheckpoint string
  | IndexPanic

definition valid_config :: "identity_config \<Rightarrow> identity_error + unit" where
  "valid_config c =
     (if list_ex (\<lambda>n. \<not> f32_unit_interval n)
           [ic_auto_identification_threshold c, ic_router_hint_cap c, ic_match_threshold c,
            ic_contradiction_threshold c]
      then Inl (IdentityInvalidConfig ''confidence'')
      else if f32_lt (ic_auto_identification_threshold c) F32_0_85
              \<or> f32_le F32_0_85 (ic_router_hint_cap c)
              \<or> f32_lt (ic_match_threshold c) F32_0_85
              \<or> f32_lt (ic_contradiction_threshold c) F32_0_85
      then Inl (IdentityInvalidConfig ''unsafe thresholds'')
      else if 0 \<in> set [ic_max_facts_per_device c, ic_max_proposals c, ic_max_devices c,
                        ic_max_merge_edges c, ic_max_candidate_work c, ic_max_output_facts c,
                        ic_max_audit_records c, ic_max_key_len c, ic_max_value_len c,
                        ic_max_source_len c]
      then Inl (IdentityInvalidConfig ''zero capacity'')
      else Inr ())"

record device_identification =
  dn_vendor :: string
  dn_device_class :: string
  dn_model :: "string option"
  dn_firmware :: "string option"
  dn_confidence :: f32
  dn_families :: "evidence_family list"

datatype proposal_status = ProposalPending | ProposalAccepted | ProposalRejected | ProposalUndone

record merge_proposal =
  mp_id :: u64
  mp_left :: device_id
  mp_right :: device_id
  mp_score :: f32
  mp_families :: "evidence_family list"
  mp_reasons :: "string list"
  mp_status :: proposal_status

datatype decision = Accept | Reject

record audit_record =
  au_proposal_id :: u64
  au_action :: proposal_status

record owner_audit_record =
  ow_sequence :: u64
  ow_device_id :: device_id
  ow_key :: string
  ow_value :: "string option"
  ow_recorded_at :: instant

record state_snapshot =
  ss_devices :: nat
  ss_facts :: nat
  ss_proposals :: nat
  ss_audit :: nat
  ss_owner_audit :: nat
  ss_edges :: nat
  ss_next_proposal :: u64

record merge_edge =
  ed_a :: device_id
  ed_b :: device_id
  ed_active :: bool

record identity_engine =
  ie_cfg :: identity_config
  ie_ids :: "device_id list"
  ie_facts :: "(device_id, evidence_fact list) hmap"
  ie_proposals :: "merge_proposal list"
  ie_edges :: "(u64, merge_edge) hmap"
  ie_audit :: "audit_record list"
  ie_owners :: "owner_audit_record list"
  ie_next_proposal :: u64
  ie_next_owner :: u64

definition new_identity :: "identity_config \<Rightarrow> device_id list \<Rightarrow> identity_error + identity_engine" where
  "new_identity cfg ids =
     (case valid_config cfg of
        Inl err \<Rightarrow> Inl err
      | Inr _ \<Rightarrow> Inr \<lparr> ie_cfg = cfg, ie_ids = take (ic_max_devices cfg) ids, ie_facts = [],
          ie_proposals = [], ie_edges = [], ie_audit = [], ie_owners = [], ie_next_proposal = 1,
          ie_next_owner = 1 \<rparr>)"

definition state_snapshot_of :: "identity_engine \<Rightarrow> state_snapshot" where
  "state_snapshot_of s =
     \<lparr> ss_devices = length (ie_facts s),
       ss_facts = sum_list (map (\<lambda>(_, fs). length fs) (ie_facts s)),
       ss_proposals = length (ie_proposals s), ss_audit = length (ie_audit s),
       ss_owner_audit = length (ie_owners s),
       ss_edges = length (filter (\<lambda>(_, e). ed_active e) (ie_edges s)),
       ss_next_proposal = ie_next_proposal s \<rparr>"

section \<open>Facts\<close>

fun split_on :: "char \<Rightarrow> string \<Rightarrow> string list" where
  "split_on c [] = [[]]"
| "split_on c (x # xs) =
     (case split_on c xs of
        [] \<Rightarrow> [[]]
      | part # parts \<Rightarrow> if x = c then [] # part # parts else (x # part) # parts)"

definition hex_value :: "char \<Rightarrow> nat option" where
  "hex_value c =
     (let n = (of_char c :: nat) in
      if 48 \<le> n \<and> n \<le> 57 then Some (n - 48)
      else if 65 \<le> n \<and> n \<le> 70 then Some (n - 55)
      else if 97 \<le> n \<and> n \<le> 102 then Some (n - 87)
      else None)"

definition hex_char :: "nat \<Rightarrow> char" where
  "hex_char n = (if n < 10 then char_of (48 + n) else char_of (87 + n))"

text \<open>The bytes of a string of hexadecimal digits, two digits each.\<close>

fun hex_bytes :: "string \<Rightarrow> nat list option" where
  "hex_bytes [] = Some []"
| "hex_bytes [c] = None"
| "hex_bytes (c # d # s) =
     (case (hex_value c, hex_value d, hex_bytes s) of
        (Some x, Some y, Some bs) \<Rightarrow> Some ((16 * x + y) # bs)
      | _ \<Rightarrow> None)"

definition hex_of_byte :: "nat \<Rightarrow> string" where
  "hex_of_byte b = [hex_char (b div 16), hex_char (b mod 16)]"

definition mac_shape :: "string \<Rightarrow> bool" where
  "mac_shape v =
     (if CHR '':'' \<in> set v
      then length (split_on CHR '':'' v) = 6 \<and> list_all (\<lambda>x. length x = 2) (split_on CHR '':'' v)
      else if CHR ''-'' \<in> set v
      then length (split_on CHR ''-'' v) = 6 \<and> list_all (\<lambda>x. length x = 2) (split_on CHR ''-'' v)
      else if CHR ''.'' \<in> set v
      then length (split_on CHR ''.'' v) = 3 \<and> list_all (\<lambda>x. length x = 4) (split_on CHR ''.'' v)
      else False)"

definition mac :: "string \<Rightarrow> identity_error + string" where
  "mac v =
     (if \<not> mac_shape v then Inl (IdentityInvalidInput ''mac'')
      else (let h = filter (\<lambda>x. x \<notin> {CHR '':'', CHR ''-'', CHR ''.''}) v in
            if length h \<noteq> 12 \<or> list_ex (\<lambda>x. hex_value x = None) h
            then Inl (IdentityInvalidInput ''mac'')
            else case hex_bytes h of
                None \<Rightarrow> Inl (IdentityInvalidInput ''mac'')
              | Some b \<Rightarrow>
                  if odd (hd b) \<or> list_all (\<lambda>x. x = 0) b
                  then Inl (IdentityInvalidInput ''multicast mac'')
                  else Inr (join '':'' (map hex_of_byte b))))"

text \<open>
  \<open>u8::from_str_radix(v.get(..2).unwrap_or(""), 16)\<close> accepts two hexadecimal digits, or a plus
  sign and one.
\<close>

definition local_mac :: "string \<Rightarrow> bool" where
  "local_mac v =
     (case v of
        c # d # _ \<Rightarrow>
          (case hex_value d of
             None \<Rightarrow> False
           | Some y \<Rightarrow>
               (case hex_value c of
                  Some x \<Rightarrow> odd ((16 * x + y) div 2)
                | None \<Rightarrow> c = CHR ''+'' \<and> odd (y div 2)))
      | _ \<Rightarrow> False)"

definition live :: "evidence_fact \<Rightarrow> instant \<Rightarrow> bool" where
  "live f now \<longleftrightarrow> is_none_or (ef_expires_at f) (\<lambda>x. now < x)"

definition allowed :: "string \<Rightarrow> evidence_family \<Rightarrow> bool" where
  "allowed k f =
     (if f = RouterHint
      then k \<in> {''vendor'', ''class'', ''model'', ''firmware'', ''label'', ''hostname'', ''room''}
      else if k = ''mac'' then f = LinkLayer
      else if k \<in> {''ip'', ''client_id'', ''dhcp_client_id'', ''duid''} then f = Addressing
      else if k \<in> {''hostname'', ''name''} then f = Naming
      else if k \<in> {''tls_spki'', ''ssh_host_key''} then f = Cryptographic
      else if k \<in> {''serial'', ''uuid'', ''onvif_uuid'', ''upnp_udn''} then f = Service
      else if k \<in> {''vendor'', ''class'', ''model'', ''firmware''}
      then f \<in> {Naming, Service, Cryptographic}
      else False)"

definition anchor :: "string \<Rightarrow> evidence_family option" where
  "anchor k =
     (if k = ''mac'' then Some LinkLayer
      else if k \<in> {''client_id'', ''dhcp_client_id'', ''duid''} then Some Addressing
      else if k \<in> {''tls_spki'', ''ssh_host_key''} then Some Cryptographic
      else if k \<in> {''serial'', ''uuid'', ''onvif_uuid'', ''upnp_udn''} then Some Service
      else None)"

fun family_rank :: "evidence_family \<Rightarrow> nat" where
  "family_rank LinkLayer = 0"
| "family_rank Addressing = 1"
| "family_rank Naming = 2"
| "family_rank Service = 3"
| "family_rank Cryptographic = 4"
| "family_rank RouterHint = 5"
| "family_rank OwnerFamily = 6"

definition sortfam :: "evidence_family list \<Rightarrow> evidence_family list" where
  "sortfam v = remdups_adj (sort_key family_rank v)"

definition validprop :: "f32 \<Rightarrow> evidence_family list \<Rightarrow> string list \<Rightarrow> identity_error + unit" where
  "validprop s f r =
     (if \<not> f32_unit_interval s then Inl IdentityInvalidConfidence
      else if f = [] \<or> 7 < length f \<or> list_ex (\<lambda>x. x \<in> {RouterHint, OwnerFamily}) f
      then Inl (IdentityInvalidInput ''proposal families'')
      else if r = [] \<or> 16 < length r \<or> list_ex (\<lambda>x. x = [] \<or> 256 < length x) r
      then Inl (IdentityInvalidInput ''reasons'')
      else Inr ())"

text \<open>\<open>prepare\<close> checks and normalises facts in place: a failure drops the whole batch.\<close>

definition prepare_fact :: "identity_config \<Rightarrow> evidence_fact \<Rightarrow> identity_error + evidence_fact" where
  "prepare_fact cfg f =
     (if \<not> f32_unit_interval (ef_confidence f) then Inl IdentityInvalidConfidence
      else if ef_owner_confirmed f \<or> ef_family f = OwnerFamily
      then Inl (IdentityInvalidInput ''owner provenance'')
      else if ef_key f = [] \<or> ic_max_key_len cfg < length (ef_key f)
              \<or> ef_value f = [] \<or> ic_max_value_len cfg < length (ef_value f)
              \<or> ef_source f = [] \<or> ic_max_source_len cfg < length (ef_source f)
      then Inl (IdentityInvalidInput ''field bounds'')
      else if \<not> allowed (ef_key f) (ef_family f) then Inl (IdentityInvalidInput ''taxonomy'')
      else case (if ef_key f = ''mac'' then mac (ef_value f) else Inr (ef_value f)) of
          Inl err \<Rightarrow> Inl err
        | Inr v \<Rightarrow>
            Inr (f \<lparr> ef_value := v,
                     ef_confidence := (if ef_family f = RouterHint
                       then f32_min (ef_confidence f) (ic_router_hint_cap cfg)
                       else ef_confidence f) \<rparr>))"

fun prepare :: "identity_config \<Rightarrow> evidence_fact list \<Rightarrow> identity_error + evidence_fact list" where
  "prepare cfg [] = Inr []"
| "prepare cfg (f # fs) =
     (case prepare_fact cfg f of
        Inl err \<Rightarrow> Inl err
      | Inr f' \<Rightarrow>
          (case prepare cfg fs of Inl err \<Rightarrow> Inl err | Inr fs' \<Rightarrow> Inr (f' # fs')))"

section \<open>Components\<close>

text \<open>The other endpoint of an active edge at \<open>x\<close>.\<close>

definition edge_target :: "device_id \<Rightarrow> merge_edge \<Rightarrow> device_id option" where
  "edge_target x e =
     (if \<not> ed_active e then None
      else if ed_a e = x then Some (ed_b e)
      else if ed_b e = x then Some (ed_a e)
      else None)"

text \<open>The inner loop of \<open>component\<close>: the devices seen so far and the newly seen ones.\<close>

fun visit_edges ::
  "device_id \<Rightarrow> merge_edge list \<Rightarrow> device_id list \<times> device_id list
     \<Rightarrow> device_id list \<times> device_id list" where
  "visit_edges x [] (seen, fresh) = (seen, fresh)"
| "visit_edges x (e # es) (seen, fresh) =
     (case edge_target x e of
        None \<Rightarrow> visit_edges x es (seen, fresh)
      | Some y \<Rightarrow>
          if y \<in> set seen then visit_edges x es (seen, fresh)
          else visit_edges x es (seen @ [y], fresh @ [y]))"

definition endpoints :: "merge_edge list \<Rightarrow> device_id set" where
  "endpoints es = ed_a ` set es \<union> ed_b ` set es"

lemma visit_edges_new:
  "visit_edges x es (seen, fresh) = (seen', fresh') \<Longrightarrow>
     \<exists>ys. seen' = seen @ ys \<and> fresh' = fresh @ ys \<and> distinct ys \<and> set ys \<inter> set seen = {}
        \<and> set ys \<subseteq> endpoints es"
proof (induction x es "(seen, fresh)" arbitrary: seen fresh rule: visit_edges.induct)
  case (2 x e es seen fresh)
  show ?case
  proof (cases "\<exists>y. edge_target x e = Some y \<and> y \<notin> set seen")
    case True
    then obtain y where y: "edge_target x e = Some y" "y \<notin> set seen" by blast
    with 2(3) [OF y] 2(4) obtain ys where
      "seen' = (seen @ [y]) @ ys" "fresh' = (fresh @ [y]) @ ys" "distinct ys"
      "set ys \<inter> set (seen @ [y]) = {}" "set ys \<subseteq> endpoints es"
      by auto
    moreover have "y \<in> endpoints (e # es)"
      using y(1) by (auto simp: edge_target_def endpoints_def split: if_splits)
    ultimately show ?thesis using y(2) by (intro exI [of _ "y # ys"]) (auto simp: endpoints_def)
  next
    case False
    then have "visit_edges x es (seen, fresh) = (seen', fresh')"
      using 2(4) by (auto split: option.splits)
    with False 2(1,2) have "\<exists>ys. seen' = seen @ ys \<and> fresh' = fresh @ ys \<and> distinct ys
        \<and> set ys \<inter> set seen = {} \<and> set ys \<subseteq> endpoints es"
      by (cases "edge_target x e") auto
    then show ?thesis by (auto simp: endpoints_def)
  qed
qed simp

text \<open>
  The outer loop: every iteration takes one device off the queue and appends the newly seen ones,
  each of which is an endpoint not seen before, so the number of unseen endpoints plus the
  length of the queue decreases.
\<close>

function component_loop ::
  "merge_edge list \<Rightarrow> device_id list \<Rightarrow> device_id list \<Rightarrow> device_id list" where
  "component_loop es seen [] = seen"
| "component_loop es seen (x # q) =
     (case visit_edges x es (seen, []) of (seen', fresh) \<Rightarrow> component_loop es seen' (q @ fresh))"
  by pat_completeness auto

termination
proof (relation "measure (\<lambda>(es, seen, q). card (endpoints es - set seen) + length q)", goal_cases)
  case (2 es seen x q seen' fresh)
  then obtain ys where ys: "seen' = seen @ ys" "fresh = ys" "distinct ys" "set ys \<inter> set seen = {}"
    "set ys \<subseteq> endpoints es"
    using visit_edges_new [of x es seen "[]" seen' fresh] by auto
  have "card (endpoints es - set seen') + length ys = card (endpoints es - set seen)"
  proof -
    have "endpoints es - set seen = (endpoints es - set seen') \<union> set ys" using ys by auto
    moreover have "finite (endpoints es - set seen')" by (simp add: endpoints_def)
    moreover have "(endpoints es - set seen') \<inter> set ys = {}" using ys by auto
    ultimately show ?thesis using ys(3) by (simp add: card_Un_disjoint distinct_card)
  qed
  with ys(2) show ?case by simp
qed simp

text \<open>\<open>usize\<close> multiplication and addition that overflow at the width of the machine.\<close>

definition usize_checked :: "nat \<Rightarrow> nat option" where
  "usize_checked n = (if n < 2 ^ 64 then Some n else None)"

definition usize_saturating :: "nat \<Rightarrow> nat" where
  "usize_saturating n = min n (2 ^ 64 - 1)"

definition component ::
  "(device_id \<Rightarrow> string) \<Rightarrow> identity_engine \<Rightarrow> device_id \<Rightarrow> identity_error + device_id list" where
  "component to_string s i =
     (if \<not> hm_contains (ie_facts s) i then Inl IdentityDeviceNotFound
      else if ic_max_candidate_work (ie_cfg s)
                < usize_saturating (length (ie_facts s) * max (length (ie_edges s)) 1)
      then Inl (IdentityCapacity ''graph work'')
      else Inr (sort_key to_string (component_loop (map snd (ie_edges s)) [i] [i])))"

text \<open>\<open>min_by_key\<close> keeps the first of equal keys; the slice is never empty.\<close>

definition canon :: "(device_id \<Rightarrow> string) \<Rightarrow> device_id list \<Rightarrow> device_id" where
  "canon to_string v =
     foldl (\<lambda>a b. if to_string b < to_string a then b else a) (hd v) (tl v)"

definition resolve ::
  "(device_id \<Rightarrow> string) \<Rightarrow> identity_engine \<Rightarrow> device_id \<Rightarrow> identity_error + device_id" where
  "resolve to_string s i = map_sum id (canon to_string) (component to_string s i)"

fun components_from ::
  "(device_id \<Rightarrow> string) \<Rightarrow> identity_engine \<Rightarrow> device_id list \<Rightarrow> device_id list
     \<Rightarrow> device_id list list \<Rightarrow> identity_error + device_id list list" where
  "components_from to_string s [] seen out = Inr out"
| "components_from to_string s (i # ids) seen out =
     (if i \<in> set seen then components_from to_string s ids seen out
      else case component to_string s i of
          Inl err \<Rightarrow> Inl err
        | Inr c \<Rightarrow> components_from to_string s ids (seen @ c) (out @ [c]))"

definition components ::
  "(device_id \<Rightarrow> string) \<Rightarrow> identity_engine \<Rightarrow> identity_error + device_id list list" where
  "components to_string s =
     (if ic_max_merge_edges (ie_cfg s) < length (ie_edges s) then Inl (IdentityCapacity ''graph'')
      else components_from to_string s (sort_key to_string (map fst (ie_facts s))) [] [])"

text \<open>\<open>self.facts[d]\<close> for each device of a component, in order.\<close>

fun index_facts ::
  "identity_engine \<Rightarrow> device_id list \<Rightarrow> identity_error + evidence_fact list list" where
  "index_facts s [] = Inr []"
| "index_facts s (d # ds) =
     (case hm_get (ie_facts s) d of
        None \<Rightarrow> Inl IndexPanic
      | Some fs \<Rightarrow> map_sum id ((#) fs) (index_facts s ds))"

definition refs :: "identity_engine \<Rightarrow> device_id list \<Rightarrow> identity_error + evidence_fact list" where
  "refs s c =
     (case index_facts s c of
        Inl err \<Rightarrow> Inl err
      | Inr fss \<Rightarrow>
          if ic_max_candidate_work (ie_cfg s) < sum_list (map length fss)
          then Inl (IdentityCapacity ''work'')
          else Inr (concat fss))"

definition preadd ::
  "(device_id \<Rightarrow> string) \<Rightarrow> identity_engine \<Rightarrow> device_id \<Rightarrow> nat \<Rightarrow> instant \<Rightarrow> identity_error + unit" where
  "preadd to_string s i n now =
     (case component to_string s i of
        Inl err \<Rightarrow> Inl err
      | Inr c \<Rightarrow>
          (case index_facts s c of
             Inl err \<Rightarrow> Inl err
           | Inr fss \<Rightarrow>
               if ic_max_facts_per_device (ie_cfg s)
                    < sum_list (map (\<lambda>fs. length (filter (\<lambda>f. live f now) fs)) fss) + n
               then Inl (IdentityCapacity ''facts'')
               else Inr ()))"

definition prune_expired ::
  "(device_id \<Rightarrow> string) \<Rightarrow> identity_engine \<Rightarrow> device_id \<Rightarrow> instant
     \<Rightarrow> (identity_error + unit) \<times> identity_engine" where
  "prune_expired to_string s i now =
     (case component to_string s i of
        Inl err \<Rightarrow> (Inl err, s)
      | Inr c \<Rightarrow>
          (Inr (), s \<lparr> ie_facts := map (\<lambda>(d, fs).
             (d, if d \<in> set c then filter (\<lambda>f. live f now) fs else fs)) (ie_facts s) \<rparr>))"

text \<open>\<open>self.facts.get_mut(&id).ok_or(DeviceNotFound)?.extend(fs)\<close>.\<close>

definition extend_facts ::
  "identity_engine \<Rightarrow> device_id \<Rightarrow> evidence_fact list \<Rightarrow> (identity_error + unit) \<times> identity_engine" where
  "extend_facts s i fs =
     (case hm_get (ie_facts s) i of
        None \<Rightarrow> (Inl IdentityDeviceNotFound, s)
      | Some old \<Rightarrow> (Inr (), s \<lparr> ie_facts := hm_insert i (old @ fs) (ie_facts s) \<rparr>))"

text \<open>The shared end of \<open>observe_at\<close> and \<open>add_facts_at\<close>: prune, check the budget, extend.\<close>

definition prune_and_extend ::
  "(device_id \<Rightarrow> string) \<Rightarrow> identity_engine \<Rightarrow> device_id \<Rightarrow> evidence_fact list \<Rightarrow> instant
     \<Rightarrow> (identity_error + unit) \<times> identity_engine" where
  "prune_and_extend to_string s i fs now =
     (case prune_expired to_string s i now of
        (Inl err, s1) \<Rightarrow> (Inl err, s1)
      | (Inr _, s1) \<Rightarrow>
          (case preadd to_string s1 i (length fs) now of
             Inl err \<Rightarrow> (Inl err, s1)
           | Inr _ \<Rightarrow> extend_facts s1 i fs))"

definition add_facts_at ::
  "(device_id \<Rightarrow> string) \<Rightarrow> identity_engine \<Rightarrow> device_id \<Rightarrow> evidence_fact list \<Rightarrow> instant
     \<Rightarrow> (identity_error + unit) \<times> identity_engine" where
  "add_facts_at to_string s i fs now =
     (case prepare (ie_cfg s) fs of
        Inl err \<Rightarrow> (Inl err, s)
      | Inr fs' \<Rightarrow> prune_and_extend to_string s i fs' now)"

section \<open>Correlation\<close>

record match_result =
  ma_any :: bool
  ma_auto :: bool
  ma_score :: f32
  ma_families :: "evidence_family list"
  ma_reasons :: "string list"

record match_acc =
  mc_fam :: "evidence_family list"
  mc_why :: "string list"
  mc_score :: f32
  mc_conflict :: bool

definition participates :: "instant \<Rightarrow> evidence_fact \<Rightarrow> bool" where
  "participates now f \<longleftrightarrow> is_none_or (ef_expires_at f) (\<lambda>x. now < x) \<and> ef_family f \<noteq> RouterHint"

text \<open>The body of the double loop of \<open>matching\<close>: an old fact \<open>a\<close> against a new fact \<open>b\<close>.\<close>

definition match_step :: "identity_config \<Rightarrow> match_acc \<Rightarrow> evidence_fact \<times> evidence_fact \<Rightarrow> match_acc" where
  "match_step c acc p =
     (case p of (a, b) \<Rightarrow>
        if anchor (ef_key a) = Some (ef_family a) \<and> ef_key a = ef_key b \<and> ef_family a = ef_family b
        then (if ef_value a = ef_value b
              then (let s = f32_min (ef_confidence a) (ef_confidence b) in
                    acc \<lparr> mc_score := f32_max (mc_score acc) s,
                          mc_fam := (if f32_le (ic_match_threshold c) s
                                     then mc_fam acc @ [ef_family a] else mc_fam acc),
                          mc_why := mc_why acc @ [ef_key a @ '' matched''] \<rparr>)
              else if \<not> (ef_key a = ''mac'' \<and> local_mac (ef_value a) \<and> local_mac (ef_value b))
                      \<and> f32_le (ic_contradiction_threshold c) (ef_confidence a)
                      \<and> f32_le (ic_contradiction_threshold c) (ef_confidence b)
              then acc \<lparr> mc_conflict := True \<rparr>
              else acc)
        else acc)"

definition match_pairs ::
  "instant \<Rightarrow> evidence_fact list \<Rightarrow> evidence_fact list \<Rightarrow> (evidence_fact \<times> evidence_fact) list" where
  "match_pairs now old incoming =
     concat (map (\<lambda>a. map (Pair a) (filter (participates now) incoming)) (filter (participates now) old))"

definition matching ::
  "evidence_fact list \<Rightarrow> evidence_fact list \<Rightarrow> instant \<Rightarrow> identity_config \<Rightarrow> match_result" where
  "matching old incoming now c =
     (let acc = foldl (match_step c) \<lparr> mc_fam = [], mc_why = [], mc_score = F32_ZERO, mc_conflict = False \<rparr>
                  (match_pairs now old incoming);
          fam = sortfam (mc_fam acc);
          why = remdups_adj (sort (mc_why acc))
      in \<lparr> ma_any = (why \<noteq> []),
           ma_auto = (\<not> mc_conflict acc \<and> 2 \<le> length fam),
           ma_score = (if mc_conflict acc then f32_mul (mc_score acc) F32_0_25 else mc_score acc),
           ma_families = fam, ma_reasons = why \<rparr>)"

section \<open>Proposals\<close>

definition preprops :: "identity_engine \<Rightarrow> nat \<Rightarrow> identity_error + unit" where
  "preprops s n =
     (if is_none_or (usize_checked (length (ie_proposals s) + n)) (\<lambda>x. ic_max_proposals (ie_cfg s) < x)
         \<or> 0 < n \<and> checked_add (ie_next_proposal s) (of_nat n) = None
      then Inl (IdentityCapacity ''proposals'')
      else Inr ())"

definition insert_prop ::
  "identity_engine \<Rightarrow> device_id \<Rightarrow> device_id \<Rightarrow> f32 \<Rightarrow> evidence_family list \<Rightarrow> string list
     \<Rightarrow> u64 \<times> identity_engine" where
  "insert_prop s a b score families reasons =
     (ie_next_proposal s,
      s \<lparr> ie_next_proposal := ie_next_proposal s + 1,
          ie_proposals := ie_proposals s @
            [\<lparr> mp_id = ie_next_proposal s, mp_left = a, mp_right = b, mp_score = score,
               mp_families = sortfam families, mp_reasons = remdups_adj (sort reasons),
               mp_status = ProposalPending \<rparr>] \<rparr>)"

definition propose_merge ::
  "(device_id \<Rightarrow> string) \<Rightarrow> identity_engine \<Rightarrow> device_id \<Rightarrow> device_id \<Rightarrow> f32 \<Rightarrow> evidence_family list
     \<Rightarrow> string list \<Rightarrow> (identity_error + u64) \<times> identity_engine" where
  "propose_merge to_string s a b score families reasons =
     (case resolve to_string s a of
        Inl err \<Rightarrow> (Inl err, s)
      | Inr _ \<Rightarrow>
     (case resolve to_string s b of
        Inl err \<Rightarrow> (Inl err, s)
      | Inr _ \<Rightarrow>
     (case validprop score families reasons of
        Inl err \<Rightarrow> (Inl err, s)
      | Inr _ \<Rightarrow>
     (case preprops s 1 of
        Inl err \<Rightarrow> (Inl err, s)
      | Inr _ \<Rightarrow> map_prod Inr id (insert_prop s a b score families reasons)))))"

fun position :: "('a \<Rightarrow> bool) \<Rightarrow> 'a list \<Rightarrow> nat option" where
  "position p [] = None"
| "position p (x # xs) = (if p x then Some 0 else map_option Suc (position p xs))"

definition decide :: "identity_engine \<Rightarrow> u64 \<Rightarrow> decision \<Rightarrow> (identity_error + unit) \<times> identity_engine" where
  "decide s i d =
     (if ic_max_audit_records (ie_cfg s) \<le> length (ie_audit s)
      then (Inl (IdentityCapacity ''audit''), s)
      else case position (\<lambda>p. mp_id p = i \<and> mp_status p = ProposalPending) (ie_proposals s) of
          None \<Rightarrow> (Inl ProposalNotFound, s)
        | Some p \<Rightarrow>
            (let status = (if d = Accept then ProposalAccepted else ProposalRejected);
                 prop = ie_proposals s ! p;
                 closed = s \<lparr> ie_proposals := (ie_proposals s)[p := prop \<lparr> mp_status := status \<rparr>],
                              ie_audit := ie_audit s @ [\<lparr> au_proposal_id = i, au_action = status \<rparr>] \<rparr>
             in if d = Accept
                then (if ic_max_merge_edges (ie_cfg s) \<le> length (ie_edges s)
                      then (Inl (IdentityCapacity ''edges''), s)
                      else (Inr (), closed \<lparr> ie_edges := hm_insert i
                              \<lparr> ed_a = mp_left prop, ed_b = mp_right prop, ed_active = True \<rparr>
                              (ie_edges s) \<rparr>))
                else (Inr (), closed)))"

definition undo :: "identity_engine \<Rightarrow> u64 \<Rightarrow> (identity_error + unit) \<times> identity_engine" where
  "undo s i =
     (if ic_max_audit_records (ie_cfg s) \<le> length (ie_audit s)
      then (Inl (IdentityCapacity ''audit''), s)
      else case position (\<lambda>p. mp_id p = i \<and> mp_status p = ProposalAccepted) (ie_proposals s) of
          None \<Rightarrow> (Inl CannotUndo, s)
        | Some p \<Rightarrow>
            (Inr (), s \<lparr>
               ie_edges := (case hm_get (ie_edges s) i of
                   None \<Rightarrow> ie_edges s
                 | Some e \<Rightarrow> hm_insert i (e \<lparr> ed_active := False \<rparr>) (ie_edges s)),
               ie_proposals := (ie_proposals s)
                 [p := (ie_proposals s ! p) \<lparr> mp_status := ProposalUndone \<rparr>],
               ie_audit := ie_audit s @ [\<lparr> au_proposal_id = i, au_action = ProposalUndone \<rparr>] \<rparr>))"

section \<open>Observation\<close>

fun candidate_matches ::
  "(device_id \<Rightarrow> string) \<Rightarrow> identity_engine \<Rightarrow> evidence_fact list \<Rightarrow> instant \<Rightarrow> device_id list list \<Rightarrow> nat
     \<Rightarrow> (device_id \<times> match_result) list \<Rightarrow> identity_error + (device_id \<times> match_result) list" where
  "candidate_matches to_string s incoming now [] work matches = Inr matches"
| "candidate_matches to_string s incoming now (c # cs) work matches =
     (case refs s c of
        Inl err \<Rightarrow> Inl err
      | Inr rs \<Rightarrow>
          (case usize_checked (length rs * length incoming) of
             None \<Rightarrow> Inl (IdentityCapacity ''work'')
           | Some cost \<Rightarrow>
               (case usize_checked (work + cost) of
                  None \<Rightarrow> Inl (IdentityCapacity ''work'')
                | Some work' \<Rightarrow>
                    if ic_max_candidate_work (ie_cfg s) < work' then Inl (IdentityCapacity ''work'')
                    else (let m = matching rs incoming now (ie_cfg s) in
                          candidate_matches to_string s incoming now cs work'
                            (if ma_any m then matches @ [(canon to_string c, m)] else matches)))))"

fun insert_props ::
  "identity_engine \<Rightarrow> device_id \<Rightarrow> (device_id \<times> match_result) list \<Rightarrow> identity_engine" where
  "insert_props s fresh [] = s"
| "insert_props s fresh ((other, m) # ms) =
     insert_props (snd (insert_prop s other fresh (ma_score m) (ma_families m) (ma_reasons m))) fresh ms"

text \<open>The end of \<open>observe_at\<close>: a new device, with a proposal for every candidate.\<close>

definition enrol ::
  "identity_engine \<Rightarrow> evidence_fact list \<Rightarrow> (device_id \<times> match_result) list
     \<Rightarrow> (identity_error + device_id) \<times> identity_engine" where
  "enrol s incoming matches =
     (case preprops s (length matches) of
        Inl err \<Rightarrow> (Inl err, s)
      | Inr _ \<Rightarrow>
          (case ie_ids s of
             [] \<Rightarrow> (Inl IdSourceExhausted, s)
           | fresh # ids \<Rightarrow>
               if hm_contains (ie_facts s) fresh then (Inl (IdentityInvalidInput ''duplicate id''), s)
               else (Inr fresh,
                     insert_props (s \<lparr> ie_ids := ids, ie_facts := hm_insert fresh incoming (ie_facts s) \<rparr>)
                       fresh matches)))"

definition correlate ::
  "(device_id \<Rightarrow> string) \<Rightarrow> identity_engine \<Rightarrow> evidence_fact list \<Rightarrow> instant
     \<Rightarrow> identity_error + (device_id \<times> match_result) list" where
  "correlate to_string s incoming now =
     (if ic_max_facts_per_device (ie_cfg s) < length incoming
         \<or> ic_max_devices (ie_cfg s) \<le> length (ie_facts s)
      then Inl (IdentityCapacity ''devices or facts'')
      else case components to_string s of
          Inl err \<Rightarrow> Inl err
        | Inr comps \<Rightarrow>
            map_sum id (sort_key (\<lambda>x. to_string (fst x)))
              (candidate_matches to_string s incoming now comps 0 []))"

definition observe_at ::
  "(device_id \<Rightarrow> string) \<Rightarrow> identity_engine \<Rightarrow> device_id option \<Rightarrow> evidence_fact list \<Rightarrow> instant
     \<Rightarrow> (identity_error + device_id) \<times> identity_engine" where
  "observe_at to_string s i fs now =
     (case prepare (ie_cfg s) fs of
        Inl err \<Rightarrow> (Inl err, s)
      | Inr incoming \<Rightarrow>
          (case i of
             Some alias \<Rightarrow>
               (case resolve to_string s alias of
                  Inl err \<Rightarrow> (Inl err, s)
                | Inr root \<Rightarrow>
                    map_prod (map_sum id (\<lambda>_. root)) id (prune_and_extend to_string s alias incoming now))
           | None \<Rightarrow>
               (case correlate to_string s incoming now of
                  Inl err \<Rightarrow> (Inl err, s)
                | Inr matches \<Rightarrow>
                    (case matches of
                       [(root, m)] \<Rightarrow>
                         if ma_auto m
                         then map_prod (map_sum id (\<lambda>_. root)) id
                                (prune_and_extend to_string s root incoming now)
                         else enrol s incoming matches
                     | _ \<Rightarrow> enrol s incoming matches))))"

section \<open>Owner facts\<close>

definition OWNER_KEYS :: "string set" where
  "OWNER_KEYS = {''vendor'', ''class'', ''model'', ''firmware'', ''name'', ''room''}"

definition owner ::
  "(device_id \<Rightarrow> string) \<Rightarrow> identity_engine \<Rightarrow> device_id \<Rightarrow> string \<Rightarrow> string option \<Rightarrow> instant
     \<Rightarrow> (identity_error + unit) \<times> identity_engine" where
  "owner to_string s i key v at =
     (case resolve to_string s i of
        Inl err \<Rightarrow> (Inl err, s)
      | Inr root \<Rightarrow>
          if key \<notin> OWNER_KEYS
             \<or> is_some_and v (\<lambda>x. x = [] \<or> ic_max_value_len (ie_cfg s) < length x)
          then (Inl (IdentityInvalidInput ''owner fact''), s)
          else if ic_max_audit_records (ie_cfg s) \<le> length (ie_owners s)
          then (Inl (IdentityCapacity ''owner audit''), s)
          else case checked_add (ie_next_owner s) 1 of
              None \<Rightarrow> (Inl (IdentityCapacity ''owner sequence''), s)
            | Some following \<Rightarrow>
                (Inr (), s \<lparr> ie_owners := ie_owners s @
                    [\<lparr> ow_sequence = ie_next_owner s, ow_device_id = root, ow_key = key, ow_value = v,
                       ow_recorded_at = at \<rparr>],
                  ie_next_owner := following \<rparr>))"

definition set_owner_fact ::
  "(device_id \<Rightarrow> string) \<Rightarrow> identity_engine \<Rightarrow> device_id \<Rightarrow> string \<Rightarrow> string \<Rightarrow> instant
     \<Rightarrow> (identity_error + unit) \<times> identity_engine" where
  "set_owner_fact to_string s i key v at = owner to_string s i key (Some v) at"

definition clear_owner_fact_at ::
  "(device_id \<Rightarrow> string) \<Rightarrow> identity_engine \<Rightarrow> device_id \<Rightarrow> string \<Rightarrow> instant
     \<Rightarrow> (identity_error + unit) \<times> identity_engine" where
  "clear_owner_fact_at to_string s i key at = owner to_string s i key None at"

section \<open>Reading\<close>

definition fact_order_key ::
  "(device_id \<Rightarrow> string) \<Rightarrow> device_id \<times> evidence_fact
     \<Rightarrow> string \<times> nat \<times> string \<times> string \<times> string \<times> f32 \<times> instant \<times> instant option \<times> bool" where
  "fact_order_key to_string x =
     (case x of (d, f) \<Rightarrow>
        (to_string d, family_rank (ef_family f), ef_key f, ef_value f, ef_source f, ef_confidence f,
         ef_observed_at f, ef_expires_at f, ef_owner_confirmed f))"

definition facts_of ::
  "(device_id \<Rightarrow> string) \<Rightarrow> identity_engine \<Rightarrow> device_id \<Rightarrow> identity_error + evidence_fact list" where
  "facts_of to_string s i =
     (case component to_string s i of
        Inl err \<Rightarrow> Inl err
      | Inr c \<Rightarrow>
          (case index_facts s c of
             Inl err \<Rightarrow> Inl err
           | Inr fss \<Rightarrow>
               if ic_max_output_facts (ie_cfg s) < sum_list (map length fss)
               then Inl (IdentityCapacity ''output'')
               else Inr (map snd (sort_key (fact_order_key to_string)
                      (concat (map (\<lambda>(d, fs). map (Pair d) fs) (zip c fss)))))))"

text \<open>The latest owner record of a component for a key, and its value unless it is a tombstone.\<close>

definition owner_value :: "identity_engine \<Rightarrow> device_id list \<Rightarrow> string \<Rightarrow> string option" where
  "owner_value s c k =
     Option.bind (rfind (\<lambda>r. ow_device_id r \<in> set c \<and> ow_key r = k) (ie_owners s)) ow_value"

text \<open>\<open>max_by\<close> keeps the last of equal elements.\<close>

definition pick :: "evidence_fact list \<Rightarrow> string \<Rightarrow> evidence_fact option" where
  "pick active k =
     (case filter (\<lambda>f. ef_key f = k) active of
        [] \<Rightarrow> None
      | f # fs \<Rightarrow> Some (foldl (\<lambda>a b.
          if (f32_total_key (ef_confidence a), ef_value a) \<le> (f32_total_key (ef_confidence b), ef_value b)
          then b else a) f fs))"

definition contradicted :: "identity_config \<Rightarrow> evidence_fact list \<Rightarrow> string \<Rightarrow> string \<Rightarrow> bool" where
  "contradicted c active k v =
     list_ex (\<lambda>f. ef_key f = k \<and> ef_value f \<noteq> v
       \<and> f32_le (ic_auto_identification_threshold c) (ef_confidence f)) active"

definition or_else :: "'a option \<Rightarrow> 'a option \<Rightarrow> 'a option" where
  "or_else x y = (case x of None \<Rightarrow> y | Some v \<Rightarrow> Some v)"

text \<open>The decision of \<open>identification_at\<close> from the facts that take part and the owner's values.\<close>

definition identify ::
  "identity_config \<Rightarrow> (string \<Rightarrow> string option) \<Rightarrow> evidence_fact list \<Rightarrow> device_identification option" where
  "identify cfg own active =
     (let ov = own ''vendor''; oc = own ''class'';
          av = pick active ''vendor''; ac = pick active ''class'';
          threshold = ic_auto_identification_threshold cfg
      in case (or_else ov (map_option ef_value av), or_else oc (map_option ef_value ac)) of
           (Some vendor, Some dclass) \<Rightarrow>
             (let fam = sortfam (map ef_family (filter (\<lambda>f.
                    (ef_key f = ''vendor'' \<and> ef_value f = vendor \<or> ef_key f = ''class'' \<and> ef_value f = dclass)
                    \<and> f32_le threshold (ef_confidence f)) active))
              in if ov = None \<and> is_none_or av (\<lambda>x. f32_lt (ef_confidence x) threshold)
                    \<or> oc = None \<and> is_none_or ac (\<lambda>x. f32_lt (ef_confidence x) threshold)
                 then None
                 else if ov = None \<and> contradicted cfg active ''vendor'' vendor
                         \<or> oc = None \<and> contradicted cfg active ''class'' dclass
                 then None
                 else if (ov = None \<or> oc = None) \<and> length fam < 2 then None
                 else Some \<lparr> dn_vendor = vendor, dn_device_class = dclass,
                             dn_model = or_else (own ''model'') (map_option ef_value (pick active ''model'')),
                             dn_firmware = or_else (own ''firmware'')
                               (map_option ef_value (pick active ''firmware'')),
                             dn_confidence = (if ov \<noteq> None \<and> oc \<noteq> None then F32_ONE
                               else f32_min (case av of None \<Rightarrow> F32_ONE | Some x \<Rightarrow> ef_confidence x)
                                      (case ac of None \<Rightarrow> F32_ONE | Some x \<Rightarrow> ef_confidence x)),
                             dn_families = fam \<rparr>)
         | _ \<Rightarrow> None)"

definition identification_at ::
  "(device_id \<Rightarrow> string) \<Rightarrow> identity_engine \<Rightarrow> device_id \<Rightarrow> instant
     \<Rightarrow> identity_error + device_identification option" where
  "identification_at to_string s i now =
     (case component to_string s i of
        Inl err \<Rightarrow> Inl err
      | Inr c \<Rightarrow>
          (case refs s c of
             Inl err \<Rightarrow> Inl err
           | Inr rs \<Rightarrow> Inr (identify (ie_cfg s) (owner_value s c) (filter (participates now) rs))))"

section \<open>Eviction\<close>

definition evictable ::
  "identity_engine \<Rightarrow> instant \<Rightarrow> instant \<Rightarrow> device_id list \<Rightarrow> evidence_fact list list \<Rightarrow> bool" where
  "evictable s now cutoff c fss \<longleftrightarrow>
     list_all (list_all (\<lambda>f. \<not> live f now \<and> ef_observed_at f < cutoff)) fss
     \<and> \<not> list_ex (\<lambda>r. ow_device_id r \<in> set c) (ie_owners s)
     \<and> \<not> list_ex (\<lambda>p. mp_status p = ProposalPending \<and> (mp_left p \<in> set c \<or> mp_right p \<in> set c))
           (ie_proposals s)"

fun collect_stale ::
  "identity_engine \<Rightarrow> instant \<Rightarrow> instant \<Rightarrow> device_id list list \<Rightarrow> identity_error + device_id list" where
  "collect_stale s now cutoff [] = Inr []"
| "collect_stale s now cutoff (c # cs) =
     (case index_facts s c of
        Inl err \<Rightarrow> Inl err
      | Inr fss \<Rightarrow>
          map_sum id (\<lambda>rest. if evictable s now cutoff c fss then c @ rest else rest)
            (collect_stale s now cutoff cs))"

definition evict_devices :: "identity_engine \<Rightarrow> device_id list \<Rightarrow> identity_engine" where
  "evict_devices s evicted =
     (let gone = set evicted;
          dropped = mp_id ` set (filter (\<lambda>p. mp_left p \<in> gone \<or> mp_right p \<in> gone) (ie_proposals s))
      in s \<lparr> ie_facts := filter (\<lambda>(d, _). d \<notin> gone) (ie_facts s),
             ie_edges := filter (\<lambda>(_, e). ed_a e \<notin> gone \<and> ed_b e \<notin> gone) (ie_edges s),
             ie_proposals := filter (\<lambda>p. mp_id p \<notin> dropped) (ie_proposals s),
             ie_audit := filter (\<lambda>a. au_proposal_id a \<notin> dropped) (ie_audit s) \<rparr>)"

definition evict_stale_at ::
  "calendar \<Rightarrow> (device_id \<Rightarrow> string) \<Rightarrow> identity_engine \<Rightarrow> instant \<Rightarrow> duration
     \<Rightarrow> (identity_error + device_id list) \<times> identity_engine" where
  "evict_stale_at cal to_string s now retention =
     (case cal now (- retention) of
        None \<Rightarrow> (Inl (IdentityInvalidInput ''retention''), s)
      | Some cutoff \<Rightarrow>
          (case components to_string s of
             Inl err \<Rightarrow> (Inl err, s)
           | Inr comps \<Rightarrow>
               (case collect_stale s now cutoff comps of
                  Inl err \<Rightarrow> (Inl err, s)
                | Inr evicted \<Rightarrow>
                    if evicted = [] then (Inr [], s)
                    else (Inr (sort_key to_string evicted), evict_devices s evicted))))"

end
