(* ===== verification/Identity_Graph.thy ===== *)
theory Identity_Graph
  imports Identity
begin

text \<open>
  The graph of accepted merges. \<open>component\<close> is a breadth-first search over the active edges; here it
  is shown to compute exactly the devices connected to its start, whatever the iteration order
  of the edge map, and \<open>resolve\<close> to name each class of connected devices by one member.
\<close>

definition linked :: "merge_edge list \<Rightarrow> (device_id \<times> device_id) set" where
  "linked es = {(x, y). \<exists>e \<in> set es. ed_active e \<and> (ed_a e = x \<and> ed_b e = y \<or> ed_b e = x \<and> ed_a e = y)}"

definition merged :: "identity_engine \<Rightarrow> (device_id \<times> device_id) set" where
  "merged s = (linked (map snd (ie_edges s)))\<^sup>*"

lemma edge_target_iff:
  "edge_target x e = Some y \<longleftrightarrow> ed_active e \<and> (ed_a e = x \<and> ed_b e = y \<or> ed_b e = x \<and> ed_a e = y)"
  by (auto simp: edge_target_def)

lemma linked_Cons: "(x, y) \<in> linked (e # es) \<longleftrightarrow> edge_target x e = Some y \<or> (x, y) \<in> linked es"
  unfolding edge_target_iff by (auto simp: linked_def)

lemma sym_linked: "sym (linked es)"
  by (auto simp: sym_def linked_def)

lemma sym_merged: "sym (merged s)"
  unfolding merged_def by (rule sym_rtrancl [OF sym_linked])

lemma merged_refl [simp]: "(x, x) \<in> merged s"
  by (simp add: merged_def)

lemma merged_sym: "(x, y) \<in> merged s \<Longrightarrow> (y, x) \<in> merged s"
  using sym_merged by (meson symD)

lemma merged_trans: "(x, y) \<in> merged s \<Longrightarrow> (y, z) \<in> merged s \<Longrightarrow> (x, z) \<in> merged s"
  unfolding merged_def by (rule rtrancl_trans)

section \<open>The search\<close>

lemma visit_edges_seen:
  "visit_edges x es (seen, fresh) = (seen', fresh') \<Longrightarrow> set seen' = set seen \<union> linked es `` {x}"
proof (induction x es "(seen, fresh)" arbitrary: seen fresh rule: visit_edges.induct)
  case (1 x seen fresh)
  then show ?case by (simp add: linked_def)
next
  case (2 x e es seen fresh)
  have split: "linked (e # es) `` {x} = set_option (edge_target x e) \<union> linked es `` {x}"
    by (rule set_eqI) (simp add: linked_Cons elem_set)
  show ?case
  proof (cases "edge_target x e")
    case None
    with 2 show ?thesis by (simp add: split)
  next
    case (Some y)
    with 2 show ?thesis by (cases "y \<in> set seen") (auto simp: split)
  qed
qed

lemma component_loop_reaches:
  assumes "set q \<subseteq> set seen" and "\<forall>x \<in> set seen - set q. linked es `` {x} \<subseteq> set seen"
  shows "set (component_loop es seen q) = (linked es)\<^sup>* `` set seen"
  using assms
proof (induction es seen q rule: component_loop.induct)
  case (1 es seen)
  then have "(linked es)\<^sup>* `` set seen = set seen"
    by (intro Image_closed_trancl) auto
  then show ?case by simp
next
  case (2 es seen x q)
  obtain seen' fresh where v: "visit_edges x es (seen, []) = (seen', fresh)" by fastforce
  note seen' = visit_edges_seen [OF v]
  obtain ys where ys: "seen' = seen @ ys" "fresh = ys" using visit_edges_new [OF v] by auto
  have q: "set (q @ fresh) \<subseteq> set seen'" using 2(2) ys by auto
  have closed: "\<forall>z \<in> set seen' - set (q @ fresh). linked es `` {z} \<subseteq> set seen'"
    using 2(3) seen' ys by auto
  have "set seen \<subseteq> set seen'" and grown: "set seen' \<subseteq> (linked es)\<^sup>* `` set seen"
    using seen' 2(2) by auto
  moreover have "(linked es)\<^sup>* `` set seen' \<subseteq> (linked es)\<^sup>* `` set seen"
    using Image_mono [OF order_refl grown, of "(linked es)\<^sup>*"]
    by (simp add: relcomp_Image [symmetric])
  ultimately have "(linked es)\<^sup>* `` set seen' = (linked es)\<^sup>* `` set seen"
    by (simp add: Image_mono equalityI)
  with 2(1) [OF v [symmetric] q closed] show ?case by (simp add: v)
qed

lemma component_loop_distinct: "distinct seen \<Longrightarrow> distinct (component_loop es seen q)"
proof (induction es seen q rule: component_loop.induct)
  case (2 es seen x q)
  obtain seen' fresh where v: "visit_edges x es (seen, []) = (seen', fresh)" by fastforce
  then have "distinct seen'" using visit_edges_new [OF v] 2(2) by (auto simp: Int_commute)
  with 2(1) [OF v [symmetric]] show ?case by (simp add: v)
qed simp

lemma component_correct:
  assumes "component to_string s i = Inr c"
  shows "set c = merged s `` {i}" and "distinct c" and "sorted (map to_string c)" and "i \<in> set c"
    and "hm_contains (ie_facts s) i"
proof -
  have c: "c = sort_key to_string (component_loop (map snd (ie_edges s)) [i] [i])"
    and known: "hm_contains (ie_facts s) i"
    using assms by (auto simp: component_def split: if_splits)
  have "set (component_loop (map snd (ie_edges s)) [i] [i]) = merged s `` {i}"
    using component_loop_reaches [of "[i]" "[i]" "map snd (ie_edges s)"] by (simp add: merged_def del: component_loop.simps)
  then show "set c = merged s `` {i}" "i \<in> set c" by (simp_all add: c del: component_loop.simps)
  show "distinct c" "sorted (map to_string c)" "hm_contains (ie_facts s) i"
    using known component_loop_distinct [of "[i]"] by (simp_all add: c del: component_loop.simps)
qed

text \<open>The work limit is the only reason why a known device has no component.\<close>

definition within_work :: "identity_engine \<Rightarrow> bool" where
  "within_work s \<longleftrightarrow> usize_saturating (length (ie_facts s) * max (length (ie_edges s)) 1)
     \<le> ic_max_candidate_work (ie_cfg s)"

lemma component_total:
  "hm_contains (ie_facts s) i \<Longrightarrow> within_work s \<Longrightarrow> \<exists>c. component to_string s i = Inr c"
  by (simp add: component_def within_work_def)

lemma component_within_work: "component to_string s i = Inr c \<Longrightarrow> within_work s"
  by (auto simp: component_def within_work_def split: if_splits)

section \<open>Representatives\<close>

lemma foldl_min:
  "foldl (\<lambda>a b. if (f b :: 'k :: linorder) < f a then b else a) x xs \<in> insert x (set xs)
     \<and> (\<forall>y \<in> insert x (set xs). f (foldl (\<lambda>a b. if f b < f a then b else a) x xs) \<le> f y)"
proof (induction xs arbitrary: x)
  case (Cons y ys)
  show ?case
    using Cons.IH [of "if f y < f x then y else x"] by (auto split: if_splits)
qed simp

lemma canon_least:
  assumes "c \<noteq> []"
  shows "canon to_string c \<in> set c" and "x \<in> set c \<Longrightarrow> to_string (canon to_string c) \<le> to_string x"
  using foldl_min [of to_string "hd c" "tl c"] assms
  by (cases c; auto simp: canon_def)+

lemma canon_cong:
  assumes "inj to_string" and "set c = set d" and "c \<noteq> []"
  shows "canon to_string c = canon to_string d"
proof -
  have "d \<noteq> []" using assms by auto
  with canon_least [OF assms(3)] canon_least [OF this] assms(2)
  have "to_string (canon to_string c) = to_string (canon to_string d)" by (metis antisym)
  then show ?thesis using assms(1) by (simp add: inj_eq)
qed

lemma resolve_representative:
  assumes "resolve to_string s i = Inr r"
  obtains c where "component to_string s i = Inr c" "r = canon to_string c" "(i, r) \<in> merged s"
proof -
  obtain c where c: "component to_string s i = Inr c" "r = canon to_string c"
    using assms by (cases "component to_string s i") (auto simp: resolve_def)
  note cc = component_correct [OF c(1)]
  from cc(4) have "c \<noteq> []" by auto
  then have "r \<in> set c" using canon_least(1) c(2) by auto
  with cc(1) c show ?thesis by (intro that) auto
qed

lemma component_same_class:
  assumes "component to_string s i = Inr c" and "component to_string s j = Inr d" and "(i, j) \<in> merged s"
  shows "set c = set d"
  using component_correct(1) [OF assms(1)] component_correct(1) [OF assms(2)] assms(3)
  by (auto intro: merged_trans merged_sym)

lemma resolve_eq_iff:
  assumes "inj to_string" and "resolve to_string s i = Inr r" and "resolve to_string s j = Inr q"
  shows "r = q \<longleftrightarrow> (i, j) \<in> merged s"
proof
  obtain c where c: "component to_string s i = Inr c" "r = canon to_string c" "(i, r) \<in> merged s"
    using assms(2) by (rule resolve_representative)
  obtain d where d: "component to_string s j = Inr d" "q = canon to_string d" "(j, q) \<in> merged s"
    using assms(3) by (rule resolve_representative)
  show "r = q \<Longrightarrow> (i, j) \<in> merged s" using c(3) d(3) by (auto intro: merged_trans merged_sym)
  assume "(i, j) \<in> merged s"
  then have "set c = set d" by (rule component_same_class [OF c(1) d(1)])
  moreover have "c \<noteq> []" using component_correct(4) [OF c(1)] by auto
  ultimately show "r = q" using canon_cong [OF assms(1)] c(2) d(2) by blast
qed

end
