(* ===== verification/Identity_Facts.thy ===== *)
theory Identity_Facts
  imports Identity
begin

text \<open>
  Facts as the identity engine stores them: normalisation of hardware addresses, what \<open>prepare\<close>
  guarantees, and the matching of old against new facts.
\<close>

section \<open>Hardware addresses\<close>

lemma hex_value_char: "n < 16 \<Longrightarrow> hex_value (hex_char n) = Some n"
  by (auto simp: hex_value_def hex_char_def Let_def of_char_of)

lemma hex_value_bound: "hex_value c = Some n \<Longrightarrow> n < 16"
  by (auto simp: hex_value_def Let_def split: if_splits)

lemma separators_not_hex:
  "hex_value CHR '':'' = None" "hex_value CHR ''-'' = None" "hex_value CHR ''.'' = None"
  by (simp_all add: hex_value_def)

lemma split_on_no_sep: "c \<notin> set x \<Longrightarrow> split_on c x = [x]"
  by (induction x) auto

lemma split_on_nonempty [simp]: "split_on c x \<noteq> []"
  by (induction x) (auto split: list.split)

lemma split_on_append: "c \<notin> set x \<Longrightarrow> split_on c (x @ c # y) = x # split_on c y"
  by (induction x) (auto split: list.split)

lemma split_on_join:
  "parts \<noteq> [] \<Longrightarrow> \<forall>x \<in> set parts. c \<notin> set x \<Longrightarrow> split_on c (join [c] parts) = parts"
  by (induction "[c]" parts rule: join.induct) (simp_all add: split_on_no_sep split_on_append)

lemma filter_join: "\<not> P c \<Longrightarrow> filter P (join [c] parts) = concat (map (filter P) parts)"
  by (induction "[c]" parts rule: join.induct) simp_all

lemma sep_in_join: "2 \<le> length parts \<Longrightarrow> c \<in> set (join [c] parts)"
  by (induction "[c]" parts rule: join.induct) simp_all

lemma set_join: "set (join sep parts) \<subseteq> set sep \<union> \<Union> (set ` set parts)"
  by (induction sep parts rule: join.induct) auto

lemma length_join_same:
  "\<forall>x \<in> set parts. length x = n \<Longrightarrow> parts \<noteq> [] \<Longrightarrow>
     length (join [c] parts) = length parts * n + (length parts - 1)"
  by (induction "[c]" parts rule: join.induct) simp_all

lemma hex_of_byte_digits: "b < 256 \<Longrightarrow> \<forall>c \<in> set (hex_of_byte b). hex_value c \<noteq> None"
  by (simp add: hex_of_byte_def hex_value_char less_mult_imp_div_less)

lemma hex_digit_not_sep:
  "hex_value c \<noteq> None \<Longrightarrow> c \<noteq> CHR '':'' \<and> c \<noteq> CHR ''-'' \<and> c \<noteq> CHR ''.''"
  using separators_not_hex by auto

lemma hex_bytes_concat:
  "\<forall>b \<in> set bs. b < 256 \<Longrightarrow> hex_bytes (concat (map hex_of_byte bs)) = Some bs"
  by (induction bs) (simp_all add: hex_of_byte_def hex_value_char less_mult_imp_div_less)

lemma hex_bytes_bound: "hex_bytes h = Some bs \<Longrightarrow> (\<forall>b \<in> set bs. b < 256) \<and> length h = 2 * length bs"
proof (induction h arbitrary: bs rule: hex_bytes.induct)
  case (3 c d s)
  then obtain x y bs' where "hex_value c = Some x" "hex_value d = Some y" "hex_bytes s = Some bs'"
    "bs = (16 * x + y) # bs'"
    by (auto split: option.splits)
  with 3 hex_value_bound [of c x] hex_value_bound [of d y] show ?case by fastforce
qed auto

text \<open>The three notations of an address, with lower-case digits.\<close>

definition mac_text :: "char \<Rightarrow> nat list \<Rightarrow> string" where
  "mac_text sep bs = join [sep] (map hex_of_byte bs)"

definition mac_dotted :: "nat list \<Rightarrow> string" where
  "mac_dotted bs = join ''.'' [concat (map hex_of_byte (take 2 bs)), concat (map hex_of_byte (take 2 (drop 2 bs))),
     concat (map hex_of_byte (drop 4 bs))]"

definition mac_bytes_ok :: "nat list \<Rightarrow> bool" where
  "mac_bytes_ok bs \<longleftrightarrow> length bs = 6 \<and> (\<forall>b \<in> set bs. b < 256)"

definition unicast :: "nat list \<Rightarrow> bool" where
  "unicast bs \<longleftrightarrow> even (hd bs) \<and> (\<exists>b \<in> set bs. b \<noteq> 0)"

lemma mac_from_digits:
  assumes "mac_shape v" and "filter (\<lambda>x. x \<notin> {CHR '':'', CHR ''-'', CHR ''.''}) v = concat (map hex_of_byte bs)"
    and "mac_bytes_ok bs"
  shows "mac v = (if unicast bs then Inr (mac_text CHR '':'' bs) else Inl (IdentityInvalidInput ''multicast mac''))"
proof -
  have bytes: "\<forall>b \<in> set bs. b < 256" "length bs = 6" using assms(3) by (auto simp: mac_bytes_ok_def)
  have "length (concat (map hex_of_byte bs)) = 12"
    using bytes(2) by (simp add: length_concat comp_def hex_of_byte_def sum_list_triv)
  moreover have "\<not> list_ex (\<lambda>x. hex_value x = None) (concat (map hex_of_byte bs))"
    using bytes(1) hex_of_byte_digits by (auto simp: list_ex_iff)
  ultimately show ?thesis
    using assms(1) unfolding mac_def assms(2)
    by (auto simp: hex_bytes_concat [OF bytes(1)] unicast_def mac_text_def list_all_iff Let_def)
qed

lemma hex_of_byte_clean:
  assumes "b < 256"
  shows "filter (\<lambda>x. x \<notin> {CHR '':'', CHR ''-'', CHR ''.''}) (hex_of_byte b) = hex_of_byte b"
    and "CHR '':'' \<notin> set (hex_of_byte b)" and "CHR ''-'' \<notin> set (hex_of_byte b)"
    and "CHR ''.'' \<notin> set (hex_of_byte b)"
proof -
  have clean: "\<forall>c \<in> set (hex_of_byte b). c \<noteq> CHR '':'' \<and> c \<noteq> CHR ''-'' \<and> c \<noteq> CHR ''.''"
    using hex_of_byte_digits [OF assms] hex_digit_not_sep by blast
  then show "CHR '':'' \<notin> set (hex_of_byte b)" "CHR ''-'' \<notin> set (hex_of_byte b)"
    "CHR ''.'' \<notin> set (hex_of_byte b)" by blast+
  show "filter (\<lambda>x. x \<notin> {CHR '':'', CHR ''-'', CHR ''.''}) (hex_of_byte b) = hex_of_byte b"
    by (rule filter_True) (use clean in blast)
qed

lemma mac_of_text:
  assumes "mac_bytes_ok bs" and sep: "sep \<in> {CHR '':'', CHR ''-''}"
  shows "mac (mac_text sep bs) =
    (if unicast bs then Inr (mac_text CHR '':'' bs) else Inl (IdentityInvalidInput ''multicast mac''))"
proof (rule mac_from_digits [OF _ _ assms(1)])
  have bytes: "\<forall>b \<in> set bs. b < 256" "length bs = 6" using assms(1) by (auto simp: mac_bytes_ok_def)
  have parts: "\<forall>x \<in> set (map hex_of_byte bs). sep \<notin> set x"
    using bytes(1) hex_of_byte_clean sep by auto
  have ne: "map hex_of_byte bs \<noteq> []" using bytes(2) by auto
  have "split_on sep (mac_text sep bs) = map hex_of_byte bs"
    unfolding mac_text_def by (rule split_on_join [OF ne parts])
  moreover have "sep \<in> set (mac_text sep bs)"
    unfolding mac_text_def by (rule sep_in_join) (simp add: bytes(2))
  moreover have "sep = CHR ''-'' \<Longrightarrow> CHR '':'' \<notin> set (mac_text sep bs)"
    using set_join [of "[sep]" "map hex_of_byte bs"] bytes(1) hex_of_byte_clean(2)
    by (auto simp: mac_text_def)
  ultimately show "mac_shape (mac_text sep bs)"
    using bytes(2) sep by (auto simp: mac_shape_def list_all_iff hex_of_byte_def)
  have "filter (\<lambda>x. x \<notin> {CHR '':'', CHR ''-'', CHR ''.''}) (mac_text sep bs)
      = concat (map (filter (\<lambda>x. x \<notin> {CHR '':'', CHR ''-'', CHR ''.''})) (map hex_of_byte bs))"
    unfolding mac_text_def by (rule filter_join) (use sep in auto)
  also have "\<dots> = concat (map hex_of_byte bs)"
    using bytes(1) hex_of_byte_clean(1) by (intro arg_cong [where f = concat]) simp
  finally show "filter (\<lambda>x. x \<notin> {CHR '':'', CHR ''-'', CHR ''.''}) (mac_text sep bs)
      = concat (map hex_of_byte bs)" .
qed

lemma mac_dotted_text:
  assumes "mac_bytes_ok bs"
  shows "mac (mac_dotted bs) =
    (if unicast bs then Inr (mac_text CHR '':'' bs) else Inl (IdentityInvalidInput ''multicast mac''))"
proof (rule mac_from_digits [OF _ _ assms])
  let ?parts = "[concat (map hex_of_byte (take 2 bs)), concat (map hex_of_byte (take 2 (drop 2 bs))),
     concat (map hex_of_byte (drop 4 bs))]"
  have bytes: "\<forall>b \<in> set bs. b < 256" "length bs = 6" using assms by (auto simp: mac_bytes_ok_def)
  have six: "concat ?parts = concat (map hex_of_byte bs)"
  proof -
    have "bs = take 2 bs @ take 2 (drop 2 bs) @ drop 4 bs"
      by (metis append_take_drop_id drop_drop numeral_Bit0)
    then show ?thesis by (metis concat.simps concat_append map_append self_append_conv)
  qed
  have clean: "CHR '':'' \<notin> set x \<and> CHR ''-'' \<notin> set x \<and> CHR ''.'' \<notin> set x" if "x \<in> set ?parts" for x
    using that bytes(1) hex_of_byte_clean(2-4)
    by (auto dest!: in_set_takeD in_set_dropD)
  have lens: "length x = 4" if "x \<in> set ?parts" for x
    using that bytes(2) by (auto simp: length_concat comp_def hex_of_byte_def sum_list_triv)
  have "split_on CHR ''.'' (mac_dotted bs) = ?parts"
    unfolding mac_dotted_def by (rule split_on_join) (use clean in auto)
  moreover have "CHR ''.'' \<in> set (mac_dotted bs)"
    unfolding mac_dotted_def by (rule sep_in_join) simp
  moreover have "CHR '':'' \<notin> set (mac_dotted bs) \<and> CHR ''-'' \<notin> set (mac_dotted bs)"
    using set_join [of "''.''" ?parts] clean unfolding mac_dotted_def by fastforce
  ultimately show "mac_shape (mac_dotted bs)"
    using lens by (auto simp: mac_shape_def list_all_iff)
  have "filter (\<lambda>x. x \<notin> {CHR '':'', CHR ''-'', CHR ''.''}) (mac_dotted bs)
      = concat (map (filter (\<lambda>x. x \<notin> {CHR '':'', CHR ''-'', CHR ''.''})) ?parts)"
    unfolding mac_dotted_def by (rule filter_join) simp
  also have "\<dots> = concat ?parts"
    using clean by (intro arg_cong [where f = concat] map_idI filter_True) blast
  finally show "filter (\<lambda>x. x \<notin> {CHR '':'', CHR ''-'', CHR ''.''}) (mac_dotted bs)
      = concat (map hex_of_byte bs)" using six by simp
qed

lemma mac_canonical:
  assumes "mac v = Inr m"
  shows "\<exists>bs. mac_bytes_ok bs \<and> unicast bs \<and> m = mac_text CHR '':'' bs"
proof -
  let ?h = "filter (\<lambda>x. x \<notin> {CHR '':'', CHR ''-'', CHR ''.''}) v"
  obtain bs where bs: "hex_bytes ?h = Some bs" "length ?h = 12" "even (hd bs)"
    "\<not> list_all (\<lambda>x. x = 0) bs" "m = mac_text CHR '':'' bs"
    using assms by (auto simp: mac_def mac_text_def Let_def split: if_splits option.splits)
  then have "mac_bytes_ok bs" using hex_bytes_bound [OF bs(1)] by (simp add: mac_bytes_ok_def)
  with bs show ?thesis by (auto simp: unicast_def list_all_iff)
qed

lemma mac_idempotent: "mac v = Inr m \<Longrightarrow> mac m = Inr m"
  using mac_canonical mac_of_text [of _ "CHR '':''"] by fastforce

lemma length_mac: "mac v = Inr m \<Longrightarrow> length m = 17"
proof -
  assume "mac v = Inr m"
  then obtain bs where bs: "length bs = 6" "m = join '':'' (map hex_of_byte bs)"
    using mac_canonical by (auto simp: mac_text_def mac_bytes_ok_def)
  have "length (join '':'' (map hex_of_byte bs))
      = length (map hex_of_byte bs) * 2 + (length (map hex_of_byte bs) - 1)"
    by (rule length_join_same) (use bs(1) in \<open>auto simp: hex_of_byte_def\<close>)
  with bs show ?thesis by simp
qed

section \<open>Stored facts\<close>

text \<open>What every stored fact satisfies; normalising an address can lengthen it to 17 bytes.\<close>

definition stored_ok :: "identity_config \<Rightarrow> evidence_fact \<Rightarrow> bool" where
  "stored_ok cfg f \<longleftrightarrow>
     f32_unit_interval (ef_confidence f) \<and> \<not> ef_owner_confirmed f \<and> ef_family f \<noteq> OwnerFamily
     \<and> ef_key f \<noteq> [] \<and> length (ef_key f) \<le> ic_max_key_len cfg
     \<and> ef_value f \<noteq> [] \<and> length (ef_value f) \<le> max (ic_max_value_len cfg) 17
     \<and> ef_source f \<noteq> [] \<and> length (ef_source f) \<le> ic_max_source_len cfg
     \<and> allowed (ef_key f) (ef_family f)
     \<and> (ef_key f = ''mac'' \<longrightarrow> mac (ef_value f) = Inr (ef_value f))
     \<and> (ef_family f = RouterHint \<longrightarrow> f32_min (ef_confidence f) (ic_router_hint_cap cfg) = ef_confidence f)"

lemma prepare_fact_stored:
  assumes "prepare_fact cfg f = Inr f'" and "f32_unit_interval (ic_router_hint_cap cfg)"
  shows "stored_ok cfg f'" and "ef_family f' = ef_family f" and "ef_key f' = ef_key f"
    and "ef_expires_at f' = ef_expires_at f" and "ef_observed_at f' = ef_observed_at f"
proof -
  obtain v where v: "(if ef_key f = ''mac'' then mac (ef_value f) else Inr (ef_value f)) = Inr v"
    and f': "f' = f \<lparr> ef_value := v, ef_confidence := (if ef_family f = RouterHint
       then f32_min (ef_confidence f) (ic_router_hint_cap cfg) else ef_confidence f) \<rparr>"
    and checks: "f32_unit_interval (ef_confidence f)" "\<not> ef_owner_confirmed f" "ef_family f \<noteq> OwnerFamily"
      "ef_key f \<noteq> []" "length (ef_key f) \<le> ic_max_key_len cfg"
      "ef_value f \<noteq> []" "length (ef_value f) \<le> ic_max_value_len cfg"
      "ef_source f \<noteq> []" "length (ef_source f) \<le> ic_max_source_len cfg"
      "allowed (ef_key f) (ef_family f)"
    using assms(1) by (auto simp: prepare_fact_def not_less split: if_splits sum.splits)
  have "v \<noteq> []" "length v \<le> max (ic_max_value_len cfg) 17" "ef_key f = ''mac'' \<Longrightarrow> mac v = Inr v"
    using v checks(6,7) length_mac [of "ef_value f" v] mac_idempotent [of "ef_value f" v]
    by (auto split: if_splits)
  moreover have "f32_unit_interval (ef_confidence f')"
    using checks(1) assms(2) by (simp add: f' f32_min_unit)
  ultimately show "stored_ok cfg f'"
    using checks by (simp add: stored_ok_def f' f32_min_idem)
  show "ef_family f' = ef_family f" "ef_key f' = ef_key f" "ef_expires_at f' = ef_expires_at f"
    "ef_observed_at f' = ef_observed_at f" by (simp_all add: f')
qed

lemma prepare_stored:
  "prepare cfg fs = Inr fs' \<Longrightarrow> f32_unit_interval (ic_router_hint_cap cfg) \<Longrightarrow>
     (\<forall>f \<in> set fs'. stored_ok cfg f) \<and> length fs' = length fs"
  by (induction fs arbitrary: fs') (auto dest: prepare_fact_stored(1) split: sum.splits)

text \<open>Preparing a stored fact again changes nothing, as long as its value is within the bound.\<close>

lemma prepare_fact_again:
  "stored_ok cfg f \<Longrightarrow> length (ef_value f) \<le> ic_max_value_len cfg \<Longrightarrow> prepare_fact cfg f = Inr f"
  by (auto simp: stored_ok_def prepare_fact_def)

lemma prepare_again:
  "\<forall>f \<in> set fs. stored_ok cfg f \<and> length (ef_value f) \<le> ic_max_value_len cfg \<Longrightarrow> prepare cfg fs = Inr fs"
  by (induction fs) (simp_all add: prepare_fact_again)

lemma valid_config_cap: "valid_config cfg = Inr () \<Longrightarrow> f32_unit_interval (ic_router_hint_cap cfg)"
  by (auto simp: valid_config_def split: if_splits)

section \<open>Matching\<close>

text \<open>Two facts with the same identity anchor, the strong agreements and the contradictions.\<close>

definition same_anchor :: "evidence_fact \<Rightarrow> evidence_fact \<Rightarrow> bool" where
  "same_anchor a b \<longleftrightarrow> anchor (ef_key a) = Some (ef_family a) \<and> ef_key a = ef_key b \<and> ef_family a = ef_family b"

definition strong_match :: "identity_config \<Rightarrow> evidence_fact \<times> evidence_fact \<Rightarrow> bool" where
  "strong_match c p \<longleftrightarrow> (case p of (a, b) \<Rightarrow> same_anchor a b \<and> ef_value a = ef_value b
     \<and> f32_le (ic_match_threshold c) (f32_min (ef_confidence a) (ef_confidence b)))"

definition contradicts :: "identity_config \<Rightarrow> evidence_fact \<times> evidence_fact \<Rightarrow> bool" where
  "contradicts c p \<longleftrightarrow> (case p of (a, b) \<Rightarrow> same_anchor a b \<and> ef_value a \<noteq> ef_value b
     \<and> \<not> (ef_key a = ''mac'' \<and> local_mac (ef_value a) \<and> local_mac (ef_value b))
     \<and> f32_le (ic_contradiction_threshold c) (ef_confidence a)
     \<and> f32_le (ic_contradiction_threshold c) (ef_confidence b))"

definition agrees :: "evidence_fact \<times> evidence_fact \<Rightarrow> bool" where
  "agrees p \<longleftrightarrow> (case p of (a, b) \<Rightarrow> same_anchor a b \<and> ef_value a = ef_value b)"

lemma match_step_cases:
  "match_step c acc (a, b) =
     (if same_anchor a b \<and> ef_value a = ef_value b
      then acc \<lparr> mc_score := f32_max (mc_score acc) (f32_min (ef_confidence a) (ef_confidence b)),
                 mc_fam := (if strong_match c (a, b) then mc_fam acc @ [ef_family a] else mc_fam acc),
                 mc_why := mc_why acc @ [ef_key a @ '' matched''] \<rparr>
      else if contradicts c (a, b) then acc \<lparr> mc_conflict := True \<rparr> else acc)"
  by (cases "same_anchor a b"; cases "ef_value a = ef_value b")
    (simp_all only: match_step_def same_anchor_def [symmetric] strong_match_def contradicts_def Let_def
      prod.case if_True if_False simp_thms)

lemma match_step_fields:
  "mc_fam (match_step c acc p) = mc_fam acc @ (if strong_match c p then [ef_family (fst p)] else [])"
  "mc_why (match_step c acc p) = mc_why acc @ (if agrees p then [ef_key (fst p) @ '' matched''] else [])"
  "mc_conflict (match_step c acc p) \<longleftrightarrow> mc_conflict acc \<or> contradicts c p"
proof -
  obtain a b where p: "p = (a, b)" by fastforce
  have "strong_match c (a, b) \<Longrightarrow> same_anchor a b \<and> ef_value a = ef_value b"
    "contradicts c (a, b) \<Longrightarrow> \<not> (same_anchor a b \<and> ef_value a = ef_value b)"
    "agrees (a, b) \<longleftrightarrow> same_anchor a b \<and> ef_value a = ef_value b"
    by (simp_all only: strong_match_def contradicts_def agrees_def prod.case) simp_all
  then show "mc_fam (match_step c acc p) = mc_fam acc @ (if strong_match c p then [ef_family (fst p)] else [])"
    "mc_why (match_step c acc p) = mc_why acc @ (if agrees p then [ef_key (fst p) @ '' matched''] else [])"
    "mc_conflict (match_step c acc p) \<longleftrightarrow> mc_conflict acc \<or> contradicts c p"
    by (auto simp: p match_step_cases)
qed

lemma foldl_match_step:
  "mc_fam (foldl (match_step c) acc ps) = mc_fam acc @ map (\<lambda>p. ef_family (fst p)) (filter (strong_match c) ps)
   \<and> mc_why (foldl (match_step c) acc ps) = mc_why acc @ map (\<lambda>p. ef_key (fst p) @ '' matched'') (filter agrees ps)
   \<and> (mc_conflict (foldl (match_step c) acc ps) \<longleftrightarrow> mc_conflict acc \<or> (\<exists>p \<in> set ps. contradicts c p))"
  by (induction ps arbitrary: acc) (simp_all add: match_step_fields)

lemma set_sortfam [simp]: "set (sortfam v) = set v"
  by (simp add: sortfam_def)

lemma family_rank_inj: "family_rank f = family_rank g \<longleftrightarrow> f = g"
  by (cases f; cases g) simp_all

lemma remdups_adj_sort_distinct:
  "(\<And>x y. k x = k y \<longleftrightarrow> x = y) \<Longrightarrow> sorted (map k xs) \<Longrightarrow> distinct (remdups_adj xs)"
proof (induction xs rule: remdups_adj.induct)
  case (3 x y xs)
  show ?case
  proof (cases "x = y")
    case False
    with 3 have "k x < k y" by fastforce
    then have "x \<notin> set (y # xs)" using 3(4) by fastforce
    then show ?thesis using 3 False by simp
  qed (use 3 in simp)
qed simp_all

lemma distinct_sortfam: "distinct (sortfam v)"
  unfolding sortfam_def by (rule remdups_adj_sort_distinct [where k = family_rank]) (simp_all add: family_rank_inj)

lemma match_pairs_set:
  "set (match_pairs now old incoming) =
     {(a, b). a \<in> set old \<and> participates now a \<and> b \<in> set incoming \<and> participates now b}"
  by (auto simp: match_pairs_def)

lemma matching_facts:
  shows "ma_any (matching old incoming now c) \<longleftrightarrow> (\<exists>p \<in> set (match_pairs now old incoming). agrees p)"
    and "set (ma_families (matching old incoming now c))
      = (\<lambda>p. ef_family (fst p)) ` {p \<in> set (match_pairs now old incoming). strong_match c p}"
    and "ma_auto (matching old incoming now c) \<longleftrightarrow>
      (\<forall>p \<in> set (match_pairs now old incoming). \<not> contradicts c p)
      \<and> 2 \<le> card (set (ma_families (matching old incoming now c)))"
proof -
  note f = foldl_match_step [of c "\<lparr> mc_fam = [], mc_why = [], mc_score = F32_ZERO, mc_conflict = False \<rparr>"
      "match_pairs now old incoming"]
  have sorted_empty: "sort ws = [] \<longleftrightarrow> ws = []" for ws :: "string list" by (metis set_sort set_empty)
  show "ma_any (matching old incoming now c) \<longleftrightarrow> (\<exists>p \<in> set (match_pairs now old incoming). agrees p)"
    using f sorted_empty by (simp add: matching_def Let_def filter_empty_conv)
  show "set (ma_families (matching old incoming now c))
      = (\<lambda>p. ef_family (fst p)) ` {p \<in> set (match_pairs now old incoming). strong_match c p}"
    using f by (simp add: matching_def Let_def image_Collect)
  show "ma_auto (matching old incoming now c) \<longleftrightarrow>
      (\<forall>p \<in> set (match_pairs now old incoming). \<not> contradicts c p)
      \<and> 2 \<le> card (set (ma_families (matching old incoming now c)))"
    using f by (simp add: matching_def Let_def distinct_card [OF distinct_sortfam, symmetric])
qed

end
