(* ===== verification/Identity_Engine.thy ===== *)
theory Identity_Engine
  imports Identity_Graph Identity_Facts
begin

text \<open>
  The identity engine as a transition system: the public operations as steps, whether they succeed
  or fail, and the invariant they keep. The invariant relates the four records the engine keeps
  of a merge decision (proposal, edge, audit trail, next identifier) and bounds everything.
\<close>

section \<open>Steps\<close>

inductive identity_step ::
  "calendar \<Rightarrow> (device_id \<Rightarrow> string) \<Rightarrow> identity_engine \<Rightarrow> identity_engine \<Rightarrow> bool"
  for cal to_string where
  observing: "observe_at to_string s i fs now = (res, s') \<Longrightarrow> identity_step cal to_string s s'"
| adding: "add_facts_at to_string s j fs now = (res', s') \<Longrightarrow> identity_step cal to_string s s'"
| owning: "owner to_string s j key v now = (res', s') \<Longrightarrow> identity_step cal to_string s s'"
| proposing: "propose_merge to_string s a b score families reasons = (res_id, s') \<Longrightarrow>
    identity_step cal to_string s s'"
| deciding: "decide s k d = (res', s') \<Longrightarrow> identity_step cal to_string s s'"
| undoing: "undo s k = (res', s') \<Longrightarrow> identity_step cal to_string s s'"
| evicting: "evict_stale_at cal to_string s now retention = (res_ids, s') \<Longrightarrow> identity_step cal to_string s s'"

section \<open>The invariant\<close>

definition known :: "identity_engine \<Rightarrow> device_id set" where
  "known s = fst ` set (ie_facts s)"

fun trail :: "proposal_status \<Rightarrow> proposal_status list" where
  "trail ProposalPending = []"
| "trail ProposalAccepted = [ProposalAccepted]"
| "trail ProposalRejected = [ProposalRejected]"
| "trail ProposalUndone = [ProposalAccepted, ProposalUndone]"

definition edge_of :: "merge_proposal \<Rightarrow> merge_edge" where
  "edge_of p = \<lparr> ed_a = mp_left p, ed_b = mp_right p, ed_active = (mp_status p = ProposalAccepted) \<rparr>"

definition has_edge :: "merge_proposal \<Rightarrow> bool" where
  "has_edge p \<longleftrightarrow> mp_status p \<in> {ProposalAccepted, ProposalUndone}"

definition facts_ok :: "identity_engine \<Rightarrow> bool" where
  "facts_ok s \<longleftrightarrow> hm_ok (ie_facts s) \<and> length (ie_facts s) \<le> ic_max_devices (ie_cfg s)
     \<and> (\<forall>d fs. (d, fs) \<in> set (ie_facts s) \<longrightarrow>
          length fs \<le> ic_max_facts_per_device (ie_cfg s) \<and> (\<forall>f \<in> set fs. stored_ok (ie_cfg s) f))"

definition proposals_ok :: "identity_engine \<Rightarrow> bool" where
  "proposals_ok s \<longleftrightarrow> increasing mp_id (ie_proposals s) \<and> 0 < ie_next_proposal s
     \<and> length (ie_proposals s) \<le> ic_max_proposals (ie_cfg s)
     \<and> (\<forall>p \<in> set (ie_proposals s). 0 < mp_id p \<and> mp_id p < ie_next_proposal s
          \<and> mp_left p \<in> known s \<and> mp_right p \<in> known s)"

definition edges_ok :: "identity_engine \<Rightarrow> bool" where
  "edges_ok s \<longleftrightarrow> hm_ok (ie_edges s) \<and> length (ie_edges s) \<le> ic_max_merge_edges (ie_cfg s)
     \<and> (\<forall>k e. hm_get (ie_edges s) k = Some e \<longleftrightarrow>
          (\<exists>p \<in> set (ie_proposals s). mp_id p = k \<and> has_edge p \<and> e = edge_of p))"

definition audit_ok :: "identity_engine \<Rightarrow> bool" where
  "audit_ok s \<longleftrightarrow> length (ie_audit s) \<le> ic_max_audit_records (ie_cfg s)
     \<and> (\<forall>p \<in> set (ie_proposals s).
          map au_action (filter (\<lambda>a. au_proposal_id a = mp_id p) (ie_audit s)) = trail (mp_status p))
     \<and> (\<forall>a \<in> set (ie_audit s). au_proposal_id a \<in> mp_id ` set (ie_proposals s))"

definition owner_text_ok :: "identity_config \<Rightarrow> string option \<Rightarrow> bool" where
  "owner_text_ok cfg v \<longleftrightarrow> is_none_or v (\<lambda>x. x \<noteq> [] \<and> length x \<le> ic_max_value_len cfg)"

definition owners_ok :: "identity_engine \<Rightarrow> bool" where
  "owners_ok s \<longleftrightarrow> increasing ow_sequence (ie_owners s) \<and> 0 < ie_next_owner s
     \<and> length (ie_owners s) \<le> ic_max_audit_records (ie_cfg s)
     \<and> (\<forall>r \<in> set (ie_owners s). 0 < ow_sequence r \<and> ow_sequence r < ie_next_owner s
          \<and> ow_device_id r \<in> known s \<and> ow_key r \<in> OWNER_KEYS
          \<and> owner_text_ok (ie_cfg s) (ow_value r))"

definition identity_inv :: "identity_config \<Rightarrow> identity_engine \<Rightarrow> bool" where
  "identity_inv cfg s \<longleftrightarrow> ie_cfg s = cfg \<and> valid_config cfg = Inr () \<and> facts_ok s \<and> proposals_ok s
     \<and> edges_ok s \<and> audit_ok s \<and> owners_ok s"

lemma known_contains: "hm_contains (ie_facts s) d \<longleftrightarrow> d \<in> known s"
  by (simp add: known_def hm_contains_iff)

section \<open>Facts\<close>

lemma identity_inv_facts_update:
  assumes "identity_inv cfg s" and "facts_ok (s \<lparr> ie_facts := m \<rparr>)" and "known s \<subseteq> fst ` set m"
  shows "identity_inv cfg (s \<lparr> ie_facts := m \<rparr>)"
proof -
  let ?s = "s \<lparr> ie_facts := m \<rparr>"
  have sub: "d \<in> known s \<Longrightarrow> d \<in> known ?s" for d using assms(3) by (auto simp: known_def)
  have "proposals_ok s" "edges_ok s" "audit_ok s" "owners_ok s" using assms(1) by (simp_all add: identity_inv_def)
  then have "proposals_ok ?s" "edges_ok ?s" "audit_ok ?s" "owners_ok ?s"
    using sub by (simp_all add: proposals_ok_def edges_ok_def audit_ok_def owners_ok_def)
  with assms(1,2) show ?thesis by (simp add: identity_inv_def)
qed

lemma prune_expired_run:
  assumes "prune_expired to_string s i now = (res, s')"
  obtains (failed) err where "component to_string s i = Inl err" "res = Inl err" "s' = s"
  | (pruned) c where "component to_string s i = Inr c" "res = Inr ()"
      "s' = s \<lparr> ie_facts := map (\<lambda>(d, fs). (d, if d \<in> set c then filter (\<lambda>f. live f now) fs else fs))
        (ie_facts s) \<rparr>"
  using assms by (auto simp: prune_expired_def split: sum.splits)

lemma prune_expired_inv:
  assumes "identity_inv cfg s" and "prune_expired to_string s i now = (res, s')"
  shows "identity_inv cfg s'" and "known s' = known s" and "ie_edges s' = ie_edges s"
proof -
  have "identity_inv cfg s' \<and> known s' = known s \<and> ie_edges s' = ie_edges s"
    using assms(2)
  proof (cases rule: prune_expired_run)
  case (pruned c)
  let ?g = "\<lambda>(d, fs). (d, if d \<in> set c then filter (\<lambda>f. live f now) fs else fs)"
  have keys: "map fst (map ?g (ie_facts s)) = map fst (ie_facts s)" by (simp add: case_prod_unfold)
  then have same: "fst ` set (map ?g (ie_facts s)) = known s" by (metis known_def list.set_map)
  have "facts_ok s" using assms(1) by (simp add: identity_inv_def)
  moreover have "hm_ok (map ?g (ie_facts s)) = hm_ok (ie_facts s)" unfolding hm_ok_def keys ..
  moreover have "\<exists>fs. (d, fs) \<in> set (ie_facts s) \<and> length gs \<le> length fs \<and> set gs \<subseteq> set fs"
    if "(d, gs) \<in> set (map ?g (ie_facts s))" for d gs
    using that by (auto split: if_splits)
  ultimately have "facts_ok (s \<lparr> ie_facts := map ?g (ie_facts s) \<rparr>)"
    unfolding facts_ok_def by (simp del: set_map) (meson order_trans subsetD)
  with identity_inv_facts_update [OF assms(1)] same pruned show ?thesis
    by (simp add: known_def)
  qed (use assms(1) in simp)
  then show "identity_inv cfg s'" "known s' = known s" "ie_edges s' = ie_edges s" by simp_all
qed

lemma sum_list_member_le: "x \<in> set xs \<Longrightarrow> f x \<le> sum_list (map f xs)" for f :: "'a \<Rightarrow> nat"
  by (induction xs) auto

lemma index_facts_known:
  "set c \<subseteq> known s \<Longrightarrow> \<exists>fss. index_facts s c = Inr fss \<and> length fss = length c
     \<and> (\<forall>j < length c. hm_get (ie_facts s) (c ! j) = Some (fss ! j))"
proof (induction c)
  case (Cons d ds)
  then obtain fs where "hm_get (ie_facts s) d = Some fs"
    using known_contains [of s d] by (auto simp: hm_contains_def)
  with Cons show ?case by (auto simp: nth_Cons split: nat.split)
qed simp

lemma merged_known:
  assumes "edges_ok s" "proposals_ok s" and "(i, j) \<in> merged s" and "i \<in> known s"
  shows "j \<in> known s"
  using assms(3) unfolding merged_def
proof (induction rule: rtrancl_induct)
  case (step y z)
  then obtain e k where e: "(k, e) \<in> set (ie_edges s)" "ed_a e = z \<or> ed_b e = z"
    by (auto simp: linked_def)
  have "hm_ok (ie_edges s)" using assms(1) by (simp add: edges_ok_def)
  then have "hm_get (ie_edges s) k = Some e" using e(1) by (simp add: hm_get_Some_iff)
  then obtain p where "p \<in> set (ie_proposals s)" "e = edge_of p"
    using assms(1) unfolding edges_ok_def by blast
  with e(2) assms(2) show ?case by (auto simp: proposals_ok_def edge_of_def)
qed (use assms(4) in simp)

lemma component_known:
  assumes "identity_inv cfg s" and "component to_string s i = Inr c"
  shows "set c \<subseteq> known s"
proof
  fix d assume "d \<in> set c"
  with component_correct [OF assms(2)] have "(i, d) \<in> merged s" "i \<in> known s"
    by (auto simp: known_contains)
  with assms(1) show "d \<in> known s" by (auto simp: identity_inv_def intro: merged_known)
qed

lemma prune_and_extend_inv:
  assumes inv: "identity_inv cfg s" and run: "prune_and_extend to_string s i fs now = (res, s')"
    and new: "\<forall>f \<in> set fs. stored_ok cfg f"
  shows "identity_inv cfg s'"
proof -
  obtain r1 s1 where p: "prune_expired to_string s i now = (r1, s1)" by fastforce
  note inv1 = prune_expired_inv [OF inv p]
  show ?thesis
  proof (cases "\<exists>u. r1 = Inr u \<and> preadd to_string s1 i (length fs) now = Inr ()")
    case False
    with run p inv1(1) show ?thesis
      by (auto simp: prune_and_extend_def split: sum.splits)
  next
    case True
    then obtain c where c: "component to_string s i = Inr c" and s1: "s1 = s \<lparr> ie_facts :=
        map (\<lambda>(d, fs). (d, if d \<in> set c then filter (\<lambda>f. live f now) fs else fs)) (ie_facts s) \<rparr>"
      using p by (auto elim!: prune_expired_run)
    have run1: "extend_facts s1 i fs = (res, s')" and pre: "preadd to_string s1 i (length fs) now = Inr ()"
      using run p True by (auto simp: prune_and_extend_def)
    show ?thesis
    proof (cases "hm_get (ie_facts s1) i")
      case None
      with run1 inv1(1) show ?thesis by (simp add: extend_facts_def)
    next
      case (Some old)
      obtain c1 fss where c1: "component to_string s1 i = Inr c1" "index_facts s1 c1 = Inr fss"
        and sum: "sum_list (map (\<lambda>fs. length (filter (\<lambda>f. live f now) fs)) fss) + length fs
          \<le> ic_max_facts_per_device cfg"
        using pre inv1(1) by (auto simp: preadd_def identity_inv_def split: sum.splits if_splits)
      have "i \<in> set c1" "set c1 \<subseteq> known s1"
        using component_correct(4) [OF c1(1)] component_known [OF inv1(1) c1(1)] by auto
      then obtain j where "j < length c1" "c1 ! j = i" by (metis in_set_conv_nth)
      then have "old \<in> set fss"
        using index_facts_known [OF \<open>set c1 \<subseteq> known s1\<close>] c1(2) Some by (metis Inr_inject nth_mem option.inject)
      moreover have "filter (\<lambda>f. live f now) old = old"
      proof -
        have "(i, old) \<in> set (ie_facts s1)" using Some by (rule hm_get_SomeD)
        moreover have "i \<in> set c" by (rule component_correct(4) [OF c])
        ultimately show ?thesis by (auto simp: s1)
      qed
      ultimately have small: "length old + length fs \<le> ic_max_facts_per_device cfg"
        using sum sum_list_member_le [of old fss "\<lambda>fs. length (filter (\<lambda>f. live f now) fs)"] by simp
      have s': "s' = s1 \<lparr> ie_facts := hm_insert i (old @ fs) (ie_facts s1) \<rparr>"
        using run1 Some by (simp add: extend_facts_def)
      have ok: "facts_ok s1" "ie_cfg s1 = cfg" using inv1(1) by (simp_all add: identity_inv_def)
      have "(i, old) \<in> set (ie_facts s1)" using Some by (rule hm_get_SomeD)
      then have "\<forall>f \<in> set old. stored_ok cfg f" using ok by (fastforce simp: facts_ok_def)
      moreover have "hm_ok (hm_insert i (old @ fs) (ie_facts s1))" using ok by (simp add: facts_ok_def)
      moreover have "length (hm_insert i (old @ fs) (ie_facts s1)) = length (ie_facts s1)"
        using Some by (simp add: length_hm_insert hm_contains_def)
      moreover have "(d, gs) \<in> set (hm_insert i (old @ fs) (ie_facts s1)) \<Longrightarrow>
          gs = old @ fs \<or> (d, gs) \<in> set (ie_facts s1)" for d gs
        using calculation(2) ok(1)
        by (metis facts_ok_def hm_get_Some_iff hm_get_insert option.inject)
      ultimately have "facts_ok s'"
        using ok small new unfolding facts_ok_def s' by fastforce
      with identity_inv_facts_update [OF inv1(1)] show ?thesis
        unfolding s' by (simp add: fst_set_hm_insert known_def subset_insertI)
    qed
  qed
qed

section \<open>Proposals\<close>

lemma insert_prop_inv:
  assumes inv: "identity_inv cfg s" and "a \<in> known s" "b \<in> known s"
    and room: "length (ie_proposals s) < ic_max_proposals cfg" "unat (ie_next_proposal s) + 1 < 2 ^ 64"
  shows "identity_inv cfg (snd (insert_prop s a b score families reasons))"
proof -
  let ?s = "snd (insert_prop s a b score families reasons)"
  have parts: "facts_ok s" "proposals_ok s" "edges_ok s" "audit_ok s" "owners_ok s" "ie_cfg s = cfg"
    using inv by (simp_all add: identity_inv_def)
  have next_id: "ie_next_proposal s < ie_next_proposal s + 1" "0 < ie_next_proposal s + 1"
    using room(2) by (simp_all add: word_less_nat_alt unat_word_ariths)
  have below: "\<forall>p \<in> set (ie_proposals s). mp_id p < ie_next_proposal s"
    using parts(2) by (simp add: proposals_ok_def)
  have "facts_ok ?s" "owners_ok ?s"
    using parts by (simp_all add: facts_ok_def owners_ok_def insert_prop_def known_def)
  moreover have "proposals_ok ?s"
    using parts(2,6) room(1) next_id below assms(2,3)
    by (auto simp: proposals_ok_def insert_prop_def increasing_append known_def intro: less_trans)
  moreover have "edges_ok ?s"
    using parts(3) by (auto simp: edges_ok_def insert_prop_def has_edge_def)
  moreover have "audit_ok ?s"
  proof -
    have "filter (\<lambda>r. au_proposal_id r = ie_next_proposal s) (ie_audit s) = []"
      using parts(4) below by (fastforce simp: audit_ok_def filter_empty_conv)
    with parts(4) show ?thesis by (auto simp: audit_ok_def insert_prop_def)
  qed
  moreover have "ie_cfg ?s = cfg" "valid_config cfg = Inr ()"
    using inv by (simp_all add: identity_inv_def insert_prop_def)
  ultimately show ?thesis by (simp add: identity_inv_def)
qed

lemma insert_prop_frame:
  "known (snd (insert_prop s a b score families reasons)) = known s"
  "length (ie_proposals (snd (insert_prop s a b score families reasons))) = Suc (length (ie_proposals s))"
  "ie_next_proposal (snd (insert_prop s a b score families reasons)) = ie_next_proposal s + 1"
  by (simp_all add: insert_prop_def known_def)

lemma insert_props_inv:
  assumes "identity_inv cfg s" and "fresh \<in> known s" and "\<forall>(d, m) \<in> set ms. d \<in> known s"
    and "length (ie_proposals s) + length ms \<le> ic_max_proposals cfg"
    and "unat (ie_next_proposal s) + length ms < 2 ^ 64"
  shows "identity_inv cfg (insert_props s fresh ms)"
  using assms
proof (induction ms arbitrary: s)
  case (Cons dm ms)
  obtain d m where dm: "dm = (d, m)" by fastforce
  let ?s = "snd (insert_prop s d fresh (ma_score m) (ma_families m) (ma_reasons m))"
  have "identity_inv cfg ?s"
    by (rule insert_prop_inv) (use Cons.prems dm in auto)
  moreover have "unat (ie_next_proposal ?s) = unat (ie_next_proposal s) + 1"
    using Cons.prems(5) by (simp add: insert_prop_frame unat_word_ariths)
  ultimately have "identity_inv cfg (insert_props ?s fresh ms)"
    using Cons.prems dm by (intro Cons.IH) (auto simp: insert_prop_frame)
  then show ?case by (simp add: dm)
qed simp

lemma preprops_room:
  assumes "preprops s n = Inr u" and "ie_cfg s = cfg"
  shows "length (ie_proposals s) + n \<le> ic_max_proposals cfg"
    and "n < 2 ^ 64 \<Longrightarrow> 0 < n \<Longrightarrow> unat (ie_next_proposal s) + n < 2 ^ 64"
  using assms by (auto simp: preprops_def usize_checked_def checked_add_def unat_of_nat
      split: if_splits option.splits)

section \<open>Observation\<close>

lemma map_sum_Inr: "map_sum f g x = Inr y \<longleftrightarrow> (\<exists>z. x = Inr z \<and> y = g z)"
  by (cases x) auto

lemma component_canon: "component to_string s i = Inr c \<Longrightarrow> canon to_string c \<in> set c"
  using component_correct(4) canon_least(1) by (metis empty_iff empty_set)

lemma components_from_members:
  assumes "components_from to_string s ids seen out = Inr comps"
  shows "\<exists>cs. comps = out @ cs \<and> (\<forall>c \<in> set cs. \<exists>i \<in> set ids. component to_string s i = Inr c)
     \<and> set ids \<subseteq> set seen \<union> \<Union> (set ` set cs)"
  using assms
proof (induction ids arbitrary: seen out)
  case (Cons i ids)
  show ?case
  proof (cases "i \<in> set seen")
    case True
    with Cons.IH [of seen out] Cons.prems show ?thesis by auto
  next
    case False
    then obtain c where c: "component to_string s i = Inr c"
      and rest: "components_from to_string s ids (seen @ c) (out @ [c]) = Inr comps"
      using Cons.prems by (auto split: sum.splits)
    obtain cs where "comps = (out @ [c]) @ cs" "\<forall>c \<in> set cs. \<exists>i \<in> set ids. component to_string s i = Inr c"
      "set ids \<subseteq> set (seen @ c) \<union> \<Union> (set ` set cs)"
      using Cons.IH [OF rest] by auto
    with c component_correct(4) [OF c] show ?thesis by (intro exI [of _ "c # cs"]) auto
  qed
qed simp

lemma components_members:
  assumes "components to_string s = Inr comps"
  shows "\<forall>c \<in> set comps. \<exists>i \<in> known s. component to_string s i = Inr c"
    and "\<forall>d \<in> known s. \<exists>c \<in> set comps. d \<in> set c"
  using components_from_members [of to_string s "sort_key to_string (map fst (ie_facts s))" "[]" "[]" comps] assms
  by (auto simp: components_def known_def split: if_splits)

lemma candidate_matches_members:
  assumes "candidate_matches to_string s incoming now cs work matches = Inr out"
  shows "\<exists>new. out = matches @ new
    \<and> (\<forall>d m. (d, m) \<in> set new \<longrightarrow> (\<exists>c \<in> set cs. \<exists>rs. refs s c = Inr rs \<and> d = canon to_string c
          \<and> m = matching rs incoming now (ie_cfg s) \<and> ma_any m))
    \<and> (\<forall>c \<in> set cs. \<exists>rs. refs s c = Inr rs
          \<and> (ma_any (matching rs incoming now (ie_cfg s)) \<longrightarrow>
               (canon to_string c, matching rs incoming now (ie_cfg s)) \<in> set new))"
  using assms
proof (induction cs arbitrary: work matches)
  case (Cons c cs)
  then obtain rs work' where rs: "refs s c = Inr rs"
    and rest: "candidate_matches to_string s incoming now cs work'
      (if ma_any (matching rs incoming now (ie_cfg s))
       then matches @ [(canon to_string c, matching rs incoming now (ie_cfg s))] else matches) = Inr out"
    by (auto simp: Let_def split: sum.splits option.splits if_splits)
  let ?new = "if ma_any (matching rs incoming now (ie_cfg s))
       then [(canon to_string c, matching rs incoming now (ie_cfg s))] else []"
  from rest have rest': "candidate_matches to_string s incoming now cs work' (matches @ ?new) = Inr out"
    by (simp split: if_splits)
  obtain new where new: "out = (matches @ ?new) @ new"
    "\<forall>d m. (d, m) \<in> set new \<longrightarrow> (\<exists>c \<in> set cs. \<exists>rs. refs s c = Inr rs \<and> d = canon to_string c
          \<and> m = matching rs incoming now (ie_cfg s) \<and> ma_any m)"
    "\<forall>c \<in> set cs. \<exists>rs. refs s c = Inr rs \<and> (ma_any (matching rs incoming now (ie_cfg s)) \<longrightarrow>
               (canon to_string c, matching rs incoming now (ie_cfg s)) \<in> set new)"
    using Cons.IH [OF rest'] by blast
  show ?case
    by (rule exI [of _ "?new @ new"]) (use new rs in \<open>auto split: if_splits\<close>)
qed simp

lemma correlate_members:
  assumes "correlate to_string s incoming now = Inr matches"
  obtains comps where "components to_string s = Inr comps"
    "\<forall>d m. (d, m) \<in> set matches \<longrightarrow> (\<exists>c \<in> set comps. \<exists>rs. refs s c = Inr rs \<and> d = canon to_string c
          \<and> m = matching rs incoming now (ie_cfg s) \<and> ma_any m)"
    "\<forall>c \<in> set comps. \<exists>rs. refs s c = Inr rs \<and> (ma_any (matching rs incoming now (ie_cfg s)) \<longrightarrow>
          (canon to_string c, matching rs incoming now (ie_cfg s)) \<in> set matches)"
    "length incoming \<le> ic_max_facts_per_device (ie_cfg s)" "length (ie_facts s) < ic_max_devices (ie_cfg s)"
proof -
  obtain comps out where c: "components to_string s = Inr comps"
    "candidate_matches to_string s incoming now comps 0 [] = Inr out"
    "matches = sort_key (\<lambda>x. to_string (fst x)) out"
    "length incoming \<le> ic_max_facts_per_device (ie_cfg s)" "length (ie_facts s) < ic_max_devices (ie_cfg s)"
    using assms by (auto simp: correlate_def not_less not_le map_sum_Inr split: sum.splits if_splits)
  show ?thesis
    using candidate_matches_members [OF c(2)] c by (intro that [of comps]) auto
qed

lemma correlate_known:
  assumes "identity_inv cfg s" and "correlate to_string s incoming now = Inr matches" and "(d, m) \<in> set matches"
  shows "d \<in> known s"
proof -
  obtain comps where comps: "components to_string s = Inr comps" "\<exists>c \<in> set comps. d = canon to_string c"
    using assms(2,3) by (elim correlate_members) blast
  then obtain c i where c: "component to_string s i = Inr c" "d = canon to_string c"
    using components_members(1) [OF comps(1)] by blast
  then have "d \<in> set c" using component_canon [OF c(1)] by simp
  with component_known [OF assms(1) c(1)] show ?thesis by blast
qed

lemma enrol_inv:
  assumes inv: "identity_inv cfg s" and run: "enrol s incoming matches = (res, s')"
    and new: "\<forall>f \<in> set incoming. stored_ok cfg f" "length incoming \<le> ic_max_facts_per_device cfg"
      "length (ie_facts s) < ic_max_devices cfg" "\<forall>(d, m) \<in> set matches. d \<in> known s"
  shows "identity_inv cfg s'"
proof (cases "res")
  case (Inl err)
  with inv run show ?thesis by (auto simp: enrol_def split: sum.splits list.splits if_splits)
next
  case (Inr fresh)
  then obtain ids where ids: "ie_ids s = fresh # ids" "fresh \<notin> known s"
    and pre: "preprops s (length matches) = Inr ()"
    and s': "s' = insert_props (s \<lparr> ie_ids := ids, ie_facts := hm_insert fresh incoming (ie_facts s) \<rparr>) fresh matches"
    using run by (auto simp: enrol_def known_contains split: sum.splits list.splits if_splits)
  let ?s = "s \<lparr> ie_ids := ids \<rparr>" and ?m = "hm_insert fresh incoming (ie_facts s)"
  have m: "?m = ie_facts s @ [(fresh, incoming)]"
    using ids(2) by (intro hm_insert_absent) (simp add: known_contains)
  have inv1: "identity_inv cfg ?s"
    using inv by (auto simp: identity_inv_def facts_ok_def proposals_ok_def edges_ok_def audit_ok_def
        owners_ok_def known_def)
  moreover have "facts_ok (?s \<lparr> ie_facts := ?m \<rparr>)"
    using inv new ids(2) by (auto simp: facts_ok_def m identity_inv_def hm_ok_def known_def)
  ultimately have "identity_inv cfg (?s \<lparr> ie_facts := ?m \<rparr>)"
    by (rule identity_inv_facts_update) (auto simp: m known_def)
  then show ?thesis
    unfolding s' 
  proof (intro insert_props_inv, goal_cases)
    case 1
    then show ?case by simp
  next
    case 5
    have "unat (ie_next_proposal s) < 2 ^ 64" using unsigned_less [where w = "ie_next_proposal s"] by simp
    moreover have "length matches < 2 ^ 64"
      using pre by (auto simp: preprops_def usize_checked_def split: if_splits)
    ultimately show ?case
      using preprops_room(2) [OF pre refl] by (cases "matches = []") auto
  qed (use new(4) preprops_room(1) [OF pre] inv in \<open>auto simp: known_def m identity_inv_def\<close>)
qed

lemma observe_at_inv:
  assumes inv: "identity_inv cfg s" and run: "observe_at to_string s i fs now = (res, s')"
  shows "identity_inv cfg s'"
proof (cases "prepare cfg fs")
  case (Inl err)
  with inv run show ?thesis by (simp add: observe_at_def identity_inv_def)
next
  case (Inr incoming)
  have cfg: "ie_cfg s = cfg" "f32_unit_interval (ic_router_hint_cap cfg)"
    using inv valid_config_cap by (auto simp: identity_inv_def)
  note new = prepare_stored [OF Inr cfg(2)]
  have extend: "identity_inv cfg s''" if "prune_and_extend to_string s j incoming now = (r, s'')" for j r s''
    using prune_and_extend_inv [OF inv that] new by simp
  have enrolled: "identity_inv cfg s''" if "correlate to_string s incoming now = Inr matches"
    "enrol s incoming matches = (r, s'')" for matches r s''
    by (rule enrol_inv [OF inv that(2)])
      (use new correlate_known [OF inv that(1)] that(1) cfg(1) in \<open>auto elim!: correlate_members\<close>)
  from run Inr inv show ?thesis
    by (auto simp: observe_at_def cfg(1) map_prod_def intro: extend enrolled
        split: option.splits sum.splits list.splits if_splits prod.splits)
qed

lemma add_facts_at_inv:
  assumes inv: "identity_inv cfg s" and run: "add_facts_at to_string s i fs now = (res, s')"
  shows "identity_inv cfg s'"
proof -
  have cfg: "ie_cfg s = cfg" "f32_unit_interval (ic_router_hint_cap cfg)"
    using inv valid_config_cap by (auto simp: identity_inv_def)
  show ?thesis
    using run inv prune_and_extend_inv [OF inv] prepare_stored [OF _ cfg(2)]
    by (auto simp: add_facts_at_def cfg(1) split: sum.splits)
qed

lemma propose_merge_inv:
  assumes inv: "identity_inv cfg s" and run: "propose_merge to_string s a b score families reasons = (res, s')"
  shows "identity_inv cfg s'"
proof (cases "s' = s")
  case False
  then obtain ra rb u v where ok: "resolve to_string s a = Inr ra" "resolve to_string s b = Inr rb"
    "preprops s 1 = Inr u" "s' = snd (insert_prop s a b score families reasons)"
    using run by (auto simp: propose_merge_def map_prod_def split: sum.splits prod.splits)
  have "a \<in> known s" "b \<in> known s"
    using ok(1,2) component_correct(5) by (auto simp: known_contains elim!: resolve_representative)
  with insert_prop_inv [OF inv] preprops_room [OF ok(3)] inv show ?thesis
    by (auto simp: ok(4) identity_inv_def)
qed (use inv in simp)

section \<open>Decisions\<close>

lemma position_SomeD: "position P xs = Some n \<Longrightarrow> n < length xs \<and> P (xs ! n)"
  by (induction xs arbitrary: n) (auto split: if_splits)

lemma increasing_distinct: "increasing f xs \<Longrightarrow> distinct (map f xs)"
  unfolding increasing_def by (metis sorted_wrt_map strict_sorted_iff)

text \<open>Both decisions replace one proposal by itself with a new status and append to the audit.\<close>

definition close_proposal :: "identity_engine \<Rightarrow> nat \<Rightarrow> proposal_status \<Rightarrow> identity_engine" where
  "close_proposal s n status =
     s \<lparr> ie_proposals := (ie_proposals s)[n := (ie_proposals s ! n) \<lparr> mp_status := status \<rparr>],
         ie_audit := ie_audit s @ [\<lparr> au_proposal_id = mp_id (ie_proposals s ! n), au_action = status \<rparr>] \<rparr>"

lemma set_close_proposal:
  assumes "proposals_ok s" and "n < length (ie_proposals s)"
  shows "set (ie_proposals (close_proposal s n status)) =
      insert ((ie_proposals s ! n) \<lparr> mp_status := status \<rparr>) (set (ie_proposals s) - {ie_proposals s ! n})"
    and "p \<in> set (ie_proposals s) \<Longrightarrow> mp_id p = mp_id (ie_proposals s ! n) \<longleftrightarrow> p = ie_proposals s ! n"
proof -
  have d: "distinct (map mp_id (ie_proposals s))"
    using assms(1) by (intro increasing_distinct) (simp add: proposals_ok_def)
  then show "set (ie_proposals (close_proposal s n status)) =
      insert ((ie_proposals s ! n) \<lparr> mp_status := status \<rparr>) (set (ie_proposals s) - {ie_proposals s ! n})"
    using assms(2) by (simp add: close_proposal_def set_update_distinct distinct_map)
  show "p \<in> set (ie_proposals s) \<Longrightarrow> mp_id p = mp_id (ie_proposals s ! n) \<longleftrightarrow> p = ie_proposals s ! n"
    using d assms(2) by (auto simp: distinct_map dest: inj_onD)
qed

lemma close_proposal_parts:
  assumes inv: "identity_inv cfg s" and n: "n < length (ie_proposals s)"
    and room: "length (ie_audit s) < ic_max_audit_records cfg"
    and move: "trail status = trail (mp_status (ie_proposals s ! n)) @ [status]"
  shows "facts_ok (close_proposal s n status) \<and> proposals_ok (close_proposal s n status)
    \<and> audit_ok (close_proposal s n status) \<and> owners_ok (close_proposal s n status)"
proof -
  let ?x = "ie_proposals s ! n" and ?s = "close_proposal s n status"
  have parts: "facts_ok s" "proposals_ok s" "audit_ok s" "owners_ok s" "ie_cfg s = cfg"
    using inv by (simp_all add: identity_inv_def)
  note props = set_close_proposal [OF parts(2) n]
  have x: "?x \<in> set (ie_proposals s)" using n by simp
  have ids: "map mp_id (ie_proposals ?s) = map mp_id (ie_proposals s)"
    using n by (simp add: close_proposal_def map_update)
      (metis list_update_id nth_map)
  from ids have inc: "increasing mp_id (ie_proposals ?s)"
    using parts(2) by (metis increasing_def proposals_ok_def sorted_wrt_map)
  have same: "ie_next_proposal ?s = ie_next_proposal s" "ie_cfg ?s = ie_cfg s" "known ?s = known s"
    "length (ie_proposals ?s) = length (ie_proposals s)"
    by (simp_all add: close_proposal_def known_def)
  have "proposals_ok ?s"
    using parts(2) inc x unfolding proposals_ok_def same props(1) by auto
  moreover have "facts_ok ?s" "owners_ok ?s"
    using parts by (simp_all add: facts_ok_def owners_ok_def close_proposal_def known_def)
  moreover have "audit_ok ?s"
  proof -
    have audit: "ie_audit ?s = ie_audit s @ [\<lparr> au_proposal_id = mp_id ?x, au_action = status \<rparr>]"
      by (simp add: close_proposal_def)
    have "map au_action (filter (\<lambda>a. au_proposal_id a = mp_id p) (ie_audit ?s)) = trail (mp_status p)"
      if "p \<in> set (ie_proposals ?s)" for p
    proof (cases "p = ?x \<lparr> mp_status := status \<rparr>")
      case True
      with parts(3) x move show ?thesis by (simp add: audit audit_ok_def)
    next
      case False
      with that have p: "p \<in> set (ie_proposals s)" "p \<noteq> ?x" unfolding props(1) by auto
      then have "mp_id ?x \<noteq> mp_id p" using props(2) by metis
      with parts(3) p(1) show ?thesis by (simp add: audit audit_ok_def)
    qed
    moreover have "au_proposal_id a \<in> mp_id ` set (ie_proposals ?s)" if "a \<in> set (ie_audit ?s)" for a
    proof -
      have "mp_id ` set (ie_proposals ?s) = mp_id ` set (ie_proposals s)" using ids by (metis list.set_map)
      then show ?thesis using that parts(3) x unfolding audit audit_ok_def by auto
    qed
    ultimately show ?thesis
      using room parts(5) by (simp add: audit_ok_def audit same)
  qed
  ultimately show ?thesis by simp
qed

lemma decide_run:
  assumes "decide s k d = (res, s')"
  obtains (refused) err where "res = Inl err" "s' = s"
  | (rejected) n where "res = Inr ()" "d = Reject" "n < length (ie_proposals s)"
      "mp_id (ie_proposals s ! n) = k" "mp_status (ie_proposals s ! n) = ProposalPending"
      "length (ie_audit s) < ic_max_audit_records (ie_cfg s)" "s' = close_proposal s n ProposalRejected"
  | (accepted) n where "res = Inr ()" "d = Accept" "n < length (ie_proposals s)"
      "mp_id (ie_proposals s ! n) = k" "mp_status (ie_proposals s ! n) = ProposalPending"
      "length (ie_audit s) < ic_max_audit_records (ie_cfg s)" "length (ie_edges s) < ic_max_merge_edges (ie_cfg s)"
      "s' = close_proposal s n ProposalAccepted \<lparr> ie_edges := hm_insert k
         (edge_of ((ie_proposals s ! n) \<lparr> mp_status := ProposalAccepted \<rparr>)) (ie_edges s) \<rparr>"
proof (cases "position (\<lambda>p. mp_id p = k \<and> mp_status p = ProposalPending) (ie_proposals s)")
  case None
  with assms refused show ?thesis by (auto simp: decide_def split: if_splits)
next
  case (Some n)
  note n = position_SomeD [OF Some]
  show ?thesis
    using assms Some n refused rejected [of n] accepted [of n]
    by (cases d) (auto simp: decide_def Let_def close_proposal_def edge_of_def not_le split: if_splits)
qed

lemma decide_inv:
  assumes inv: "identity_inv cfg s" and run: "decide s k d = (res, s')"
  shows "identity_inv cfg s'"
  using run
proof (cases rule: decide_run)
  case (rejected n)
  have parts: "proposals_ok s" "edges_ok s" "ie_cfg s = cfg" "valid_config cfg = Inr ()"
    using inv by (simp_all add: identity_inv_def)
  note props = set_close_proposal [OF parts(1) rejected(3)]
  have "edges_ok s'"
    using parts(2) rejected(5) unfolding rejected(7) edges_ok_def props(1)
    by (auto simp: close_proposal_def has_edge_def)
  moreover have "facts_ok s' \<and> proposals_ok s' \<and> audit_ok s' \<and> owners_ok s'"
    unfolding rejected(7) by (rule close_proposal_parts [OF inv rejected(3)]) (use rejected parts in simp_all)
  ultimately show ?thesis using parts rejected(7) by (simp add: identity_inv_def close_proposal_def)
next
  case (accepted n)
  let ?x = "(ie_proposals s ! n) \<lparr> mp_status := ProposalAccepted \<rparr>"
    and ?t = "close_proposal s n ProposalAccepted"
  have parts: "proposals_ok s" "edges_ok s" "ie_cfg s = cfg" "valid_config cfg = Inr ()"
    using inv by (simp_all add: identity_inv_def)
  note props = set_close_proposal [OF parts(1) accepted(3)]
  have proposals: "ie_proposals s' = ie_proposals ?t" by (simp add: accepted(8))
  have edges: "ie_edges s' = hm_insert k (edge_of ?x) (ie_edges s)" by (simp add: accepted(8))
  have "hm_get (ie_edges s') j = Some e \<longleftrightarrow>
      (\<exists>p \<in> set (ie_proposals s'). mp_id p = j \<and> has_edge p \<and> e = edge_of p)" for j e
    using parts(2) accepted(4,5) props(2) unfolding edges_ok_def proposals edges props(1)
    by (auto simp: has_edge_def)
  then have "edges_ok s'"
    using parts accepted(7,8) by (simp add: edges_ok_def length_hm_insert close_proposal_def)
  moreover have "facts_ok ?t \<and> proposals_ok ?t \<and> audit_ok ?t \<and> owners_ok ?t"
    by (rule close_proposal_parts [OF inv accepted(3)]) (use accepted parts in simp_all)
  then have "facts_ok s' \<and> proposals_ok s' \<and> audit_ok s' \<and> owners_ok s'"
    by (simp add: accepted(8) facts_ok_def proposals_ok_def audit_ok_def owners_ok_def known_def)
  ultimately show ?thesis using parts accepted(8) by (simp add: identity_inv_def close_proposal_def)
qed (use inv in simp)

lemma undo_run:
  assumes inv: "identity_inv cfg s" and run: "undo s k = (res, s')"
  obtains (refused) err where "res = Inl err" "s' = s"
  | (undone) n where "res = Inr ()" "n < length (ie_proposals s)"
      "mp_id (ie_proposals s ! n) = k" "mp_status (ie_proposals s ! n) = ProposalAccepted"
      "length (ie_audit s) < ic_max_audit_records (ie_cfg s)" "hm_contains (ie_edges s) k"
      "s' = close_proposal s n ProposalUndone \<lparr> ie_edges := hm_insert k
         (edge_of ((ie_proposals s ! n) \<lparr> mp_status := ProposalUndone \<rparr>)) (ie_edges s) \<rparr>"
proof (cases "position (\<lambda>p. mp_id p = k \<and> mp_status p = ProposalAccepted) (ie_proposals s)")
  case None
  with run refused show ?thesis by (auto simp: undo_def split: if_splits)
next
  case (Some n)
  note n = position_SomeD [OF Some]
  then have "has_edge (ie_proposals s ! n)" "ie_proposals s ! n \<in> set (ie_proposals s)"
    by (simp_all add: has_edge_def)
  then have "hm_get (ie_edges s) k = Some (edge_of (ie_proposals s ! n))"
    using inv n by (auto simp: identity_inv_def edges_ok_def)
  then show ?thesis
    using run Some n refused undone [of n]
    by (auto simp: undo_def close_proposal_def edge_of_def hm_contains_def not_le split: if_splits)
qed

lemma undo_inv:
  assumes inv: "identity_inv cfg s" and run: "undo s k = (res, s')"
  shows "identity_inv cfg s'"
  using inv run
proof (cases rule: undo_run)
  case (undone n)
  let ?x = "(ie_proposals s ! n) \<lparr> mp_status := ProposalUndone \<rparr>"
    and ?t = "close_proposal s n ProposalUndone"
  have parts: "proposals_ok s" "edges_ok s" "ie_cfg s = cfg" "valid_config cfg = Inr ()"
    using inv by (simp_all add: identity_inv_def)
  note props = set_close_proposal [OF parts(1) undone(2)]
  have proposals: "ie_proposals s' = ie_proposals ?t" by (simp add: undone(7))
  have edges: "ie_edges s' = hm_insert k (edge_of ?x) (ie_edges s)" by (simp add: undone(7))
  have "hm_get (ie_edges s') j = Some e \<longleftrightarrow>
      (\<exists>p \<in> set (ie_proposals s'). mp_id p = j \<and> has_edge p \<and> e = edge_of p)" for j e
    using parts(2) undone(3) props(2) unfolding edges_ok_def proposals edges props(1)
    by (auto simp: has_edge_def)
  then have "edges_ok s'"
    using parts undone(6,7) by (simp add: edges_ok_def length_hm_insert close_proposal_def)
  moreover have "facts_ok ?t \<and> proposals_ok ?t \<and> audit_ok ?t \<and> owners_ok ?t"
    by (rule close_proposal_parts [OF inv undone(2)]) (use undone parts in simp_all)
  then have "facts_ok s' \<and> proposals_ok s' \<and> audit_ok s' \<and> owners_ok s'"
    by (simp add: undone(7) facts_ok_def proposals_ok_def audit_ok_def owners_ok_def known_def)
  ultimately show ?thesis using parts undone(7) by (simp add: identity_inv_def close_proposal_def)
qed (use inv in simp)

lemma owner_inv:
  assumes inv: "identity_inv cfg s" and run: "owner to_string s i key v at = (res, s')"
  shows "identity_inv cfg s'"
proof (cases "s' = s")
  case False
  then obtain root following where ok: "resolve to_string s i = Inr root" "key \<in> OWNER_KEYS"
    "owner_text_ok cfg v" "length (ie_owners s) < ic_max_audit_records cfg"
    "checked_add (ie_next_owner s) 1 = Some following"
    "s' = s \<lparr> ie_owners := ie_owners s @ [\<lparr> ow_sequence = ie_next_owner s, ow_device_id = root,
        ow_key = key, ow_value = v, ow_recorded_at = at \<rparr>], ie_next_owner := following \<rparr>"
    using run inv by (auto simp: owner_def identity_inv_def owner_text_ok_def not_less not_le
        split: sum.splits if_splits option.splits)
  obtain c where c: "component to_string s i = Inr c" "root = canon to_string c"
    using ok(1) by (rule resolve_representative)
  have "root \<in> known s" using component_known [OF inv c(1)] component_canon [OF c(1)] c(2) by auto
  moreover have "ie_next_owner s < following" by (rule checked_add_one_less [OF ok(5)])
  ultimately show ?thesis
    using inv ok(2-4) unfolding ok(6)
    by (auto simp: identity_inv_def facts_ok_def proposals_ok_def edges_ok_def audit_ok_def owners_ok_def
        known_def increasing_append intro: less_trans)
qed (use inv in simp)

section \<open>Eviction\<close>

lemma collect_stale_members:
  "collect_stale s now cutoff cs = Inr ev \<Longrightarrow>
     d \<in> set ev \<longleftrightarrow> (\<exists>c \<in> set cs. \<exists>fss. index_facts s c = Inr fss \<and> evictable s now cutoff c fss \<and> d \<in> set c)"
  by (induction cs arbitrary: ev) (auto simp: map_sum_Inr split: sum.splits if_splits)

lemma evict_stale_run:
  assumes "evict_stale_at cal to_string s now retention = (res, s')"
  obtains (refused) err where "res = Inl err" "s' = s"
  | (evicted) cutoff comps ev where "cal now (- retention) = Some cutoff" "components to_string s = Inr comps"
      "collect_stale s now cutoff comps = Inr ev" "res = Inr (sort_key to_string ev)"
      "s' = evict_devices s ev"
proof (cases "cal now (- retention)")
  case None
  with assms refused show thesis by (auto simp: evict_stale_at_def)
next
  case cutoff: (Some cutoff)
  show thesis
  proof (cases "components to_string s")
    case (Inl err)
    with assms cutoff refused show thesis by (auto simp: evict_stale_at_def)
  next
    case comps: (Inr comps)
    show thesis
    proof (cases "collect_stale s now cutoff comps")
      case (Inl err)
      then show thesis using assms cutoff comps by (intro refused [of err]) (simp_all add: evict_stale_at_def)
    next
      case (Inr ev)
      with assms cutoff comps
      have "(res, s') = (if ev = [] then (Inr [], s) else (Inr (sort_key to_string ev), evict_devices s ev))"
        by (simp add: evict_stale_at_def)
      moreover have "evict_devices s [] = s" by (simp add: evict_devices_def)
      ultimately show thesis using evicted [OF cutoff comps Inr] by (cases "ev = []") simp_all
    qed
  qed
qed

lemma evict_devices_fields:
  assumes "proposals_ok s"
  shows "known (evict_devices s ev) = known s - set ev"
    and "ie_proposals (evict_devices s ev)
      = filter (\<lambda>p. mp_left p \<notin> set ev \<and> mp_right p \<notin> set ev) (ie_proposals s)"
    and "ie_audit (evict_devices s ev) = filter (\<lambda>a. \<forall>p \<in> set (ie_proposals s).
      mp_id p = au_proposal_id a \<longrightarrow> mp_left p \<notin> set ev \<and> mp_right p \<notin> set ev) (ie_audit s)"
proof -
  have inj: "inj_on mp_id (set (ie_proposals s))"
    using assms increasing_distinct [of mp_id "ie_proposals s"] by (simp add: proposals_ok_def distinct_map)
  show "known (evict_devices s ev) = known s - set ev"
    by (auto simp: evict_devices_def known_def Let_def image_iff Bex_def)
  show "ie_proposals (evict_devices s ev)
      = filter (\<lambda>p. mp_left p \<notin> set ev \<and> mp_right p \<notin> set ev) (ie_proposals s)"
    using inj by (auto simp: evict_devices_def Let_def intro!: filter_cong dest: inj_onD)
  show "ie_audit (evict_devices s ev) = filter (\<lambda>a. \<forall>p \<in> set (ie_proposals s).
      mp_id p = au_proposal_id a \<longrightarrow> mp_left p \<notin> set ev \<and> mp_right p \<notin> set ev) (ie_audit s)"
    unfolding evict_devices_def Let_def by simp (rule filter_cong, rule refl, force)
qed

lemma evict_devices_inv:
  assumes inv: "identity_inv cfg s" and free: "\<forall>r \<in> set (ie_owners s). ow_device_id r \<notin> set ev"
  shows "identity_inv cfg (evict_devices s ev)"
proof -
  let ?s = "evict_devices s ev" and ?keep = "\<lambda>p. mp_left p \<notin> set ev \<and> mp_right p \<notin> set ev"
  have parts: "facts_ok s" "proposals_ok s" "edges_ok s" "audit_ok s" "owners_ok s" "ie_cfg s = cfg"
    "valid_config cfg = Inr ()"
    using inv by (simp_all add: identity_inv_def)
  note fields = evict_devices_fields [OF parts(2), of ev]
  have same: "ie_cfg ?s = ie_cfg s" "ie_next_proposal ?s = ie_next_proposal s"
    "ie_next_owner ?s = ie_next_owner s" "ie_owners ?s = ie_owners s"
    "ie_facts ?s = filter (\<lambda>(d, _). d \<notin> set ev) (ie_facts s)"
    "ie_edges ?s = filter (\<lambda>(_, e). ed_a e \<notin> set ev \<and> ed_b e \<notin> set ev) (ie_edges s)"
    by (simp_all add: evict_devices_def Let_def)
  have hm_ok_filter: "hm_ok m \<Longrightarrow> hm_ok (filter P m)" for m :: "('k, 'v) hmap" and P
    by (simp add: hm_ok_def distinct_map_filter)
  have "facts_ok ?s"
    using parts(1) hm_ok_filter unfolding facts_ok_def same
    by (auto intro: order_trans [OF length_filter_le])
  moreover have "owners_ok ?s"
    using parts(5) free unfolding owners_ok_def same fields(1) by simp
  moreover have "proposals_ok ?s"
    using parts(2) unfolding proposals_ok_def same fields(1,2)
    by (auto simp: increasing_def sorted_wrt_filter intro: order_trans [OF length_filter_le])
  moreover have "edges_ok ?s"
  proof -
    have ok: "hm_ok (ie_edges s)" using parts(3) by (simp add: edges_ok_def)
    have "hm_get (ie_edges ?s) k = Some e \<longleftrightarrow> hm_get (ie_edges s) k = Some e \<and> ed_a e \<notin> set ev \<and> ed_b e \<notin> set ev"
      for k e
      using hm_ok_filter [OF ok] by (simp add: same(6) hm_get_Some_iff [OF ok] hm_get_Some_iff)
    moreover have "length (ie_edges ?s) \<le> ic_max_merge_edges (ie_cfg s)"
      using parts(3) unfolding edges_ok_def same(6) by (auto intro: order_trans [OF length_filter_le])
    ultimately show ?thesis
      using parts(3) hm_ok_filter [OF ok] unfolding edges_ok_def same fields(2)
      by (auto simp: edge_of_def)
  qed
  moreover have "audit_ok ?s"
  proof -
    have uniq: "p = q" if "p \<in> set (ie_proposals s)" "q \<in> set (ie_proposals s)" "mp_id p = mp_id q" for p q
      using that increasing_distinct [of mp_id "ie_proposals s"] parts(2)
      by (auto simp: proposals_ok_def distinct_map dest: inj_onD)
    have "filter (\<lambda>a. au_proposal_id a = mp_id p) (ie_audit ?s)
        = filter (\<lambda>a. au_proposal_id a = mp_id p) (ie_audit s)"
      if "p \<in> set (ie_proposals ?s)" for p
    proof -
      have "\<forall>q \<in> set (ie_proposals s). mp_id q = mp_id p \<longrightarrow> ?keep q"
        using that uniq unfolding fields(2) by (metis (mono_tags, lifting) mem_Collect_eq set_filter)
      then show ?thesis unfolding fields(3) filter_filter by (intro filter_cong) auto
    qed
    moreover have "au_proposal_id a \<in> mp_id ` set (ie_proposals ?s)" if "a \<in> set (ie_audit ?s)" for a
      using that parts(4) unfolding fields(2,3) audit_ok_def by (auto simp: image_iff) metis
    moreover have "length (ie_audit ?s) \<le> ic_max_audit_records (ie_cfg s)"
      using parts(4) unfolding audit_ok_def fields(3) by (auto intro: order_trans [OF length_filter_le])
    ultimately show ?thesis
      using parts(4) unfolding audit_ok_def same by (simp add: fields(2))
  qed
  ultimately show ?thesis using parts by (simp add: identity_inv_def same)
qed

lemma evict_stale_inv:
  assumes inv: "identity_inv cfg s" and run: "evict_stale_at cal to_string s now retention = (res, s')"
  shows "identity_inv cfg s'"
  using run
proof (cases rule: evict_stale_run)
  case (evicted cutoff comps ev)
  have "\<forall>r \<in> set (ie_owners s). ow_device_id r \<notin> set ev"
    unfolding collect_stale_members [OF evicted(3)] evictable_def list_ex_iff by blast
  with evict_devices_inv [OF inv] show ?thesis by (simp add: evicted(5))
qed (use inv in simp_all)

section \<open>The system\<close>

lemma identity_step_inv:
  assumes "identity_inv cfg s" and "identity_step cal to_string s s'"
  shows "identity_inv cfg s'"
  using assms(2,1)
  by cases (metis observe_at_inv, metis add_facts_at_inv, metis owner_inv, metis propose_merge_inv,
      metis decide_inv, metis undo_inv, metis evict_stale_inv)

end
