(* ===== verification/Identity_Checkpoint.thy ===== *)
theory Identity_Checkpoint
  imports Identity
begin

text \<open>
  The checkpoint format of the identity engine. \<open>identity_checkpoint_of\<close> writes the engine with its
  two maps in a stable order; \<open>identity_from_checkpoint\<close> validates and rebuilds it. Each loop of
  \<open>from_checkpoint\<close> is one function below, with the tests in the order of the source;
  \<open>and_then\<close> is the question mark operator.
\<close>

section \<open>The format\<close>

record identity_checkpoint_edge =
  ce_proposal_id :: u64
  ce_left :: device_id
  ce_right :: device_id
  ce_active :: bool

record identity_checkpoint =
  ik_version :: u16
  ik_ids :: "device_id list"
  ik_facts :: "(device_id \<times> evidence_fact list) list"
  ik_proposals :: "merge_proposal list"
  ik_edges :: "identity_checkpoint_edge list"
  ik_audit :: "audit_record list"
  ik_owners :: "owner_audit_record list"
  ik_next_proposal :: u64
  ik_next_owner :: u64

definition checkpoint_edge :: "u64 \<times> merge_edge \<Rightarrow> identity_checkpoint_edge" where
  "checkpoint_edge x = (case x of (k, e) \<Rightarrow>
     \<lparr> ce_proposal_id = k, ce_left = ed_a e, ce_right = ed_b e, ce_active = ed_active e \<rparr>)"

definition identity_checkpoint_of :: "(device_id \<Rightarrow> string) \<Rightarrow> identity_engine \<Rightarrow> identity_checkpoint" where
  "identity_checkpoint_of to_string s =
     \<lparr> ik_version = 1, ik_ids = ie_ids s,
       ik_facts = sort_key (\<lambda>x. to_string (fst x)) (ie_facts s),
       ik_proposals = ie_proposals s,
       ik_edges = sort_key ce_proposal_id (map checkpoint_edge (ie_edges s)),
       ik_audit = ie_audit s, ik_owners = ie_owners s,
       ik_next_proposal = ie_next_proposal s, ik_next_owner = ie_next_owner s \<rparr>"

section \<open>Validation\<close>

abbreviation refuse :: "string \<Rightarrow> identity_error + 'a" where
  "refuse why \<equiv> Inl (IdentityInvalidCheckpoint why)"

fun restore_facts ::
  "identity_config \<Rightarrow> (device_id \<times> evidence_fact list) list \<Rightarrow> device_id list
     \<Rightarrow> (device_id, evidence_fact list) hmap \<Rightarrow> identity_error + (device_id, evidence_fact list) hmap" where
  "restore_facts cfg [] known_ids facts = Inr facts"
| "restore_facts cfg ((i, fs) # rest) known_ids facts =
     (if i \<in> set known_ids \<or> ic_max_facts_per_device cfg < length fs then refuse ''duplicate or facts''
      else and_then (prepare cfg fs) (\<lambda>fs'.
        if list_ex (\<lambda>f. is_some_and (ef_expires_at f) (\<lambda>x. x < ef_observed_at f)) fs'
        then refuse ''fact time''
        else restore_facts cfg rest (i # known_ids) (hm_insert i fs' facts)))"

fun check_proposals :: "device_id set \<Rightarrow> merge_proposal list \<Rightarrow> identity_error + unit" where
  "check_proposals fact_ids [] = Inr ()"
| "check_proposals fact_ids (p # ps) =
     (if mp_id p = 0 \<or> mp_left p \<notin> fact_ids \<or> mp_right p \<notin> fact_ids \<or> mp_left p = mp_right p
      then refuse ''proposal''
      else and_then (validprop (mp_score p) (mp_families p) (mp_reasons p)) (\<lambda>_. check_proposals fact_ids ps))"

fun check_sequence :: "u64 \<Rightarrow> merge_proposal list \<Rightarrow> identity_error + u64" where
  "check_sequence last_id [] = Inr last_id"
| "check_sequence last_id (p # ps) =
     (if mp_id p \<le> last_id then refuse ''proposal sequence'' else check_sequence (mp_id p) ps)"

fun restore_edges ::
  "device_id set \<Rightarrow> identity_checkpoint_edge list \<Rightarrow> (u64, merge_edge) hmap
     \<Rightarrow> identity_error + (u64, merge_edge) hmap" where
  "restore_edges fact_ids [] edges = Inr edges"
| "restore_edges fact_ids (e # es) edges =
     (if hm_contains edges (ce_proposal_id e) \<or> ce_left e \<notin> fact_ids \<or> ce_right e \<notin> fact_ids
      then refuse ''edge''
      else restore_edges fact_ids es (hm_insert (ce_proposal_id e)
             \<lparr> ed_a = ce_left e, ed_b = ce_right e, ed_active = ce_active e \<rparr> edges))"

fun check_owners ::
  "identity_config \<Rightarrow> device_id set \<Rightarrow> u64 \<Rightarrow> owner_audit_record list \<Rightarrow> identity_error + u64" where
  "check_owners cfg fact_ids seq [] = Inr seq"
| "check_owners cfg fact_ids seq (r # rs) =
     (if ow_sequence r = 0 \<or> ow_sequence r \<le> seq \<or> ow_device_id r \<notin> fact_ids
         \<or> ow_key r = [] \<or> ic_max_key_len cfg < length (ow_key r)
         \<or> is_some_and (ow_value r) (\<lambda>v. v = [] \<or> ic_max_value_len cfg < length v)
         \<or> ow_key r \<notin> OWNER_KEYS
      then refuse ''owner audit''
      else check_owners cfg fact_ids (ow_sequence r) rs)"

text \<open>The status of a proposal according to the audit records read so far.\<close>

definition audited :: "(u64, proposal_status) hmap \<Rightarrow> u64 \<Rightarrow> proposal_status" where
  "audited prior k = (case hm_get prior k of None \<Rightarrow> ProposalPending | Some st \<Rightarrow> st)"

definition audit_step_ok :: "proposal_status \<Rightarrow> proposal_status \<Rightarrow> bool" where
  "audit_step_ok before action \<longleftrightarrow>
     before = ProposalPending \<and> action \<in> {ProposalAccepted, ProposalRejected}
     \<or> before = ProposalAccepted \<and> action = ProposalUndone"

fun check_audit ::
  "merge_proposal list \<Rightarrow> audit_record list \<Rightarrow> (u64, proposal_status) hmap
     \<Rightarrow> identity_error + (u64, proposal_status) hmap" where
  "check_audit ps [] prior = Inr prior"
| "check_audit ps (a # rest) prior =
     (case find (\<lambda>p. mp_id p = au_proposal_id a) ps of
        None \<Rightarrow> refuse ''audit target''
      | Some p \<Rightarrow>
          if \<not> audit_step_ok (audited prior (au_proposal_id a)) (au_action a)
             \<or> mp_status p \<noteq> au_action a
               \<and> \<not> (au_action a = ProposalAccepted \<and> mp_status p = ProposalUndone)
          then refuse ''audit chronology''
          else check_audit ps rest (hm_insert (au_proposal_id a) (au_action a) prior))"

fun check_edges :: "merge_proposal list \<Rightarrow> (u64, merge_edge) hmap \<Rightarrow> identity_error + unit" where
  "check_edges ps [] = Inr ()"
| "check_edges ps ((k, e) # rest) =
     (case find (\<lambda>p. mp_id p = k) ps of
        None \<Rightarrow> refuse ''edge target''
      | Some p \<Rightarrow>
          if ed_active e \<noteq> (mp_status p = ProposalAccepted) \<or> ed_a e \<noteq> mp_left p \<or> ed_b e \<noteq> mp_right p
             \<or> mp_status p \<notin> {ProposalAccepted, ProposalUndone}
          then refuse ''edge status''
          else check_edges ps rest)"

fun check_proposal_edges :: "merge_proposal list \<Rightarrow> (u64, merge_edge) hmap \<Rightarrow> identity_error + unit" where
  "check_proposal_edges [] edges = Inr ()"
| "check_proposal_edges (p # ps) edges =
     (if mp_status p = ProposalAccepted \<and> \<not> hm_contains edges (mp_id p) then refuse ''accepted edge''
      else if mp_status p = ProposalUndone \<and> \<not> hm_contains edges (mp_id p) then refuse ''undone edge''
      else if mp_status p \<in> {ProposalPending, ProposalRejected} \<and> hm_contains edges (mp_id p)
      then refuse ''unexpected edge''
      else check_proposal_edges ps edges)"

text \<open>The tests before the first loop, and those that relate proposals, edges and audit.\<close>

definition check_header :: "identity_config \<Rightarrow> identity_checkpoint \<Rightarrow> identity_error + unit" where
  "check_header cfg c =
     (if ik_version c \<noteq> 1 then refuse ''version''
      else if ik_next_proposal c = 0 \<or> ik_next_owner c = 0
              \<or> ic_max_devices cfg < length (ik_ids c) \<or> ic_max_devices cfg < length (ik_facts c)
              \<or> ic_max_proposals cfg < length (ik_proposals c) \<or> ic_max_merge_edges cfg < length (ik_edges c)
              \<or> ic_max_audit_records cfg < length (ik_audit c) \<or> ic_max_audit_records cfg < length (ik_owners c)
      then refuse ''capacity or sequence''
      else if \<not> distinct (ik_ids c) then refuse ''duplicate id''
      else Inr ())"

definition check_decisions ::
  "merge_proposal list \<Rightarrow> (u64, merge_edge) hmap \<Rightarrow> audit_record list \<Rightarrow> identity_error + unit" where
  "check_decisions ps edges audit =
     and_then (check_audit ps audit []) (\<lambda>prior.
       if list_ex (\<lambda>p. audited prior (mp_id p) \<noteq> mp_status p) ps then refuse ''proposal audit state''
       else and_then (check_edges ps edges) (\<lambda>_. check_proposal_edges ps edges))"

definition identity_from_checkpoint ::
  "identity_config \<Rightarrow> identity_checkpoint \<Rightarrow> identity_error + identity_engine" where
  "identity_from_checkpoint cfg c =
     and_then (valid_config cfg) (\<lambda>_.
     and_then (check_header cfg c) (\<lambda>_.
     and_then (restore_facts cfg (ik_facts c) (ik_ids c) []) (\<lambda>facts.
       let fact_ids = fst ` set facts in
       if is_none_or (usize_checked (length facts + length (ik_ids c))) (\<lambda>n. ic_max_devices cfg < n)
       then refuse ''device capacity''
       else
     and_then (check_proposals fact_ids (ik_proposals c)) (\<lambda>_.
     and_then (check_sequence 0 (ik_proposals c)) (\<lambda>last_id.
     and_then (restore_edges fact_ids (ik_edges c) []) (\<lambda>edges.
     and_then (check_owners cfg fact_ids 0 (ik_owners c)) (\<lambda>seq.
       if ik_next_owner c \<le> seq \<or> ik_next_proposal c \<le> last_id then refuse ''next sequence''
       else
     and_then (check_decisions (ik_proposals c) edges (ik_audit c)) (\<lambda>_.
       Inr \<lparr> ie_cfg = cfg, ie_ids = ik_ids c, ie_facts = facts, ie_proposals = ik_proposals c,
             ie_edges = edges, ie_audit = ik_audit c, ie_owners = ik_owners c,
             ie_next_proposal = ik_next_proposal c, ie_next_owner = ik_next_owner c \<rparr>))))))))"

end
