(* ===== verification/Identity_System.thy ===== *)
theory Identity_System
  imports Identity_Engine Identity_Checkpoint
begin

text \<open>
  The reachable identity engines: those that start empty or from an accepted checkpoint. The
  checks of \<open>identity_from_checkpoint\<close> are shown to be exactly the invariant of the engine together with
  a few conditions of their own, so restored engines have every property of the reachable ones.
\<close>

section \<open>What the loops check\<close>

definition timely :: "evidence_fact \<Rightarrow> bool" where
  "timely f \<longleftrightarrow> is_none_or (ef_expires_at f) (\<lambda>x. ef_observed_at f \<le> x)"

definition restorable_facts :: "identity_config \<Rightarrow> evidence_fact list \<Rightarrow> bool" where
  "restorable_facts cfg fs \<longleftrightarrow> length fs \<le> ic_max_facts_per_device cfg
     \<and> (\<exists>fs'. prepare cfg fs = Inr fs' \<and> (\<forall>f \<in> set fs'. timely f))"

definition prepared :: "identity_config \<Rightarrow> device_id \<times> evidence_fact list \<Rightarrow> device_id \<times> evidence_fact list" where
  "prepared cfg x = (fst x, projr (prepare cfg (snd x)))"

lemma restore_facts_Inr:
  assumes "fst ` set facts \<subseteq> set known_ids"
  shows "restore_facts cfg xs known_ids facts = Inr facts' \<longleftrightarrow>
    distinct (map fst xs) \<and> fst ` set xs \<inter> set known_ids = {} \<and> (\<forall>x \<in> set xs. restorable_facts cfg (snd x))
    \<and> facts' = facts @ map (prepared cfg) xs"
  using assms
proof (induction xs arbitrary: known_ids facts)
  case (Cons x xs)
  obtain i fs where x: "x = (i, fs)" by fastforce
  show ?case
  proof (cases "i \<notin> set known_ids \<and> restorable_facts cfg fs")
    case True
    then obtain fs' where fs': "prepare cfg fs = Inr fs'" "\<forall>f \<in> set fs'. timely f"
      by (auto simp: restorable_facts_def)
    have late: "\<not> list_ex (\<lambda>f. is_some_and (ef_expires_at f) (\<lambda>x. x < ef_observed_at f)) fs'"
      using fs'(2) by (auto simp: list_ex_iff timely_def split: option.splits)
    have "\<not> hm_contains facts i" using True Cons.prems by (auto simp: hm_contains_iff)
    then have "restore_facts cfg (x # xs) known_ids facts
        = restore_facts cfg xs (i # known_ids) (facts @ [prepared cfg x])"
      using True late fs'(1)
      by (simp add: x prepared_def hm_insert_absent and_then_def restorable_facts_def not_less)
    moreover have "fst ` set (facts @ [prepared cfg x]) \<subseteq> set (i # known_ids)"
      using Cons.prems by (auto simp: prepared_def x)
    ultimately show ?thesis using Cons.IH True by (auto simp: x)
  next
    case False
    then have "restore_facts cfg (x # xs) known_ids facts \<noteq> Inr facts'"
      by (auto simp: x restorable_facts_def timely_def list_ex_iff not_less split: option.splits if_splits)
    with False show ?thesis by (auto simp: x)
  qed
qed auto

lemma check_proposals_Inr:
  "check_proposals fact_ids ps = Inr () \<longleftrightarrow> (\<forall>p \<in> set ps. mp_id p \<noteq> 0 \<and> mp_left p \<in> fact_ids \<and> mp_right p \<in> fact_ids
     \<and> mp_left p \<noteq> mp_right p \<and> validprop (mp_score p) (mp_families p) (mp_reasons p) = Inr ())"
  by (induction ps) auto

lemma check_sequence_Inr:
  "(\<exists>l. check_sequence k ps = Inr l \<and> l < n) \<longleftrightarrow>
     increasing mp_id ps \<and> k < n \<and> (\<forall>p \<in> set ps. k < mp_id p \<and> mp_id p < n)"
proof (induction ps arbitrary: k)
  case (Cons p ps)
  then show ?case by (cases "mp_id p \<le> k") (auto simp: increasing_def not_le dest: order_less_trans)
qed simp

lemma check_owners_Inr:
  "(\<exists>l. check_owners cfg fact_ids k rs = Inr l \<and> l < n) \<longleftrightarrow>
     increasing ow_sequence rs \<and> k < n \<and> (\<forall>r \<in> set rs. k < ow_sequence r \<and> ow_sequence r < n
       \<and> ow_device_id r \<in> fact_ids \<and> ow_key r \<in> OWNER_KEYS \<and> length (ow_key r) \<le> ic_max_key_len cfg
       \<and> owner_text_ok cfg (ow_value r))"
proof (induction rs arbitrary: k)
  case (Cons r rs)
  let ?ok = "k < ow_sequence r \<and> ow_device_id r \<in> fact_ids \<and> ow_key r \<in> OWNER_KEYS
    \<and> length (ow_key r) \<le> ic_max_key_len cfg \<and> owner_text_ok cfg (ow_value r)"
  have "[] \<notin> OWNER_KEYS" by (simp add: OWNER_KEYS_def)
  moreover have "0 < ow_sequence r" if "k < ow_sequence r" using that by (metis order_le_less_trans word_zero_le)
  ultimately have step: "check_owners cfg fact_ids k (r # rs)
      = (if ?ok then check_owners cfg fact_ids (ow_sequence r) rs else refuse ''owner audit'')"
    by (auto simp: owner_text_ok_def not_le not_less split: option.splits)
  show ?case
  proof (cases ?ok)
    case True
    with step Cons.IH [of "ow_sequence r"] show ?thesis
      by (auto simp: increasing_def dest: order_less_trans)
  next
    case False
    with step show ?thesis by auto
  qed
qed simp

definition restored_edge :: "identity_checkpoint_edge \<Rightarrow> u64 \<times> merge_edge" where
  "restored_edge e = (ce_proposal_id e, \<lparr> ed_a = ce_left e, ed_b = ce_right e, ed_active = ce_active e \<rparr>)"

lemma restore_edges_Inr:
  "restore_edges fact_ids es edges = Inr edges' \<longleftrightarrow>
     distinct (map ce_proposal_id es) \<and> (\<forall>e \<in> set es. \<not> hm_contains edges (ce_proposal_id e)
       \<and> ce_left e \<in> fact_ids \<and> ce_right e \<in> fact_ids)
     \<and> edges' = edges @ map restored_edge es"
proof (induction es arbitrary: edges)
  case (Cons e es)
  show ?case
  proof (cases "hm_contains edges (ce_proposal_id e) \<or> ce_left e \<notin> fact_ids \<or> ce_right e \<notin> fact_ids")
    case False
    have grown: "hm_contains (edges @ [restored_edge e]) k \<longleftrightarrow> hm_contains edges k \<or> k = ce_proposal_id e" for k
      by (auto simp: hm_contains_iff restored_edge_def)
    have step: "restore_edges fact_ids (e # es) edges = restore_edges fact_ids es (edges @ [restored_edge e])"
      using False by (simp add: hm_insert_absent restored_edge_def)
    have "ce_proposal_id e \<notin> ce_proposal_id ` set es \<longleftrightarrow> (\<forall>x \<in> set es. ce_proposal_id x \<noteq> ce_proposal_id e)"
      by (auto simp: image_iff)
    then show ?thesis unfolding step Cons.IH grown using False by auto
  qed auto
qed auto

lemma audit_step_trail: "audit_step_ok before action \<Longrightarrow> trail action = trail before @ [action]"
  by (auto simp: audit_step_ok_def)

lemma trail_step:
  "trail before @ action # later = trail status \<Longrightarrow>
     audit_step_ok before action \<and> (status = action \<or> action = ProposalAccepted \<and> status = ProposalUndone)"
  by (cases before; cases status; cases action) (auto simp: audit_step_ok_def Cons_eq_append_conv)

lemma audited_insert: "audited (hm_insert k st prior) j = (if j = k then st else audited prior j)"
  by (simp add: audited_def)

abbreviation actions_on :: "u64 \<Rightarrow> audit_record list \<Rightarrow> proposal_status list" where
  "actions_on k as \<equiv> map au_action (filter (\<lambda>a. au_proposal_id a = k) as)"

lemma check_audit_sound:
  "check_audit ps as prior = Inr prior' \<Longrightarrow>
     trail (audited prior' k) = trail (audited prior k) @ actions_on k as
     \<and> au_proposal_id ` set as \<subseteq> mp_id ` set ps"
proof (induction as arbitrary: prior)
  case (Cons a as)
  then obtain p where p: "find (\<lambda>p. mp_id p = au_proposal_id a) ps = Some p"
    "audit_step_ok (audited prior (au_proposal_id a)) (au_action a)"
    "check_audit ps as (hm_insert (au_proposal_id a) (au_action a) prior) = Inr prior'"
    by (auto split: option.splits if_splits)
  have "au_proposal_id a \<in> mp_id ` set ps" using find_SomeD [OF p(1)] by (metis imageI)
  with Cons.IH [OF p(3)] audit_step_trail [OF p(2)] show ?case by (simp add: audited_insert)
qed simp

lemma check_audit_complete:
  assumes "distinct (map mp_id ps)" and "au_proposal_id ` set as \<subseteq> mp_id ` set ps"
    and "\<forall>p \<in> set ps. trail (audited prior (mp_id p)) @ actions_on (mp_id p) as = trail (mp_status p)"
  shows "\<exists>prior'. check_audit ps as prior = Inr prior'"
  using assms(2,3)
proof (induction as arbitrary: prior)
  case (Cons a as)
  then obtain q where q: "q \<in> set ps" "mp_id q = au_proposal_id a" by auto
  then obtain p where p: "find (\<lambda>p. mp_id p = au_proposal_id a) ps = Some p"
    by (cases "find (\<lambda>p. mp_id p = au_proposal_id a) ps") (auto simp: find_None_iff)
  note ps = find_SomeD [OF p]
  have "trail (audited prior (au_proposal_id a)) @ au_action a # actions_on (mp_id p) as = trail (mp_status p)"
    using Cons.prems(2) ps by auto
  note step = trail_step [OF this]
  have "\<forall>p \<in> set ps. trail (audited (hm_insert (au_proposal_id a) (au_action a) prior) (mp_id p))
      @ actions_on (mp_id p) as = trail (mp_status p)"
  proof
    fix q assume "q \<in> set ps"
    then have "trail (audited prior (mp_id q)) @ actions_on (mp_id q) (a # as) = trail (mp_status q)"
      using Cons.prems(2) by blast
    then show "trail (audited (hm_insert (au_proposal_id a) (au_action a) prior) (mp_id q)) @ actions_on (mp_id q) as
        = trail (mp_status q)"
      using audit_step_trail [OF conjunct1 [OF step]]
      by (cases "mp_id q = au_proposal_id a") (simp_all add: audited_insert)
  qed
  with Cons.IH Cons.prems(1) have "\<exists>prior'. check_audit ps as (hm_insert (au_proposal_id a) (au_action a) prior) = Inr prior'"
    by auto
  with p step show ?case by auto
qed simp

lemma trail_inj: "trail a = trail b \<longleftrightarrow> a = b"
  by (cases a; cases b) simp_all

lemma check_audit_iff:
  assumes "distinct (map mp_id ps)"
  shows "(\<exists>prior. check_audit ps as [] = Inr prior \<and> (\<forall>p \<in> set ps. audited prior (mp_id p) = mp_status p)) \<longleftrightarrow>
    au_proposal_id ` set as \<subseteq> mp_id ` set ps \<and> (\<forall>p \<in> set ps. actions_on (mp_id p) as = trail (mp_status p))"
    (is "?l \<longleftrightarrow> ?r")
proof
  have none: "trail (audited [] k) = []" for k by (simp add: audited_def)
  show "?l \<Longrightarrow> ?r" using check_audit_sound [of ps as "[]"] none by (metis append_Nil)
  assume r: ?r
  then obtain prior where ok: "check_audit ps as [] = Inr prior"
    using check_audit_complete [OF assms, of as "[]"] none by auto
  have "audited prior (mp_id p) = mp_status p" if "p \<in> set ps" for p
    using check_audit_sound [OF ok, of "mp_id p"] none r that by (metis append_Nil trail_inj)
  with ok show ?l by blast
qed

lemma find_unique:
  assumes "distinct (map mp_id ps)" and "p \<in> set ps" and "mp_id p = k"
  shows "find (\<lambda>p. mp_id p = k) ps = Some p"
proof -
  obtain q where q: "find (\<lambda>p. mp_id p = k) ps = Some q"
    using assms(2,3) by (cases "find (\<lambda>p. mp_id p = k) ps") (auto simp: find_None_iff)
  from find_SomeD [OF this] assms have "q = p" by (auto simp: distinct_map dest: inj_onD)
  with q show ?thesis by simp
qed

lemma check_edges_Inr:
  assumes "distinct (map mp_id ps)"
  shows "check_edges ps edges = Inr () \<longleftrightarrow>
    (\<forall>(k, e) \<in> set edges. \<exists>p \<in> set ps. mp_id p = k \<and> has_edge p \<and> e = edge_of p)"
proof (induction edges)
  case (Cons x edges)
  obtain k e where x: "x = (k, e)" by fastforce
  show ?case
  proof (cases "find (\<lambda>p. mp_id p = k) ps")
    case None
    then have "\<forall>p \<in> set ps. mp_id p \<noteq> k" by (simp add: find_None_iff)
    with None show ?thesis by (simp add: x)
  next
    case (Some p)
    note p = find_SomeD [OF Some]
    have "q = p" if "q \<in> set ps" "mp_id q = k" for q
      using find_unique [OF assms that] Some by simp
    then have "(\<exists>q \<in> set ps. mp_id q = k \<and> has_edge q \<and> e = edge_of q) \<longleftrightarrow> has_edge p \<and> e = edge_of p"
      using p by blast
    moreover have "e = edge_of p \<longleftrightarrow> ed_a e = mp_left p \<and> ed_b e = mp_right p \<and> ed_active e = (mp_status p = ProposalAccepted)"
      by (cases e) (auto simp: edge_of_def)
    ultimately show ?thesis using Some Cons.IH by (auto simp: x has_edge_def)
  qed
qed simp

lemma check_proposal_edges_Inr:
  "check_proposal_edges ps edges = Inr () \<longleftrightarrow> (\<forall>p \<in> set ps. has_edge p \<longleftrightarrow> hm_contains edges (mp_id p))"
proof (induction ps)
  case (Cons p ps)
  then show ?case by (cases "mp_status p") (auto simp: has_edge_def)
qed simp

lemma check_decisions_Inr:
  assumes "distinct (map mp_id ps)" and "hm_ok edges"
  shows "check_decisions ps edges audit = Inr () \<longleftrightarrow>
    (au_proposal_id ` set audit \<subseteq> mp_id ` set ps \<and> (\<forall>p \<in> set ps. actions_on (mp_id p) audit = trail (mp_status p)))
    \<and> (\<forall>k e. hm_get edges k = Some e \<longleftrightarrow> (\<exists>p \<in> set ps. mp_id p = k \<and> has_edge p \<and> e = edge_of p))"
proof -
  have edges: "(\<forall>(k, e) \<in> set edges. \<exists>p \<in> set ps. mp_id p = k \<and> has_edge p \<and> e = edge_of p)
      \<and> (\<forall>p \<in> set ps. has_edge p \<longleftrightarrow> hm_contains edges (mp_id p)) \<longleftrightarrow>
      (\<forall>k e. hm_get edges k = Some e \<longleftrightarrow> (\<exists>p \<in> set ps. mp_id p = k \<and> has_edge p \<and> e = edge_of p))" (is "?l \<longleftrightarrow> ?r")
  proof
    have inj: "p = q" if "p \<in> set ps" "q \<in> set ps" "mp_id p = mp_id q" for p q
      using that assms(1) by (auto simp: distinct_map dest: inj_onD)
    assume r: ?r
    have "\<forall>(k, e) \<in> set edges. \<exists>p \<in> set ps. mp_id p = k \<and> has_edge p \<and> e = edge_of p"
      using r hm_get_Some_iff [OF assms(2)] by blast
    moreover have "has_edge p \<longleftrightarrow> hm_contains edges (mp_id p)" if "p \<in> set ps" for p
    proof
      assume "has_edge p"
      with r that have "hm_get edges (mp_id p) = Some (edge_of p)" by blast
      then show "hm_contains edges (mp_id p)" by (simp add: hm_contains_def)
    next
      assume "hm_contains edges (mp_id p)"
      then obtain e where "hm_get edges (mp_id p) = Some e" by (auto simp: hm_contains_def)
      with r obtain q where "q \<in> set ps" "mp_id q = mp_id p" "has_edge q" by blast
      with inj that show "has_edge p" by metis
    qed
    ultimately show ?l by blast
  next
    have inj: "p = q" if "p \<in> set ps" "q \<in> set ps" "mp_id p = mp_id q" for p q
      using that assms(1) by (auto simp: distinct_map dest: inj_onD)
    assume l: ?l
    show ?r
    proof (intro allI iffI)
      fix k e assume "hm_get edges k = Some e"
      then have "(k, e) \<in> set edges" by (rule hm_get_SomeD)
      with l show "\<exists>p \<in> set ps. mp_id p = k \<and> has_edge p \<and> e = edge_of p" by blast
    next
      fix k e assume "\<exists>p \<in> set ps. mp_id p = k \<and> has_edge p \<and> e = edge_of p"
      then obtain p where p: "p \<in> set ps" "mp_id p = k" "has_edge p" "e = edge_of p" by blast
      then obtain e' where e': "hm_get edges k = Some e'" using l unfolding hm_contains_def by blast
      have "(k, e') \<in> set edges" using e' by (rule hm_get_SomeD)
      then obtain q where q: "q \<in> set ps" "mp_id q = k" "e' = edge_of q" using l by blast
      have "q = p" using inj [OF q(1) p(1)] q(2) p(2) by simp
      with p q e' show "hm_get edges k = Some e" by simp
    qed
  qed
  have "check_decisions ps edges audit = Inr () \<longleftrightarrow>
      (\<exists>prior. check_audit ps audit [] = Inr prior \<and> (\<forall>p \<in> set ps. audited prior (mp_id p) = mp_status p))
      \<and> check_edges ps edges = Inr () \<and> check_proposal_edges ps edges = Inr ()"
    by (auto simp: check_decisions_def list_ex_iff)
  then show ?thesis
    unfolding check_audit_iff [OF assms(1)] check_edges_Inr [OF assms(1)] check_proposal_edges_Inr edges by blast
qed

section \<open>Acceptance\<close>

text \<open>The engine a checkpoint describes, and the tests that go beyond the invariant.\<close>

definition rebuilt :: "identity_config \<Rightarrow> identity_checkpoint \<Rightarrow> identity_engine" where
  "rebuilt cfg c =
     \<lparr> ie_cfg = cfg, ie_ids = ik_ids c, ie_facts = map (prepared cfg) (ik_facts c), ie_proposals = ik_proposals c,
       ie_edges = map restored_edge (ik_edges c), ie_audit = ik_audit c, ie_owners = ik_owners c,
       ie_next_proposal = ik_next_proposal c, ie_next_owner = ik_next_owner c \<rparr>"

definition ids_restorable :: "identity_config \<Rightarrow> identity_checkpoint \<Rightarrow> bool" where
  "ids_restorable cfg c \<longleftrightarrow> distinct (ik_ids c) \<and> set (ik_ids c) \<inter> fst ` set (ik_facts c) = {}
     \<and> length (ik_facts c) + length (ik_ids c) \<le> ic_max_devices cfg
     \<and> length (ik_facts c) + length (ik_ids c) < 2 ^ 64"

definition proposal_restorable :: "merge_proposal \<Rightarrow> bool" where
  "proposal_restorable p \<longleftrightarrow> mp_left p \<noteq> mp_right p \<and> validprop (mp_score p) (mp_families p) (mp_reasons p) = Inr ()"

definition acceptable :: "identity_config \<Rightarrow> identity_checkpoint \<Rightarrow> bool" where
  "acceptable cfg c \<longleftrightarrow> ik_version c = 1 \<and> ids_restorable cfg c
     \<and> (\<forall>x \<in> set (ik_facts c). restorable_facts cfg (snd x))
     \<and> (\<forall>p \<in> set (ik_proposals c). proposal_restorable p)
     \<and> (\<forall>r \<in> set (ik_owners c). length (ow_key r) \<le> ic_max_key_len cfg)"

lemma known_rebuilt: "known (rebuilt cfg c) = fst ` set (ik_facts c)"
  by (simp add: known_def rebuilt_def prepared_def image_image)

lemma hm_ok_rebuilt:
  "hm_ok (ie_facts (rebuilt cfg c)) \<longleftrightarrow> distinct (map fst (ik_facts c))"
  "hm_ok (ie_edges (rebuilt cfg c)) \<longleftrightarrow> distinct (map ce_proposal_id (ik_edges c))"
  by (simp_all add: hm_ok_def rebuilt_def prepared_def restored_edge_def comp_def)

lemma rebuilt_facts_ok:
  assumes "valid_config cfg = Inr ()" and "\<forall>x \<in> set (ik_facts c). restorable_facts cfg (snd x)"
  shows "facts_ok (rebuilt cfg c) \<longleftrightarrow> distinct (map fst (ik_facts c)) \<and> length (ik_facts c) \<le> ic_max_devices cfg"
proof -
  have "length fs \<le> ic_max_facts_per_device cfg \<and> (\<forall>f \<in> set fs. stored_ok cfg f)"
    if x: "(d, fs) \<in> set (ie_facts (rebuilt cfg c))" for d fs
  proof -
    obtain gs where gs: "restorable_facts cfg gs" "fs = projr (prepare cfg gs)"
      using x assms(2) by (auto simp: rebuilt_def prepared_def)
    then have "prepare cfg gs = Inr fs" "length gs \<le> ic_max_facts_per_device cfg"
      by (auto simp: restorable_facts_def)
    with prepare_stored [OF _ valid_config_cap [OF assms(1)]] show ?thesis by metis
  qed
  then show ?thesis by (auto simp: facts_ok_def hm_ok_rebuilt) (auto simp: rebuilt_def)
qed

lemma restored_edges_known:
  assumes "edges_ok s" and "proposals_ok s" and "(k, e) \<in> set (ie_edges s)"
  shows "ed_a e \<in> known s \<and> ed_b e \<in> known s"
proof -
  have "hm_ok (ie_edges s)" using assms(1) by (simp add: edges_ok_def)
  then have "hm_get (ie_edges s) k = Some e" using assms(3) by (simp add: hm_get_Some_iff)
  then obtain p where "p \<in> set (ie_proposals s)" "e = edge_of p" using assms(1) unfolding edges_ok_def by blast
  with assms(2) show ?thesis by (simp add: proposals_ok_def edge_of_def)
qed

lemma check_header_Inr:
  "check_header cfg c = Inr () \<longleftrightarrow> ik_version c = 1 \<and> 0 < ik_next_proposal c \<and> 0 < ik_next_owner c
     \<and> length (ik_ids c) \<le> ic_max_devices cfg \<and> length (ik_facts c) \<le> ic_max_devices cfg
     \<and> length (ik_proposals c) \<le> ic_max_proposals cfg \<and> length (ik_edges c) \<le> ic_max_merge_edges cfg
     \<and> length (ik_audit c) \<le> ic_max_audit_records cfg \<and> length (ik_owners c) \<le> ic_max_audit_records cfg
     \<and> distinct (ik_ids c)"
  by (auto simp: check_header_def not_less word_neq_0_conv)

lemma from_checkpoint_steps:
  "identity_from_checkpoint cfg c = Inr s \<longleftrightarrow>
     valid_config cfg = Inr () \<and> check_header cfg c = Inr ()
     \<and> restore_facts cfg (ik_facts c) (ik_ids c) [] = Inr (ie_facts (rebuilt cfg c))
     \<and> length (ik_facts c) + length (ik_ids c) \<le> ic_max_devices cfg \<and> length (ik_facts c) + length (ik_ids c) < 2 ^ 64
     \<and> check_proposals (known (rebuilt cfg c)) (ik_proposals c) = Inr ()
     \<and> restore_edges (known (rebuilt cfg c)) (ik_edges c) [] = Inr (ie_edges (rebuilt cfg c))
     \<and> (\<exists>l. check_sequence 0 (ik_proposals c) = Inr l \<and> l < ik_next_proposal c)
     \<and> (\<exists>l. check_owners cfg (known (rebuilt cfg c)) 0 (ik_owners c) = Inr l \<and> l < ik_next_owner c)
     \<and> check_decisions (ik_proposals c) (ie_edges (rebuilt cfg c)) (ik_audit c) = Inr ()
     \<and> s = rebuilt cfg c" (is "?l \<longleftrightarrow> ?r")
proof -
  have facts: "restore_facts cfg (ik_facts c) (ik_ids c) [] = Inr facts \<Longrightarrow> facts = ie_facts (rebuilt cfg c)" for facts
    by (simp add: restore_facts_Inr rebuilt_def)
  have edges: "restore_edges (fst ` set (ie_facts (rebuilt cfg c))) (ik_edges c) [] = Inr edges \<Longrightarrow>
      edges = ie_edges (rebuilt cfg c)" for edges
    by (simp add: restore_edges_Inr rebuilt_def)
  have eng: "rebuilt cfg c = \<lparr> ie_cfg = cfg, ie_ids = ik_ids c, ie_facts = ie_facts (rebuilt cfg c),
      ie_proposals = ik_proposals c, ie_edges = ie_edges (rebuilt cfg c), ie_audit = ik_audit c,
      ie_owners = ik_owners c, ie_next_proposal = ik_next_proposal c, ie_next_owner = ik_next_owner c \<rparr>"
    by (simp add: rebuilt_def)
  have len: "length (ie_facts (rebuilt cfg c)) = length (ik_facts c)" by (simp add: rebuilt_def)
  show ?thesis
  proof
    assume ?l
    then show ?r
      unfolding identity_from_checkpoint_def Let_def and_then_Inr known_def
      using eng facts edges len
      by (fastforce simp: usize_checked_def not_le not_less split: if_splits)
  next
    assume ?r
    then show ?l
      unfolding identity_from_checkpoint_def Let_def and_then_Inr known_def
      using eng len
      by (fastforce simp: usize_checked_def not_le not_less)
  qed
qed

lemma from_checkpoint_accepted:
  assumes "identity_from_checkpoint cfg c = Inr s"
  shows "acceptable cfg c \<and> identity_inv cfg (rebuilt cfg c) \<and> s = rebuilt cfg c"
proof -
  let ?s = "rebuilt cfg c"
  note run = assms [unfolded from_checkpoint_steps]
  have header: "ik_version c = 1" "0 < ik_next_proposal c" "0 < ik_next_owner c" "distinct (ik_ids c)"
    "length (ik_facts c) \<le> ic_max_devices cfg" "length (ik_proposals c) \<le> ic_max_proposals cfg"
    "length (ik_edges c) \<le> ic_max_merge_edges cfg" "length (ik_audit c) \<le> ic_max_audit_records cfg"
    "length (ik_owners c) \<le> ic_max_audit_records cfg"
    using run unfolding check_header_Inr by simp_all
  have facts: "distinct (map fst (ik_facts c))" "fst ` set (ik_facts c) \<inter> set (ik_ids c) = {}"
    "\<forall>x \<in> set (ik_facts c). restorable_facts cfg (snd x)"
    using run by (simp_all add: restore_facts_Inr)
  have props: "\<forall>p \<in> set (ik_proposals c). mp_left p \<in> known ?s \<and> mp_right p \<in> known ?s \<and> proposal_restorable p"
    using run by (simp add: check_proposals_Inr proposal_restorable_def)
  have seq: "increasing mp_id (ik_proposals c)" "\<forall>p \<in> set (ik_proposals c). 0 < mp_id p \<and> mp_id p < ik_next_proposal c"
    using run unfolding check_sequence_Inr by simp_all
  have owners: "increasing ow_sequence (ik_owners c)"
    "\<forall>r \<in> set (ik_owners c). 0 < ow_sequence r \<and> ow_sequence r < ik_next_owner c \<and> ow_device_id r \<in> known ?s
       \<and> ow_key r \<in> OWNER_KEYS \<and> length (ow_key r) \<le> ic_max_key_len cfg \<and> owner_text_ok cfg (ow_value r)"
    using run unfolding check_owners_Inr by simp_all
  have edges: "hm_ok (ie_edges ?s)" unfolding hm_ok_rebuilt using run unfolding restore_edges_Inr by blast
  have fields: "ie_cfg ?s = cfg" "ie_proposals ?s = ik_proposals c" "ie_next_proposal ?s = ik_next_proposal c"
    "ie_owners ?s = ik_owners c" "ie_next_owner ?s = ik_next_owner c" "ie_audit ?s = ik_audit c"
    "length (ie_edges ?s) = length (ik_edges c)"
    by (simp_all add: rebuilt_def)
  have decided: "(au_proposal_id ` set (ik_audit c) \<subseteq> mp_id ` set (ik_proposals c)
      \<and> (\<forall>p \<in> set (ik_proposals c). actions_on (mp_id p) (ik_audit c) = trail (mp_status p)))
    \<and> (\<forall>k e. hm_get (ie_edges ?s) k = Some e \<longleftrightarrow> (\<exists>p \<in> set (ik_proposals c). mp_id p = k \<and> has_edge p \<and> e = edge_of p))"
    using run check_decisions_Inr [OF increasing_distinct [OF seq(1)] edges] by blast
  have "facts_ok ?s" using rebuilt_facts_ok facts header(5) run by blast
  moreover have "proposals_ok ?s" using seq props header by (simp add: proposals_ok_def fields)
  moreover have "edges_ok ?s" using edges decided header(7) by (simp add: edges_ok_def fields)
  moreover have "audit_ok ?s" using decided header(8) by (auto simp: audit_ok_def fields)
  moreover have "owners_ok ?s" using owners header by (simp add: owners_ok_def fields)
  ultimately have "identity_inv cfg ?s" using run by (simp add: identity_inv_def fields)
  moreover have "acceptable cfg c"
    using header facts props owners run by (auto simp: acceptable_def ids_restorable_def)
  ultimately show ?thesis using run by blast
qed

lemma from_checkpoint_accepts:
  assumes "acceptable cfg c" and "identity_inv cfg (rebuilt cfg c)"
  shows "identity_from_checkpoint cfg c = Inr (rebuilt cfg c)"
proof -
  let ?s = "rebuilt cfg c"
  have fields: "ie_cfg ?s = cfg" "ie_proposals ?s = ik_proposals c" "ie_next_proposal ?s = ik_next_proposal c"
    "ie_owners ?s = ik_owners c" "ie_next_owner ?s = ik_next_owner c" "ie_audit ?s = ik_audit c"
    "length (ie_edges ?s) = length (ik_edges c)" "length (ie_facts ?s) = length (ik_facts c)"
    by (simp_all add: rebuilt_def)
  have inv: "facts_ok ?s" "proposals_ok ?s" "edges_ok ?s" "audit_ok ?s" "owners_ok ?s" "valid_config cfg = Inr ()"
    using assms(2) by (simp_all add: identity_inv_def)
  have ok: "ik_version c = 1" "ids_restorable cfg c" "\<forall>x \<in> set (ik_facts c). restorable_facts cfg (snd x)"
    "\<forall>p \<in> set (ik_proposals c). proposal_restorable p" "\<forall>r \<in> set (ik_owners c). length (ow_key r) \<le> ic_max_key_len cfg"
    using assms(1) by (simp_all add: acceptable_def)
  have hdr: "check_header cfg c = Inr ()"
    using inv ok(1,2) by (simp add: check_header_Inr ids_restorable_def facts_ok_def proposals_ok_def edges_ok_def
        audit_ok_def owners_ok_def fields)
  have "distinct (map fst (ik_facts c))" using inv(1) unfolding facts_ok_def hm_ok_rebuilt by blast
  then have facts: "restore_facts cfg (ik_facts c) (ik_ids c) [] = Inr (ie_facts ?s)"
    using ok(2,3) by (auto simp: restore_facts_Inr ids_restorable_def rebuilt_def)
  have props: "check_proposals (known ?s) (ik_proposals c) = Inr ()"
    using inv(2) ok(4) by (auto simp: check_proposals_Inr proposals_ok_def proposal_restorable_def fields)
  have seq: "\<exists>l. check_sequence 0 (ik_proposals c) = Inr l \<and> l < ik_next_proposal c"
    unfolding check_sequence_Inr using inv(2) by (simp add: proposals_ok_def fields)
  have owners: "\<exists>l. check_owners cfg (known ?s) 0 (ik_owners c) = Inr l \<and> l < ik_next_owner c"
    unfolding check_owners_Inr using inv(5) ok(5) by (simp add: owners_ok_def fields)
  have ends: "ce_left e \<in> known ?s \<and> ce_right e \<in> known ?s" if "e \<in> set (ik_edges c)" for e
  proof -
    have "restored_edge e \<in> set (ie_edges ?s)" using that by (simp add: rebuilt_def)
    then show ?thesis using restored_edges_known [OF inv(3,2)] by (fastforce simp: restored_edge_def)
  qed
  have edges: "restore_edges (known ?s) (ik_edges c) [] = Inr (ie_edges ?s)"
    using inv(3) ends by (simp add: restore_edges_Inr edges_ok_def hm_ok_rebuilt hm_contains_def)
      (simp add: rebuilt_def)
  have distinct: "distinct (map mp_id (ik_proposals c))" and hm: "hm_ok (ie_edges ?s)"
    using inv(2,3) increasing_distinct by (auto simp: proposals_ok_def edges_ok_def fields)
  have "check_decisions (ik_proposals c) (ie_edges ?s) (ik_audit c) = Inr ()"
    using inv(3,4) unfolding check_decisions_Inr [OF distinct hm] edges_ok_def audit_ok_def fields by blast
  with inv(6) hdr facts props seq owners edges ok(2) show ?thesis
    unfolding from_checkpoint_steps by (simp add: ids_restorable_def)
qed

section \<open>The system\<close>

definition identity_init :: "identity_config \<Rightarrow> identity_engine \<Rightarrow> bool" where
  "identity_init cfg s \<longleftrightarrow> (\<exists>ids. new_identity cfg ids = Inr s) \<or> (\<exists>c. identity_from_checkpoint cfg c = Inr s)"

abbreviation identity_reachable ::
  "calendar \<Rightarrow> (device_id \<Rightarrow> string) \<Rightarrow> identity_config \<Rightarrow> identity_engine \<Rightarrow> bool" where
  "identity_reachable cal to_string cfg \<equiv> reachable (identity_init cfg) (identity_step cal to_string)"

lemma new_identity_inv: "new_identity cfg ids = Inr s \<Longrightarrow> identity_inv cfg s"
  by (cases "valid_config cfg") (auto simp: new_identity_def identity_inv_def facts_ok_def
      proposals_ok_def edges_ok_def audit_ok_def owners_ok_def)

interpretation identity_system: invariant_system "identity_init cfg" "identity_step cal to_string" "identity_inv cfg"
  for cfg cal to_string
proof unfold_locales
  fix s assume "identity_init cfg s"
  then show "identity_inv cfg s"
    unfolding identity_init_def using new_identity_inv from_checkpoint_accepted by blast
qed (rule identity_step_inv)

end
