(* ===== verification/Identity_Properties.thy ===== *)
theory Identity_Properties
  imports Identity_System
begin

text \<open>
  The properties of the identity engine: connected components and their names, merge decisions
  and their undoing, correlation, identification, owner precedence, failures, bounds and
  eviction, with a small engine on which each of them is applied.
\<close>

section \<open>A sample engine\<close>

definition sample_name :: "device_id \<Rightarrow> string" where
  "sample_name d = replicate (unat d) CHR ''x''"

definition small_config :: identity_config where
  "small_config = default_identity_config
     \<lparr> ic_max_facts_per_device := 4, ic_max_proposals := 4, ic_max_devices := 4, ic_max_merge_edges := 4,
       ic_max_candidate_work := 64, ic_max_output_facts := 8, ic_max_audit_records := 4,
       ic_max_key_len := 16, ic_max_value_len := 20, ic_max_source_len := 8 \<rparr>"

definition sample_fact :: "evidence_family \<Rightarrow> string \<Rightarrow> string \<Rightarrow> evidence_fact" where
  "sample_fact family key v = \<lparr> ef_family = family, ef_source = ''dhcp'', ef_key = key, ef_value = v,
     ef_confidence = F32_ONE, ef_observed_at = 0, ef_expires_at = Some 100, ef_owner_confirmed = False \<rparr>"

definition fresh_engine :: "identity_engine" where
  "fresh_engine = \<lparr> ie_cfg = small_config, ie_ids = [1, 2, 3], ie_facts = [],
     ie_proposals = [], ie_edges = [], ie_audit = [], ie_owners = [], ie_next_proposal = 1,
     ie_next_owner = 1 \<rparr>"

lemma f32_confidence_facts [simp]:
  "f32_unit_interval F32_ONE" "f32_unit_interval F32_0_85" "f32_unit_interval F32_0_49"
  "f32_le F32_0_85 F32_ONE" "\<not> f32_lt F32_0_85 F32_0_85" "\<not> f32_lt F32_ONE F32_0_85" "\<not> f32_le F32_0_85 F32_0_49"
  "f32_min F32_ONE F32_ONE = F32_ONE" "f32_max F32_ZERO F32_ONE = F32_ONE" "f32_max F32_ONE F32_ONE = F32_ONE"
  by (simp_all add: f32_unit_interval_def f32_le_def f32_lt_def f32_is_nan_def f32_is_finite_def f32_min_def
      f32_max_def f32_mag_def f32_sign_def f32_key_def f32_infinite_mag_def F32_ZERO_def F32_ONE_def
      F32_0_85_def F32_0_49_def)

lemma small_config_valid: "valid_config small_config = Inr ()"
  by (simp add: valid_config_def small_config_def default_identity_config_def)

lemma fresh_engine_new: "new_identity small_config [1, 2, 3] = Inr fresh_engine"
  using small_config_valid by (simp add: new_identity_def fresh_engine_def small_config_def numeral_eq_Suc)

lemmas identity_run_simps = observe_at_def correlate_def components_def component_def usize_saturating_def
  usize_checked_def enrol_def preprops_def prepare_fact_def allowed_def map_prod_def hm_contains_def
  small_config_def default_identity_config_def sample_fact_def fresh_engine_def

lemma sample_observe:
  "observe_at sample_name fresh_engine None [sample_fact Service ''serial'' ''S1''] 10
   = (Inr 1, fresh_engine \<lparr> ie_ids := [2, 3], ie_facts := [(1, [sample_fact Service ''serial'' ''S1''])] \<rparr>)"
  by (simp add: identity_run_simps)

text \<open>Two devices with different serial numbers, an owner's proposal to merge them, and its acceptance.\<close>

definition two_devices :: identity_engine where
  "two_devices = fresh_engine \<lparr> ie_ids := [3],
     ie_facts := [(1, [sample_fact Service ''serial'' ''S1'']), (2, [sample_fact Service ''serial'' ''S2''])] \<rparr>"

definition sample_proposal :: "proposal_status \<Rightarrow> merge_proposal" where
  "sample_proposal status = \<lparr> mp_id = 1, mp_left = 1, mp_right = 2, mp_score = F32_ONE,
     mp_families = [Naming], mp_reasons = [''same name''], mp_status = status \<rparr>"

definition proposed :: identity_engine where
  "proposed = two_devices \<lparr> ie_proposals := [sample_proposal ProposalPending], ie_next_proposal := 2 \<rparr>"

definition accepted :: identity_engine where
  "accepted = proposed \<lparr> ie_proposals := [sample_proposal ProposalAccepted],
     ie_edges := [(1, \<lparr> ed_a = 1, ed_b = 2, ed_active = True \<rparr>)],
     ie_audit := [\<lparr> au_proposal_id = 1, au_action = ProposalAccepted \<rparr>] \<rparr>"

lemmas sample_defs = two_devices_def sample_proposal_def proposed_def accepted_def

lemma sample_observe_other:
  "observe_at sample_name (fresh_engine \<lparr> ie_ids := [2, 3],
       ie_facts := [(1, [sample_fact Service ''serial'' ''S1''])] \<rparr>) None [sample_fact Service ''serial'' ''S2''] 10
   = (Inr 2, two_devices)"
  by (simp add: identity_run_simps sample_defs sample_name_def refs_def hm_get_def matching_def match_pairs_def
      participates_def match_step_def anchor_def sortfam_def)

lemma sample_propose:
  "propose_merge sample_name two_devices 1 2 F32_ONE [Naming] [''same name''] = (Inr 1, proposed)"
  by (simp add: identity_run_simps sample_defs propose_merge_def resolve_def validprop_def insert_prop_def
      checked_add_def sortfam_def hm_get_def sample_name_def canon_def)

lemma sample_accept: "decide proposed 1 Accept = (Inr (), accepted)"
  by (simp add: identity_run_simps sample_defs decide_def)

lemma fresh_engine_reachable: "identity_reachable cal sample_name small_config fresh_engine"
  using fresh_engine_new by (auto intro!: reachable.intros simp: identity_init_def)

lemma samples_reachable:
  "identity_reachable cal sample_name small_config two_devices"
  "identity_reachable cal sample_name small_config proposed"
  "identity_reachable cal sample_name small_config accepted"
proof -
  show two: "identity_reachable cal sample_name small_config two_devices"
    by (meson fresh_engine_reachable observing reachable.intros(2) sample_observe sample_observe_other)
  then show made: "identity_reachable cal sample_name small_config proposed"
    by (meson proposing reachable.intros(2) sample_propose)
  then show "identity_reachable cal sample_name small_config accepted"
    by (meson deciding reachable.intros(2) sample_accept)
qed

section \<open>Components and their names\<close>

lemma reachable_identity_inv: "identity_reachable cal to_string cfg s \<Longrightarrow> identity_inv cfg s"
  by (rule identity_system.reachable_inv)

lemma resolve_known:
  "identity_inv cfg s \<Longrightarrow> resolve to_string s i = Inr r \<Longrightarrow> i \<in> known s \<and> r \<in> known s"
proof -
  assume inv: "identity_inv cfg s" and "resolve to_string s i = Inr r"
  then obtain c where c: "component to_string s i = Inr c" "r = canon to_string c"
    by (blast elim: resolve_representative)
  have "i \<in> set c" "r \<in> set c" using component_correct(4) component_canon c by blast+
  with component_known [OF inv c(1)] show ?thesis by blast
qed

text \<open>C19. In a reachable engine that is within its work limit, and when different identifiers print
  differently, \<open>resolve\<close> finds for every known device a known representative: the first
  in printed order of the devices that accepted merges connect to it. The representative resolves
  to itself, two devices have the same one exactly when they are connected, and an
  unknown device is refused.
\<close>

theorem resolve_names_components:
  assumes "inj to_string" and "identity_reachable cal to_string cfg s" and "within_work s" and "i \<in> known s"
  shows "\<exists>r. resolve to_string s i = Inr r \<and> r \<in> known s \<and> (i, r) \<in> merged s \<and> resolve to_string s r = Inr r
    \<and> (\<forall>j. (i, j) \<in> merged s \<longrightarrow> to_string r \<le> to_string j)
    \<and> (\<forall>j. resolve to_string s j = Inr r \<longleftrightarrow> (i, j) \<in> merged s)
    \<and> (\<forall>j. j \<notin> known s \<longrightarrow> resolve to_string s j = Inl IdentityDeviceNotFound)"
proof -
  have inv: "identity_inv cfg s" using assms(2) by (rule reachable_identity_inv)
  have total: "\<exists>q. resolve to_string s j = Inr q" if "j \<in> known s" for j
  proof -
    have "hm_contains (ie_facts s) j" using that by (simp add: known_contains)
    then obtain c where "component to_string s j = Inr c" using component_total assms(3) by blast
    then show ?thesis by (simp add: resolve_def)
  qed
  obtain r where r: "resolve to_string s i = Inr r" using total assms(4) by blast
  obtain c where c: "component to_string s i = Inr c" "r = canon to_string c" "(i, r) \<in> merged s"
    using r by (rule resolve_representative)
  have least: "to_string r \<le> to_string j" if "(i, j) \<in> merged s" for j
    using that component_correct(1,4) [OF c(1)] canon_least(2) [of c] c(2) by (metis Image_singleton_iff empty_iff empty_set)
  have same: "resolve to_string s j = Inr r \<longleftrightarrow> (i, j) \<in> merged s" for j
  proof (cases "j \<in> known s")
    case True
    then obtain q where "resolve to_string s j = Inr q" using total by blast
    with resolve_eq_iff [OF assms(1) r this] show ?thesis by auto
  next
    case False
    have "edges_ok s" "proposals_ok s" using inv by (simp_all add: identity_inv_def)
    then have "(i, j) \<notin> merged s" using merged_known [OF _ _ _ assms(4)] False by blast
    with False resolve_known [OF inv] show ?thesis by blast
  qed
  moreover have "j \<notin> known s \<Longrightarrow> resolve to_string s j = Inl IdentityDeviceNotFound" for j
    by (simp add: resolve_def component_def known_contains)
  ultimately show ?thesis using r c(3) least resolve_known [OF inv r] by blast
qed

lemma inj_sample_name: "inj sample_name"
  by (metis injI length_replicate sample_name_def word_unat_eq_iff)

lemma accepted_facts: "within_work accepted" "known accepted = {1, 2}"
  by (simp_all add: within_work_def known_def identity_run_simps sample_defs)

theorem resolve_names_components_witness:
  "\<exists>r. resolve sample_name accepted 2 = Inr r \<and> (\<forall>j. resolve sample_name accepted j = Inr r \<longleftrightarrow> (2, j) \<in> merged accepted)"
  using resolve_names_components [OF inj_sample_name samples_reachable(3) accepted_facts(1), of 2]
  by (auto simp: accepted_facts(2))

section \<open>Merge decisions\<close>

text \<open>The pairs of devices whose merge is accepted.\<close>

definition accepted_pairs :: "identity_engine \<Rightarrow> (device_id \<times> device_id) set" where
  "accepted_pairs s = {(mp_left p, mp_right p) | p. p \<in> set (ie_proposals s) \<and> mp_status p = ProposalAccepted}"

lemma linked_accepted:
  assumes "edges_ok s"
  shows "linked (map snd (ie_edges s)) = accepted_pairs s \<union> (accepted_pairs s)\<inverse>"
proof -
  have ok: "hm_ok (ie_edges s)" using assms by (simp add: edges_ok_def)
  have edge: "(\<exists>k. (k, e) \<in> set (ie_edges s)) \<longleftrightarrow> (\<exists>p \<in> set (ie_proposals s). has_edge p \<and> e = edge_of p)" for e
    using assms unfolding edges_ok_def hm_get_Some_iff [OF ok] by blast
  have active: "has_edge p \<and> ed_active (edge_of p) \<longleftrightarrow> mp_status p = ProposalAccepted" for p
    by (auto simp: edge_of_def has_edge_def)
  have "e \<in> set (map snd (ie_edges s)) \<longleftrightarrow> (\<exists>k. (k, e) \<in> set (ie_edges s))" for e by force
  with edge active have "e \<in> set (map snd (ie_edges s)) \<and> ed_active e \<longleftrightarrow>
      (\<exists>p \<in> set (ie_proposals s). mp_status p = ProposalAccepted \<and> e = edge_of p)" for e
    by metis
  then have "(x, y) \<in> linked (map snd (ie_edges s)) \<longleftrightarrow>
      (\<exists>e. (\<exists>p \<in> set (ie_proposals s). mp_status p = ProposalAccepted \<and> e = edge_of p)
         \<and> (ed_a e = x \<and> ed_b e = y \<or> ed_b e = x \<and> ed_a e = y))" for x y
    by (simp only: linked_def Bex_def mem_Collect_eq prod.case conj_assoc [symmetric])
  then have "(x, y) \<in> linked (map snd (ie_edges s)) \<longleftrightarrow> (x, y) \<in> accepted_pairs s \<or> (y, x) \<in> accepted_pairs s" for x y
    by (auto simp: accepted_pairs_def edge_of_def)
  then show ?thesis by auto
qed

text \<open>C20. In every reachable engine the devices the engine treats as one are exactly those that
  accepted proposals connect: \<open>merged\<close>, the relation computed from the edge map, is the
  equivalence generated by the accepted pairs. The audit trail of each proposal is the one its
  status calls for (an undone merge was accepted first), no audit record is without its
  proposal, and proposal numbers are increasing.
\<close>

theorem merges_follow_decisions:
  assumes "identity_reachable cal to_string cfg s"
  shows "merged s = (accepted_pairs s \<union> (accepted_pairs s)\<inverse>)\<^sup>*
    \<and> (\<forall>p \<in> set (ie_proposals s).
         map au_action (filter (\<lambda>a. au_proposal_id a = mp_id p) (ie_audit s)) = trail (mp_status p))
    \<and> au_proposal_id ` set (ie_audit s) \<subseteq> mp_id ` set (ie_proposals s)
    \<and> increasing mp_id (ie_proposals s)"
proof -
  have inv: "edges_ok s" "audit_ok s" "proposals_ok s"
    using reachable_identity_inv [OF assms] by (simp_all add: identity_inv_def)
  have "merged s = (accepted_pairs s \<union> (accepted_pairs s)\<inverse>)\<^sup>*"
    unfolding merged_def linked_accepted [OF inv(1)] ..
  with inv(2,3) show ?thesis by (auto simp: audit_ok_def proposals_ok_def)
qed

theorem merges_follow_decisions_witness:
  "merged accepted = (accepted_pairs accepted \<union> (accepted_pairs accepted)\<inverse>)\<^sup>*"
  using merges_follow_decisions [OF samples_reachable(3) [of utc_calendar]] by blast

lemma component_cong:
  assumes "inj to_string" and "merged s' = merged s" and "known s' = known s" and "within_work s" "within_work s'"
  shows "component to_string s' i = component to_string s i"
proof (cases "i \<in> known s")
  case True
  then have "hm_contains (ie_facts s) i" "hm_contains (ie_facts s') i" using assms(3) by (simp_all add: known_contains)
  then obtain c c' where c: "component to_string s i = Inr c" "component to_string s' i = Inr c'"
    using component_total assms(4,5) by meson
  note cc = component_correct [OF c(1)] component_correct [OF c(2)]
  have inj: "inj_on to_string X" for X using assms(1) by (rule inj_on_subset) simp
  have "map to_string c = map to_string c'"
    using cc(1-3) cc(6-8) inj assms(2) by (intro sorted_distinct_set_unique) (simp_all add: distinct_map)
  then show ?thesis using assms(1) c by (simp add: inj_map_eq_map)
next
  case False
  then show ?thesis using assms(3) by (simp add: component_def known_contains)
qed

lemma position_None: "position P xs = None \<longleftrightarrow> (\<forall>x \<in> set xs. \<not> P x)"
  by (induction xs) auto

lemma accepted_pairs_closed:
  assumes "proposals_ok s" and "x \<in> set (ie_proposals s)" and "set (ie_proposals s1) = insert y (set (ie_proposals s) - {x})"
    and "mp_status x \<noteq> ProposalAccepted"
    and "set (ie_proposals s2) = insert z (set (ie_proposals s1) - {y})" and "mp_id y = mp_id x" "mp_status z \<noteq> ProposalAccepted"
  shows "accepted_pairs s2 = accepted_pairs s"
proof -
  have "inj_on mp_id (set (ie_proposals s))"
    using assms(1) increasing_distinct [of mp_id "ie_proposals s"] by (simp add: proposals_ok_def distinct_map)
  then have "y \<notin> set (ie_proposals s) - {x}" using assms(2,6) by (auto dest: inj_onD)
  then have "set (ie_proposals s2) = insert z (set (ie_proposals s) - {x})" using assms(3,5) by auto
  then have "p \<in> set (ie_proposals s2) \<and> mp_status p = ProposalAccepted
      \<longleftrightarrow> p \<in> set (ie_proposals s) \<and> mp_status p = ProposalAccepted" for p
    using assms(4,7) by auto
  then show ?thesis by (simp add: accepted_pairs_def)
qed

lemma undo_after_accept:
  assumes inv: "identity_inv cfg s" and acc: "decide s k Accept = (Inr (), s1)" and run: "undo s1 k = (res, s2)"
  obtains (full) err where "res = Inl err" "ic_max_audit_records cfg \<le> length (ie_audit s) + 1"
  | (undone) "res = Inr ()" "length (ie_audit s) + 1 < ic_max_audit_records cfg" "accepted_pairs s2 = accepted_pairs s"
      "ie_facts s2 = ie_facts s" "ie_owners s2 = ie_owners s" "ie_cfg s2 = ie_cfg s"
      "length (ie_edges s) \<le> length (ie_edges s2)"
      "\<forall>p \<in> set (ie_proposals s2). mp_id p = k \<longrightarrow> mp_status p = ProposalUndone"
proof -
  have inv1: "identity_inv cfg s1" by (rule decide_inv [OF inv acc])
  have ok: "proposals_ok s" "ie_cfg s = cfg" "proposals_ok s1" using inv inv1 by (simp_all add: identity_inv_def)
  obtain n where n: "n < length (ie_proposals s)" "mp_id (ie_proposals s ! n) = k"
    "mp_status (ie_proposals s ! n) = ProposalPending"
    "s1 = close_proposal s n ProposalAccepted \<lparr> ie_edges := hm_insert k
         (edge_of ((ie_proposals s ! n) \<lparr> mp_status := ProposalAccepted \<rparr>)) (ie_edges s) \<rparr>"
    using acc by (cases rule: decide_run) simp_all
  let ?x = "ie_proposals s ! n" and ?y = "(ie_proposals s ! n) \<lparr> mp_status := ProposalAccepted \<rparr>"
  have set1: "set (ie_proposals s1) = insert ?y (set (ie_proposals s) - {?x})"
    using set_close_proposal(1) [OF ok(1) n(1)] n(4) by simp
  have audit1: "length (ie_audit s1) = length (ie_audit s) + 1" by (simp add: n(4) close_proposal_def)
  have cfg1: "ie_cfg s1 = cfg" using inv1 by (simp add: identity_inv_def)
  show thesis
  proof (cases "res")
    case (Inl err)
    have "position (\<lambda>p. mp_id p = k \<and> mp_status p = ProposalAccepted) (ie_proposals s1) \<noteq> None"
      unfolding position_None set1 using n(2) by auto
    then have "ic_max_audit_records cfg \<le> length (ie_audit s1)"
      using run Inl cfg1 by (auto simp: undo_def split: if_splits)
    with Inl audit1 show thesis by (intro full) simp_all
  next
    case (Inr u)
    with inv1 run obtain m where m: "m < length (ie_proposals s1)" "mp_id (ie_proposals s1 ! m) = k"
      "length (ie_audit s1) < ic_max_audit_records (ie_cfg s1)"
      "s2 = close_proposal s1 m ProposalUndone \<lparr> ie_edges := hm_insert k
         (edge_of ((ie_proposals s1 ! m) \<lparr> mp_status := ProposalUndone \<rparr>)) (ie_edges s1) \<rparr>"
      by (cases rule: undo_run) auto
    let ?z = "(ie_proposals s1 ! m) \<lparr> mp_status := ProposalUndone \<rparr>"
    note close = set_close_proposal [OF ok(3) m(1)]
    have y: "ie_proposals s1 ! m = ?y" using close(2) [of ?y] n(2) m(2) set1 by simp
    have set2: "set (ie_proposals s2) = insert ?z (set (ie_proposals s1) - {?y})"
      using close(1) m(4) y by simp
    have "\<forall>p \<in> set (ie_proposals s2). mp_id p = k \<longrightarrow> mp_status p = ProposalUndone"
      unfolding set2 using close(2) m(2) y by auto
    moreover have "accepted_pairs s2 = accepted_pairs s"
      by (rule accepted_pairs_closed [OF ok(1) _ set1 _ set2]) (use n in simp_all)
    moreover have "length (ie_edges s) \<le> length (ie_edges s2)"
      by (simp add: m(4) n(4) length_hm_insert)
    moreover have "ie_facts s2 = ie_facts s" "ie_owners s2 = ie_owners s" "ie_cfg s2 = ie_cfg s"
      by (simp_all add: m(4) n(4) close_proposal_def)
    ultimately show thesis using Inr m(3) audit1 cfg1 by (intro undone) simp_all
  qed
qed

text \<open>C21. Accepting a merge and then undoing it restores every identity. In a reachable engine, with identifiers that print differently when they differ, after
  an accepted decision the undo succeeds exactly when the audit trail has room for its record,
  and the engine it leaves has the facts and the owner records from before the decision and the
  same connected devices; within the work limit every component is as it was. The proposal stays
  undone: undoing it again is refused.
\<close>

theorem undo_restores_identities:
  assumes "inj to_string" and "identity_reachable cal to_string cfg s"
    and "decide s k Accept = (Inr (), s1)" and "undo s1 k = (res, s2)"
  shows "(res = Inr () \<longleftrightarrow> length (ie_audit s) + 1 < ic_max_audit_records cfg)
    \<and> (res = Inr () \<longrightarrow> ie_facts s2 = ie_facts s \<and> ie_owners s2 = ie_owners s \<and> merged s2 = merged s
        \<and> (within_work s2 \<longrightarrow> (\<forall>i. component to_string s2 i = component to_string s i))
        \<and> isl (fst (undo s2 k)))"
proof -
  have inv: "identity_inv cfg s" using assms(2) by (rule reachable_identity_inv)
  from inv assms(3,4) show ?thesis
  proof (cases rule: undo_after_accept)
    case undone
    have inv2: "identity_inv cfg s2" using inv assms(3,4) decide_inv undo_inv by metis
    have "edges_ok s" "edges_ok s2" using inv inv2 by (simp_all add: identity_inv_def)
    then have same: "merged s2 = merged s" using undone(3) by (simp add: merged_def linked_accepted)
    have "usize_saturating (length (ie_facts s) * max (length (ie_edges s)) 1)
        \<le> usize_saturating (length (ie_facts s2) * max (length (ie_edges s2)) 1)"
      using undone(4,7) unfolding usize_saturating_def by (intro min.mono mult_le_mono max.mono) simp_all
    then have "within_work s2 \<Longrightarrow> within_work s" using undone(6) by (simp add: within_work_def)
    then have "within_work s2 \<Longrightarrow> component to_string s2 i = component to_string s i" for i
      using component_cong [OF assms(1) same] undone(4) by (simp add: known_def)
    moreover have "isl (fst (undo s2 k))"
      using undone(8) position_None [of "\<lambda>p. mp_id p = k \<and> mp_status p = ProposalAccepted" "ie_proposals s2"]
      by (auto simp: undo_def split: option.split)
    ultimately show ?thesis using undone same by simp
  qed simp
qed

theorem undo_restores_identities_witness:
  "fst (undo accepted 1) = Inr () \<and> merged (snd (undo accepted 1)) = merged proposed"
  using undo_restores_identities [OF inj_sample_name samples_reachable(2) [of utc_calendar] sample_accept
      prod.collapse [symmetric]]
  by (simp add: sample_defs fresh_engine_def small_config_def)

end
