(* ===== verification/Identity_Correlation.thy ===== *)
theory Identity_Correlation
  imports Identity_Properties
begin

text \<open>
  What the identity engine concludes from evidence: router labels carry no weight, evidence for
  an unnamed device merges only on two independent anchors and no contradiction, and an
  identification rests on facts or on the owner, whose word wins.
\<close>

section \<open>The evidence of a device\<close>

definition evidence_of :: "identity_engine \<Rightarrow> device_id \<Rightarrow> evidence_fact set" where
  "evidence_of s i = {f. \<exists>d fs. (i, d) \<in> merged s \<and> hm_get (ie_facts s) d = Some fs \<and> f \<in> set fs}"

lemma index_facts_set:
  "index_facts s c = Inr fss \<Longrightarrow> set (concat fss) = {f. \<exists>d \<in> set c. \<exists>fs. hm_get (ie_facts s) d = Some fs \<and> f \<in> set fs}"
proof (induction c arbitrary: fss)
  case (Cons d c)
  then obtain fs gss where fs: "hm_get (ie_facts s) d = Some fs" "index_facts s c = Inr gss" "fss = fs # gss"
    by (auto simp: map_sum_Inr split: option.splits)
  have "set (concat fss) = set fs \<union> set (concat gss)" by (simp add: fs(3))
  also have "\<dots> = {f. \<exists>e \<in> set (d # c). \<exists>fs. hm_get (ie_facts s) e = Some fs \<and> f \<in> set fs}"
    unfolding Cons.IH [OF fs(2)] using fs(1) by auto
  finally show ?case .
qed simp

lemma refs_evidence:
  assumes "component to_string s i = Inr c" and "refs s c = Inr rs"
  shows "set rs = evidence_of s i"
proof -
  obtain fss where fss: "index_facts s c = Inr fss" "rs = concat fss"
    using assms(2) by (auto simp: refs_def split: sum.splits if_splits)
  show ?thesis
    using index_facts_set [OF fss(1)] component_correct(1) [OF assms(1)] fss(2)
    by (auto simp: evidence_of_def)
qed

lemma evidence_of_merged: "(i, j) \<in> merged s \<Longrightarrow> evidence_of s i = evidence_of s j"
  unfolding evidence_of_def by (blast intro: merged_trans merged_sym)

section \<open>Router hints\<close>

definition without_hints :: "evidence_fact list \<Rightarrow> evidence_fact list" where
  "without_hints fs = filter (\<lambda>f. ef_family f \<noteq> RouterHint) fs"

definition forget_hints :: "identity_engine \<Rightarrow> identity_engine" where
  "forget_hints s = s \<lparr> ie_facts := map (\<lambda>(d, fs). (d, without_hints fs)) (ie_facts s) \<rparr>"

lemma participates_without_hints: "filter (participates now) (without_hints fs) = filter (participates now) fs"
  by (auto simp: without_hints_def participates_def intro!: filter_cong)

lemma hm_get_map_values:
  "hm_get (map (\<lambda>(d, v). (d, g v)) m) k = map_option g (hm_get m k)"
  unfolding hm_get_def map_of_map by (simp add: comp_def)

lemma component_forget_hints: "component to_string (forget_hints s) i = component to_string s i"
  by (simp add: component_def forget_hints_def hm_contains_def hm_get_map_values)

lemma index_facts_forget_hints:
  "index_facts (forget_hints s) c = map_sum id (map without_hints) (index_facts s c)"
proof (induction c)
  case (Cons d c)
  have "hm_get (ie_facts (forget_hints s)) d = map_option without_hints (hm_get (ie_facts s) d)"
    by (simp add: forget_hints_def hm_get_map_values)
  with Cons show ?case by (cases "hm_get (ie_facts s) d"; cases "index_facts s c") simp_all
qed simp

lemma refs_forget_hints: "refs s c = Inr rs \<Longrightarrow> refs (forget_hints s) c = Inr (without_hints rs)"
proof -
  assume "refs s c = Inr rs"
  then obtain fss where fss: "index_facts s c = Inr fss" "rs = concat fss"
    "sum_list (map length fss) \<le> ic_max_candidate_work (ie_cfg s)"
    by (auto simp: refs_def split: sum.splits if_splits)
  have "sum_list (map (length \<circ> without_hints) fss) \<le> sum_list (map length fss)"
    by (rule sum_list_mono) (simp add: without_hints_def)
  moreover have "ie_cfg (forget_hints s) = ie_cfg s" by (simp add: forget_hints_def)
  moreover have "without_hints (concat fss) = concat (map without_hints fss)"
    by (simp add: without_hints_def [abs_def] filter_concat)
  ultimately show ?thesis using fss by (simp add: refs_def index_facts_forget_hints)
qed

text \<open>Facts of the router-hint family carry no weight, however many there are: they change
  neither the result of matching evidence with a known device, nor an identification, which
  an engine that has forgotten all its hints answers in the same way.
\<close>

theorem router_hints_carry_no_weight:
  "matching (without_hints old) (without_hints incoming) now c = matching old incoming now c
   \<and> (identification_at to_string s i now = Inr r \<longrightarrow> identification_at to_string (forget_hints s) i now = Inr r)"
proof
  show "matching (without_hints old) (without_hints incoming) now c = matching old incoming now c"
    by (simp add: matching_def match_pairs_def participates_without_hints)
  show "identification_at to_string s i now = Inr r \<longrightarrow> identification_at to_string (forget_hints s) i now = Inr r"
  proof
    assume run: "identification_at to_string s i now = Inr r"
    then obtain c rs where c: "component to_string s i = Inr c" "refs s c = Inr rs"
      "r = identify (ie_cfg s) (owner_value s c) (filter (participates now) rs)"
      by (auto simp: identification_at_def split: sum.splits)
    moreover have "owner_value (forget_hints s) c = owner_value s c" "ie_cfg (forget_hints s) = ie_cfg s"
      by (simp_all add: fun_eq_iff owner_value_def forget_hints_def)
    ultimately show "identification_at to_string (forget_hints s) i now = Inr r"
      using refs_forget_hints [OF c(2)]
      by (simp add: identification_at_def component_forget_hints participates_without_hints)
  qed
qed

definition hinted :: identity_engine where
  "hinted = fresh_engine \<lparr> ie_facts :=
     [(1, [sample_fact RouterHint ''vendor'' ''Acme'', sample_fact RouterHint ''class'' ''camera''])] \<rparr>"

theorem router_hints_carry_no_weight_witness:
  "identification_at sample_name hinted 1 10 = Inr None \<and> identification_at sample_name (forget_hints hinted) 1 10 = Inr None"
proof -
  have "identification_at sample_name hinted 1 10 = Inr None"
    by (simp add: identity_run_simps hinted_def identification_at_def refs_def hm_get_def participates_def
        identify_def pick_def owner_value_def rfind_def or_else_def)
  with router_hints_carry_no_weight [of "[]" "[]" 10 small_config sample_name hinted 1 None] show ?thesis by blast
qed

section \<open>Observations\<close>

text \<open>The pairs of a live fact about a device and a live incoming one that correlation compares.\<close>

definition confronted ::
  "identity_engine \<Rightarrow> device_id \<Rightarrow> evidence_fact list \<Rightarrow> instant \<Rightarrow> (evidence_fact \<times> evidence_fact) set" where
  "confronted s i incoming now = {(a, b). a \<in> evidence_of s i \<and> participates now a
     \<and> b \<in> set incoming \<and> participates now b}"

definition agreeing_families ::
  "identity_engine \<Rightarrow> device_id \<Rightarrow> evidence_fact list \<Rightarrow> instant \<Rightarrow> evidence_family set" where
  "agreeing_families s i incoming now =
     (\<lambda>p. ef_family (fst p)) ` {p \<in> confronted s i incoming now. strong_match (ie_cfg s) p}"

lemma match_pairs_confronted:
  assumes "component to_string s i = Inr c" and "refs s c = Inr rs"
  shows "set (match_pairs now rs incoming) = confronted s i incoming now"
  using refs_evidence [OF assms] by (simp add: match_pairs_set confronted_def)

lemma confronted_merged: "(i, j) \<in> merged s \<Longrightarrow> confronted s i incoming now = confronted s j incoming now"
  by (simp add: confronted_def evidence_of_merged)

text \<open>The candidates that \<open>correlate\<close> returns are the representatives of the agreeing devices.\<close>

lemma correlate_candidates:
  assumes inv: "identity_inv cfg s" and run: "correlate to_string s incoming now = Inr matches"
  shows "(d, m) \<in> set matches \<Longrightarrow> d \<in> known s
      \<and> (ma_auto m \<longleftrightarrow> (\<forall>p \<in> confronted s d incoming now. \<not> contradicts (ie_cfg s) p)
           \<and> 2 \<le> card (agreeing_families s d incoming now))"
    and "j \<in> known s \<Longrightarrow> \<exists>p \<in> confronted s j incoming now. agrees p \<Longrightarrow>
      \<exists>d m. (d, m) \<in> set matches \<and> (j, d) \<in> merged s"
proof -
  obtain comps where comps: "components to_string s = Inr comps"
    and listed: "\<forall>d m. (d, m) \<in> set matches \<longrightarrow> (\<exists>c \<in> set comps. \<exists>rs. refs s c = Inr rs \<and> d = canon to_string c
          \<and> m = matching rs incoming now (ie_cfg s) \<and> ma_any m)"
    and found: "\<forall>c \<in> set comps. \<exists>rs. refs s c = Inr rs \<and> (ma_any (matching rs incoming now (ie_cfg s)) \<longrightarrow>
          (canon to_string c, matching rs incoming now (ie_cfg s)) \<in> set matches)"
    using run by (rule correlate_members)
  have same: "(i, canon to_string c) \<in> merged s" if "component to_string s i = Inr c" for i c
    using component_canon [OF that] component_correct(1) [OF that] by blast
  show "\<exists>d m. (d, m) \<in> set matches \<and> (j, d) \<in> merged s"
    if "j \<in> known s" and agree: "\<exists>p \<in> confronted s j incoming now. agrees p"
  proof -
    obtain c i where c: "c \<in> set comps" "j \<in> set c" "component to_string s i = Inr c"
      using components_members [OF comps] \<open>j \<in> known s\<close> by blast
    obtain rs where rs: "refs s c = Inr rs" "ma_any (matching rs incoming now (ie_cfg s)) \<longrightarrow>
          (canon to_string c, matching rs incoming now (ie_cfg s)) \<in> set matches"
      using found c(1) by blast
    have "(i, j) \<in> merged s" using component_correct(1) [OF c(3)] c(2) by blast
    then have "set (match_pairs now rs incoming) = confronted s j incoming now"
      using match_pairs_confronted [OF c(3) rs(1)] confronted_merged by blast
    then have "ma_any (matching rs incoming now (ie_cfg s))" using agree by (simp add: matching_facts(1))
    with rs(2) same [OF c(3)] \<open>(i, j) \<in> merged s\<close> show ?thesis by (blast intro: merged_sym merged_trans)
  qed
  assume d: "(d, m) \<in> set matches"
  then obtain c rs i where c: "refs s c = Inr rs" "d = canon to_string c" "m = matching rs incoming now (ie_cfg s)"
    "component to_string s i = Inr c"
    using listed components_members(1) [OF comps] by meson
  have "set (match_pairs now rs incoming) = confronted s d incoming now"
    using match_pairs_confronted [OF c(4,1)] confronted_merged [OF same [OF c(4)]] c(2) by simp
  then show "d \<in> known s \<and> (ma_auto m \<longleftrightarrow> (\<forall>p \<in> confronted s d incoming now. \<not> contradicts (ie_cfg s) p)
      \<and> 2 \<le> card (agreeing_families s d incoming now))"
    using correlate_known [OF inv run d] matching_facts(2,3) [of rs incoming now "ie_cfg s"] c(3)
    by (simp add: agreeing_families_def)
qed

lemma observe_new_run:
  assumes "observe_at to_string s None fs now = (Inr r, s')"
  obtains (merge) incoming m where "prepare (ie_cfg s) fs = Inr incoming"
      "correlate to_string s incoming now = Inr [(r, m)]" "ma_auto m"
      "prune_and_extend to_string s r incoming now = (Inr (), s')"
  | (enrolled) incoming matches where "prepare (ie_cfg s) fs = Inr incoming"
      "correlate to_string s incoming now = Inr matches" "enrol s incoming matches = (Inr r, s')"
proof -
  obtain incoming matches where run: "prepare (ie_cfg s) fs = Inr incoming"
    "correlate to_string s incoming now = Inr matches"
    using assms by (auto simp: observe_at_def split: sum.splits)
  show thesis
  proof (cases "\<exists>root m. matches = [(root, m)] \<and> ma_auto m")
    case True
    then obtain root m where m: "matches = [(root, m)]" "ma_auto m" by blast
    obtain res t where p: "prune_and_extend to_string s root incoming now = (res, t)" by fastforce
    have "map_sum id (\<lambda>_. root) res = Inr r" "t = s'" using assms run m p by (auto simp: observe_at_def)
    then have "res = Inr ()" "root = r" by (auto simp: map_sum_Inr)
    with run m p \<open>t = s'\<close> merge show thesis by blast
  next
    case False
    then have "enrol s incoming matches = (Inr r, s')"
      using assms run by (auto simp: observe_at_def split: list.splits prod.splits if_splits)
    with run enrolled show thesis by blast
  qed
qed

lemma prune_and_extend_frame:
  assumes "prune_and_extend to_string s i fs now = (res, s')"
  shows "ie_proposals s' = ie_proposals s \<and> ie_edges s' = ie_edges s \<and> known s' = known s"
proof -
  obtain r1 s1 where p: "prune_expired to_string s i now = (r1, s1)" by fastforce
  then have one: "ie_proposals s1 = ie_proposals s \<and> ie_edges s1 = ie_edges s \<and> known s1 = known s"
    by (cases rule: prune_expired_run) (auto simp: known_def image_image case_prod_unfold)
  have "s' = s1 \<or> extend_facts s1 i fs = (res, s')"
    using assms p by (auto simp: prune_and_extend_def split: sum.splits)
  then show ?thesis
  proof
    assume run: "extend_facts s1 i fs = (res, s')"
    show ?thesis
    proof (cases "hm_get (ie_facts s1) i")
      case (Some old)
      then have "i \<in> fst ` set (ie_facts s1)" by (force dest: hm_get_SomeD)
      moreover have "s' = s1 \<lparr> ie_facts := hm_insert i (old @ fs) (ie_facts s1) \<rparr>"
        using run Some by (simp add: extend_facts_def)
      ultimately show ?thesis using one by (simp add: known_def fst_set_hm_insert insert_absorb)
    qed (use run one in \<open>simp add: extend_facts_def\<close>)
  qed (use one in simp)
qed

lemma insert_props_frame:
  "ie_facts (insert_props s d ms) = ie_facts s \<and> ie_edges (insert_props s d ms) = ie_edges s
   \<and> (\<exists>ps. ie_proposals (insert_props s d ms) = ie_proposals s @ ps
        \<and> map mp_left ps = map fst ms \<and> (\<forall>p \<in> set ps. mp_status p = ProposalPending \<and> mp_right p = d))"
proof (induction ms arbitrary: s)
  case (Cons dm ms)
  obtain other m where dm: "dm = (other, m)" by fastforce
  show ?case
    using Cons [of "snd (insert_prop s other d (ma_score m) (ma_families m) (ma_reasons m))"]
    by (fastforce simp: dm insert_prop_def)
qed simp

text \<open>C18. Observing evidence without naming a device, in a reachable engine, either merges it into a
  known device or enrols a new one, and never touches the graph of merges. It merges only into a
  device with at least two families of anchors whose live facts agree with the evidence above
  the match threshold, with no contradicting pair, and when no unconnected device
  agrees with any of the evidence. A new device holds exactly the evidence, and every known device
  that agrees with some of it is left to the owner: a pending proposal links its component to the new device.
\<close>

theorem observation_merges_or_proposes:
  assumes "identity_reachable cal to_string cfg s" and "observe_at to_string s None fs now = (Inr r, s')"
  shows "\<exists>incoming. prepare cfg fs = Inr incoming \<and> ie_edges s' = ie_edges s
    \<and> (r \<in> known s \<longrightarrow>
         2 \<le> card (agreeing_families s r incoming now)
         \<and> (\<forall>p \<in> confronted s r incoming now. \<not> contradicts cfg p)
         \<and> (\<forall>j \<in> known s. (r, j) \<notin> merged s \<longrightarrow> (\<forall>p \<in> confronted s j incoming now. \<not> agrees p))
         \<and> known s' = known s \<and> ie_proposals s' = ie_proposals s)
    \<and> (r \<notin> known s \<longrightarrow>
         ie_facts s' = hm_insert r incoming (ie_facts s)
         \<and> (\<exists>ps. ie_proposals s' = ie_proposals s @ ps \<and> (\<forall>p \<in> set ps. mp_status p = ProposalPending \<and> mp_right p = r)
             \<and> (\<forall>j \<in> known s. (\<exists>p \<in> confronted s j incoming now. agrees p) \<longrightarrow>
                  (\<exists>p \<in> set ps. (j, mp_left p) \<in> merged s))))"
proof -
  have inv: "identity_inv cfg s" using assms(1) by (rule reachable_identity_inv)
  then have cfg: "ie_cfg s = cfg" by (simp add: identity_inv_def)
  from assms(2) show ?thesis
  proof (cases rule: observe_new_run)
    case (merge incoming m)
    note cands = correlate_candidates [OF inv merge(2)]
    have "r \<in> known s" "2 \<le> card (agreeing_families s r incoming now)"
      "\<forall>p \<in> confronted s r incoming now. \<not> contradicts cfg p"
      using cands(1) [of r m] merge(3) cfg by auto
    moreover have "\<forall>j \<in> known s. (r, j) \<notin> merged s \<longrightarrow> (\<forall>p \<in> confronted s j incoming now. \<not> agrees p)"
      using cands(2) merged_sym by fastforce
    ultimately show ?thesis using prune_and_extend_frame [OF merge(4)] merge(1) cfg by auto
  next
    case (enrolled incoming matches)
    then obtain ids where new: "r \<notin> known s"
      "s' = insert_props (s \<lparr> ie_ids := ids, ie_facts := hm_insert r incoming (ie_facts s) \<rparr>) r matches"
      by (auto simp: enrol_def known_contains split: sum.splits list.splits if_splits)
    then obtain ps where ps: "ie_facts s' = hm_insert r incoming (ie_facts s)" "ie_edges s' = ie_edges s"
      "ie_proposals s' = ie_proposals s @ ps"
      "map mp_left ps = map fst matches" and pend: "\<forall>p \<in> set ps. mp_status p = ProposalPending \<and> mp_right p = r"
      using insert_props_frame [of "s \<lparr> ie_ids := ids, ie_facts := hm_insert r incoming (ie_facts s) \<rparr>" r matches] by auto
    have "mp_left ` set ps = fst ` set matches" using ps(4) by (metis list.set_map)
    then have "\<exists>p \<in> set ps. mp_left p = d" if "(d, m) \<in> set matches" for d m using that by force
    then have "\<forall>j \<in> known s. (\<exists>p \<in> confronted s j incoming now. agrees p) \<longrightarrow> (\<exists>p \<in> set ps. (j, mp_left p) \<in> merged s)"
      using correlate_candidates(2) [OF inv enrolled(2)] by metis
    with pend ps(3) have "\<exists>ps. ie_proposals s' = ie_proposals s @ ps
        \<and> (\<forall>p \<in> set ps. mp_status p = ProposalPending \<and> mp_right p = r)
        \<and> (\<forall>j \<in> known s. (\<exists>p \<in> confronted s j incoming now. agrees p) \<longrightarrow> (\<exists>p \<in> set ps. (j, mp_left p) \<in> merged s))"
      by blast
    then show ?thesis
      using enrolled(1) new(1) ps(1,2) cfg by (intro exI [of _ incoming]) (simp only: simp_thms)
  qed
qed

text \<open>A device with two anchors, and the same two anchors seen again.\<close>

definition anchors :: "evidence_fact list" where
  "anchors = [sample_fact Service ''serial'' ''S1'', sample_fact Addressing ''duid'' ''D1'']"

definition anchored :: identity_engine where
  "anchored = fresh_engine \<lparr> ie_ids := [2, 3], ie_facts := [(1, anchors)] \<rparr>"

definition anchored_twice :: identity_engine where
  "anchored_twice = fresh_engine \<lparr> ie_ids := [2, 3], ie_facts := [(1, anchors @ anchors)] \<rparr>"

lemmas correlation_run_simps = identity_run_simps refs_def hm_get_def matching_def match_pairs_def
  participates_def match_step_def anchor_def sortfam_def

lemma observe_anchored: "observe_at sample_name fresh_engine None anchors 10 = (Inr 1, anchored)"
  by (simp add: identity_run_simps anchors_def anchored_def)

lemma observe_anchored_again: "observe_at sample_name anchored None anchors 10 = (Inr 1, anchored_twice)"
  by (simp add: correlation_run_simps anchors_def anchored_def anchored_twice_def canon_def prune_and_extend_def
      prune_expired_def preadd_def live_def extend_facts_def)

lemma anchored_reachable: "identity_reachable cal sample_name small_config anchored"
  by (meson fresh_engine_reachable observing reachable.intros(2) observe_anchored)

theorem observation_merges_or_proposes_witness:
  "\<exists>incoming. prepare small_config anchors = Inr incoming \<and> 2 \<le> card (agreeing_families anchored 1 incoming 10)
     \<and> known anchored_twice = known anchored"
proof -
  have "1 \<in> known anchored" by (simp add: known_def anchored_def)
  with observation_merges_or_proposes [OF anchored_reachable [of utc_calendar] observe_anchored_again] show ?thesis by blast
qed

section \<open>Identification\<close>

lemma pick_member:
  assumes "pick active k = Some f"
  shows "f \<in> set active \<and> ef_key f = k"
proof -
  have fold: "foldl (\<lambda>a b. if P a b then b else a) x xs \<in> insert x (set xs)" for P and x :: evidence_fact and xs
  proof (induction xs arbitrary: x)
    case (Cons y ys)
    show ?case using Cons.IH [of "if P x y then y else x"] by (auto split: if_splits)
  qed simp
  obtain x xs where xs: "filter (\<lambda>f. ef_key f = k) active = x # xs"
    using assms by (cases "filter (\<lambda>f. ef_key f = k) active") (simp_all add: pick_def)
  let ?g = "\<lambda>a b. if (f32_total_key (ef_confidence a), ef_value a) \<le> (f32_total_key (ef_confidence b), ef_value b)
    then b else a"
  have "f = foldl ?g x xs" using assms by (simp add: pick_def xs)
  then have "f \<in> insert x (set xs)" by (simp only: fold)
  then have "f \<in> set (filter (\<lambda>f. ef_key f = k) active)" by (simp add: xs)
  then show ?thesis by simp
qed

text \<open>A value that some fact supports above the threshold, and that no fact contradicts above it.\<close>

definition supported :: "evidence_fact set \<Rightarrow> f32 \<Rightarrow> string \<Rightarrow> string \<Rightarrow> bool" where
  "supported facts threshold k v \<longleftrightarrow>
     (\<exists>f \<in> facts. ef_key f = k \<and> ef_value f = v \<and> f32_le threshold (ef_confidence f))
     \<and> (\<forall>f \<in> facts. ef_key f = k \<and> f32_le threshold (ef_confidence f) \<longrightarrow> ef_value f = v)"

lemma supported_pick:
  assumes "pick active k = Some f" and "\<not> f32_lt (ef_confidence f) t" and "\<not> contradicted c active k (ef_value f)"
    and "t = ic_auto_identification_threshold c" "\<not> f32_is_nan t" "\<forall>f \<in> set active. \<not> f32_is_nan (ef_confidence f)"
  shows "supported (set active) t k (ef_value f) \<and> f32_le t (ef_confidence f)"
proof -
  note f = pick_member [OF assms(1)]
  then have "f32_le t (ef_confidence f)" using f32_not_le assms(2,5,6) by blast
  with f assms(3,4) show ?thesis by (auto simp: supported_def contradicted_def list_ex_iff)
qed

lemma if_None_Some:
  "(if a then None else if b then None else if c then None else Some x) = Some y \<longleftrightarrow> \<not> a \<and> \<not> b \<and> \<not> c \<and> x = y"
  by simp

lemma four_conjuncts: "a \<and> b \<and> c \<and> d \<Longrightarrow> a" "a \<and> b \<and> c \<and> d \<Longrightarrow> b" "a \<and> b \<and> c \<and> d \<Longrightarrow> c" "a \<and> b \<and> c \<and> d \<Longrightarrow> d"
  by blast+

lemma identify_grounded:
  assumes run: "identify cfg own active = Some d" and t: "t = ic_auto_identification_threshold cfg" "\<not> f32_is_nan t"
    and finite: "\<forall>f \<in> set active. \<not> f32_is_nan (ef_confidence f)"
  shows "case own ''vendor'' of Some v \<Rightarrow> dn_vendor d = v | None \<Rightarrow> supported (set active) t ''vendor'' (dn_vendor d)"
    and "case own ''class'' of Some v \<Rightarrow> dn_device_class d = v | None \<Rightarrow> supported (set active) t ''class'' (dn_device_class d)"
    and "own ''vendor'' = None \<or> own ''class'' = None \<Longrightarrow>
      2 \<le> card (ef_family ` {f \<in> set active. f32_le t (ef_confidence f) \<and>
        (ef_key f = ''vendor'' \<and> ef_value f = dn_vendor d \<or> ef_key f = ''class'' \<and> ef_value f = dn_device_class d)})"
    and "own ''vendor'' \<noteq> None \<Longrightarrow> own ''class'' \<noteq> None \<Longrightarrow> dn_confidence d = F32_ONE"
    and "own ''vendor'' = None \<Longrightarrow> own ''class'' = None \<Longrightarrow> f32_le t (dn_confidence d)"
proof -
  let ?ov = "own ''vendor''" and ?oc = "own ''class''" and ?av = "pick active ''vendor''" and ?ac = "pick active ''class''"
  obtain vendor dclass where v: "or_else ?ov (map_option ef_value ?av) = Some vendor"
    "or_else ?oc (map_option ef_value ?ac) = Some dclass"
    using run by (cases "or_else ?ov (map_option ef_value ?av)"; cases "or_else ?oc (map_option ef_value ?ac)")
      (simp_all add: identify_def Let_def)
  let ?fam = "sortfam (map ef_family (filter (\<lambda>f.
      (ef_key f = ''vendor'' \<and> ef_value f = vendor \<or> ef_key f = ''class'' \<and> ef_value f = dclass)
      \<and> f32_le t (ef_confidence f)) active))"
  note r = four_conjuncts [OF run [unfolded identify_def Let_def v prod.case option.case if_None_Some, folded t(1)]]
  have checks: "?ov = None \<Longrightarrow> \<not> is_none_or ?av (\<lambda>x. f32_lt (ef_confidence x) t)"
    "?oc = None \<Longrightarrow> \<not> is_none_or ?ac (\<lambda>x. f32_lt (ef_confidence x) t)"
    "?ov = None \<Longrightarrow> \<not> contradicted cfg active ''vendor'' vendor"
    "?oc = None \<Longrightarrow> \<not> contradicted cfg active ''class'' dclass"
    "?ov = None \<or> ?oc = None \<Longrightarrow> 2 \<le> length ?fam"
    and d: "dn_vendor d = vendor" "dn_device_class d = dclass"
    "dn_confidence d = (if ?ov \<noteq> None \<and> ?oc \<noteq> None then F32_ONE
       else f32_min (case ?av of None \<Rightarrow> F32_ONE | Some x \<Rightarrow> ef_confidence x)
              (case ?ac of None \<Rightarrow> F32_ONE | Some x \<Rightarrow> ef_confidence x))"
    subgoal using r(1) by blast
    subgoal using r(1) by blast
    subgoal using r(2) by blast
    subgoal using r(2) by blast
    subgoal using r(3) by (meson not_less)
    unfolding r(4) [symmetric] by simp_all
  have vend: "supported (set active) t ''vendor'' vendor \<and> (\<exists>f. ?av = Some f \<and> f32_le t (ef_confidence f))" if "?ov = None"
    using checks(1,3) [OF that] v(1) that supported_pick [OF _ _ _ t(1,2) finite, of "''vendor''"]
    by (cases ?av) (auto simp: or_else_def)
  have clas: "supported (set active) t ''class'' dclass \<and> (\<exists>f. ?ac = Some f \<and> f32_le t (ef_confidence f))" if "?oc = None"
    using checks(2,4) [OF that] v(2) that supported_pick [OF _ _ _ t(1,2) finite, of "''class''"]
    by (cases ?ac) (auto simp: or_else_def)
  show "case own ''vendor'' of Some v \<Rightarrow> dn_vendor d = v | None \<Rightarrow> supported (set active) t ''vendor'' (dn_vendor d)"
    using vend v(1) by (cases ?ov) (simp_all add: d or_else_def)
  show "case own ''class'' of Some v \<Rightarrow> dn_device_class d = v | None \<Rightarrow> supported (set active) t ''class'' (dn_device_class d)"
    using clas v(2) by (cases ?oc) (simp_all add: d or_else_def)
  have "length ?fam = card (ef_family ` {f \<in> set active. f32_le t (ef_confidence f) \<and>
        (ef_key f = ''vendor'' \<and> ef_value f = vendor \<or> ef_key f = ''class'' \<and> ef_value f = dclass)})"
    by (simp add: distinct_card [OF distinct_sortfam, symmetric] conj_commute)
  then show "2 \<le> card (ef_family ` {f \<in> set active. f32_le t (ef_confidence f) \<and>
        (ef_key f = ''vendor'' \<and> ef_value f = dn_vendor d \<or> ef_key f = ''class'' \<and> ef_value f = dn_device_class d)})"
    if "?ov = None \<or> ?oc = None"
    using checks(5) [OF that] by (simp add: d)
  show "?ov \<noteq> None \<Longrightarrow> ?oc \<noteq> None \<Longrightarrow> dn_confidence d = F32_ONE" by (simp add: d)
  show "f32_le t (dn_confidence d)" if "?ov = None" "?oc = None"
    using vend [OF that(1)] clas [OF that(2)] that f32_min_cases by (auto simp: d) metis
qed

text \<open>C23. An identification of a device in a reachable engine is grounded. Its vendor and its class are
  the owner's where the owner's latest record for the component gives one; otherwise some live fact
  that is no router hint supports the value above the automatic threshold and no such fact
  contradicts it above the threshold. Unless the owner gave both, facts of at least two
  families support the pair, and a fully automatic identification is at least as confident as
  the threshold.
\<close>

theorem identification_is_grounded:
  assumes "identity_reachable cal to_string cfg s" and "component to_string s i = Inr c"
    and "identification_at to_string s i now = Inr (Some d)"
    and "active = {f \<in> evidence_of s i. participates now f}" and "t = ic_auto_identification_threshold cfg"
  shows "(case owner_value s c ''vendor'' of Some v \<Rightarrow> dn_vendor d = v | None \<Rightarrow> supported active t ''vendor'' (dn_vendor d))
    \<and> (case owner_value s c ''class'' of Some v \<Rightarrow> dn_device_class d = v
         | None \<Rightarrow> supported active t ''class'' (dn_device_class d))
    \<and> (owner_value s c ''vendor'' = None \<or> owner_value s c ''class'' = None \<longrightarrow>
         2 \<le> card (ef_family ` {f \<in> active. f32_le t (ef_confidence f) \<and>
           (ef_key f = ''vendor'' \<and> ef_value f = dn_vendor d \<or> ef_key f = ''class'' \<and> ef_value f = dn_device_class d)}))
    \<and> (owner_value s c ''vendor'' = None \<and> owner_value s c ''class'' = None \<longrightarrow> f32_le t (dn_confidence d))"
proof -
  have inv: "facts_ok s" "ie_cfg s = cfg" "valid_config cfg = Inr ()"
    using reachable_identity_inv [OF assms(1)] by (simp_all add: identity_inv_def)
  obtain rs where rs: "refs s c = Inr rs"
    "identify cfg (owner_value s c) (filter (participates now) rs) = Some d"
    using assms(2,3) inv(2) by (auto simp: identification_at_def split: sum.splits)
  have active: "set (filter (participates now) rs) = active"
    using refs_evidence [OF assms(2) rs(1)] assms(4) by auto
  have "\<not> f32_is_nan t"
    using inv(3) f32_unit_not_nan by (auto simp: assms(5) valid_config_def split: if_splits)
  moreover have "\<not> f32_is_nan (ef_confidence f)" if "f \<in> evidence_of s i" for f
  proof -
    obtain e fs where "(e, fs) \<in> set (ie_facts s)" "f \<in> set fs"
      using \<open>f \<in> evidence_of s i\<close> by (auto simp: evidence_of_def dest: hm_get_SomeD)
    then have "stored_ok (ie_cfg s) f" using inv(1) by (auto simp: facts_ok_def)
    then show ?thesis by (simp add: stored_ok_def f32_unit_not_nan)
  qed
  then have "\<forall>f \<in> set (filter (participates now) rs). \<not> f32_is_nan (ef_confidence f)"
    unfolding active assms(4) by simp
  ultimately show ?thesis
    using identify_grounded [OF rs(2) assms(5)] unfolding active by blast
qed

text \<open>A device whose vendor and class two services announce.\<close>

definition announced :: "evidence_fact list" where
  "announced = [sample_fact Service ''vendor'' ''Acme'', sample_fact Naming ''class'' ''camera'']"

definition announcing :: identity_engine where
  "announcing = fresh_engine \<lparr> ie_ids := [2, 3], ie_facts := [(1, announced)] \<rparr>"

lemma observe_announcing: "observe_at sample_name fresh_engine None announced 10 = (Inr 1, announcing)"
  by (simp add: identity_run_simps announced_def announcing_def)

lemma announcing_reachable: "identity_reachable cal sample_name small_config announcing"
  by (meson fresh_engine_reachable observing reachable.intros(2) observe_announcing)

definition acme_camera :: device_identification where
  "acme_camera = \<lparr> dn_vendor = ''Acme'', dn_device_class = ''camera'', dn_model = None, dn_firmware = None,
     dn_confidence = F32_ONE, dn_families = [Naming, Service] \<rparr>"

lemma announcing_component: "component sample_name announcing 1 = Inr [1]"
  by (simp add: identity_run_simps announcing_def hm_get_def)

lemma announcing_identified: "identification_at sample_name announcing 1 10 = Inr (Some acme_camera)"
  by (simp add: identification_at_def announcing_component refs_def announcing_def announced_def hm_get_def
      identity_run_simps participates_def identify_def pick_def owner_value_def rfind_def or_else_def
      contradicted_def sortfam_def acme_camera_def Let_def)

theorem identification_is_grounded_witness:
  "supported {f \<in> evidence_of announcing 1. participates 10 f} F32_0_85 ''vendor'' ''Acme''"
proof -
  have "owner_value announcing [1] k = None" for k
    by (simp add: owner_value_def rfind_def announcing_def fresh_engine_def)
  moreover have "ic_auto_identification_threshold small_config = F32_0_85"
    by (simp add: small_config_def default_identity_config_def)
  ultimately show ?thesis
    using identification_is_grounded [OF announcing_reachable [of utc_calendar] announcing_component
        announcing_identified refl refl]
    by (simp add: acme_camera_def)
qed

section \<open>Owner facts\<close>

text \<open>The owner's word takes effect at once and wins. When recording (or clearing) an owner fact
  succeeds, facts, proposals and components are unchanged, the component's value for that key
  is the one given, every other key keeps its value and so does every component that does not
  contain the representative. Whenever the owner has given both vendor and class, the
  identification states them with full confidence, whatever the evidence says.
\<close>

theorem owner_facts_win:
  assumes "owner to_string s i key v at = (Inr (), s')" and "component to_string s i = Inr c"
  shows "component to_string s' i = Inr c \<and> ie_facts s' = ie_facts s \<and> ie_proposals s' = ie_proposals s
    \<and> owner_value s' c key = v
    \<and> (\<forall>k. k \<noteq> key \<longrightarrow> owner_value s' c k = owner_value s c k)
    \<and> (\<forall>j c' k. component to_string s j = Inr c' \<and> (i, j) \<notin> merged s \<longrightarrow> owner_value s' c' k = owner_value s c' k)
    \<and> (\<forall>x y now r. owner_value s' c ''vendor'' = Some x \<and> owner_value s' c ''class'' = Some y
         \<and> identification_at to_string s' i now = Inr r \<longrightarrow>
           (\<exists>d. r = Some d \<and> dn_vendor d = x \<and> dn_device_class d = y \<and> dn_confidence d = F32_ONE))"
proof -
  obtain root following where ok: "resolve to_string s i = Inr root"
    "s' = s \<lparr> ie_owners := ie_owners s @ [\<lparr> ow_sequence = ie_next_owner s, ow_device_id = root,
        ow_key = key, ow_value = v, ow_recorded_at = at \<rparr>], ie_next_owner := following \<rparr>"
    using assms(1) by (auto simp: owner_def split: sum.splits if_splits option.splits)
  have root: "root \<in> set c" using ok(1) assms(2) component_canon by (auto simp: resolve_def)
  have other: "root \<notin> set c'" if "component to_string s j = Inr c'" "(i, j) \<notin> merged s" for j c'
    using root component_correct(1) [OF assms(2)] component_correct(1) [OF that(1)] that(2)
    by (blast intro: merged_sym merged_trans)
  have same: "component to_string s' j = component to_string s j" for j by (simp add: ok(2) component_def)
  have vals: "owner_value s' c' k = (if root \<in> set c' \<and> k = key then v else owner_value s c' k)" for c' k
    by (auto simp: ok(2) owner_value_def rfind_def)
  have "\<exists>d. r = Some d \<and> dn_vendor d = x \<and> dn_device_class d = y \<and> dn_confidence d = F32_ONE"
    if "owner_value s' c ''vendor'' = Some x" "owner_value s' c ''class'' = Some y"
      "identification_at to_string s' i now = Inr r" for x y now r
    using that assms(2) same [of i]
    by (auto simp: identification_at_def identify_def Let_def or_else_def split: sum.splits)
  moreover have "component to_string s' i = Inr c \<and> ie_facts s' = ie_facts s \<and> ie_proposals s' = ie_proposals s"
    using same [of i] assms(2) by (simp add: ok(2))
  moreover have "owner_value s' c key = v" "\<forall>k. k \<noteq> key \<longrightarrow> owner_value s' c k = owner_value s c k"
    using root by (simp_all add: vals)
  moreover have "\<forall>j c' k. component to_string s j = Inr c' \<and> (i, j) \<notin> merged s \<longrightarrow> owner_value s' c' k = owner_value s c' k"
    using other unfolding vals by meson
  ultimately show ?thesis by blast
qed

theorem owner_facts_win_witness:
  "\<exists>s'. owner sample_name announcing 1 ''vendor'' (Some ''Own'') 20 = (Inr (), s') \<and> owner_value s' [1] ''vendor'' = Some ''Own''"
proof -
  have run: "fst (owner sample_name announcing 1 ''vendor'' (Some ''Own'') 20) = Inr ()"
    unfolding owner_def resolve_def announcing_component
    by (simp add: canon_def OWNER_KEYS_def announcing_def identity_run_simps checked_add_def)
  with owner_facts_win [OF _ announcing_component, of "''vendor''" "Some ''Own''" 20] show ?thesis
    by (metis prod.collapse)
qed

end
