(* ===== verification/Identity_Safety.thy ===== *)
theory Identity_Safety
  imports Identity_Correlation
begin

text \<open>
  What the identity engine can rely on whatever it is asked: capacities hold, indexing never
  fails, refused calls leave the engine alone, addresses have one form, and eviction removes
  exactly the stale devices nobody has annotated.
\<close>

section \<open>No call panics\<close>

lemma component_no_panic: "component to_string s i \<noteq> Inl IndexPanic"
  by (simp add: component_def)

lemma resolve_no_panic: "resolve to_string s i \<noteq> Inl IndexPanic"
  using component_no_panic [of to_string s i] by (cases "component to_string s i") (simp_all add: resolve_def)

lemma prepare_no_panic: "prepare cfg fs \<noteq> Inl IndexPanic"
proof (induction fs)
  case (Cons f fs)
  have "mac v \<noteq> Inl IndexPanic" for v by (simp add: mac_def Let_def split: option.split)
  then have "prepare_fact cfg f \<noteq> Inl IndexPanic" by (auto simp: prepare_fact_def split: sum.splits)
  with Cons show ?case by (auto split: sum.splits)
qed simp

lemma component_index_facts:
  "identity_inv cfg s \<Longrightarrow> component to_string s i = Inr c \<Longrightarrow> \<exists>fss. index_facts s c = Inr fss"
  using index_facts_known component_known by blast

lemma refs_no_panic: "identity_inv cfg s \<Longrightarrow> component to_string s i = Inr c \<Longrightarrow> refs s c \<noteq> Inl IndexPanic"
  using component_index_facts [of cfg s to_string i c] by (auto simp: refs_def split: if_splits)

lemma preadd_no_panic: "identity_inv cfg s \<Longrightarrow> preadd to_string s i n now \<noteq> Inl IndexPanic"
  using component_no_panic [of to_string s i] component_index_facts [of cfg s to_string i]
  by (auto simp: preadd_def split: sum.splits)

lemma prune_and_extend_no_panic:
  assumes "identity_inv cfg s"
  shows "fst (prune_and_extend to_string s i fs now) \<noteq> Inl IndexPanic"
proof -
  obtain r1 s1 where p: "prune_expired to_string s i now = (r1, s1)" by fastforce
  have "r1 \<noteq> Inl IndexPanic" using p component_no_panic by (cases rule: prune_expired_run) fastforce+
  moreover have "preadd to_string s1 i (length fs) now \<noteq> Inl IndexPanic"
    by (rule preadd_no_panic [OF prune_expired_inv(1) [OF assms p]])
  ultimately show ?thesis using p by (auto simp: prune_and_extend_def extend_facts_def split: sum.splits option.splits)
qed

lemma candidate_matches_no_panic:
  "\<forall>c \<in> set cs. refs s c \<noteq> Inl IndexPanic \<Longrightarrow> candidate_matches to_string s incoming now cs work matches \<noteq> Inl IndexPanic"
proof (induction cs arbitrary: work matches)
  case (Cons c cs)
  then show ?case by (auto simp: Let_def split: sum.splits option.splits)
qed simp

lemma components_from_no_panic: "components_from to_string s ids seen out \<noteq> Inl IndexPanic"
proof (induction ids arbitrary: seen out)
  case (Cons i ids)
  with component_no_panic [of to_string s i] show ?case by (auto split: sum.splits)
qed simp

lemma components_no_panic: "components to_string s \<noteq> Inl IndexPanic"
  by (simp add: components_def components_from_no_panic)

lemma correlate_no_panic:
  assumes "identity_inv cfg s"
  shows "correlate to_string s incoming now \<noteq> Inl IndexPanic"
proof (cases "components to_string s")
  case (Inr comps)
  then have "\<forall>c \<in> set comps. refs s c \<noteq> Inl IndexPanic"
    using components_members(1) refs_no_panic [OF assms] by blast
  then have "candidate_matches to_string s incoming now comps 0 [] \<noteq> Inl IndexPanic"
    by (rule candidate_matches_no_panic)
  with Inr show ?thesis by (cases "candidate_matches to_string s incoming now comps 0 []") (auto simp: correlate_def)
qed (use components_no_panic [of to_string s] in \<open>auto simp: correlate_def\<close>)

lemma observe_at_no_panic:
  assumes "identity_inv cfg s"
  shows "fst (observe_at to_string s i fs now) \<noteq> Inl IndexPanic"
proof -
  have enrol: "fst (enrol s incoming matches) \<noteq> Inl IndexPanic" for incoming matches
    by (auto simp: enrol_def preprops_def split: sum.splits list.splits)
  have extend: "map_sum id (\<lambda>_. root) (fst (prune_and_extend to_string s j incoming now)) \<noteq> Inl IndexPanic"
    for root :: device_id and j incoming
    using prune_and_extend_no_panic [OF assms, of to_string j incoming now]
    by (cases "fst (prune_and_extend to_string s j incoming now)") simp_all
  show ?thesis
  proof (cases "prepare (ie_cfg s) fs")
    case (Inl err)
    then show ?thesis using prepare_no_panic [of "ie_cfg s" fs] by (simp add: observe_at_def)
  next
    case (Inr incoming)
    show ?thesis
    proof (cases i)
      case None
      show ?thesis
        using Inr None correlate_no_panic [OF assms, of to_string incoming now]
        by (cases "correlate to_string s incoming now") (simp_all add: observe_at_def enrol extend split: list.split)
    next
      case (Some named)
      show ?thesis
        using Inr Some resolve_no_panic [of to_string s named]
        by (cases "resolve to_string s named") (simp_all add: observe_at_def extend)
    qed
  qed
qed

lemma add_facts_at_no_panic:
  "identity_inv cfg s \<Longrightarrow> fst (add_facts_at to_string s i fs now) \<noteq> Inl IndexPanic"
  using prepare_no_panic [of "ie_cfg s" fs] prune_and_extend_no_panic
  by (auto simp: add_facts_at_def split: sum.splits)

lemma collect_stale_no_panic:
  "\<forall>c \<in> set cs. \<exists>fss. index_facts s c = Inr fss \<Longrightarrow> collect_stale s now cutoff cs \<noteq> Inl IndexPanic"
proof (induction cs)
  case (Cons c cs)
  then show ?case by (cases "collect_stale s now cutoff cs") auto
qed simp

lemma evict_stale_at_no_panic:
  assumes "identity_inv cfg s"
  shows "fst (evict_stale_at cal to_string s now retention) \<noteq> Inl IndexPanic"
proof (cases "components to_string s")
  case (Inr comps)
  then have "\<forall>c \<in> set comps. \<exists>fss. index_facts s c = Inr fss"
    using components_members(1) component_index_facts [OF assms] by blast
  then have "collect_stale s now cutoff comps \<noteq> Inl IndexPanic" for cutoff by (rule collect_stale_no_panic)
  with Inr show ?thesis by (auto simp: evict_stale_at_def split: option.splits sum.splits)
qed (use components_no_panic [of to_string s] in \<open>auto simp: evict_stale_at_def split: option.split\<close>)

lemma reads_no_panic:
  assumes "identity_inv cfg s"
  shows "facts_of to_string s i \<noteq> Inl IndexPanic" and "identification_at to_string s i now \<noteq> Inl IndexPanic"
proof -
  show "facts_of to_string s i \<noteq> Inl IndexPanic"
    using component_no_panic [of to_string s i] component_index_facts [OF assms, of to_string i]
    by (auto simp: facts_of_def split: sum.splits)
  show "identification_at to_string s i now \<noteq> Inl IndexPanic"
    using component_no_panic [of to_string s i] refs_no_panic [OF assms, of to_string i]
    by (auto simp: identification_at_def split: sum.splits)
qed

text \<open>C25. Every reachable engine is within its configured capacities: devices, facts per device,
  proposals, merge edges and both audit trails. Every stored fact has a confidence between 0 and
  1, a family allowed for its key, fields within their bounds (a value within the configured length or, for a hardware address, which is lengthened when it is
  normalised, 17 bytes), normalised addresses, and no
  owner provenance; a router hint is never more confident than the cap. The direct indexing of
  the fact map that the reading and matching code does never panics.
\<close>

theorem identity_is_bounded_and_never_panics:
  assumes "identity_reachable cal to_string cfg s"
  shows "length (ie_facts s) \<le> ic_max_devices cfg \<and> length (ie_proposals s) \<le> ic_max_proposals cfg
    \<and> length (ie_edges s) \<le> ic_max_merge_edges cfg \<and> length (ie_audit s) \<le> ic_max_audit_records cfg
    \<and> length (ie_owners s) \<le> ic_max_audit_records cfg
    \<and> (\<forall>d fs. (d, fs) \<in> set (ie_facts s) \<longrightarrow> length fs \<le> ic_max_facts_per_device cfg \<and> (\<forall>f \<in> set fs. stored_ok cfg f))
    \<and> fst (observe_at to_string s j fs now) \<noteq> Inl IndexPanic
    \<and> fst (add_facts_at to_string s i fs now) \<noteq> Inl IndexPanic
    \<and> facts_of to_string s i \<noteq> Inl IndexPanic
    \<and> identification_at to_string s i now \<noteq> Inl IndexPanic
    \<and> fst (evict_stale_at cal to_string s now retention) \<noteq> Inl IndexPanic"
proof -
  have inv: "identity_inv cfg s" using assms by (rule reachable_identity_inv)
  then have "facts_ok s" "proposals_ok s" "edges_ok s" "audit_ok s" "owners_ok s" "ie_cfg s = cfg"
    by (simp_all add: identity_inv_def)
  then show ?thesis
    using observe_at_no_panic [OF inv] add_facts_at_no_panic [OF inv] reads_no_panic [OF inv]
      evict_stale_at_no_panic [OF inv]
    by (simp add: facts_ok_def proposals_ok_def edges_ok_def audit_ok_def owners_ok_def)
qed

theorem identity_is_bounded_and_never_panics_witness:
  "length (ie_facts anchored_twice) \<le> 4 \<and> fst (observe_at sample_name anchored_twice None anchors 10) \<noteq> Inl IndexPanic"
proof -
  have "identity_reachable utc_calendar sample_name small_config anchored_twice"
    using anchored_reachable observe_anchored_again by (meson observing reachable.intros(2))
  from identity_is_bounded_and_never_panics [OF this, of None anchors 10 1 0]
  show ?thesis by (simp add: small_config_def)
qed

section \<open>Refused calls\<close>

text \<open>The engine without the expired facts of the component of \<open>i\<close>.\<close>

definition forgets_expired :: "(device_id \<Rightarrow> string) \<Rightarrow> identity_engine \<Rightarrow> instant \<Rightarrow> identity_engine \<Rightarrow> bool" where
  "forgets_expired to_string s now s' \<longleftrightarrow> (\<exists>i c. component to_string s i = Inr c \<and>
     s' = s \<lparr> ie_facts := map (\<lambda>(d, fs). (d, if d \<in> set c then filter (\<lambda>f. live f now) fs else fs)) (ie_facts s) \<rparr>)"

lemma prune_and_extend_refused:
  assumes "prune_and_extend to_string s i fs now = (Inl err, s')"
  shows "s' = s \<or> forgets_expired to_string s now s'"
proof -
  obtain r1 s1 where p: "prune_expired to_string s i now = (r1, s1)" by fastforce
  then have "s1 = s \<or> forgets_expired to_string s now s1"
    by (cases rule: prune_expired_run) (auto simp: forgets_expired_def)
  moreover have "s' = s1"
    using assms p by (auto simp: prune_and_extend_def extend_facts_def split: sum.splits option.splits)
  ultimately show ?thesis by simp
qed

lemma add_facts_at_refused:
  "add_facts_at to_string s i fs now = (Inl err, s') \<Longrightarrow> s' = s \<or> forgets_expired to_string s now s'"
  by (auto simp: add_facts_at_def prune_and_extend_refused split: sum.splits)

lemma map_prod_Inl: "map_prod (map_sum id f) id x = (Inl err, t) \<longleftrightarrow> x = (Inl err, t)"
  by (cases x; cases "fst x") auto

lemma observe_at_refused:
  assumes "observe_at to_string s i fs now = (Inl err, s')"
  shows "s' = s \<or> forgets_expired to_string s now s'"
proof -
  have enrol: "s' = s" if "enrol s incoming matches = (Inl err, s')" for incoming matches
    using that by (auto simp: enrol_def split: sum.splits list.splits if_splits)
  show ?thesis
  proof (cases "prepare (ie_cfg s) fs")
    case (Inl e)
    with assms show ?thesis by (simp add: observe_at_def)
  next
    case (Inr incoming)
    show ?thesis
    proof (cases i)
      case None
      with Inr assms enrol prune_and_extend_refused show ?thesis
        by (cases "correlate to_string s incoming now")
          (auto simp: observe_at_def map_prod_Inl split: list.splits prod.splits if_splits)
    next
      case (Some named)
      with Inr assms prune_and_extend_refused show ?thesis
        by (cases "resolve to_string s named") (auto simp: observe_at_def map_prod_Inl)
    qed
  qed
qed

text \<open>C26. A refused call leaves the engine as it was. This holds of proposing, deciding, undoing,
  recording owner facts and evicting; a refused observation or addition of facts can only have
  dropped expired facts of one component, because the code prunes before it checks the
  budget of the component.
\<close>

theorem refused_identity_calls_change_nothing:
  shows "(propose_merge to_string s a b score families reasons = (Inl err, s') \<longrightarrow> s' = s)
    \<and> (decide s k d = (Inl err, s') \<longrightarrow> s' = s)
    \<and> (undo s k = (Inl err, s') \<longrightarrow> s' = s)
    \<and> (owner to_string s i key v now = (Inl err, s') \<longrightarrow> s' = s)
    \<and> (evict_stale_at cal to_string s now retention = (Inl err, s') \<longrightarrow> s' = s)
    \<and> (observe_at to_string s j fs now = (Inl err, s') \<longrightarrow> s' = s \<or> forgets_expired to_string s now s')
    \<and> (add_facts_at to_string s i fs now = (Inl err, s') \<longrightarrow> s' = s \<or> forgets_expired to_string s now s')"
proof (intro conjI impI)
  show "s' = s" if "propose_merge to_string s a b score families reasons = (Inl err, s')"
    using that by (auto simp: propose_merge_def map_prod_def split: sum.splits prod.splits)
  show "s' = s" if "decide s k d = (Inl err, s')"
    using that by (cases rule: decide_run) simp_all
  show "s' = s" if "undo s k = (Inl err, s')"
    using that by (auto simp: undo_def split: if_splits option.splits)
  show "s' = s" if "owner to_string s i key v now = (Inl err, s')"
    using that by (auto simp: owner_def split: sum.splits if_splits option.splits)
  show "s' = s" if "evict_stale_at cal to_string s now retention = (Inl err, s')"
    using that by (cases rule: evict_stale_run) simp_all
qed (simp_all add: observe_at_refused add_facts_at_refused)

theorem refused_identity_calls_change_nothing_witness:
  "fst (undo proposed 1) = Inl CannotUndo \<and> snd (undo proposed 1) = proposed"
proof -
  have refused: "fst (undo proposed 1) = Inl CannotUndo"
    by (simp add: undo_def sample_defs fresh_engine_def small_config_def)
  with refused_identity_calls_change_nothing [of sample_name proposed 0 0 0 "[]" "[]" CannotUndo "snd (undo proposed 1)" 1]
  show ?thesis by (metis prod.collapse)
qed

section \<open>Addresses\<close>

text \<open>A unicast hardware address has one stored form: written with colons, with dashes or as
  dotted groups of four digits it is normalised to the same lower-case text with colons; the
  group bit or an all-zero address is refused in each notation. Normalising is idempotent and its
  result has 17 characters.
\<close>

theorem mac_has_one_form:
  shows "mac_bytes_ok bs \<Longrightarrow> unicast bs \<Longrightarrow>
      mac (mac_text CHR '':'' bs) = Inr (mac_text CHR '':'' bs)
      \<and> mac (mac_text CHR ''-'' bs) = Inr (mac_text CHR '':'' bs) \<and> mac (mac_dotted bs) = Inr (mac_text CHR '':'' bs)
      \<and> length (mac_text CHR '':'' bs) = 17
      \<and> (\<forall>v m. mac v = Inr m \<longrightarrow> mac m = Inr m \<and> (\<exists>bs. mac_bytes_ok bs \<and> unicast bs \<and> m = mac_text CHR '':'' bs))
      \<and> (\<forall>cs. mac_bytes_ok cs \<and> \<not> unicast cs \<longrightarrow> isl (mac (mac_text CHR '':'' cs)) \<and> isl (mac (mac_dotted cs)))"
proof -
  assume bs: "mac_bytes_ok bs" "unicast bs"
  then have colon: "mac (mac_text CHR '':'' bs) = Inr (mac_text CHR '':'' bs)" by (simp add: mac_of_text)
  with bs show ?thesis
    using length_mac [OF colon] mac_idempotent mac_canonical
    by (simp add: mac_of_text mac_dotted_text)
qed

theorem mac_has_one_form_witness:
  "mac (mac_dotted [0, 17, 34, 51, 68, 85]) = Inr (mac_text CHR '':'' [0, 17, 34, 51, 68, 85])"
proof -
  have "mac_bytes_ok [0, 17, 34, 51, 68, 85]" "unicast [0, 17, 34, 51, 68, 85]"
    by (simp_all add: mac_bytes_ok_def unicast_def)
  then show ?thesis using mac_has_one_form by blast
qed

section \<open>Eviction\<close>

text \<open>
  What makes a device stale: all evidence of its component has expired and was observed before
  the cutoff, no owner record and no pending proposal concerns the component.
\<close>

definition stale :: "identity_engine \<Rightarrow> instant \<Rightarrow> instant \<Rightarrow> device_id \<Rightarrow> bool" where
  "stale s now cutoff i \<longleftrightarrow>
     (\<forall>f \<in> evidence_of s i. \<not> live f now \<and> ef_observed_at f < cutoff)
     \<and> (\<forall>r \<in> set (ie_owners s). (i, ow_device_id r) \<notin> merged s)
     \<and> (\<forall>p \<in> set (ie_proposals s). mp_status p = ProposalPending \<longrightarrow>
          (i, mp_left p) \<notin> merged s \<and> (i, mp_right p) \<notin> merged s)"

lemma evictable_stale:
  assumes "component to_string s i = Inr c" and "index_facts s c = Inr fss"
  shows "evictable s now cutoff c fss \<longleftrightarrow> stale s now cutoff i"
proof -
  note c = component_correct(1) [OF assms(1)]
  have "evidence_of s i = set (concat fss)"
    using index_facts_set [OF assms(2)] unfolding c by (auto simp: evidence_of_def)
  then show ?thesis unfolding evictable_def stale_def list_all_iff list_ex_iff c by auto
qed

lemma stale_merged: "(i, j) \<in> merged s \<Longrightarrow> stale s now cutoff i = stale s now cutoff j"
proof -
  assume ij: "(i, j) \<in> merged s"
  have "(i, x) \<in> merged s \<longleftrightarrow> (j, x) \<in> merged s" for x using ij merged_trans merged_sym by meson
  then show ?thesis by (simp add: stale_def evidence_of_merged [OF ij])
qed

lemma collect_stale_iff:
  assumes "components to_string s = Inr comps" and "collect_stale s now cutoff comps = Inr ev"
    and inv: "identity_inv cfg s"
  shows "d \<in> set ev \<longleftrightarrow> d \<in> known s \<and> stale s now cutoff d"
proof -
  have comp: "\<exists>i fss. component to_string s i = Inr c \<and> index_facts s c = Inr fss
      \<and> (evictable s now cutoff c fss \<longleftrightarrow> stale s now cutoff d) \<and> d \<in> known s"
    if c: "c \<in> set comps" "d \<in> set c" for c
  proof -
    obtain i where i: "component to_string s i = Inr c" using components_members(1) [OF assms(1)] c(1) by blast
    obtain fss where fss: "index_facts s c = Inr fss" using component_index_facts [OF inv i] by blast
    have "(i, d) \<in> merged s" using component_correct(1) [OF i] c(2) by blast
    then have "evictable s now cutoff c fss \<longleftrightarrow> stale s now cutoff d"
      using evictable_stale [OF i fss] stale_merged by blast
    with i fss component_known [OF inv i] c(2) show ?thesis by blast
  qed
  show ?thesis
  proof
    assume "d \<in> set ev"
    then obtain c fss where c: "c \<in> set comps" "index_facts s c = Inr fss" "evictable s now cutoff c fss" "d \<in> set c"
      unfolding collect_stale_members [OF assms(2)] by blast
    with comp [OF c(1,4)] show "d \<in> known s \<and> stale s now cutoff d" by auto
  next
    assume d: "d \<in> known s \<and> stale s now cutoff d"
    then obtain c where c: "c \<in> set comps" "d \<in> set c" using components_members(2) [OF assms(1)] by blast
    with comp [OF c] d show "d \<in> set ev" unfolding collect_stale_members [OF assms(2)] by blast
  qed
qed

lemma linked_mono: "set es' \<subseteq> set es \<Longrightarrow> linked es' \<subseteq> linked es"
  by (auto simp: linked_def)

lemma hm_get_filter: "P k \<Longrightarrow> hm_get (filter (\<lambda>(d, _). P d) m) k = hm_get m k"
  by (induction m) (auto simp: hm_get_def)

lemma merged_after_eviction:
  assumes closed: "\<And>x y. (x, y) \<in> merged s \<Longrightarrow> x \<in> set ev \<longleftrightarrow> y \<in> set ev" and "i \<notin> set ev"
  shows "(i, j) \<in> merged (evict_devices s ev) \<longleftrightarrow> (i, j) \<in> merged s"
proof
  let ?es = "map snd (ie_edges s)" and ?es' = "map snd (ie_edges (evict_devices s ev))"
  have edges: "ie_edges (evict_devices s ev) = filter (\<lambda>(_, e). ed_a e \<notin> set ev \<and> ed_b e \<notin> set ev) (ie_edges s)"
    by (simp add: evict_devices_def Let_def)
  have "set ?es' \<subseteq> set ?es" unfolding edges by auto
  then have "linked ?es' \<subseteq> linked ?es" by (rule linked_mono)
  then show "(i, j) \<in> merged (evict_devices s ev) \<Longrightarrow> (i, j) \<in> merged s"
    unfolding merged_def using rtrancl_mono by blast
  have kept: "(x, y) \<in> linked ?es'" if xy: "(x, y) \<in> linked ?es" "x \<notin> set ev" "y \<notin> set ev" for x y
  proof -
    obtain e where e: "e \<in> set ?es" "ed_active e" "ed_a e = x \<and> ed_b e = y \<or> ed_b e = x \<and> ed_a e = y"
      using xy(1) by (auto simp: linked_def)
    then have "e \<in> set ?es'" using xy(2,3) unfolding edges by force
    with e(2,3) show ?thesis unfolding linked_def by blast
  qed
  assume "(i, j) \<in> merged s"
  then show "(i, j) \<in> merged (evict_devices s ev)"
    unfolding merged_def
  proof (induction rule: rtrancl_induct)
    case (step y z)
    then have "(i, y) \<in> merged s" "(i, z) \<in> merged s"
      unfolding merged_def by (auto intro: rtrancl_into_rtrancl)
    then have "y \<notin> set ev" "z \<notin> set ev" using closed assms(2) by blast+
    with step kept show ?case by (meson rtrancl_into_rtrancl)
  qed simp
qed

text \<open>C24. Eviction in a reachable engine removes exactly the stale devices: the known ones whose
  component's evidence has all expired and was observed before the cutoff (\<open>now\<close> less the
  retention), without an owner record and without a pending proposal. What is kept is untouched:
  the other devices keep their facts and their connections, the owner's records stay, and the
  proposals that remain are those between kept devices. The result lists the evicted devices in
  printed order.
\<close>

theorem eviction_removes_exactly_stale_devices:
  assumes "calendar_ok cal" and "identity_reachable cal to_string cfg s"
    and "evict_stale_at cal to_string s now retention = (Inr ids, s')"
  shows "set ids = {d \<in> known s. stale s now (now - retention) d} \<and> sorted (map to_string ids)
    \<and> known s' = known s - set ids \<and> ie_owners s' = ie_owners s
    \<and> (\<forall>d. d \<notin> set ids \<longrightarrow> hm_get (ie_facts s') d = hm_get (ie_facts s) d)
    \<and> (\<forall>i j. i \<in> known s' \<longrightarrow> (i, j) \<in> merged s' \<longleftrightarrow> (i, j) \<in> merged s)
    \<and> set (ie_proposals s') = {p \<in> set (ie_proposals s). mp_left p \<in> known s' \<and> mp_right p \<in> known s'}"
proof -
  have inv: "identity_inv cfg s" using assms(2) by (rule reachable_identity_inv)
  then have ok: "proposals_ok s" "edges_ok s" "facts_ok s" by (simp_all add: identity_inv_def)
  have members: "mp_left p \<in> known s \<and> mp_right p \<in> known s" if "p \<in> set (ie_proposals s)" for p
    using ok(1) that by (simp add: proposals_ok_def)
  from assms(3) show ?thesis
  proof (cases rule: evict_stale_run)
    case (evicted cutoff comps ev)
    have cutoff: "cutoff = now - retention" using calendar_okD [OF assms(1) evicted(1)] by simp
    have ids: "set ids = set ev" "sorted (map to_string ids)" using evicted(4) by auto
    note iff = collect_stale_iff [OF evicted(2,3) inv]
    have closed: "x \<in> set ev \<longleftrightarrow> y \<in> set ev" if "(x, y) \<in> merged s" for x y
      using iff stale_merged [OF that] merged_known [OF ok(2,1)] that merged_sym by blast
    have "known s' = known s - set ids" "set (ie_proposals s') =
        {p \<in> set (ie_proposals s). mp_left p \<notin> set ids \<and> mp_right p \<notin> set ids}"
      unfolding evicted(5) ids(1) evict_devices_fields [OF ok(1)] by auto
    moreover have "hm_get (ie_facts s') d = hm_get (ie_facts s) d" if "d \<notin> set ids" for d
      using that unfolding evicted(5) ids(1) by (simp add: evict_devices_def Let_def hm_get_filter)
    moreover have "\<forall>i j. i \<in> known s' \<longrightarrow> (i, j) \<in> merged s' \<longleftrightarrow> (i, j) \<in> merged s"
      using merged_after_eviction [OF closed] calculation(1) unfolding evicted(5) ids(1) by blast
    moreover have "set ids = {d \<in> known s. stale s now (now - retention) d}" "ie_owners s' = ie_owners s"
      unfolding ids(1) using iff cutoff by (auto simp: evicted(5) evict_devices_def Let_def)
    ultimately show ?thesis using members ids(2) by auto
  qed simp
qed

theorem eviction_removes_exactly_stale_devices_witness:
  "\<exists>s'. evict_stale_at utc_calendar sample_name two_devices 1000 10 = (Inr [1, 2], s') \<and> known s' = {}"
proof -
  let ?r = "evict_stale_at utc_calendar sample_name two_devices 1000 10"
  have names: "sample_name 1 = ''x''" "sample_name 2 = ''xx''"
    by (simp_all add: sample_name_def) (simp add: numeral_2_eq_2)
  have run: "fst ?r = Inr [1, 2]"
    by (simp add: evict_stale_at_def utc_calendar_def identity_run_simps sample_defs names hm_get_def
        evictable_def live_def)
  have "known two_devices = {1, 2}" by (simp add: known_def two_devices_def)
  with eviction_removes_exactly_stale_devices [OF calendar_ok_utc samples_reachable(1), of 1000 10 "[1, 2]" "snd ?r"] run
  show ?thesis by (metis Diff_cancel empty_set list.simps(15) prod.collapse)
qed

end
