(* ===== verification/Identity_Restart.thy ===== *)
theory Identity_Restart
  imports Identity_Safety
begin

text \<open>
  Restarting the identity engine from its own checkpoint: exactly when the checkpoint is
  accepted, what comes back, and engines that cannot be restarted.
\<close>

section \<open>The engine in a stable order\<close>

definition in_stable_order :: "(device_id \<Rightarrow> string) \<Rightarrow> identity_engine \<Rightarrow> identity_engine" where
  "in_stable_order to_string s = s \<lparr> ie_facts := sort_key (\<lambda>x. to_string (fst x)) (ie_facts s),
     ie_edges := sort_key fst (ie_edges s) \<rparr>"

definition restorable :: "identity_config \<Rightarrow> identity_engine \<Rightarrow> bool" where
  "restorable cfg s \<longleftrightarrow> distinct (ie_ids s) \<and> set (ie_ids s) \<inter> known s = {}
     \<and> length (ie_facts s) + length (ie_ids s) \<le> ic_max_devices cfg
     \<and> length (ie_facts s) + length (ie_ids s) < 2 ^ 64
     \<and> (\<forall>d fs. (d, fs) \<in> set (ie_facts s) \<longrightarrow> (\<forall>f \<in> set fs. timely f \<and> length (ef_value f) \<le> ic_max_value_len cfg))
     \<and> (\<forall>p \<in> set (ie_proposals s). proposal_restorable p)
     \<and> (\<forall>r \<in> set (ie_owners s). length (ow_key r) \<le> ic_max_key_len cfg)"

lemma stable_order_inv: "identity_inv cfg s \<Longrightarrow> identity_inv cfg (in_stable_order to_string s)"
proof -
  assume inv: "identity_inv cfg s"
  let ?s = "in_stable_order to_string s"
  have same: "set (ie_facts ?s) = set (ie_facts s)" "length (ie_facts ?s) = length (ie_facts s)"
    "hm_ok (ie_facts ?s) \<longleftrightarrow> hm_ok (ie_facts s)" "length (ie_edges ?s) = length (ie_edges s)"
    "hm_ok (ie_edges ?s) \<longleftrightarrow> hm_ok (ie_edges s)"
    by (simp_all add: in_stable_order_def hm_ok_set [of "sort_key _ _"])
  have get: "hm_get (ie_edges ?s) k = hm_get (ie_edges s) k" for k
    using inv by (intro hm_get_mset) (simp_all add: in_stable_order_def identity_inv_def edges_ok_def hm_ok_set [of "sort_key _ _"])
  have rest: "ie_cfg ?s = ie_cfg s" "ie_proposals ?s = ie_proposals s" "ie_next_proposal ?s = ie_next_proposal s"
    "ie_audit ?s = ie_audit s" "ie_owners ?s = ie_owners s" "ie_next_owner ?s = ie_next_owner s" "known ?s = known s"
    using same(1) by (simp_all add: in_stable_order_def known_def)
  show ?thesis
    using inv unfolding identity_inv_def facts_ok_def proposals_ok_def edges_ok_def audit_ok_def owners_ok_def
      same get rest .
qed

lemma checkpoint_edge_restored: "restored_edge (checkpoint_edge x) = x" "ce_proposal_id (checkpoint_edge x) = fst x"
  by (cases x; simp add: checkpoint_edge_def restored_edge_def)+

lemma sort_key_map: "sort_key f (map g xs) = map g (sort_key (\<lambda>x. f (g x)) xs)"
proof (induction xs)
  case (Cons x xs)
  have "insort_key f (g x) (map g ys) = map g (insort_key (\<lambda>x. f (g x)) x ys)" for ys
    by (induction ys) simp_all
  with Cons show ?case by simp
qed simp

lemma sort_key_idem: "sort_key f (sort_key f xs) = sort_key f xs"
  by (simp add: sort_key_id_if_sorted)

lemma checkpoint_edges: "sort_key ce_proposal_id (map checkpoint_edge es) = map checkpoint_edge (sort_key fst es)"
  by (simp add: sort_key_map checkpoint_edge_restored comp_def)

lemma rebuilt_checkpoint:
  assumes inv: "identity_inv cfg s"
    and short: "\<forall>d fs. (d, fs) \<in> set (ie_facts s) \<longrightarrow> (\<forall>f \<in> set fs. length (ef_value f) \<le> ic_max_value_len cfg)"
  shows "rebuilt cfg (identity_checkpoint_of to_string s) = in_stable_order to_string s"
    and "\<forall>x \<in> set (ie_facts s). prepare cfg (snd x) = Inr (snd x)"
proof -
  show prep: "\<forall>x \<in> set (ie_facts s). prepare cfg (snd x) = Inr (snd x)"
  proof
    fix x assume x: "x \<in> set (ie_facts s)"
    have "\<forall>f \<in> set (snd x). stored_ok cfg f \<and> length (ef_value f) \<le> ic_max_value_len cfg"
    proof -
      obtain d fs where d: "x = (d, fs)" by fastforce
      have "facts_ok s" "ie_cfg s = cfg" using inv by (simp_all add: identity_inv_def)
      then show ?thesis using x short unfolding d facts_ok_def by auto
    qed
    then show "prepare cfg (snd x) = Inr (snd x)" by (rule prepare_again)
  qed
  then have "map (prepared cfg) (sort_key k (ie_facts s)) = sort_key k (ie_facts s)" for k :: "_ \<Rightarrow> string"
    by (intro map_idI) (simp add: prepared_def)
  then show "rebuilt cfg (identity_checkpoint_of to_string s) = in_stable_order to_string s"
    using inv by (simp add: rebuilt_def identity_checkpoint_of_def in_stable_order_def checkpoint_edges comp_def
        checkpoint_edge_restored identity_inv_def)
qed

lemma acceptable_restorable:
  assumes inv: "identity_inv cfg s"
  shows "acceptable cfg (identity_checkpoint_of to_string s) \<longleftrightarrow> restorable cfg s"
proof -
  let ?c = "identity_checkpoint_of to_string s"
  have ok: "facts_ok s" "ie_cfg s = cfg" "valid_config cfg = Inr ()" using inv by (simp_all add: identity_inv_def)
  have ids: "ids_restorable cfg ?c \<longleftrightarrow> distinct (ie_ids s) \<and> set (ie_ids s) \<inter> known s = {}
      \<and> length (ie_facts s) + length (ie_ids s) \<le> ic_max_devices cfg \<and> length (ie_facts s) + length (ie_ids s) < 2 ^ 64"
    by (simp add: ids_restorable_def identity_checkpoint_of_def known_def)
  have fact: "restorable_facts cfg fs \<longleftrightarrow> (\<forall>f \<in> set fs. timely f \<and> length (ef_value f) \<le> ic_max_value_len cfg)"
    if d: "(d, fs) \<in> set (ie_facts s)" for d fs
  proof
    have stored: "\<forall>f \<in> set fs. stored_ok cfg f" "length fs \<le> ic_max_facts_per_device cfg"
      using d ok unfolding facts_ok_def by auto
    show "\<forall>f \<in> set fs. timely f \<and> length (ef_value f) \<le> ic_max_value_len cfg \<Longrightarrow> restorable_facts cfg fs"
      using prepare_again [of fs cfg] stored by (auto simp: restorable_facts_def)
    have "prepare cfg fs = Inr fs' \<Longrightarrow> \<forall>f \<in> set fs'. timely f \<Longrightarrow>
        \<forall>f \<in> set fs. timely f \<and> length (ef_value f) \<le> ic_max_value_len cfg" for fs'
    proof (induction fs arbitrary: fs')
      case (Cons f fs)
      then obtain f' gs where f: "prepare_fact cfg f = Inr f'" "prepare cfg fs = Inr gs" "fs' = f' # gs"
        by (auto split: sum.splits)
      have "timely f' \<longleftrightarrow> timely f"
        unfolding timely_def prepare_fact_stored(4,5) [OF f(1) valid_config_cap [OF ok(3)]] ..
      then have "timely f" using Cons.prems(2) f(3) by simp
      moreover have "length (ef_value f) \<le> ic_max_value_len cfg"
        using f(1) by (auto simp: prepare_fact_def split: if_splits)
      ultimately show ?case using Cons.IH [OF f(2)] Cons.prems(2) f(3) by simp
    qed simp
    then show "restorable_facts cfg fs \<Longrightarrow> \<forall>f \<in> set fs. timely f \<and> length (ef_value f) \<le> ic_max_value_len cfg"
      by (auto simp: restorable_facts_def)
  qed
  have "set (ik_facts ?c) = set (ie_facts s)" "ik_proposals ?c = ie_proposals s" "ik_owners ?c = ie_owners s"
    "ik_version ?c = 1"
    by (simp_all add: identity_checkpoint_of_def)
  with ids fact show ?thesis unfolding acceptable_def restorable_def by fastforce
qed

text \<open>C22. Restarting from a checkpoint. For an engine reachable from an empty start or from an earlier
  accepted checkpoint, the checkpoint it writes is accepted exactly when the engine is restorable: free
  identifiers distinct and unused, within the device capacity, no fact that expires before it was
  observed, no value above the bound, no proposal of a device with itself or outside the bounds
  of an owner's proposal. The restored engine is the same engine with its two maps in
  printed order, so it has the same components and writes the same checkpoint again.\<close>

theorem identity_checkpoint_round_trip:
  assumes "inj to_string" and "identity_reachable cal to_string cfg s"
  shows "(restorable cfg s \<longrightarrow> identity_from_checkpoint cfg (identity_checkpoint_of to_string s)
            = Inr (in_stable_order to_string s))
    \<and> (\<not> restorable cfg s \<longrightarrow> isl (identity_from_checkpoint cfg (identity_checkpoint_of to_string s)))
    \<and> identity_checkpoint_of to_string (in_stable_order to_string s) = identity_checkpoint_of to_string s
    \<and> component to_string (in_stable_order to_string s) i = component to_string s i"
proof -
  let ?s = "in_stable_order to_string s" and ?c = "identity_checkpoint_of to_string s"
  have inv: "identity_inv cfg s" using assms(2) by (rule reachable_identity_inv)
  have "identity_from_checkpoint cfg ?c = Inr ?s" if r: "restorable cfg s"
  proof -
    have "rebuilt cfg ?c = ?s" using rebuilt_checkpoint(1) [OF inv] r by (simp add: restorable_def)
    then show ?thesis
      using from_checkpoint_accepts [of cfg ?c] acceptable_restorable [OF inv] r stable_order_inv [OF inv] by metis
  qed
  moreover have "isl (identity_from_checkpoint cfg ?c)" if "\<not> restorable cfg s"
    using from_checkpoint_accepted acceptable_restorable [OF inv] that by (cases "identity_from_checkpoint cfg ?c") auto
  moreover have "identity_checkpoint_of to_string ?s = ?c"
    by (simp add: identity_checkpoint_of_def in_stable_order_def checkpoint_edges sort_key_idem)
  moreover have "component to_string ?s i = component to_string s i"
  proof (cases "within_work s")
    case True
    then have "within_work ?s" by (simp add: within_work_def in_stable_order_def)
    moreover have "merged ?s = merged s" by (simp add: merged_def linked_def in_stable_order_def)
    ultimately show ?thesis
      using component_cong [OF assms(1) _ _ True] by (simp add: known_def in_stable_order_def)
  next
    case False
    then show ?thesis
      by (simp add: component_def within_work_def in_stable_order_def hm_contains_iff not_le)
  qed
  ultimately show ?thesis by blast
qed

theorem identity_checkpoint_round_trip_witness:
  "identity_from_checkpoint small_config (identity_checkpoint_of sample_name accepted) = Inr (in_stable_order sample_name accepted)"
proof -
  have "restorable small_config accepted"
    by (auto simp: restorable_def known_def sample_defs identity_run_simps timely_def proposal_restorable_def validprop_def)
  with identity_checkpoint_round_trip [OF inj_sample_name samples_reachable(3) [of utc_calendar]] show ?thesis by blast
qed

section \<open>Engines that cannot be restarted\<close>

lemma unrestorable_refused:
  assumes "identity_reachable cal to_string cfg s" and "\<not> restorable cfg s"
  shows "isl (identity_from_checkpoint cfg (identity_checkpoint_of to_string s))"
  using from_checkpoint_accepted acceptable_restorable [OF reachable_identity_inv [OF assms(1)]] assms(2)
  by (cases "identity_from_checkpoint cfg (identity_checkpoint_of to_string s)") auto

text \<open>A faint serial number seen twice, an owner's proposal of a device with itself, and a fact that
  expires before it was observed.\<close>

definition faint :: evidence_fact where
  "faint = sample_fact Service ''serial'' ''S1'' \<lparr> ef_confidence := F32_0_49 \<rparr>"

definition faint_once :: identity_engine where
  "faint_once = fresh_engine \<lparr> ie_ids := [2, 3], ie_facts := [(1, [faint])] \<rparr>"

definition faint_twice :: identity_engine where
  "faint_twice = faint_once \<lparr> ie_ids := [3], ie_facts := [(1, [faint]), (2, [faint])], ie_next_proposal := 2,
     ie_proposals := [\<lparr> mp_id = 1, mp_left = 1, mp_right = 2, mp_score = F32_0_49, mp_families = [],
       mp_reasons = [''serial matched''], mp_status = ProposalPending \<rparr>] \<rparr>"

lemma faint_order [simp]: "f32_min F32_0_49 F32_0_49 = F32_0_49" "f32_max F32_ZERO F32_0_49 = F32_0_49"
  by (simp_all add: f32_min_def f32_max_def f32_lt_def f32_is_nan_def f32_mag_def f32_sign_def f32_key_def
      f32_infinite_mag_def F32_ZERO_def F32_0_49_def)

lemma faint_reachable: "identity_reachable cal sample_name small_config faint_twice"
proof -
  have "observe_at sample_name fresh_engine None [faint] 10 = (Inr 1, faint_once)"
    by (simp add: identity_run_simps faint_def faint_once_def)
  moreover have "observe_at sample_name faint_once None [faint] 10 = (Inr 2, faint_twice)"
    by (simp add: correlation_run_simps faint_def faint_once_def faint_twice_def canon_def checked_add_def insert_prop_def)
  ultimately show ?thesis by (meson fresh_engine_reachable observing reachable.intros(2))
qed

definition self_merge :: identity_engine where
  "self_merge = two_devices \<lparr> ie_proposals := [sample_proposal ProposalPending \<lparr> mp_right := 1 \<rparr>], ie_next_proposal := 2 \<rparr>"

lemma self_merge_reachable: "identity_reachable cal sample_name small_config self_merge"
proof -
  have "propose_merge sample_name two_devices 1 1 F32_ONE [Naming] [''same name''] = (Inr 1, self_merge)"
    by (simp add: identity_run_simps sample_defs self_merge_def propose_merge_def resolve_def validprop_def
        insert_prop_def checked_add_def sortfam_def hm_get_def sample_name_def canon_def)
  then show ?thesis by (meson samples_reachable(1) proposing reachable.intros(2))
qed

definition untimely :: identity_engine where
  "untimely = fresh_engine \<lparr> ie_ids := [2, 3],
     ie_facts := [(1, [sample_fact Service ''serial'' ''S1'' \<lparr> ef_observed_at := 200 \<rparr>])] \<rparr>"

lemma untimely_reachable: "identity_reachable cal sample_name small_config untimely"
proof -
  have "observe_at sample_name fresh_engine None [sample_fact Service ''serial'' ''S1'' \<lparr> ef_observed_at := 200 \<rparr>] 10
      = (Inr 1, untimely)"
    by (simp add: identity_run_simps untimely_def)
  then show ?thesis by (meson fresh_engine_reachable observing reachable.intros(2))
qed

text \<open>Runs behind the reported defects. Not every engine can be restarted: from an empty start, three single calls that the engine
  accepts leave it in a state whose own checkpoint \<open>from_checkpoint\<close> refuses. An observation
  that agrees with a known device only below the match threshold creates a proposal without
  families; an owner's proposal to merge a device with itself is taken; and a fact whose
  expiry precedes its observation is stored.\<close>

lemma own_identity_checkpoint_can_be_refused:
  "(identity_reachable utc_calendar sample_name small_config faint_twice
      \<and> isl (identity_from_checkpoint small_config (identity_checkpoint_of sample_name faint_twice)))
   \<and> (identity_reachable utc_calendar sample_name small_config self_merge
      \<and> isl (identity_from_checkpoint small_config (identity_checkpoint_of sample_name self_merge)))
   \<and> (identity_reachable utc_calendar sample_name small_config untimely
      \<and> isl (identity_from_checkpoint small_config (identity_checkpoint_of sample_name untimely)))"
proof -
  have "\<not> restorable small_config faint_twice"
    by (simp add: restorable_def proposal_restorable_def validprop_def faint_twice_def)
  moreover have "\<not> restorable small_config self_merge"
    by (simp add: restorable_def proposal_restorable_def self_merge_def sample_proposal_def)
  moreover have "\<not> restorable small_config untimely"
    by (simp add: restorable_def timely_def untimely_def sample_fact_def)
  ultimately show ?thesis
    using faint_reachable self_merge_reachable untimely_reachable unrestorable_refused by blast
qed

end
