(* ===== verification/Flow.thy ===== *)
theory Flow
  imports Domain
begin

text \<open>
  The flow engine of \<open>lattice-sensor/src/flow.rs\<close>: bounded event-time rollups of network traffic.
  Observations accumulate in one-second rows per source; advancing the watermark closes seconds,
  selects one authoritative source per row, and revises the minute and hour parents. A
  \<open>BTreeMap\<close> is an association list with distinct keys, sorted by the key's order where the code
  iterates over it. Calendar arithmetic and the printing and parsing of device identifiers are
  fields of the parameter \<open>platform\<close>.
\<close>

section \<open>Data\<close>

datatype protocol = Tcp | Udp | Icmp | OtherProtocol

datatype destination_category = LocalDestination | LanDestination | InternetDestination | UnknownDestination

type_synonym flow_source_id = u64

datatype visibility_kind = GatewayKind | BridgeKind | MirrorKind | RouterCounterKind | LocalKind | InferenceKind

record source_registration =
  sr_id :: flow_source_id
  sr_kind :: visibility_kind

definition verified_gateway :: "flow_source_id \<Rightarrow> source_registration" where
  "verified_gateway i = \<lparr> sr_id = i, sr_kind = GatewayKind \<rparr>"

definition verified_bridge :: "flow_source_id \<Rightarrow> source_registration" where
  "verified_bridge i = \<lparr> sr_id = i, sr_kind = BridgeKind \<rparr>"

definition verified_mirror :: "flow_source_id \<Rightarrow> source_registration" where
  "verified_mirror i = \<lparr> sr_id = i, sr_kind = MirrorKind \<rparr>"

definition verified_router_counter :: "flow_source_id \<Rightarrow> source_registration" where
  "verified_router_counter i = \<lparr> sr_id = i, sr_kind = RouterCounterKind \<rparr>"

definition collector_local :: "flow_source_id \<Rightarrow> source_registration" where
  "collector_local i = \<lparr> sr_id = i, sr_kind = LocalKind \<rparr>"

definition configured_inference :: "flow_source_id \<Rightarrow> source_registration" where
  "configured_inference i = \<lparr> sr_id = i, sr_kind = InferenceKind \<rparr>"

type_synonym replay_id = "128 word"

text \<open>\<open>std::net::IpAddr\<close>, with the number its octets spell.\<close>

datatype ip_addr = V4 u32 | V6 "128 word"

record destination_metadata =
  dm_ip :: "ip_addr option"
  dm_domain :: "string option"

record flow_observation =
  fo_replay_id :: replay_id
  fo_event_time :: instant
  fo_arrival_time :: instant
  fo_device_id :: device_id
  fo_upload :: u64
  fo_download :: u64
  fo_protocol :: protocol
  fo_destination :: destination_category
  fo_interface :: u32
  fo_source :: flow_source_id
  fo_metadata :: "destination_metadata option"

record flow_config =
  fc_lateness :: duration
  fc_future_skew :: duration
  fc_replay_ttl :: duration
  fc_correction_retention :: duration
  fc_retain_destination_metadata :: bool
  fc_max_domain_bytes :: nat
  fc_max_devices :: nat
  fc_max_sources :: nat
  fc_max_open_rows :: nat
  fc_max_replay_ids :: nat
  fc_max_finalized_rows :: nat
  fc_max_outputs_per_call :: nat
  fc_max_work_per_call :: nat

definition default_flow_config :: flow_config where
  "default_flow_config =
     \<lparr> fc_lateness = seconds 5, fc_future_skew = seconds 5, fc_replay_ttl = minutes 10,
       fc_correction_retention = hours 24, fc_retain_destination_metadata = False,
       fc_max_domain_bytes = 253, fc_max_devices = 1024, fc_max_sources = 64, fc_max_open_rows = 4096,
       fc_max_replay_ids = 8192, fc_max_finalized_rows = 65536, fc_max_outputs_per_call = 16384,
       fc_max_work_per_call = 262144 \<rparr>"

datatype flow_error =
    FlowConfig | FlowCapacity | UnknownSource | Replay | TooLate | FlowTime | FutureSkew
  | FlowInterface | FlowMetadata | FlowOverflow | OutputLimit | WorkLimit

datatype resolution = SecondResolution | MinuteResolution | HourResolution

record rollup_key =
  rk_resolution :: resolution
  rk_bucket :: instant
  rk_device_id :: device_id
  rk_protocol :: protocol
  rk_destination :: destination_category
  rk_interface :: u32
  rk_metadata :: "destination_metadata option"

record rollup =
  ro_key :: rollup_key
  ro_bytes :: byte_count
  ro_coverage :: coverage
  ro_metadata :: "destination_metadata option"

record retirement =
  rt_key :: rollup_key
  rt_cache_only :: bool

datatype rollup_change = Upsert rollup | Correction rollup | Retire retirement

record second_key =
  sk_epoch :: int
  sk_device :: string
  sk_protocol :: protocol
  sk_destination :: destination_category
  sk_interface :: u32
  sk_metadata :: "destination_metadata option"

record source_second_key =
  ss_base :: second_key
  ss_source :: flow_source_id

record replay_entry =
  re_arrival :: instant
  re_device :: string

record flow_engine =
  fe_cfg :: flow_config
  fe_sources :: "(flow_source_id, visibility_kind) hmap"
  fe_seconds :: "(source_second_key, byte_count) hmap"
  fe_replay :: "(replay_id, replay_entry) hmap"
  fe_devices :: "string set"
  fe_last_arrival :: "instant option"
  fe_watermark :: "instant option"
  fe_emitted :: "(rollup_key, rollup) hmap"

record flow_snapshot =
  fs_watermark :: "instant option"
  fs_rollups :: "rollup list"
  fs_open_row_count :: nat
  fs_replay_ids :: "(replay_id \<times> instant) list"
  fs_devices :: "string list"
  fs_last_arrival :: "instant option"

text \<open>The private \<open>Value\<close> of the source: what a closed second contributes.\<close>

record flow_value =
  fv_bytes :: byte_count
  fv_coverage :: coverage

section \<open>The platform\<close>

text \<open>
  \<open>checked_add_signed\<close> and \<open>from_timestamp\<close> of chrono, \<open>to_string\<close> and \<open>parse\<close> of \<open>DeviceId\<close>.
\<close>

record platform =
  pf_add :: calendar
  pf_from_timestamp :: "int \<Rightarrow> int \<Rightarrow> instant option"
  pf_to_string :: "device_id \<Rightarrow> string"
  pf_parse :: "string \<Rightarrow> device_id option"

definition NANOS :: int where
  "NANOS = 1000000000"

definition timestamp :: "instant \<Rightarrow> int" where
  "timestamp t = t div NANOS"

definition timestamp_subsec_nanos :: "instant \<Rightarrow> int" where
  "timestamp_subsec_nanos t = t mod NANOS"

definition i64_checked :: "int \<Rightarrow> int option" where
  "i64_checked n = (if - (2 ^ 63) \<le> n \<and> n < 2 ^ 63 then Some n else None)"

definition usize_fits :: "nat \<Rightarrow> bool" where
  "usize_fits n \<longleftrightarrow> n < 2 ^ 64"

lemma usize_fits_code [code]: "usize_fits n \<longleftrightarrow> int n < 18446744073709551616"
  by (simp add: usize_fits_def)

definition checked_sub :: "u64 \<Rightarrow> u64 \<Rightarrow> u64 option" where
  "checked_sub a b = (if b \<le> a then Some (a - b) else None)"

text \<open>What their documentation promises: a calendar is an interval of instants, and a printed
  identifier parses to itself.\<close>

definition platform_ok :: "platform \<Rightarrow> bool" where
  "platform_ok pf \<longleftrightarrow>
     (\<exists>lo hi. (\<forall>t d. pf_add pf t d = (if lo \<le> t + d \<and> t + d \<le> hi then Some (t + d) else None))
        \<and> (\<forall>s n. 0 \<le> n \<and> n < NANOS \<longrightarrow>
             pf_from_timestamp pf s n = (if lo \<le> s * NANOS + n \<and> s * NANOS + n \<le> hi then Some (s * NANOS + n) else None)))
     \<and> (\<forall>d. pf_parse pf (pf_to_string pf d) = Some d)"

section \<open>Orders\<close>

fun resolution_rank :: "resolution \<Rightarrow> nat" where
  "resolution_rank SecondResolution = 0"
| "resolution_rank MinuteResolution = 1"
| "resolution_rank HourResolution = 2"

fun protocol_rank :: "protocol \<Rightarrow> nat" where
  "protocol_rank Tcp = 0"
| "protocol_rank Udp = 1"
| "protocol_rank Icmp = 2"
| "protocol_rank OtherProtocol = 3"

fun destination_rank :: "destination_category \<Rightarrow> nat" where
  "destination_rank LocalDestination = 0"
| "destination_rank LanDestination = 1"
| "destination_rank InternetDestination = 2"
| "destination_rank UnknownDestination = 3"

fun ip_rank :: "ip_addr \<Rightarrow> nat \<times> nat" where
  "ip_rank (V4 n) = (0, unat n)"
| "ip_rank (V6 n) = (1, unat n)"

definition metadata_rank :: "destination_metadata \<Rightarrow> (nat \<times> nat) option \<times> string option" where
  "metadata_rank m = (map_option ip_rank (dm_ip m), dm_domain m)"

definition rollup_key_order ::
  "platform \<Rightarrow> rollup_key
     \<Rightarrow> nat \<times> instant \<times> string \<times> nat \<times> nat \<times> u32 \<times> ((nat \<times> nat) option \<times> string option) option" where
  "rollup_key_order pf k =
     (resolution_rank (rk_resolution k), rk_bucket k, pf_to_string pf (rk_device_id k),
      protocol_rank (rk_protocol k), destination_rank (rk_destination k), rk_interface k,
      map_option metadata_rank (rk_metadata k))"

definition second_key_order ::
  "second_key \<Rightarrow> int \<times> string \<times> nat \<times> nat \<times> u32 \<times> ((nat \<times> nat) option \<times> string option) option" where
  "second_key_order k =
     (sk_epoch k, sk_device k, protocol_rank (sk_protocol k), destination_rank (sk_destination k),
      sk_interface k, map_option metadata_rank (sk_metadata k))"

definition source_second_key_order ::
  "source_second_key
     \<Rightarrow> (int \<times> string \<times> nat \<times> nat \<times> u32 \<times> ((nat \<times> nat) option \<times> string option) option) \<times> flow_source_id" where
  "source_second_key_order k = (second_key_order (ss_base k), ss_source k)"

section \<open>Construction\<close>

fun register_sources ::
  "source_registration list \<Rightarrow> (flow_source_id, visibility_kind) hmap
     \<Rightarrow> flow_error + (flow_source_id, visibility_kind) hmap" where
  "register_sources [] sources = Inr sources"
| "register_sources (r # rs) sources =
     (if hm_contains sources (sr_id r) then Inl FlowConfig
      else register_sources rs (hm_insert (sr_id r) (sr_kind r) sources))"

definition flow_config_bad :: "flow_config \<Rightarrow> bool" where
  "flow_config_bad cfg \<longleftrightarrow>
     fc_lateness cfg < 0 \<or> fc_future_skew cfg < 0 \<or> fc_replay_ttl cfg \<le> 0
     \<or> fc_correction_retention cfg < fc_lateness cfg \<or> fc_replay_ttl cfg < fc_lateness cfg
     \<or> fc_max_domain_bytes cfg = 0 \<or> fc_max_devices cfg = 0 \<or> fc_max_sources cfg = 0
     \<or> fc_max_open_rows cfg = 0 \<or> fc_max_replay_ids cfg = 0 \<or> fc_max_finalized_rows cfg = 0
     \<or> fc_max_outputs_per_call cfg = 0 \<or> fc_max_work_per_call cfg = 0"

definition new_flow_engine :: "flow_config \<Rightarrow> source_registration list \<Rightarrow> flow_error + flow_engine" where
  "new_flow_engine cfg registrations =
     (if flow_config_bad cfg then Inl FlowConfig
      else case register_sources registrations [] of
          Inl err \<Rightarrow> Inl err
        | Inr sources \<Rightarrow>
            if fc_max_sources cfg < length sources then Inl FlowCapacity
            else if sources = [] then Inl FlowConfig
            else Inr \<lparr> fe_cfg = cfg, fe_sources = sources, fe_seconds = [], fe_replay = [],
                       fe_devices = {}, fe_last_arrival = None, fe_watermark = None, fe_emitted = [] \<rparr>)"

section \<open>Observation\<close>

definition checked_epoch :: "platform \<Rightarrow> instant \<Rightarrow> flow_error + unit" where
  "checked_epoch pf t =
     (case pf_from_timestamp pf (timestamp t) (timestamp_subsec_nanos t) of
        None \<Rightarrow> Inl FlowTime
      | Some _ \<Rightarrow> Inr ())"

definition ascii_alphanumeric :: "char \<Rightarrow> bool" where
  "ascii_alphanumeric c = (let n = (of_char c :: nat) in
     48 \<le> n \<and> n \<le> 57 \<or> 65 \<le> n \<and> n \<le> 90 \<or> 97 \<le> n \<and> n \<le> 122)"

definition ascii_lowercase :: "char \<Rightarrow> char" where
  "ascii_lowercase c = (let n = (of_char c :: nat) in if 65 \<le> n \<and> n \<le> 90 then char_of (n + 32) else c)"

fun split_labels :: "string \<Rightarrow> string list" where
  "split_labels [] = [[]]"
| "split_labels (c # s) =
     (case split_labels s of
        [] \<Rightarrow> [[]]
      | part # parts \<Rightarrow> if c = CHR ''.'' then [] # part # parts else (c # part) # parts)"

definition domain_bad :: "string \<Rightarrow> bool" where
  "domain_bad d \<longleftrightarrow>
     d = [] \<or> list_ex (\<lambda>c. 128 \<le> (of_char c :: nat)) d \<or> hd d = CHR ''.'' \<or> last d = CHR ''.''
     \<or> list_ex (\<lambda>l. l = [] \<or> 63 < length l \<or> hd l = CHR ''-'' \<or> last l = CHR ''-''
          \<or> \<not> list_all (\<lambda>b. ascii_alphanumeric b \<or> b = CHR ''-'') l) (split_labels d)"

definition normalize_metadata ::
  "flow_config \<Rightarrow> destination_metadata option \<Rightarrow> flow_error + destination_metadata option" where
  "normalize_metadata cfg m =
     (if \<not> fc_retain_destination_metadata cfg then Inr None
      else case m of
          None \<Rightarrow> Inr None
        | Some x \<Rightarrow>
            (case dm_domain x of
               None \<Rightarrow> Inr (Some x)
             | Some d \<Rightarrow>
                 if fc_max_domain_bytes cfg < length d then Inl FlowCapacity
                 else if domain_bad d then Inl FlowMetadata
                 else Inr (Some (x \<lparr> dm_domain := Some (map ascii_lowercase d) \<rparr>))))"

text \<open>The time checks of \<open>observe\<close>: the row's epoch and the cutoff of the replay window.\<close>

definition observe_times :: "platform \<Rightarrow> flow_engine \<Rightarrow> flow_observation \<Rightarrow> flow_error + (int \<times> instant)" where
  "observe_times pf e ob =
     (case checked_epoch pf (fo_event_time ob) of
        Inl err \<Rightarrow> Inl err
      | Inr _ \<Rightarrow>
     (case checked_epoch pf (fo_arrival_time ob) of
        Inl err \<Rightarrow> Inl err
      | Inr _ \<Rightarrow>
     if is_some_and (fe_last_arrival e) (\<lambda>t. fo_arrival_time ob < t) then Inl FlowTime
     else case pf_add pf (fo_arrival_time ob) (fc_future_skew (fe_cfg e)) of
        None \<Rightarrow> Inl FlowOverflow
      | Some future \<Rightarrow>
     if future < fo_event_time ob then Inl FutureSkew
     else case i64_checked (timestamp (fo_event_time ob) + 1) of
        None \<Rightarrow> Inl FlowOverflow
      | Some close \<Rightarrow>
     (case pf_from_timestamp pf close 0 of
        None \<Rightarrow> Inl FlowOverflow
      | Some closes \<Rightarrow>
     (case pf_add pf closes (fc_lateness (fe_cfg e)) of
        None \<Rightarrow> Inl FlowOverflow
      | Some late_edge \<Rightarrow>
     if late_edge < fo_arrival_time ob then Inl TooLate
     else if is_some_and (fe_watermark e) (\<lambda>w. late_edge < w) then Inl TooLate
     else case pf_add pf (fo_arrival_time ob) (- fc_replay_ttl (fe_cfg e)) of
        None \<Rightarrow> Inl FlowOverflow
      | Some cutoff \<Rightarrow> Inr (timestamp (fo_event_time ob), cutoff)))))"

text \<open>The entries of the replay window that are retained, and the devices still active.\<close>

definition retained_replays :: "flow_engine \<Rightarrow> instant \<Rightarrow> (replay_id, replay_entry) hmap" where
  "retained_replays e cutoff = filter (\<lambda>(_, x). cutoff \<le> re_arrival x) (fe_replay e)"

definition active_devices ::
  "(source_second_key, byte_count) hmap \<Rightarrow> (replay_id, replay_entry) hmap \<Rightarrow> string set" where
  "active_devices rows replays =
     (\<lambda>x. sk_device (ss_base (fst x))) ` set rows \<union> (\<lambda>x. re_device (snd x)) ` set replays"

definition row_key ::
  "platform \<Rightarrow> flow_observation \<Rightarrow> int \<Rightarrow> destination_metadata option \<Rightarrow> source_second_key" where
  "row_key pf ob epoch metadata =
     \<lparr> ss_base = \<lparr> sk_epoch = epoch, sk_device = pf_to_string pf (fo_device_id ob), sk_protocol = fo_protocol ob,
         sk_destination = fo_destination ob, sk_interface = fo_interface ob, sk_metadata = metadata \<rparr>,
       ss_source = fo_source ob \<rparr>"

definition zero_bytes :: byte_count where
  "zero_bytes = \<lparr> bc_upload = 0, bc_download = 0 \<rparr>"

text \<open>The new total of a row; both directions together must fit as well.\<close>

definition add_bytes :: "byte_count \<Rightarrow> u64 \<Rightarrow> u64 \<Rightarrow> byte_count option" where
  "add_bytes old up down =
     (case (checked_add (bc_upload old) up, checked_add (bc_download old) down) of
        (Some u, Some d) \<Rightarrow> if checked_add u d = None then None else Some \<lparr> bc_upload = u, bc_download = d \<rparr>
      | _ \<Rightarrow> None)"

text \<open>The capacity checks and the updates at the end of \<open>observe\<close>.\<close>

definition store_observation ::
  "platform \<Rightarrow> flow_engine \<Rightarrow> flow_observation \<Rightarrow> int \<Rightarrow> instant \<Rightarrow> destination_metadata option
     \<Rightarrow> (flow_error + unit) \<times> flow_engine" where
  "store_observation pf e ob epoch cutoff metadata =
     (let cfg = fe_cfg e;
          device = pf_to_string pf (fo_device_id ob);
          active = active_devices (fe_seconds e) (retained_replays e cutoff);
          key = row_key pf ob epoch metadata
      in if device \<notin> active \<and> fc_max_devices cfg \<le> card active then (Inl FlowCapacity, e)
         else if \<not> hm_contains (fe_seconds e) key \<and> fc_max_open_rows cfg \<le> length (fe_seconds e)
         then (Inl FlowCapacity, e)
         else case add_bytes (case hm_get (fe_seconds e) key of None \<Rightarrow> zero_bytes | Some b \<Rightarrow> b)
                     (fo_upload ob) (fo_download ob) of
             None \<Rightarrow> (Inl FlowOverflow, e)
           | Some grown \<Rightarrow>
               (Inr (), e \<lparr> fe_replay := hm_insert (fo_replay_id ob)
                              \<lparr> re_arrival = fo_arrival_time ob, re_device = device \<rparr> (retained_replays e cutoff),
                            fe_devices := insert device active,
                            fe_seconds := hm_insert key grown (fe_seconds e),
                            fe_last_arrival := Some (fo_arrival_time ob) \<rparr>))"

definition flow_observe ::
  "platform \<Rightarrow> flow_engine \<Rightarrow> flow_observation \<Rightarrow> (flow_error + unit) \<times> flow_engine" where
  "flow_observe pf e ob =
     (let cfg = fe_cfg e;
          work = length (fe_replay e) * 3 + length (fe_seconds e) + 1
      in if \<not> hm_contains (fe_sources e) (fo_source ob) then (Inl UnknownSource, e)
         else if fo_interface ob = 0 then (Inl FlowInterface, e)
         else if checked_add (fo_upload ob) (fo_download ob) = None then (Inl FlowOverflow, e)
         else case observe_times pf e ob of
             Inl err \<Rightarrow> (Inl err, e)
           | Inr (epoch, cutoff) \<Rightarrow>
               if \<not> usize_fits work then (Inl FlowOverflow, e)
               else if fc_max_work_per_call cfg < work then (Inl WorkLimit, e)
               else if is_some_and (hm_get (fe_replay e) (fo_replay_id ob)) (\<lambda>x. cutoff \<le> re_arrival x)
               then (Inl Replay, e)
               else if fc_max_replay_ids cfg \<le> length (retained_replays e cutoff) then (Inl FlowCapacity, e)
               else case normalize_metadata cfg (fo_metadata ob) of
                   Inl err \<Rightarrow> (Inl err, e)
                 | Inr metadata \<Rightarrow> store_observation pf e ob epoch cutoff metadata)"

section \<open>Closing seconds\<close>

fun coverage_of :: "visibility_kind \<Rightarrow> coverage" where
  "coverage_of GatewayKind = Complete"
| "coverage_of BridgeKind = Complete"
| "coverage_of MirrorKind = Complete"
| "coverage_of RouterCounterKind = RouterReported"
| "coverage_of LocalKind = LocalOnly"
| "coverage_of InferenceKind = Estimated"

definition merge_coverage :: "coverage \<Rightarrow> coverage \<Rightarrow> coverage" where
  "merge_coverage a b = (if a = b then a else Estimated)"

fun coverage_rank :: "coverage \<Rightarrow> nat" where
  "coverage_rank Complete = 4"
| "coverage_rank RouterReported = 3"
| "coverage_rank LocalOnly = 2"
| "coverage_rank Estimated = 1"

text \<open>The loop of \<open>select_seconds\<close>: the value chosen per row so far and its rank and source.\<close>

fun select_loop ::
  "(flow_source_id, visibility_kind) hmap \<Rightarrow> instant \<Rightarrow> (source_second_key \<times> byte_count) list
     \<Rightarrow> (second_key, flow_value) hmap \<Rightarrow> (second_key, nat \<times> flow_source_id) hmap
     \<Rightarrow> flow_error + (second_key, flow_value) hmap" where
  "select_loop sources w [] out winners = Inr out"
| "select_loop sources w ((k, b) # rows) out winners =
     (case i64_checked (sk_epoch (ss_base k) + 1) of
        None \<Rightarrow> Inl FlowOverflow
      | Some close \<Rightarrow>
          if timestamp w < close then select_loop sources w rows out winners
          else case hm_get sources (ss_source k) of
              None \<Rightarrow> Inl UnknownSource
            | Some kind \<Rightarrow>
                (let cov = coverage_of kind; rank = coverage_rank cov
                 in if is_none_or (hm_get winners (ss_base k))
                         (\<lambda>(r, i). r < rank \<or> rank = r \<and> ss_source k < i)
                    then select_loop sources w rows
                           (hm_insert (ss_base k) \<lparr> fv_bytes = b, fv_coverage = cov \<rparr> out)
                           (hm_insert (ss_base k) (rank, ss_source k) winners)
                    else select_loop sources w rows out winners))"

definition select_seconds ::
  "(source_second_key, byte_count) hmap \<Rightarrow> (flow_source_id, visibility_kind) hmap \<Rightarrow> instant
     \<Rightarrow> flow_error + (second_key, flow_value) hmap" where
  "select_seconds rows sources w =
     select_loop sources w (sort_key (\<lambda>x. source_second_key_order (fst x)) rows) [] []"

definition make_rollup ::
  "platform \<Rightarrow> resolution \<Rightarrow> int \<Rightarrow> second_key \<Rightarrow> flow_value \<Rightarrow> flow_error + rollup" where
  "make_rollup pf res epoch k v =
     (case pf_from_timestamp pf epoch 0 of
        None \<Rightarrow> Inl FlowOverflow
      | Some bucket \<Rightarrow>
          (case pf_parse pf (sk_device k) of
             None \<Rightarrow> Inl FlowConfig
           | Some d \<Rightarrow>
               Inr \<lparr> ro_key = \<lparr> rk_resolution = res, rk_bucket = bucket, rk_device_id = d,
                       rk_protocol = sk_protocol k, rk_destination = sk_destination k,
                       rk_interface = sk_interface k, rk_metadata = sk_metadata k \<rparr>,
                     ro_bytes = fv_bytes v, ro_coverage = fv_coverage v, ro_metadata = sk_metadata k \<rparr>))"

text \<open>The parent's bytes without the second's old contribution and with the new one.\<close>

definition replace_bytes :: "byte_count \<Rightarrow> byte_count \<Rightarrow> byte_count \<Rightarrow> byte_count option" where
  "replace_bytes grown old new =
     (case (checked_sub (bc_upload grown) (bc_upload old), checked_sub (bc_download grown) (bc_download old)) of
        (Some u, Some d) \<Rightarrow> add_bytes \<lparr> bc_upload = u, bc_download = d \<rparr> (bc_upload new) (bc_download new)
      | _ \<Rightarrow> None)"

definition adjust_parent ::
  "platform \<Rightarrow> (rollup_key, rollup) hmap \<Rightarrow> resolution \<Rightarrow> int \<Rightarrow> second_key \<Rightarrow> rollup option \<Rightarrow> rollup
     \<Rightarrow> flow_error + (rollup_key, rollup) hmap" where
  "adjust_parent pf out res width base old new =
     (case i64_checked (sk_epoch base div width * width) of
        None \<Rightarrow> Inl FlowOverflow
      | Some epoch \<Rightarrow>
          (case make_rollup pf res epoch base \<lparr> fv_bytes = zero_bytes, fv_coverage = ro_coverage new \<rparr> of
             Inl err \<Rightarrow> Inl err
           | Inr template \<Rightarrow>
               (let p = (case hm_get out (ro_key template) of None \<Rightarrow> template | Some r \<Rightarrow> r);
                    oldb = (case old of None \<Rightarrow> zero_bytes | Some r \<Rightarrow> ro_bytes r)
                in case replace_bytes (ro_bytes p) oldb (ro_bytes new) of
                     None \<Rightarrow> Inl FlowOverflow
                   | Some grown \<Rightarrow>
                       Inr (hm_insert (ro_key template)
                         (p \<lparr> ro_bytes := grown,
                              ro_coverage := merge_coverage (ro_coverage p) (ro_coverage new) \<rparr>) out))))"

fun resolution_width :: "resolution \<Rightarrow> int" where
  "resolution_width SecondResolution = 1"
| "resolution_width MinuteResolution = 60"
| "resolution_width HourResolution = 3600"

definition retired :: "platform \<Rightarrow> rollup_key \<Rightarrow> instant \<Rightarrow> duration \<Rightarrow> bool" where
  "retired pf k w lateness =
     is_some_and (Option.bind (pf_add pf (rk_bucket k) (resolution_width (rk_resolution k) * NANOS))
       (\<lambda>x. pf_add pf x lateness)) (\<lambda>edge. edge < w)"

text \<open>One closed second: publish it and revise its parents, if it is new or has changed.\<close>

definition propose_second ::
  "platform \<Rightarrow> (rollup_key, rollup) hmap \<Rightarrow> second_key \<times> flow_value \<Rightarrow> flow_error + (rollup_key, rollup) hmap" where
  "propose_second pf proposed x =
     (case x of (base, v) \<Rightarrow>
       (case make_rollup pf SecondResolution (sk_epoch base) base v of
          Inl err \<Rightarrow> Inl err
        | Inr second \<Rightarrow>
            (let old = hm_get proposed (ro_key second) in
             if old = Some second then Inr proposed
             else case adjust_parent pf (hm_insert (ro_key second) second proposed) MinuteResolution 60 base old second of
                 Inl err \<Rightarrow> Inl err
               | Inr proposed' \<Rightarrow> adjust_parent pf proposed' HourResolution 3600 base old second)))"

fun propose_seconds ::
  "platform \<Rightarrow> (second_key \<times> flow_value) list \<Rightarrow> (rollup_key, rollup) hmap \<Rightarrow> flow_error + (rollup_key, rollup) hmap" where
  "propose_seconds pf [] proposed = Inr proposed"
| "propose_seconds pf (x # xs) proposed =
     (case propose_second pf proposed x of
        Inl err \<Rightarrow> Inl err
      | Inr proposed' \<Rightarrow> propose_seconds pf xs proposed')"

text \<open>The change of one key between the published and the proposed rollups.\<close>

definition change_of ::
  "(rollup_key, rollup) hmap \<Rightarrow> (rollup_key, rollup) hmap \<Rightarrow> rollup_key \<Rightarrow> rollup_change option" where
  "change_of emitted proposed k =
     (case (hm_get emitted k, hm_get proposed k) of
        (None, Some v) \<Rightarrow> Some (Upsert v)
      | (Some old, Some v) \<Rightarrow> if old \<noteq> v then Some (Correction v) else None
      | (Some _, None) \<Rightarrow> Some (Retire \<lparr> rt_key = k, rt_cache_only = True \<rparr>)
      | (None, None) \<Rightarrow> None)"

fun diff_loop ::
  "nat \<Rightarrow> (rollup_key, rollup) hmap \<Rightarrow> (rollup_key, rollup) hmap \<Rightarrow> rollup_key list \<Rightarrow> nat \<Rightarrow> rollup_change list
     \<Rightarrow> flow_error + rollup_change list" where
  "diff_loop limit emitted proposed [] work changes = Inr changes"
| "diff_loop limit emitted proposed (k # ks) work changes =
     (if \<not> usize_fits (work + 1) then Inl FlowOverflow
      else if limit < work + 1 then Inl WorkLimit
      else diff_loop limit emitted proposed ks (work + 1)
             (changes @ (case change_of emitted proposed k of None \<Rightarrow> [] | Some c \<Rightarrow> [c])))"

text \<open>The rollups after closing the selected seconds, and the changes that lead to them.\<close>

definition plan_advance ::
  "platform \<Rightarrow> flow_engine \<Rightarrow> instant \<Rightarrow> nat \<Rightarrow> flow_error + (rollup_key, rollup) hmap \<times> rollup_change list" where
  "plan_advance pf e w work =
     (case select_seconds (fe_seconds e) (fe_sources e) w of
        Inl err \<Rightarrow> Inl err
      | Inr selected \<Rightarrow>
     (case propose_seconds pf (sort_key (\<lambda>x. second_key_order (fst x)) selected) (fe_emitted e) of
        Inl err \<Rightarrow> Inl err
      | Inr all \<Rightarrow>
          (let proposed = filter (\<lambda>(k, _). \<not> retired pf k w (fc_lateness (fe_cfg e))) all;
               keys = sort_key (rollup_key_order pf) (remdups (map fst (fe_emitted e) @ map fst proposed))
           in if fc_max_finalized_rows (fe_cfg e) < length proposed then Inl FlowCapacity
              else case diff_loop (fc_max_work_per_call (fe_cfg e)) (fe_emitted e) proposed keys work [] of
                  Inl err \<Rightarrow> Inl err
                | Inr changes \<Rightarrow>
                    if fc_max_outputs_per_call (fe_cfg e) < length changes then Inl OutputLimit
                    else Inr (proposed, changes))))"

definition advance_watermark_at ::
  "platform \<Rightarrow> flow_engine \<Rightarrow> instant \<Rightarrow> instant \<Rightarrow> (flow_error + rollup_change list) \<times> flow_engine" where
  "advance_watermark_at pf e w now =
     (let cfg = fe_cfg e;
          horizon = min (fc_correction_retention cfg) (fc_lateness cfg);
          work = length (fe_seconds e) * 8 + length (fe_emitted e) * 4
      in case checked_epoch pf w of
           Inl err \<Rightarrow> (Inl err, e)
         | Inr _ \<Rightarrow>
       (case checked_epoch pf now of
           Inl err \<Rightarrow> (Inl err, e)
         | Inr _ \<Rightarrow>
       if now < w then (Inl FutureSkew, e)
       else if is_some_and (fe_last_arrival e) (\<lambda>old. now < old) then (Inl FlowTime, e)
       else if is_some_and (fe_watermark e) (\<lambda>old. w < old) then (Inl FlowTime, e)
       else case pf_add pf w (- horizon) of
           None \<Rightarrow> (Inl FlowOverflow, e)
         | Some edge \<Rightarrow>
       if \<not> usize_fits work then (Inl FlowOverflow, e)
       else if fc_max_work_per_call cfg < work then (Inl WorkLimit, e)
       else case plan_advance pf e w work of
           Inl err \<Rightarrow> (Inl err, e)
         | Inr (proposed, changes) \<Rightarrow>
       (case pf_add pf now (- fc_replay_ttl cfg) of
           None \<Rightarrow> (Inl FlowOverflow, e)
         | Some replay_cutoff \<Rightarrow>
             (let rows = filter (\<lambda>(k, _). is_some_and (i64_checked (sk_epoch (ss_base k) + 1))
                           (\<lambda>x. timestamp edge \<le> x)) (fe_seconds e);
                  replays = retained_replays e replay_cutoff
              in (Inr changes, e \<lparr> fe_watermark := Some w, fe_emitted := proposed, fe_seconds := rows,
                    fe_replay := replays, fe_devices := active_devices rows replays,
                    fe_last_arrival := Some now \<rparr>)))))"

definition flow_snapshot_of :: "platform \<Rightarrow> flow_engine \<Rightarrow> flow_snapshot" where
  "flow_snapshot_of pf e =
     \<lparr> fs_watermark = fe_watermark e,
       fs_rollups = map snd (sort_key (\<lambda>x. rollup_key_order pf (fst x)) (fe_emitted e)),
       fs_open_row_count = length (fe_seconds e),
       fs_replay_ids = map (\<lambda>(i, x). (i, re_arrival x)) (sort_key fst (fe_replay e)),
       fs_devices = sorted_list_of_set (fe_devices e),
       fs_last_arrival = fe_last_arrival e \<rparr>"

end
