(* ===== verification/Flow_Ledger.thy ===== *)
theory Flow_Ledger
  imports Flow
begin

text \<open>
  The books of the flow engine. Two ghost records accompany it: the ledger, the value every closed
  second had when it was last selected, and the durable store, the rollups a consumer has after
  applying the published changes. The invariant relates the cached parents to the ledger.
\<close>

section \<open>The calendar\<close>

lemma NANOS_pos [simp]: "0 < NANOS"
  by (simp add: NANOS_def)

lemma from_timestamp_whole:
  assumes "platform_ok pf" and "pf_from_timestamp pf s 0 = Some t"
  shows "t = s * NANOS"
proof -
  obtain lo hi where "\<forall>s n. 0 \<le> n \<and> n < NANOS \<longrightarrow> pf_from_timestamp pf s n
      = (if lo \<le> s * NANOS + n \<and> s * NANOS + n \<le> hi then Some (s * NANOS + n) else None)"
    using assms(1) unfolding platform_ok_def by blast
  with assms(2) NANOS_pos show ?thesis by (auto split: if_splits)
qed

lemma pf_addD: "platform_ok pf \<Longrightarrow> pf_add pf t d = Some u \<Longrightarrow> u = t + d"
  unfolding platform_ok_def by (metis option.distinct(1) option.inject)

lemma parse_to_string: "platform_ok pf \<Longrightarrow> pf_parse pf (pf_to_string pf d) = Some d"
  by (simp add: platform_ok_def)

text \<open>When the correction window of a rollup has closed.\<close>

definition expired :: "duration \<Rightarrow> rollup_key \<Rightarrow> instant \<Rightarrow> bool" where
  "expired lateness k w \<longleftrightarrow> rk_bucket k + resolution_width (rk_resolution k) * NANOS + lateness < w"

lemma retired_expired: "platform_ok pf \<Longrightarrow> retired pf k w lateness \<Longrightarrow> expired lateness k w"
proof -
  assume ok: "platform_ok pf" and "retired pf k w lateness"
  then obtain x edge where "pf_add pf (rk_bucket k) (resolution_width (rk_resolution k) * NANOS) = Some x"
    "pf_add pf x lateness = Some edge" "edge < w"
    by (auto simp: retired_def split: option.splits elim!: bind_eq_Some_conv [THEN iffD1, elim_format])
  with pf_addD [OF ok] show ?thesis by (fastforce simp: expired_def)
qed

section \<open>Parents\<close>

definition parent_key :: "resolution \<Rightarrow> rollup_key \<Rightarrow> rollup_key" where
  "parent_key res k = k \<lparr> rk_resolution := res,
     rk_bucket := timestamp (rk_bucket k) div resolution_width res * resolution_width res * NANOS \<rparr>"

definition is_parent :: "rollup_key \<Rightarrow> rollup_key \<Rightarrow> bool" where
  "is_parent p k \<longleftrightarrow> rk_resolution p \<noteq> SecondResolution \<and> parent_key (rk_resolution p) k = p"

text \<open>A second key as \<open>make_rollup\<close> builds it starts on a whole second.\<close>

definition second_rollup_key :: "rollup_key \<Rightarrow> bool" where
  "second_rollup_key k \<longleftrightarrow> rk_resolution k = SecondResolution \<and> rk_bucket k mod NANOS = 0"

lemma parent_expires_later:
  assumes "is_parent p k" and "second_rollup_key k" and "expired lateness p w"
  shows "expired lateness k w"
proof -
  let ?e = "rk_bucket k div NANOS" and ?w = "resolution_width (rk_resolution p)"
  have w: "0 < ?w" by (cases "rk_resolution p") simp_all
  have bucket: "rk_bucket k = ?e * NANOS" using assms(2) by (metis div_mult_mod_eq add.right_neutral second_rollup_key_def)
  have "rk_bucket p = ?e div ?w * ?w * NANOS"
  proof -
    have "rk_bucket (parent_key (rk_resolution p) k) = rk_bucket p" using assms(1) by (simp add: is_parent_def)
    then show ?thesis by (simp add: parent_key_def timestamp_def)
  qed
  moreover have "?e + 1 \<le> ?e div ?w * ?w + ?w"
    using w pos_mod_bound [of ?w ?e] div_mult_mod_eq [of ?e ?w] by linarith
  then have "(?e + 1) * NANOS \<le> (?e div ?w * ?w + ?w) * NANOS" by (intro mult_right_mono) (simp_all add: NANOS_def)
  ultimately show ?thesis
    using assms(2,3) bucket by (simp add: expired_def second_rollup_key_def algebra_simps)
qed

section \<open>Sums over the ledger\<close>

type_synonym ledger = "rollup_key \<Rightarrow> rollup option"

definition children :: "ledger \<Rightarrow> rollup_key \<Rightarrow> rollup_key set" where
  "children led p = {k \<in> dom led. is_parent p k}"

definition ledger_sum :: "(byte_count \<Rightarrow> u64) \<Rightarrow> ledger \<Rightarrow> rollup_key \<Rightarrow> nat" where
  "ledger_sum dir led p = (\<Sum>k \<in> children led p. unat (dir (ro_bytes (the (led k)))))"

definition old_bytes :: "rollup option \<Rightarrow> byte_count" where
  "old_bytes old = (case old of None \<Rightarrow> zero_bytes | Some r \<Rightarrow> ro_bytes r)"

lemma children_update:
  "children (led(k \<mapsto> r)) p = (if is_parent p k then insert k (children led p) else children led p)"
  by (auto simp: children_def)

lemma ledger_sum_update:
  assumes "finite (dom led)" and "dir zero_bytes = 0"
  shows "ledger_sum dir (led(k \<mapsto> r)) p + (if is_parent p k then unat (dir (old_bytes (led k))) else 0)
    = ledger_sum dir led p + (if is_parent p k then unat (dir (ro_bytes r)) else 0)"
proof (cases "is_parent p k")
  case False
  then have "children (led(k \<mapsto> r)) p = children led p" "k \<notin> children led p"
    by (simp_all add: children_update) (simp add: children_def)
  with False show ?thesis unfolding ledger_sum_def by (intro arg_cong2 [where f = "(+)"] sum.cong) auto
next
  case True
  let ?f = "\<lambda>led k. unat (dir (ro_bytes (the (led k))))" and ?c = "children led p - {k}"
  have fin: "finite ?c" using assms(1) by (auto simp: children_def intro: finite_subset)
  have kids: "children (led(k \<mapsto> r)) p = insert k ?c" using True by (auto simp: children_update)
  have "(\<Sum>x \<in> ?c. ?f (led(k \<mapsto> r)) x) = (\<Sum>x \<in> ?c. ?f led x)" by (rule sum.cong) auto
  then have new: "ledger_sum dir (led(k \<mapsto> r)) p = unat (dir (ro_bytes r)) + (\<Sum>x \<in> ?c. ?f led x)"
    unfolding ledger_sum_def kids using sum.insert [OF fin, of k "?f (led(k \<mapsto> r))"] by simp
  have old: "ledger_sum dir led p = unat (dir (old_bytes (led k))) + (\<Sum>x \<in> ?c. ?f led x)"
  proof (cases "led k")
    case None
    then have "children led p = ?c" by (auto simp: children_def)
    with None show ?thesis using assms(2) by (simp add: ledger_sum_def old_bytes_def)
  next
    case (Some q)
    then have "k \<in> children led p" "finite (children led p)" using True fin by (auto simp: children_def)
    with Some show ?thesis by (simp add: ledger_sum_def old_bytes_def sum.remove)
  qed
  show ?thesis using True new old by simp
qed

section \<open>One parent\<close>

lemma add_bytes_Some:
  assumes "add_bytes old up down = Some b"
  shows "unat (bc_upload b) = unat (bc_upload old) + unat up" "unat (bc_download b) = unat (bc_download old) + unat down"
  using assms by (auto simp: add_bytes_def checked_simps split: option.splits if_splits)

lemma replace_bytes_Some:
  assumes "replace_bytes b old new = Some b'"
  shows "unat (bc_upload b') + unat (bc_upload old) = unat (bc_upload b) + unat (bc_upload new)"
    "unat (bc_download b') + unat (bc_download old) = unat (bc_download b) + unat (bc_download new)"
proof -
  obtain u d where u: "checked_sub (bc_upload b) (bc_upload old) = Some u"
    "checked_sub (bc_download b) (bc_download old) = Some d"
    "add_bytes \<lparr> bc_upload = u, bc_download = d \<rparr> (bc_upload new) (bc_download new) = Some b'"
    using assms by (auto simp: replace_bytes_def split: option.splits)
  have "unat u + unat (bc_upload old) = unat (bc_upload b)" "unat d + unat (bc_download old) = unat (bc_download b)"
    using u(1,2) by (auto simp: checked_sub_def unat_sub word_le_nat_alt split: if_splits)
  with add_bytes_Some [OF u(3)] show "unat (bc_upload b') + unat (bc_upload old) = unat (bc_upload b) + unat (bc_upload new)"
    "unat (bc_download b') + unat (bc_download old) = unat (bc_download b) + unat (bc_download new)"
    by simp_all
qed

lemma make_rollup_Inr:
  assumes "platform_ok pf" and "make_rollup pf res epoch k v = Inr r"
  obtains d where "pf_parse pf (sk_device k) = Some d" "r = \<lparr> ro_key = \<lparr> rk_resolution = res, rk_bucket = epoch * NANOS,
      rk_device_id = d, rk_protocol = sk_protocol k, rk_destination = sk_destination k,
      rk_interface = sk_interface k, rk_metadata = sk_metadata k \<rparr>, ro_bytes = fv_bytes v,
    ro_coverage = fv_coverage v, ro_metadata = sk_metadata k \<rparr>"
  using assms(2) from_timestamp_whole [OF assms(1)] by (auto simp: make_rollup_def split: option.splits)

text \<open>What a cached parent says of the ledger: its totals, and a coverage that never overclaims.\<close>

definition agrees_with :: "ledger \<Rightarrow> rollup_key \<Rightarrow> rollup \<Rightarrow> bool" where
  "agrees_with led p r \<longleftrightarrow> ro_key r = p
     \<and> unat (bc_upload (ro_bytes r)) = ledger_sum bc_upload led p
     \<and> unat (bc_download (ro_bytes r)) = ledger_sum bc_download led p
     \<and> (ro_coverage r = Estimated \<or> (\<forall>k \<in> children led p. ro_coverage (the (led k)) = ro_coverage r))"

lemma adjust_parent_agrees:
  assumes ok: "platform_ok pf" and fin: "finite (dom led)"
    and sec: "make_rollup pf SecondResolution (sk_epoch base) base v = Inr s"
    and run: "adjust_parent pf out res (resolution_width res) base (led (ro_key s)) s = Inr out'"
    and res: "res \<noteq> SecondResolution"
    and before: "case hm_get out (parent_key res (ro_key s)) of None \<Rightarrow> children led (parent_key res (ro_key s)) = {}
      | Some r \<Rightarrow> agrees_with led (parent_key res (ro_key s)) r"
  shows "\<exists>r. out' = hm_insert (parent_key res (ro_key s)) r out \<and> agrees_with (led(ro_key s \<mapsto> s)) (parent_key res (ro_key s)) r"
proof -
  let ?p = "parent_key res (ro_key s)" and ?led = "led(ro_key s \<mapsto> s)"
  obtain t where t: "make_rollup pf res (sk_epoch base div resolution_width res * resolution_width res) base
      \<lparr> fv_bytes = zero_bytes, fv_coverage = ro_coverage s \<rparr> = Inr t"
    using run by (auto simp: adjust_parent_def i64_checked_def split: option.splits sum.splits if_splits)
  obtain d where d: "pf_parse pf (sk_device base) = Some d" "ro_key s = \<lparr> rk_resolution = SecondResolution,
      rk_bucket = sk_epoch base * NANOS, rk_device_id = d, rk_protocol = sk_protocol base,
      rk_destination = sk_destination base, rk_interface = sk_interface base, rk_metadata = sk_metadata base \<rparr>"
    by (rule make_rollup_Inr [OF ok sec]) simp
  have key: "ro_key t = ?p" "ro_bytes t = zero_bytes" "ro_coverage t = ro_coverage s"
    by (rule make_rollup_Inr [OF ok t]; simp add: d parent_key_def timestamp_def NANOS_def)+
  let ?q = "case hm_get out ?p of None \<Rightarrow> t | Some r \<Rightarrow> r"
  obtain b where b: "replace_bytes (ro_bytes ?q) (old_bytes (led (ro_key s))) (ro_bytes s) = Some b"
    "out' = hm_insert ?p (?q \<lparr> ro_bytes := b, ro_coverage := merge_coverage (ro_coverage ?q) (ro_coverage s) \<rparr>) out"
    using run t key(1)
    by (auto simp: adjust_parent_def Let_def i64_checked_def old_bytes_def split: option.splits sum.splits if_splits)
  let ?r = "?q \<lparr> ro_bytes := b, ro_coverage := merge_coverage (ro_coverage ?q) (ro_coverage s) \<rparr>"
  have par: "is_parent ?p (ro_key s)" using res by (simp add: is_parent_def parent_key_def)
  have q: "ro_key ?q = ?p" "unat (bc_upload (ro_bytes ?q)) = ledger_sum bc_upload led ?p"
    "unat (bc_download (ro_bytes ?q)) = ledger_sum bc_download led ?p"
    "ro_coverage ?q = Estimated \<or> (\<forall>k \<in> children led ?p. ro_coverage (the (led k)) = ro_coverage ?q)"
    using before key by (auto simp: agrees_with_def ledger_sum_def zero_bytes_def split: option.splits)
  have "unat (bc_upload b) = ledger_sum bc_upload ?led ?p" "unat (bc_download b) = ledger_sum bc_download ?led ?p"
    using replace_bytes_Some [OF b(1)] q(2,3) par ledger_sum_update [OF fin, of bc_upload "ro_key s" s ?p]
      ledger_sum_update [OF fin, of bc_download "ro_key s" s ?p]
    by (simp_all add: zero_bytes_def)
  moreover have "ro_coverage ?r = Estimated \<or> (\<forall>k \<in> children ?led ?p. ro_coverage (the (?led k)) = ro_coverage ?r)"
    using q(4) by (auto simp: children_update merge_coverage_def)
  ultimately have "agrees_with ?led ?p ?r" using q(1) by (simp add: agrees_with_def)
  with b(2) show ?thesis by blast
qed

section \<open>The rollup cache\<close>

text \<open>
  The cache and the ledger: cached seconds are in the ledger, a second or a parent that has left
  the cache satisfies \<open>gone\<close> (its correction window has closed), and cached parents agree
  with the ledger.
\<close>

definition books_ok :: "(rollup_key \<Rightarrow> bool) \<Rightarrow> (rollup_key, rollup) hmap \<Rightarrow> ledger \<Rightarrow> bool" where
  "books_ok gone cache led \<longleftrightarrow> hm_ok cache \<and> finite (dom led)
     \<and> (\<forall>k r. hm_get cache k = Some r \<longrightarrow> ro_key r = k)
     \<and> (\<forall>k \<in> dom led. second_rollup_key k)
     \<and> (\<forall>k r. hm_get cache k = Some r \<and> rk_resolution k = SecondResolution \<longrightarrow> led k = Some r)
     \<and> (\<forall>k \<in> dom led. hm_get cache k = None \<longrightarrow> gone k)
     \<and> (\<forall>p r. hm_get cache p = Some r \<and> rk_resolution p \<noteq> SecondResolution \<longrightarrow> agrees_with led p r)
     \<and> (\<forall>k \<in> dom led. \<forall>p. is_parent p k \<and> hm_get cache p = None \<longrightarrow> gone p)"

lemma is_parent_unique: "is_parent p k \<Longrightarrow> p = parent_key (rk_resolution p) k"
  by (simp add: is_parent_def)

lemma is_parent_cases:
  assumes "is_parent p k"
  shows "p = parent_key MinuteResolution k \<or> p = parent_key HourResolution k"
  using assms by (cases "rk_resolution p") (auto simp: is_parent_def)

lemma agrees_with_other:
  assumes "agrees_with led p r" and "\<not> is_parent p k" and "finite (dom led)"
  shows "agrees_with (led(k \<mapsto> s)) p r"
proof -
  have "children (led(k \<mapsto> s)) p = children led p" "k \<notin> children led p"
    using assms(2) by (auto simp: children_def)
  then show ?thesis
    using assms(1) ledger_sum_update [OF assms(3), of bc_upload k s p] ledger_sum_update [OF assms(3), of bc_download k s p] assms(2)
    by (auto simp: agrees_with_def zero_bytes_def)
qed

lemma propose_second_books:
  assumes ok: "platform_ok pf" and books: "books_ok gone cache led"
    and later: "\<And>p k. is_parent p k \<Longrightarrow> second_rollup_key k \<Longrightarrow> gone p \<Longrightarrow> gone k"
    and sec: "make_rollup pf SecondResolution (sk_epoch base) base v = Inr s"
    and live: "\<not> gone (ro_key s)" and run: "propose_second pf cache (base, v) = Inr cache'"
  shows "books_ok gone cache' (led(ro_key s \<mapsto> s))"
proof -
  let ?k = "ro_key s" and ?led = "led(ro_key s \<mapsto> s)"
  have k: "second_rollup_key ?k"
    by (rule make_rollup_Inr [OF ok sec]) (simp add: second_rollup_key_def)
  then have kres: "rk_resolution ?k = SecondResolution" by (simp add: second_rollup_key_def)
  have fin: "finite (dom led)" using books by (simp add: books_ok_def)
  have old: "hm_get cache ?k = led ?k"
    using books live kres unfolding books_ok_def by (metis domIff not_Some_eq)
  show ?thesis
  proof (cases "hm_get cache ?k = Some s")
    case True
    then have "cache' = cache" "?led = led" using run sec old by (auto simp: propose_second_def fun_upd_idem)
    with books show ?thesis by simp
  next
    case False
    let ?m = "parent_key MinuteResolution ?k" and ?h = "parent_key HourResolution ?k"
    have res: "rk_resolution ?m = MinuteResolution" "rk_resolution ?h = HourResolution" by (simp_all add: parent_key_def)
    have par: "is_parent ?m ?k" "is_parent ?h ?k" by (simp_all add: is_parent_def parent_key_def)
    have parent: "case hm_get cache p of None \<Rightarrow> children led p = {} | Some r \<Rightarrow> agrees_with led p r" if p: "is_parent p ?k" for p
    proof (cases "hm_get cache p")
      case None
      have "\<not> gone p" using later [OF p k] live by blast
      then have "children led p = {}" using books None unfolding books_ok_def children_def by blast
      with None show ?thesis by simp
    next
      case (Some r)
      moreover have "rk_resolution p \<noteq> SecondResolution" using p by (simp add: is_parent_def)
      ultimately show ?thesis using books by (auto simp: books_ok_def)
    qed
    obtain c1 where c1: "adjust_parent pf (hm_insert ?k s cache) MinuteResolution (resolution_width MinuteResolution)
        base (led ?k) s = Inr c1"
      "adjust_parent pf c1 HourResolution (resolution_width HourResolution) base (led ?k) s = Inr cache'"
      using run sec False old by (auto simp: propose_second_def Let_def split: sum.splits)
    have diff: "?m \<noteq> ?k" "?h \<noteq> ?k" "?h \<noteq> ?m" using kres res by auto
    have "hm_get (hm_insert ?k s cache) ?m = hm_get cache ?m" using diff by simp
    then obtain rm where rm: "c1 = hm_insert ?m rm (hm_insert ?k s cache)" "agrees_with ?led ?m rm"
      using adjust_parent_agrees [OF ok fin sec c1(1)] parent [OF par(1)] by auto
    have "hm_get c1 ?h = hm_get cache ?h" using diff by (simp add: rm(1))
    then obtain rh where rh: "cache' = hm_insert ?h rh c1" "agrees_with ?led ?h rh"
      using adjust_parent_agrees [OF ok fin sec c1(2)] parent [OF par(2)] by auto
    have get: "hm_get cache' x = (if x = ?h then Some rh else if x = ?m then Some rm else if x = ?k then Some s
        else hm_get cache x)" for x
      by (simp add: rh(1) rm(1))
    have keys: "ro_key rm = ?m" "ro_key rh = ?h" using rm(2) rh(2) by (simp_all add: agrees_with_def)
    have "agrees_with ?led p r" if "hm_get cache' p = Some r" "rk_resolution p \<noteq> SecondResolution" for p r
    proof (cases "p = ?m \<or> p = ?h")
      case True
      with that rm(2) rh(2) diff show ?thesis by (auto simp: get split: if_splits)
    next
      case False
      then have "\<not> is_parent p ?k" using is_parent_cases by blast
      moreover have "hm_get cache p = Some r" using that False kres by (auto simp: get split: if_splits)
      then have "agrees_with led p r" using books that(2) by (simp add: books_ok_def)
      ultimately show ?thesis using agrees_with_other fin by blast
    qed
    moreover have "gone p" if "x \<in> dom ?led" "is_parent p x" "hm_get cache' p = None" for x p
    proof (cases "x = ?k")
      case True
      then have "p = ?m \<or> p = ?h" using is_parent_cases that(2) by blast
      with that(3) show ?thesis by (auto simp: get split: if_splits)
    next
      case False
      then have "x \<in> dom led" using that(1) by auto
      moreover have "hm_get cache p = None" using that(3) by (auto simp: get split: if_splits)
      ultimately show ?thesis using books that(2) unfolding books_ok_def by blast
    qed
    moreover have "hm_ok cache'" using books by (simp add: rh(1) rm(1) books_ok_def)
    ultimately show ?thesis
      using books k keys kres res fin unfolding books_ok_def
      by (auto simp: get split: if_splits)
  qed
qed

section \<open>All closed seconds\<close>

text \<open>The ledger after a list of seconds has been closed.\<close>

fun close_seconds :: "platform \<Rightarrow> (second_key \<times> flow_value) list \<Rightarrow> ledger \<Rightarrow> ledger" where
  "close_seconds pf [] led = led"
| "close_seconds pf ((base, v) # xs) led =
     close_seconds pf xs (case make_rollup pf SecondResolution (sk_epoch base) base v of
         Inl _ \<Rightarrow> led
       | Inr s \<Rightarrow> led(ro_key s \<mapsto> s))"

lemma propose_second_makes:
  assumes "propose_second pf cache (base, v) = Inr cache'"
  obtains s where "make_rollup pf SecondResolution (sk_epoch base) base v = Inr s"
  using assms by (auto simp: propose_second_def split: sum.splits)

lemma propose_seconds_books:
  assumes ok: "platform_ok pf"
    and later: "\<And>p k. is_parent p k \<Longrightarrow> second_rollup_key k \<Longrightarrow> gone p \<Longrightarrow> gone k"
    and live: "\<And>base v s. (base, v) \<in> set xs \<Longrightarrow> make_rollup pf SecondResolution (sk_epoch base) base v = Inr s
      \<Longrightarrow> \<not> gone (ro_key s)"
    and "books_ok gone cache led" and "propose_seconds pf xs cache = Inr cache'"
  shows "books_ok gone cache' (close_seconds pf xs led)"
  using live assms(4,5)
proof (induction xs arbitrary: cache led)
  case Nil
  then show ?case by simp
next
  case (Cons x xs)
  obtain base v where x: "x = (base, v)" by (cases x)
  obtain cache1 where run: "propose_second pf cache (base, v) = Inr cache1" "propose_seconds pf xs cache1 = Inr cache'"
    using Cons.prems(3) x by (auto split: sum.splits)
  obtain s where s: "make_rollup pf SecondResolution (sk_epoch base) base v = Inr s"
    by (rule propose_second_makes [OF run(1)])
  have books: "books_ok gone cache1 (led(ro_key s \<mapsto> s))"
    using propose_second_books [OF ok Cons.prems(2) later s _ run(1)] Cons.prems(1) [of base v s] s x by auto
  have "books_ok gone cache' (close_seconds pf xs (led(ro_key s \<mapsto> s)))"
    by (rule Cons.IH [OF _ books run(2)]) (use Cons.prems(1) in auto)
  then show ?case by (simp add: x s)
qed

text \<open>Dropping what is retired keeps the books, once \<open>gone\<close> covers it.\<close>

lemma books_ok_filter:
  assumes "books_ok gone cache led" and "\<And>k. gone k \<Longrightarrow> gone' k" and "\<And>k. \<not> keep k \<Longrightarrow> gone' k"
  shows "books_ok gone' (filter (\<lambda>(k, _). keep k) cache) led"
proof -
  have get: "hm_get (filter (\<lambda>(k, _). keep k) cache) k = (if keep k then hm_get cache k else None)" for k
    by (induction cache) (auto simp: hm_get_def)
  have "hm_ok (filter (\<lambda>(k, _). keep k) cache)"
    using assms(1) by (simp add: books_ok_def hm_ok_def distinct_map_filter)
  then show ?thesis
    using assms unfolding books_ok_def by (auto simp: get split: if_splits)
qed

section \<open>Selecting the authoritative source\<close>

definition closed :: "instant \<Rightarrow> source_second_key \<Rightarrow> bool" where
  "closed w k \<longleftrightarrow> sk_epoch (ss_base k) + 1 \<le> timestamp w"

text \<open>The strength of a source: the rank of its coverage, and the smaller identifier on a tie.\<close>

definition outranks :: "(flow_source_id, visibility_kind) hmap \<Rightarrow> flow_source_id \<Rightarrow> flow_source_id \<Rightarrow> bool" where
  "outranks sources i j \<longleftrightarrow>
     (let r = (\<lambda>s. coverage_rank (coverage_of (the (hm_get sources s)))) in r j < r i \<or> r i = r j \<and> i \<le> j)"

definition authoritative ::
  "(flow_source_id, visibility_kind) hmap \<Rightarrow> instant \<Rightarrow> (source_second_key \<times> byte_count) set
     \<Rightarrow> second_key \<Rightarrow> flow_value \<Rightarrow> bool" where
  "authoritative sources w rows base v \<longleftrightarrow>
     (\<exists>i kind. (\<lparr> ss_base = base, ss_source = i \<rparr>, fv_bytes v) \<in> rows \<and> closed w \<lparr> ss_base = base, ss_source = i \<rparr>
        \<and> hm_get sources i = Some kind \<and> fv_coverage v = coverage_of kind
        \<and> (\<forall>j b. (\<lparr> ss_base = base, ss_source = j \<rparr>, b) \<in> rows \<longrightarrow> outranks sources i j))"

text \<open>The loop's invariant: the winner of every row processed so far is authoritative among them.\<close>

definition winner_ok ::
  "(flow_source_id, visibility_kind) hmap \<Rightarrow> instant \<Rightarrow> (source_second_key \<times> byte_count) set
     \<Rightarrow> second_key \<Rightarrow> flow_value option \<Rightarrow> (nat \<times> flow_source_id) option \<Rightarrow> bool" where
  "winner_ok sources w rows base val win \<longleftrightarrow>
     (case win of
        None \<Rightarrow> val = None \<and> (\<forall>k b. (k, b) \<in> rows \<and> ss_base k = base \<longrightarrow> \<not> closed w k)
      | Some (r, i) \<Rightarrow> (\<exists>kind b. hm_get sources i = Some kind \<and> r = coverage_rank (coverage_of kind)
          \<and> val = Some \<lparr> fv_bytes = b, fv_coverage = coverage_of kind \<rparr>
          \<and> (\<lparr> ss_base = base, ss_source = i \<rparr>, b) \<in> rows \<and> closed w \<lparr> ss_base = base, ss_source = i \<rparr>
          \<and> (\<forall>k b'. (k, b') \<in> rows \<and> ss_base k = base \<longrightarrow> outranks sources i (ss_source k))))"

definition winners_ok ::
  "(flow_source_id, visibility_kind) hmap \<Rightarrow> instant \<Rightarrow> (source_second_key \<times> byte_count) set
     \<Rightarrow> (second_key, flow_value) hmap \<Rightarrow> (second_key, nat \<times> flow_source_id) hmap \<Rightarrow> bool" where
  "winners_ok sources w rows out winners \<longleftrightarrow>
     (\<forall>base. winner_ok sources w rows base (hm_get out base) (hm_get winners base))"

lemma closed_base: "ss_base k = ss_base k' \<Longrightarrow> closed w k = closed w k'"
  by (simp add: closed_def)

lemma outranks_trans: "outranks sources i j \<Longrightarrow> outranks sources j l \<Longrightarrow> outranks sources i l"
  by (auto simp: outranks_def Let_def)

lemma outranks_linear: "\<not> outranks sources i j \<Longrightarrow> outranks sources j i"
  by (auto simp: outranks_def Let_def)

lemma outranks_refl [simp]: "outranks sources i i"
  by (simp add: outranks_def Let_def)

lemma outranks_antisym: "outranks sources i j \<Longrightarrow> outranks sources j i \<Longrightarrow> i = j"
  by (auto simp: outranks_def Let_def)

lemma winner_ok_other:
  "ss_base k \<noteq> base \<Longrightarrow> winner_ok sources w (insert (k, b) rows) base val win = winner_ok sources w rows base val win"
  by (auto simp: winner_ok_def split: option.splits)

lemma winners_insert:
  assumes "winners_ok sources w rows out winners"
    and "\<And>base. base \<noteq> ss_base k \<Longrightarrow> hm_get out' base = hm_get out base \<and> hm_get winners' base = hm_get winners base"
    and "winner_ok sources w rows (ss_base k) (hm_get out (ss_base k)) (hm_get winners (ss_base k))
      \<Longrightarrow> winner_ok sources w (insert (k, b) rows) (ss_base k) (hm_get out' (ss_base k)) (hm_get winners' (ss_base k))"
  shows "winners_ok sources w (insert (k, b) rows) out' winners'"
  unfolding winners_ok_def
proof
  fix base
  show "winner_ok sources w (insert (k, b) rows) base (hm_get out' base) (hm_get winners' base)"
  proof (cases "base = ss_base k")
    case True
    with assms(1,3) show ?thesis by (simp add: winners_ok_def)
  next
    case False
    with assms(1,2) show ?thesis by (simp add: winners_ok_def winner_ok_other)
  qed
qed

lemma winner_skip:
  assumes "winner_ok sources w rows (ss_base k) val win" and "\<not> closed w k"
  shows "winner_ok sources w (insert (k, b) rows) (ss_base k) val win"
proof (cases win)
  case None
  with assms show ?thesis by (auto simp: winner_ok_def)
next
  case (Some x)
  with assms have False by (auto simp: winner_ok_def closed_def split: prod.splits)
  then show ?thesis ..
qed

lemma winner_keep:
  assumes "winner_ok sources w rows (ss_base k) val (Some (r, i))" and "outranks sources i (ss_source k)"
  shows "winner_ok sources w (insert (k, b) rows) (ss_base k) val (Some (r, i))"
  using assms by (auto simp: winner_ok_def)

lemma winner_replace:
  assumes "winner_ok sources w rows (ss_base k) val win" and "closed w k" and "hm_get sources (ss_source k) = Some kind"
    and "is_none_or win (\<lambda>(r, i). \<not> outranks sources i (ss_source k))"
  shows "winner_ok sources w (insert (k, b) rows) (ss_base k) (Some \<lparr> fv_bytes = b, fv_coverage = coverage_of kind \<rparr>)
    (Some (coverage_rank (coverage_of kind), ss_source k))"
proof -
  have top: "outranks sources (ss_source k) (ss_source k')" if "(k', b') \<in> rows" "ss_base k' = ss_base k" for k' b'
  proof (cases win)
    case None
    then have "\<not> closed w k'" using assms(1) that unfolding winner_ok_def by auto
    with assms(2) closed_base [OF that(2)] show ?thesis by simp
  next
    case (Some x)
    obtain r i where x: "x = (r, i)" by (cases x)
    then have "outranks sources (ss_source k) i" using Some assms(4) by (auto intro: outranks_linear)
    moreover have "outranks sources i (ss_source k')" using Some x assms(1) that by (auto simp: winner_ok_def)
    ultimately show ?thesis by (rule outranks_trans)
  qed
  with assms(2,3) show ?thesis by (auto simp: winner_ok_def closed_def)
qed

text \<open>The loop's comparison with the winner so far.\<close>

lemma winner_replaced_iff:
  assumes "winners_ok sources w rows out winners" and "hm_get sources (ss_source k) = Some kind"
  shows "is_none_or (hm_get winners (ss_base k)) (\<lambda>(r, i). r < coverage_rank (coverage_of kind)
      \<or> coverage_rank (coverage_of kind) = r \<and> ss_source k < i)
    \<longleftrightarrow> is_none_or (hm_get winners (ss_base k)) (\<lambda>(r, i). \<not> outranks sources i (ss_source k))"
proof (cases "hm_get winners (ss_base k)")
  case None
  then show ?thesis by simp
next
  case (Some x)
  obtain r i where x: "x = (r, i)" by (cases x)
  have "winner_ok sources w rows (ss_base k) (hm_get out (ss_base k)) (hm_get winners (ss_base k))"
    using assms(1) by (simp add: winners_ok_def)
  then obtain kind' where "hm_get sources i = Some kind'" "coverage_rank (coverage_of kind') = r"
    using Some x by (auto simp: winner_ok_def)
  then have "outranks sources i (ss_source k) \<longleftrightarrow>
      coverage_rank (coverage_of kind) < r \<or> r = coverage_rank (coverage_of kind) \<and> i \<le> ss_source k"
    using assms(2) by (simp add: outranks_def Let_def)
  then show ?thesis unfolding Some x by auto
qed

lemma select_loop_winners:
  assumes "select_loop sources w rows out winners = Inr out'" and "winners_ok sources w seen out winners"
  shows "\<exists>winners'. winners_ok sources w (seen \<union> set rows) out' winners'"
  using assms
proof (induction sources w rows out winners arbitrary: seen rule: select_loop.induct)
  case (1 sources w out winners)
  then show ?case by auto
next
  case (2 sources w k b rows out winners)
  let ?better = "\<lambda>kind. is_none_or (hm_get winners (ss_base k)) (\<lambda>(r, i). r < coverage_rank (coverage_of kind)
      \<or> coverage_rank (coverage_of kind) = r \<and> ss_source k < i)"
  have set: "seen \<union> set ((k, b) # rows) = insert (k, b) seen \<union> set rows" by auto
  have close: "i64_checked (sk_epoch (ss_base k) + 1) = Some (sk_epoch (ss_base k) + 1)"
    using 2(4) by (auto simp: i64_checked_def split: if_splits)
  consider (pending) "\<not> closed w k"
    | (worse) kind where "closed w k" "hm_get sources (ss_source k) = Some kind" "\<not> ?better kind"
    | (better) kind where "closed w k" "hm_get sources (ss_source k) = Some kind" "?better kind"
    using 2(4) close by (cases "closed w k"; cases "hm_get sources (ss_source k)") (auto simp: closed_def)
  then show ?case
  proof cases
    case pending
    then have run: "select_loop sources w rows out winners = Inr out'" using 2(4) close by (simp add: closed_def)
    have win: "winners_ok sources w (insert (k, b) seen) out winners"
      using pending by (intro winners_insert [OF 2(5)]) (auto intro: winner_skip)
    show ?thesis unfolding set using 2(1) [OF close _ run win] pending
      by (simp add: closed_def)
  next
    case worse
    then have run: "select_loop sources w rows out winners = Inr out'"
      using 2(4) close by (simp add: closed_def Let_def)
    have win: "winners_ok sources w (insert (k, b) seen) out winners"
      using winners_insert [OF 2(5), of k out winners b] worse winner_replaced_iff [OF 2(5) worse(2)]
      by (cases "hm_get winners (ss_base k)") (auto intro: winner_keep)
    show ?thesis unfolding set using 2(3) [OF close _ worse(2) refl refl worse(3) run win] worse(1) by (simp add: closed_def)
  next
    case better
    let ?out = "hm_insert (ss_base k) \<lparr> fv_bytes = b, fv_coverage = coverage_of kind \<rparr> out"
    let ?win = "hm_insert (ss_base k) (coverage_rank (coverage_of kind), ss_source k) winners"
    have run: "select_loop sources w rows ?out ?win = Inr out'"
      using 2(4) close better by (simp add: closed_def Let_def)
    have win: "winners_ok sources w (insert (k, b) seen) ?out ?win"
      using better winner_replaced_iff [OF 2(5) better(2)] by (intro winners_insert [OF 2(5)]) (auto intro!: winner_replace)
    show ?thesis unfolding set using 2(2) [OF close _ better(2) refl refl better(3) run win] better(1) by (simp add: closed_def)
  qed
qed

lemma select_seconds_winners:
  assumes "select_seconds rows sources w = Inr out"
  obtains winners where "winners_ok sources w (set rows) out winners"
proof -
  have "winners_ok sources w {} [] []" by (simp add: winners_ok_def winner_ok_def)
  from select_loop_winners [OF assms [unfolded select_seconds_def] this] that show thesis by auto
qed

lemma select_seconds_row:
  assumes "select_seconds rows sources w = Inr out" and "hm_get out base = Some v"
  obtains k where "(k, fv_bytes v) \<in> set rows" "ss_base k = base" "closed w k"
proof -
  obtain winners where "winners_ok sources w (set rows) out winners" by (rule select_seconds_winners [OF assms(1)])
  then have "winner_ok sources w (set rows) base (Some v) (hm_get winners base)"
    unfolding winners_ok_def using assms(2) by metis
  then obtain i where "(\<lparr> ss_base = base, ss_source = i \<rparr>, fv_bytes v) \<in> set rows"
    "closed w \<lparr> ss_base = base, ss_source = i \<rparr>"
    by (auto simp: winner_ok_def split: option.splits)
  from that [OF this(1) _ this(2)] show thesis by simp
qed

lemma select_seconds_authoritative:
  assumes rows: "hm_ok rows" and run: "select_seconds rows sources w = Inr out"
  shows "hm_get out base = Some v \<longleftrightarrow> authoritative sources w (set rows) base v"
proof -
  obtain winners where "winners_ok sources w (set rows) out winners" by (rule select_seconds_winners [OF run])
  then have ok: "winner_ok sources w (set rows) base (hm_get out base) (hm_get winners base)"
    by (simp add: winners_ok_def)
  show ?thesis
  proof (cases "hm_get winners base")
    case None
    with ok show ?thesis unfolding winner_ok_def authoritative_def by auto
  next
    case (Some x)
    obtain r i where x: "x = (r, i)" by (cases x)
    then obtain kind b where win: "hm_get sources i = Some kind" "hm_get out base = Some \<lparr> fv_bytes = b, fv_coverage = coverage_of kind \<rparr>"
        "(\<lparr> ss_base = base, ss_source = i \<rparr>, b) \<in> set rows" "closed w \<lparr> ss_base = base, ss_source = i \<rparr>"
        "\<forall>k b'. (k, b') \<in> set rows \<and> ss_base k = base \<longrightarrow> outranks sources i (ss_source k)"
      using ok Some unfolding winner_ok_def by auto
    show ?thesis
    proof
      assume "hm_get out base = Some v"
      then have v: "v = \<lparr> fv_bytes = b, fv_coverage = coverage_of kind \<rparr>" using win(2) by simp
      have "outranks sources i j" if "(\<lparr> ss_base = base, ss_source = j \<rparr>, b') \<in> set rows" for j b'
        using win(5) [rule_format, OF conjI [OF that]] by simp
      with win(1,3,4) v show "authoritative sources w (set rows) base v" unfolding authoritative_def
        by (intro exI [of _ i] exI [of _ kind]) simp
    next
      assume "authoritative sources w (set rows) base v"
      then obtain j kind' where j: "(\<lparr> ss_base = base, ss_source = j \<rparr>, fv_bytes v) \<in> set rows"
          "hm_get sources j = Some kind'" "fv_coverage v = coverage_of kind'"
          "\<forall>l b. (\<lparr> ss_base = base, ss_source = l \<rparr>, b) \<in> set rows \<longrightarrow> outranks sources j l"
        unfolding authoritative_def by blast
      have "outranks sources i j" using win(5) [rule_format, OF conjI [OF j(1)]] by simp
      moreover have "outranks sources j i" using j(4) win(3) by blast
      ultimately have "i = j" by (rule outranks_antisym)
      with win(3) j(1) rows have "b = fv_bytes v" by (metis hm_get_Some_iff option.inject)
      with win(1,2) j(2,3) \<open>i = j\<close> show "hm_get out base = Some v" by simp
    qed
  qed
qed

text \<open>Selection succeeds when the rows come from registered sources and their epochs are in range.\<close>

lemma select_loop_total:
  assumes "\<forall>(k, b) \<in> set rows. i64_checked (sk_epoch (ss_base k) + 1) \<noteq> None \<and> hm_contains sources (ss_source k)"
  shows "\<exists>out'. select_loop sources w rows out winners = Inr out'"
  using assms
  by (induction sources w rows out winners rule: select_loop.induct)
     (auto simp: hm_contains_def Let_def split: option.splits)

lemma select_seconds_closed:
  assumes "select_seconds rows sources w = Inr out" and "(k, b) \<in> set rows" and "closed w k"
  shows "hm_get out (ss_base k) \<noteq> None"
proof -
  obtain winners where "winners_ok sources w (set rows) out winners" by (rule select_seconds_winners [OF assms(1)])
  then have "winner_ok sources w (set rows) (ss_base k) (hm_get out (ss_base k)) (hm_get winners (ss_base k))"
    by (simp add: winners_ok_def)
  then show ?thesis using assms(2,3) unfolding winner_ok_def by (auto split: option.splits)
qed

section \<open>What closing writes into the ledger\<close>

lemma close_seconds_other:
  assumes "\<forall>(base, v) \<in> set xs. \<forall>s. make_rollup pf SecondResolution (sk_epoch base) base v = Inr s \<longrightarrow> ro_key s \<noteq> key"
  shows "close_seconds pf xs led key = led key"
  using assms by (induction pf xs led rule: close_seconds.induct) (auto split: sum.splits)

lemma close_seconds_entry:
  assumes "(base, v) \<in> set xs" and "make_rollup pf SecondResolution (sk_epoch base) base v = Inr s"
    and "\<forall>(base', v') \<in> set xs. \<forall>s'. make_rollup pf SecondResolution (sk_epoch base') base' v' = Inr s'
      \<and> ro_key s' = ro_key s \<longrightarrow> s' = s"
  shows "close_seconds pf xs led (ro_key s) = Some s"
  using assms
proof (induction pf xs led arbitrary: base v rule: close_seconds.induct)
  case (1 pf led)
  then show ?case by simp
next
  case (2 pf base' v' xs led)
  let ?later = "\<exists>(b, u) \<in> set xs. \<exists>s'. make_rollup pf SecondResolution (sk_epoch b) b u = Inr s' \<and> ro_key s' = ro_key s"
  show ?case
  proof (cases ?later)
    case True
    then obtain b u where bu: "(b, u) \<in> set xs" "make_rollup pf SecondResolution (sk_epoch b) b u = Inr s"
      using 2(4) by fastforce
    have "\<forall>(base', v') \<in> set xs. \<forall>s'. make_rollup pf SecondResolution (sk_epoch base') base' v' = Inr s'
      \<and> ro_key s' = ro_key s \<longrightarrow> s' = s"
      using 2(4) by simp
    with 2(1) [OF bu] show ?thesis by simp
  next
    case False
    then have "(base, v) = (base', v')" using 2(2,3) by auto
    moreover have "close_seconds pf xs (led(ro_key s \<mapsto> s)) (ro_key s) = (led(ro_key s \<mapsto> s)) (ro_key s)"
      by (rule close_seconds_other) (use False in fastforce)
    ultimately show ?thesis using 2(3) by simp
  qed
qed

lemma propose_seconds_makes:
  assumes "propose_seconds pf xs cache = Inr cache'" and "(base, v) \<in> set xs"
  obtains s where "make_rollup pf SecondResolution (sk_epoch base) base v = Inr s"
proof -
  have "\<exists>s. make_rollup pf SecondResolution (sk_epoch base) base v = Inr s"
    using assms
  proof (induction pf xs cache rule: propose_seconds.induct)
    case (2 pf x xs cache)
    obtain cache1 where "propose_second pf cache x = Inr cache1" "propose_seconds pf xs cache1 = Inr cache'"
      using 2(2) by (auto split: sum.splits)
    with 2(1,3) show ?case by (auto elim: propose_second_makes)
  qed simp
  with that show thesis by blast
qed

end
