(* ===== verification/Flow_System.thy ===== *)
theory Flow_System
  imports Flow_Ledger
begin

text \<open>
  The flow engine as a system: accepted and refused observations, watermark advances, the ledger
  of closed seconds, the consumer's durable store, and the list of accepted observations. The
  invariants: the engine stays within its configured bounds, open rows are exactly the accepted
  traffic, replays are remembered, and cached rollups add up.
\<close>

section \<open>Maps\<close>

lemma hm_get_keep:
  "hm_get (filter (\<lambda>(k, _). P k) m) k = (if P k then hm_get m k else None)"
  by (induction m) (auto simp: hm_get_def)

lemma hm_ok_keep: "hm_ok m \<Longrightarrow> hm_ok (filter P m)"
  by (simp add: hm_ok_def distinct_map_filter)

lemma hm_get_keep_value:
  "hm_ok m \<Longrightarrow> hm_get (filter (\<lambda>(_, x). P x) m) k = Some x \<longleftrightarrow> hm_get m k = Some x \<and> P x"
  by (simp add: hm_get_Some_iff hm_ok_keep)

section \<open>What an accepted observation went through\<close>

definition observation_row :: "platform \<Rightarrow> flow_config \<Rightarrow> flow_observation \<Rightarrow> source_second_key" where
  "observation_row pf cfg ob = row_key pf ob (timestamp (fo_event_time ob))
     (case normalize_metadata cfg (fo_metadata ob) of Inl _ \<Rightarrow> None | Inr m \<Rightarrow> m)"

text \<open>The instant after which a row takes no more observations.\<close>

definition row_edge :: "flow_config \<Rightarrow> source_second_key \<Rightarrow> instant" where
  "row_edge cfg k = (sk_epoch (ss_base k) + 1) * NANOS + fc_lateness cfg"

lemma row_edge_observation:
  "row_edge cfg (observation_row pf cfg ob) = (timestamp (fo_event_time ob) + 1) * NANOS + fc_lateness cfg"
  by (simp add: row_edge_def observation_row_def row_key_def)

lemma observe_times_Inr:
  assumes "platform_ok pf" and "observe_times pf e ob = Inr (epoch, cutoff)"
  shows "epoch = timestamp (fo_event_time ob)" "cutoff = fo_arrival_time ob - fc_replay_ttl (fe_cfg e)"
    "fe_last_arrival e = Some t \<Longrightarrow> t \<le> fo_arrival_time ob"
    "fe_watermark e = Some w \<Longrightarrow> w \<le> row_edge (fe_cfg e) (observation_row pf (fe_cfg e) ob)"
    "i64_checked (epoch + 1) \<noteq> None"
    "fo_event_time ob \<le> fo_arrival_time ob + fc_future_skew (fe_cfg e)"
    "fo_arrival_time ob \<le> row_edge (fe_cfg e) (observation_row pf (fe_cfg e) ob)"
proof -
  obtain future close closes late where run:
    "pf_add pf (fo_arrival_time ob) (fc_future_skew (fe_cfg e)) = Some future" "\<not> future < fo_event_time ob"
    "i64_checked (timestamp (fo_event_time ob) + 1) = Some close" "pf_from_timestamp pf close 0 = Some closes"
    "pf_add pf closes (fc_lateness (fe_cfg e)) = Some late" "\<not> late < fo_arrival_time ob"
    "\<not> is_some_and (fe_watermark e) (\<lambda>w. late < w)" "\<not> is_some_and (fe_last_arrival e) (\<lambda>t. fo_arrival_time ob < t)"
    "pf_add pf (fo_arrival_time ob) (- fc_replay_ttl (fe_cfg e)) = Some cutoff" "epoch = timestamp (fo_event_time ob)"
    using assms(2) unfolding observe_times_def by (auto split: sum.splits option.splits if_splits)
  have "close = timestamp (fo_event_time ob) + 1" using run(3) by (simp add: i64_checked_def split: if_splits)
  then have late: "late = row_edge (fe_cfg e) (observation_row pf (fe_cfg e) ob)"
    using from_timestamp_whole [OF assms(1) run(4)] pf_addD [OF assms(1) run(5)] by (simp add: row_edge_observation)
  show "epoch = timestamp (fo_event_time ob)" "i64_checked (epoch + 1) \<noteq> None" using run(3,10) by simp_all
  show "cutoff = fo_arrival_time ob - fc_replay_ttl (fe_cfg e)" using pf_addD [OF assms(1) run(9)] by simp
  show "fe_last_arrival e = Some t \<Longrightarrow> t \<le> fo_arrival_time ob" using run(8) by simp
  show "fe_watermark e = Some w \<Longrightarrow> w \<le> row_edge (fe_cfg e) (observation_row pf (fe_cfg e) ob)" using run(7) late by simp
  show "fo_event_time ob \<le> fo_arrival_time ob + fc_future_skew (fe_cfg e)" using run(2) pf_addD [OF assms(1) run(1)] by simp
  show "fo_arrival_time ob \<le> row_edge (fe_cfg e) (observation_row pf (fe_cfg e) ob)" using run(6) late by simp
qed

lemma flow_observe_Inr:
  assumes "flow_observe pf e ob = (Inr (), e')"
  obtains epoch cutoff metadata where "hm_contains (fe_sources e) (fo_source ob)" "fo_interface ob \<noteq> 0"
    "observe_times pf e ob = Inr (epoch, cutoff)"
    "\<not> is_some_and (hm_get (fe_replay e) (fo_replay_id ob)) (\<lambda>x. cutoff \<le> re_arrival x)"
    "length (retained_replays e cutoff) < fc_max_replay_ids (fe_cfg e)"
    "normalize_metadata (fe_cfg e) (fo_metadata ob) = Inr metadata"
    "store_observation pf e ob epoch cutoff metadata = (Inr (), e')"
  using assms unfolding flow_observe_def
  by (auto simp: Let_def not_le split: if_splits sum.splits prod.splits)

lemma store_observation_Inr:
  assumes "store_observation pf e ob epoch cutoff metadata = (Inr (), e')"
  obtains grown where
    "add_bytes (case hm_get (fe_seconds e) (row_key pf ob epoch metadata) of None \<Rightarrow> zero_bytes | Some b \<Rightarrow> b)
       (fo_upload ob) (fo_download ob) = Some grown"
    "hm_contains (fe_seconds e) (row_key pf ob epoch metadata) \<or> length (fe_seconds e) < fc_max_open_rows (fe_cfg e)"
    "pf_to_string pf (fo_device_id ob) \<in> active_devices (fe_seconds e) (retained_replays e cutoff)
     \<or> card (active_devices (fe_seconds e) (retained_replays e cutoff)) < fc_max_devices (fe_cfg e)"
    "e' = e \<lparr> fe_replay := hm_insert (fo_replay_id ob)
                \<lparr> re_arrival = fo_arrival_time ob, re_device = pf_to_string pf (fo_device_id ob) \<rparr> (retained_replays e cutoff),
              fe_devices := insert (pf_to_string pf (fo_device_id ob)) (active_devices (fe_seconds e) (retained_replays e cutoff)),
              fe_seconds := hm_insert (row_key pf ob epoch metadata) grown (fe_seconds e),
              fe_last_arrival := Some (fo_arrival_time ob) \<rparr>"
  using assms unfolding store_observation_def
  by (auto simp: Let_def not_le split: if_splits option.splits)

lemma flow_observe_Inl: "flow_observe pf e ob = (Inl err, e') \<Longrightarrow> e' = e"
  unfolding flow_observe_def store_observation_def
  by (auto simp: Let_def split: if_splits sum.splits prod.splits option.splits)

lemma advance_Inl: "advance_watermark_at pf e w now = (Inl err, e') \<Longrightarrow> e' = e"
  unfolding advance_watermark_at_def
  by (auto simp: Let_def split: if_splits sum.splits prod.splits option.splits)

text \<open>The rows an advance keeps, and the engine after it.\<close>

definition kept_rows :: "flow_engine \<Rightarrow> instant \<Rightarrow> (source_second_key, byte_count) hmap" where
  "kept_rows e w = filter (\<lambda>(k, _). is_some_and (i64_checked (sk_epoch (ss_base k) + 1))
     (\<lambda>x. timestamp (w - min (fc_correction_retention (fe_cfg e)) (fc_lateness (fe_cfg e))) \<le> x)) (fe_seconds e)"

definition advanced :: "flow_engine \<Rightarrow> instant \<Rightarrow> instant \<Rightarrow> (rollup_key, rollup) hmap \<Rightarrow> flow_engine" where
  "advanced e w now proposed = (let replays = retained_replays e (now - fc_replay_ttl (fe_cfg e)) in
     e \<lparr> fe_watermark := Some w, fe_emitted := proposed, fe_seconds := kept_rows e w, fe_replay := replays,
         fe_devices := active_devices (kept_rows e w) replays, fe_last_arrival := Some now \<rparr>)"

lemma advance_Inr:
  assumes ok: "platform_ok pf" and run: "advance_watermark_at pf e w now = (Inr changes, e')"
  obtains work proposed where "plan_advance pf e w work = Inr (proposed, changes)"
    "\<forall>old. fe_watermark e = Some old \<longrightarrow> old \<le> w" "\<forall>t. fe_last_arrival e = Some t \<longrightarrow> t \<le> now"
    "w \<le> now" "e' = advanced e w now proposed"
proof -
  obtain edge cutoff work proposed where parts: "pf_add pf w (- min (fc_correction_retention (fe_cfg e)) (fc_lateness (fe_cfg e))) = Some edge"
    "pf_add pf now (- fc_replay_ttl (fe_cfg e)) = Some cutoff" "plan_advance pf e w work = Inr (proposed, changes)"
    "\<not> now < w" "\<not> is_some_and (fe_last_arrival e) (\<lambda>old. now < old)" "\<not> is_some_and (fe_watermark e) (\<lambda>old. w < old)"
    "e' = (let rows = filter (\<lambda>(k, _). is_some_and (i64_checked (sk_epoch (ss_base k) + 1)) (\<lambda>x. timestamp edge \<le> x)) (fe_seconds e);
               replays = retained_replays e cutoff
           in e \<lparr> fe_watermark := Some w, fe_emitted := proposed, fe_seconds := rows, fe_replay := replays,
                fe_devices := active_devices rows replays, fe_last_arrival := Some now \<rparr>)"
    using run unfolding advance_watermark_at_def
    by (auto simp: Let_def split: if_splits sum.splits prod.splits option.splits)
  have times: "edge = w - min (fc_correction_retention (fe_cfg e)) (fc_lateness (fe_cfg e))" "cutoff = now - fc_replay_ttl (fe_cfg e)"
    using pf_addD [OF ok parts(1)] pf_addD [OF ok parts(2)] by simp_all
  have "e' = advanced e w now proposed" unfolding parts(7) advanced_def kept_rows_def Let_def times ..
  with parts(4-6) show thesis by (intro that [OF parts(3)]) (auto split: option.splits)
qed

section \<open>The system\<close>

text \<open>A consumer that stores upserts and corrections and keeps retired rollups.\<close>

fun apply_change :: "rollup_change \<Rightarrow> (rollup_key \<Rightarrow> rollup option) \<Rightarrow> rollup_key \<Rightarrow> rollup option" where
  "apply_change (Upsert r) store = store(ro_key r \<mapsto> r)"
| "apply_change (Correction r) store = store(ro_key r \<mapsto> r)"
| "apply_change (Retire _) store = store"

definition ledger_after :: "platform \<Rightarrow> flow_engine \<Rightarrow> instant \<Rightarrow> ledger \<Rightarrow> ledger" where
  "ledger_after pf e w led =
     (case select_seconds (fe_seconds e) (fe_sources e) w of
        Inl _ \<Rightarrow> led
      | Inr selected \<Rightarrow> close_seconds pf (sort_key (\<lambda>x. second_key_order (fst x)) selected) led)"

record flow_world =
  fw_engine :: flow_engine
  fw_ledger :: ledger
  fw_store :: "rollup_key \<Rightarrow> rollup option"
  fw_accepted :: "flow_observation list"

definition flow_init :: "flow_config \<Rightarrow> source_registration list \<Rightarrow> flow_world \<Rightarrow> bool" where
  "flow_init cfg registrations x \<longleftrightarrow>
     (\<exists>e. new_flow_engine cfg registrations = Inr e
        \<and> x = \<lparr> fw_engine = e, fw_ledger = Map.empty, fw_store = Map.empty, fw_accepted = [] \<rparr>)"

inductive flow_step :: "platform \<Rightarrow> flow_world \<Rightarrow> flow_world \<Rightarrow> bool" for pf where
  observed: "flow_observe pf (fw_engine x) ob = (Inr (), e)
    \<Longrightarrow> flow_step pf x (x \<lparr> fw_engine := e, fw_accepted := fw_accepted x @ [ob] \<rparr>)"
| refused: "flow_observe pf (fw_engine x) ob = (Inl err, e) \<Longrightarrow> flow_step pf x (x \<lparr> fw_engine := e \<rparr>)"
| closing: "advance_watermark_at pf (fw_engine x) w now = (Inr changes, e)
    \<Longrightarrow> flow_step pf x (x \<lparr> fw_engine := e, fw_ledger := ledger_after pf (fw_engine x) w (fw_ledger x),
          fw_store := fold apply_change changes (fw_store x) \<rparr>)"
| stalled: "advance_watermark_at pf (fw_engine x) w now = (Inl err, e) \<Longrightarrow> flow_step pf x (x \<lparr> fw_engine := e \<rparr>)"

section \<open>Bounds\<close>

definition row_ok :: "platform \<Rightarrow> flow_engine \<Rightarrow> source_second_key \<Rightarrow> bool" where
  "row_ok pf e k \<longleftrightarrow> i64_checked (sk_epoch (ss_base k) + 1) \<noteq> None \<and> hm_contains (fe_sources e) (ss_source k)
     \<and> sk_device (ss_base k) \<in> range (pf_to_string pf) \<and> sk_interface (ss_base k) \<noteq> 0"

definition flow_engine_ok :: "platform \<Rightarrow> flow_engine \<Rightarrow> bool" where
  "flow_engine_ok pf e \<longleftrightarrow> \<not> flow_config_bad (fe_cfg e)
     \<and> hm_ok (fe_seconds e) \<and> hm_ok (fe_replay e) \<and> hm_ok (fe_sources e)
     \<and> (\<forall>(k, _) \<in> set (fe_seconds e). row_ok pf e k)
     \<and> fe_devices e = active_devices (fe_seconds e) (fe_replay e)
     \<and> length (fe_sources e) \<le> fc_max_sources (fe_cfg e)
     \<and> length (fe_seconds e) \<le> fc_max_open_rows (fe_cfg e)
     \<and> length (fe_replay e) \<le> fc_max_replay_ids (fe_cfg e)
     \<and> card (fe_devices e) \<le> fc_max_devices (fe_cfg e)
     \<and> length (fe_emitted e) \<le> fc_max_finalized_rows (fe_cfg e)"

lemma register_sources_ok: "hm_ok acc \<Longrightarrow> register_sources rs acc = Inr sources \<Longrightarrow> hm_ok sources"
  by (induction rs acc rule: register_sources.induct) (auto split: if_splits)

lemma new_flow_engine_ok: "new_flow_engine cfg registrations = Inr e \<Longrightarrow> flow_engine_ok pf e"
  by (auto simp: new_flow_engine_def flow_engine_ok_def active_devices_def register_sources_ok [OF hm_ok_Nil]
      split: if_splits sum.splits)

lemma active_devices_finite [simp]: "finite (active_devices rows replays)"
  by (simp add: active_devices_def)

lemma active_devices_mono: "set rows \<subseteq> set rows' \<Longrightarrow> set replays \<subseteq> set replays' \<Longrightarrow> active_devices rows replays \<subseteq> active_devices rows' replays'"
  by (auto simp: active_devices_def)

lemma set_hm_insert: "hm_ok m \<Longrightarrow> set (hm_insert k v m) = insert (k, v) {x \<in> set m. fst x \<noteq> k}"
  by (induction k v m rule: hm_insert.induct) (force simp: hm_ok_def)+

lemma active_devices_insert:
  assumes "hm_ok rows" and "hm_ok replays" and "sk_device (ss_base k) = d" and "re_device x = d"
    and "\<not> hm_contains replays i"
  shows "active_devices (hm_insert k b rows) (hm_insert i x replays) = insert d (active_devices rows replays)"
proof -
  have "(\<lambda>x. sk_device (ss_base (fst x))) ` set (hm_insert k b rows) = insert d ((\<lambda>x. sk_device (ss_base (fst x))) ` set rows)"
    using assms(1,3) by (force simp: set_hm_insert)
  moreover have "(\<lambda>x. re_device (snd x)) ` set (hm_insert i x replays) = insert d ((\<lambda>x. re_device (snd x)) ` set replays)"
    using assms(4,5) by (auto simp: hm_insert_absent)
  ultimately show ?thesis by (auto simp: active_devices_def)
qed

lemma observe_engine_ok:
  assumes ok: "platform_ok pf" and inv: "flow_engine_ok pf e" and run: "flow_observe pf e ob = (Inr (), e')"
  shows "flow_engine_ok pf e'"
proof -
  obtain epoch cutoff metadata where
    o1: "hm_contains (fe_sources e) (fo_source ob)" "fo_interface ob \<noteq> 0"
    "observe_times pf e ob = Inr (epoch, cutoff)"
    "\<not> is_some_and (hm_get (fe_replay e) (fo_replay_id ob)) (\<lambda>x. cutoff \<le> re_arrival x)"
    "length (retained_replays e cutoff) < fc_max_replay_ids (fe_cfg e)"
    "normalize_metadata (fe_cfg e) (fo_metadata ob) = Inr metadata"
    "store_observation pf e ob epoch cutoff metadata = (Inr (), e')"
    by (rule flow_observe_Inr [OF run])
  obtain grown where o2:
    "hm_contains (fe_seconds e) (row_key pf ob epoch metadata) \<or> length (fe_seconds e) < fc_max_open_rows (fe_cfg e)"
    "pf_to_string pf (fo_device_id ob) \<in> active_devices (fe_seconds e) (retained_replays e cutoff)
     \<or> card (active_devices (fe_seconds e) (retained_replays e cutoff)) < fc_max_devices (fe_cfg e)"
    "e' = e \<lparr> fe_replay := hm_insert (fo_replay_id ob)
                \<lparr> re_arrival = fo_arrival_time ob, re_device = pf_to_string pf (fo_device_id ob) \<rparr> (retained_replays e cutoff),
              fe_devices := insert (pf_to_string pf (fo_device_id ob)) (active_devices (fe_seconds e) (retained_replays e cutoff)),
              fe_seconds := hm_insert (row_key pf ob epoch metadata) grown (fe_seconds e),
              fe_last_arrival := Some (fo_arrival_time ob) \<rparr>"
    by (rule store_observation_Inr [OF o1(7)])
  let ?k = "row_key pf ob epoch metadata" and ?kept = "retained_replays e cutoff"
  let ?act = "active_devices (fe_seconds e) ?kept" and ?d = "pf_to_string pf (fo_device_id ob)"
  have maps: "hm_ok (fe_seconds e)" "hm_ok (fe_replay e)" "hm_ok (fe_sources e)" using inv by (simp_all add: flow_engine_ok_def)
  have kept: "hm_ok ?kept" using maps(2) by (simp add: retained_replays_def hm_ok_keep)
  have fresh: "\<not> hm_contains ?kept (fo_replay_id ob)"
  proof
    assume "hm_contains ?kept (fo_replay_id ob)"
    then obtain x where "hm_get ?kept (fo_replay_id ob) = Some x" by (auto simp: hm_contains_def)
    with o1(4) maps(2) show False by (simp add: retained_replays_def hm_get_keep_value)
  qed
  have new: "row_ok pf e ?k"
    using o1(1,2) observe_times_Inr(1,5) [OF ok o1(3)]
    by (auto simp: row_ok_def row_key_def)
  have "card (insert ?d ?act) \<le> fc_max_devices (fe_cfg e)"
  proof (cases "?d \<in> ?act")
    case True
    have "card ?act \<le> card (fe_devices e)"
      using inv by (intro card_mono) (simp_all add: flow_engine_ok_def retained_replays_def active_devices_mono)
    with True inv show ?thesis by (auto simp: insert_absorb flow_engine_ok_def)
  next
    case False
    with o2(2) show ?thesis by simp
  qed
  moreover have "\<forall>(k, _) \<in> set (hm_insert ?k grown (fe_seconds e)). row_ok pf e k"
    using inv new maps(1) by (auto simp: set_hm_insert flow_engine_ok_def)
  moreover have "insert ?d ?act = active_devices (hm_insert ?k grown (fe_seconds e)) (hm_insert (fo_replay_id ob)
      \<lparr> re_arrival = fo_arrival_time ob, re_device = ?d \<rparr> ?kept)"
    by (rule active_devices_insert [symmetric, OF maps(1) kept _ _ fresh]) (simp_all add: row_key_def)
  moreover have "length (hm_insert ?k grown (fe_seconds e)) \<le> fc_max_open_rows (fe_cfg e)"
    using inv o2(1) by (auto simp: length_hm_insert flow_engine_ok_def)
  ultimately show ?thesis
    using inv maps kept fresh o1(5) unfolding o2(3) flow_engine_ok_def
    by (simp add: length_hm_insert row_ok_def)
qed

lemma plan_advance_Inr:
  assumes "plan_advance pf e w work = Inr (proposed, changes)"
  obtains selected all keys where
    "select_seconds (fe_seconds e) (fe_sources e) w = Inr selected"
    "propose_seconds pf (sort_key (\<lambda>x. second_key_order (fst x)) selected) (fe_emitted e) = Inr all"
    "proposed = filter (\<lambda>(k, _). \<not> retired pf k w (fc_lateness (fe_cfg e))) all"
    "set keys = fst ` set (fe_emitted e) \<union> fst ` set proposed"
    "diff_loop (fc_max_work_per_call (fe_cfg e)) (fe_emitted e) proposed keys work [] = Inr changes"
    "length proposed \<le> fc_max_finalized_rows (fe_cfg e)" "length changes \<le> fc_max_outputs_per_call (fe_cfg e)"
proof -
  obtain selected where selected: "select_seconds (fe_seconds e) (fe_sources e) w = Inr selected"
    using assms by (auto simp: plan_advance_def split: sum.splits)
  then obtain all where all: "propose_seconds pf (sort_key (\<lambda>x. second_key_order (fst x)) selected) (fe_emitted e) = Inr all"
    using assms by (auto simp: plan_advance_def split: sum.splits)
  let ?p = "filter (\<lambda>(k, _). \<not> retired pf k w (fc_lateness (fe_cfg e))) all"
  let ?keys = "sort_key (rollup_key_order pf) (remdups (map fst (fe_emitted e) @ map fst ?p))"
  have "proposed = ?p" "diff_loop (fc_max_work_per_call (fe_cfg e)) (fe_emitted e) ?p ?keys work [] = Inr changes"
    "length ?p \<le> fc_max_finalized_rows (fe_cfg e)" "length changes \<le> fc_max_outputs_per_call (fe_cfg e)"
    using assms selected all by (auto simp: plan_advance_def Let_def not_less split: sum.splits if_splits)
  then show thesis by (intro that [OF selected all, of ?keys]) auto
qed

lemma advance_engine_ok:
  assumes ok: "platform_ok pf" and inv: "flow_engine_ok pf e" and run: "advance_watermark_at pf e w now = (Inr changes, e')"
  shows "flow_engine_ok pf e'"
proof -
  obtain work proposed where plan: "plan_advance pf e w work = Inr (proposed, changes)"
    and e': "e' = advanced e w now proposed"
    by (rule advance_Inr [OF ok run])
  have few: "length proposed \<le> fc_max_finalized_rows (fe_cfg e)" by (rule plan_advance_Inr [OF plan])
  let ?kept = "retained_replays e (now - fc_replay_ttl (fe_cfg e))"
  have rows: "set (kept_rows e w) \<subseteq> set (fe_seconds e)" "length (kept_rows e w) \<le> length (fe_seconds e)"
    by (auto simp: kept_rows_def)
  have replays: "set ?kept \<subseteq> set (fe_replay e)" "length ?kept \<le> length (fe_replay e)"
    by (auto simp: retained_replays_def)
  have "card (active_devices (kept_rows e w) ?kept) \<le> card (fe_devices e)"
    using inv rows(1) replays(1) by (intro card_mono) (simp_all add: flow_engine_ok_def active_devices_mono)
  moreover have "hm_ok (kept_rows e w)" "hm_ok ?kept"
    using inv by (simp_all add: flow_engine_ok_def kept_rows_def retained_replays_def hm_ok_keep)
  ultimately show ?thesis
    using inv few rows replays unfolding flow_engine_ok_def e' advanced_def
    by (auto simp: Let_def row_ok_def)
qed

section \<open>Open rows are the accepted traffic\<close>

definition counted :: "platform \<Rightarrow> flow_config \<Rightarrow> (flow_observation \<Rightarrow> u64) \<Rightarrow> flow_observation list \<Rightarrow> source_second_key \<Rightarrow> nat" where
  "counted pf cfg dir obs k = (\<Sum>ob \<leftarrow> filter (\<lambda>ob. observation_row pf cfg ob = k) obs. unat (dir ob))"

lemma counted_append [simp]:
  "counted pf cfg dir (obs @ [ob]) k = counted pf cfg dir obs k + (if observation_row pf cfg ob = k then unat (dir ob) else 0)"
  by (simp add: counted_def)

definition past :: "instant option \<Rightarrow> instant \<Rightarrow> bool" where
  "past limit t \<longleftrightarrow> (\<exists>w. limit = Some w \<and> t < w)"

text \<open>
  Open rows hold exactly the accepted observations; an accepted observation is in an open row or
  its row is past the watermark; its replay identifier is remembered for the configured time.
\<close>

definition traffic_ok :: "platform \<Rightarrow> flow_engine \<Rightarrow> flow_observation list \<Rightarrow> bool" where
  "traffic_ok pf e obs \<longleftrightarrow>
     (\<forall>k b. hm_get (fe_seconds e) k = Some b \<longrightarrow>
        unat (bc_upload b) = counted pf (fe_cfg e) fo_upload obs k \<and> unat (bc_download b) = counted pf (fe_cfg e) fo_download obs k)
     \<and> (\<forall>ob \<in> set obs. hm_contains (fe_seconds e) (observation_row pf (fe_cfg e) ob)
          \<or> past (fe_watermark e) (row_edge (fe_cfg e) (observation_row pf (fe_cfg e) ob)))
     \<and> (\<forall>ob \<in> set obs. \<exists>t. fe_last_arrival e = Some t \<and> fo_arrival_time ob \<le> t)
     \<and> (\<forall>ob \<in> set obs. fo_event_time ob \<le> fo_arrival_time ob + fc_future_skew (fe_cfg e))
     \<and> (\<forall>ob \<in> set obs. (\<exists>x. hm_get (fe_replay e) (fo_replay_id ob) = Some x \<and> fo_arrival_time ob \<le> re_arrival x)
          \<or> past (fe_last_arrival e) (fo_arrival_time ob + fc_replay_ttl (fe_cfg e)))"

lemma counted_none:
  assumes "traffic_ok pf e obs" and "\<not> hm_contains (fe_seconds e) k" and "\<not> past (fe_watermark e) (row_edge (fe_cfg e) k)"
  shows "counted pf (fe_cfg e) dir obs k = 0"
proof -
  have "filter (\<lambda>ob. observation_row pf (fe_cfg e) ob = k) obs = []"
    using assms unfolding traffic_ok_def by (auto simp: filter_empty_conv)
  then show ?thesis by (simp add: counted_def)
qed

lemma observe_traffic_ok:
  assumes ok: "platform_ok pf" and eng: "flow_engine_ok pf e" and inv: "traffic_ok pf e obs"
    and run: "flow_observe pf e ob = (Inr (), e')"
  shows "traffic_ok pf e' (obs @ [ob])"
proof -
  obtain epoch cutoff metadata where
    o1: "observe_times pf e ob = Inr (epoch, cutoff)"
    "\<not> is_some_and (hm_get (fe_replay e) (fo_replay_id ob)) (\<lambda>x. cutoff \<le> re_arrival x)"
    "normalize_metadata (fe_cfg e) (fo_metadata ob) = Inr metadata"
    "store_observation pf e ob epoch cutoff metadata = (Inr (), e')"
    by (rule flow_observe_Inr [OF run])
  obtain grown where o2:
    "add_bytes (case hm_get (fe_seconds e) (row_key pf ob epoch metadata) of None \<Rightarrow> zero_bytes | Some b \<Rightarrow> b)
       (fo_upload ob) (fo_download ob) = Some grown"
    "e' = e \<lparr> fe_replay := hm_insert (fo_replay_id ob)
                \<lparr> re_arrival = fo_arrival_time ob, re_device = pf_to_string pf (fo_device_id ob) \<rparr> (retained_replays e cutoff),
              fe_devices := insert (pf_to_string pf (fo_device_id ob)) (active_devices (fe_seconds e) (retained_replays e cutoff)),
              fe_seconds := hm_insert (row_key pf ob epoch metadata) grown (fe_seconds e),
              fe_last_arrival := Some (fo_arrival_time ob) \<rparr>"
    by (rule store_observation_Inr [OF o1(4)])
  let ?cfg = "fe_cfg e" and ?k = "row_key pf ob epoch metadata"
  note times = observe_times_Inr [OF ok o1(1)]
  have row: "observation_row pf ?cfg ob = ?k" using times(1) o1(3) by (simp add: observation_row_def)
  have live: "\<not> past (fe_watermark e) (row_edge ?cfg ?k)" using times(4) row by (auto simp: past_def)
  have grown: "unat (bc_upload grown) = counted pf ?cfg fo_upload obs ?k + unat (fo_upload ob)"
    "unat (bc_download grown) = counted pf ?cfg fo_download obs ?k + unat (fo_download ob)"
    using add_bytes_Some [OF o2(1)] inv counted_none [OF inv _ live]
    by (auto simp: traffic_ok_def hm_contains_def zero_bytes_def split: option.splits)
  have "(\<exists>x. hm_get (fe_replay e') (fo_replay_id q) = Some x \<and> fo_arrival_time q \<le> re_arrival x)
      \<or> past (fe_last_arrival e') (fo_arrival_time q + fc_replay_ttl ?cfg)" if q: "q \<in> set (obs @ [ob])" for q
  proof -
    have "fo_arrival_time q \<le> fo_arrival_time ob" using q inv times(3) by (fastforce simp: traffic_ok_def)
    then consider "fo_replay_id q = fo_replay_id ob"
      | x where "hm_get (fe_replay e) (fo_replay_id q) = Some x" "fo_arrival_time q \<le> re_arrival x" "fo_replay_id q \<noteq> fo_replay_id ob"
      | t where "fe_last_arrival e = Some t" "fo_arrival_time q + fc_replay_ttl ?cfg < t" "t \<le> fo_arrival_time ob"
      using q inv times(3) by (fastforce simp: traffic_ok_def past_def)
    then show ?thesis
    proof cases
      case 1
      then show ?thesis using \<open>fo_arrival_time q \<le> fo_arrival_time ob\<close> by (simp add: o2(2))
    next
      case 2
      then show ?thesis
      proof (cases "cutoff \<le> re_arrival x")
        case True
        with 2 eng show ?thesis by (auto simp: o2(2) retained_replays_def hm_get_keep_value flow_engine_ok_def)
      next
        case False
        with 2 times(2) show ?thesis by (simp add: o2(2) past_def)
      qed
    next
      case 3
      then show ?thesis by (simp add: o2(2) past_def)
    qed
  qed
  moreover have "fo_arrival_time q \<le> fo_arrival_time ob" if "q \<in> set obs" for q
    using that inv times(3) by (fastforce simp: traffic_ok_def)
  ultimately show ?thesis
    using inv row grown times(6) unfolding traffic_ok_def by (auto simp: o2(2) split: if_splits)
qed

lemma horizon: "flow_engine_ok pf e \<Longrightarrow> min (fc_correction_retention (fe_cfg e)) (fc_lateness (fe_cfg e)) = fc_lateness (fe_cfg e)"
  by (auto simp: flow_engine_ok_def flow_config_bad_def)

lemma kept_row:
  assumes "flow_engine_ok pf e" and "hm_get (fe_seconds e) k = Some b"
  shows "hm_get (kept_rows e w) k = (if timestamp (w - fc_lateness (fe_cfg e)) \<le> sk_epoch (ss_base k) + 1 then Some b else None)"
proof -
  have "row_ok pf e k" using assms hm_get_SomeD [OF assms(2)] by (auto simp: flow_engine_ok_def)
  then have "i64_checked (sk_epoch (ss_base k) + 1) = Some (sk_epoch (ss_base k) + 1)"
    by (auto simp: row_ok_def i64_checked_def split: if_splits)
  then show ?thesis unfolding kept_rows_def horizon [OF assms(1)] hm_get_keep using assms(2) by simp
qed

lemma kept_subset: "hm_get (kept_rows e w) k = Some b \<Longrightarrow> hm_get (fe_seconds e) k = Some b"
  by (auto simp: kept_rows_def hm_get_keep split: if_splits)

lemma dropped_row_past:
  assumes "\<not> timestamp (w - fc_lateness cfg) \<le> sk_epoch (ss_base k) + 1"
  shows "row_edge cfg k < w"
proof -
  have "(sk_epoch (ss_base k) + 2) * NANOS \<le> (w - fc_lateness cfg) div NANOS * NANOS"
    using assms by (intro mult_right_mono) (simp_all add: timestamp_def NANOS_def)
  also have "\<dots> \<le> w - fc_lateness cfg" by (simp add: NANOS_def minus_mod_eq_div_mult [symmetric])
  finally show ?thesis by (simp add: row_edge_def NANOS_def algebra_simps)
qed

lemma past_mono: "past old t \<Longrightarrow> \<forall>s. old = Some s \<longrightarrow> s \<le> w \<Longrightarrow> past (Some w) t"
  by (auto simp: past_def)

lemma advance_traffic_ok:
  assumes ok: "platform_ok pf" and eng: "flow_engine_ok pf e" and inv: "traffic_ok pf e obs"
    and run: "advance_watermark_at pf e w now = (Inr changes, e')"
  shows "traffic_ok pf e' obs"
proof -
  obtain proposed where adv: "\<forall>old. fe_watermark e = Some old \<longrightarrow> old \<le> w" "\<forall>t. fe_last_arrival e = Some t \<longrightarrow> t \<le> now"
    and e': "e' = advanced e w now proposed"
    by (rule advance_Inr [OF ok run])
  let ?cfg = "fe_cfg e"
  have fields: "fe_cfg e' = ?cfg" "fe_seconds e' = kept_rows e w" "fe_watermark e' = Some w" "fe_last_arrival e' = Some now"
    "fe_replay e' = retained_replays e (now - fc_replay_ttl ?cfg)"
    by (simp_all add: e' advanced_def Let_def)
  have "hm_contains (kept_rows e w) (observation_row pf ?cfg ob) \<or> past (Some w) (row_edge ?cfg (observation_row pf ?cfg ob))"
    if ob: "ob \<in> set obs" for ob
  proof (cases "hm_get (fe_seconds e) (observation_row pf ?cfg ob)")
    case None
    then have "past (fe_watermark e) (row_edge ?cfg (observation_row pf ?cfg ob))"
      using inv ob by (auto simp: traffic_ok_def hm_contains_def)
    with past_mono adv(1) show ?thesis by blast
  next
    case (Some b)
    with kept_row [OF eng, of "observation_row pf ?cfg ob" b w] dropped_row_past [of w ?cfg "observation_row pf ?cfg ob"]
    show ?thesis by (auto simp: hm_contains_def past_def)
  qed
  moreover have "(\<exists>x. hm_get (fe_replay e') (fo_replay_id ob) = Some x \<and> fo_arrival_time ob \<le> re_arrival x)
      \<or> past (Some now) (fo_arrival_time ob + fc_replay_ttl ?cfg)" if ob: "ob \<in> set obs" for ob
  proof (cases "past (fe_last_arrival e) (fo_arrival_time ob + fc_replay_ttl ?cfg)")
    case True
    with past_mono adv(2) show ?thesis by blast
  next
    case False
    then obtain x where "hm_get (fe_replay e) (fo_replay_id ob) = Some x" "fo_arrival_time ob \<le> re_arrival x"
      using inv ob by (auto simp: traffic_ok_def)
    with eng show ?thesis
      by (cases "now - fc_replay_ttl ?cfg \<le> re_arrival x")
         (auto simp: fields(5) retained_replays_def hm_get_keep_value flow_engine_ok_def past_def)
  qed
  moreover have "fo_arrival_time ob \<le> now" if "ob \<in> set obs" for ob
    using that inv adv(2) by (fastforce simp: traffic_ok_def)
  ultimately show ?thesis
    using inv unfolding traffic_ok_def fields by (auto dest: kept_subset)
qed

section \<open>Reachable systems\<close>

definition flow_inv :: "platform \<Rightarrow> flow_config \<Rightarrow> flow_world \<Rightarrow> bool" where
  "flow_inv pf cfg x \<longleftrightarrow> (platform_ok pf \<longrightarrow>
     fe_cfg (fw_engine x) = cfg \<and> flow_engine_ok pf (fw_engine x) \<and> traffic_ok pf (fw_engine x) (fw_accepted x))"

lemma flow_observe_cfg: "flow_observe pf e ob = (r, e') \<Longrightarrow> fe_cfg e' = fe_cfg e"
  unfolding flow_observe_def store_observation_def
  by (auto simp: Let_def split: if_splits sum.splits prod.splits option.splits)

lemma advance_cfg: "platform_ok pf \<Longrightarrow> advance_watermark_at pf e w now = (Inr changes, e') \<Longrightarrow> fe_cfg e' = fe_cfg e"
  by (erule (1) advance_Inr) (simp add: advanced_def Let_def)

interpretation flow_system: invariant_system "flow_init cfg registrations" "flow_step pf" "flow_inv pf cfg"
  for cfg registrations pf
proof (unfold_locales, goal_cases)
  case (1 x)
  then show ?case
    by (auto simp: flow_init_def flow_inv_def traffic_ok_def new_flow_engine_ok)
       (auto simp: new_flow_engine_def split: if_splits sum.splits)
next
  case (2 x y)
  from 2(2,1) show ?case
    by cases
       (auto simp: flow_inv_def dest: flow_observe_Inl advance_Inl flow_observe_cfg advance_cfg observe_engine_ok
          observe_traffic_ok advance_engine_ok advance_traffic_ok)
qed

end
