(* ===== verification/Flow_Books.thy ===== *)
theory Flow_Books
  imports Flow_System
begin

text \<open>
  The published rollups add up. On watermarks that leave a whole second after the lateness
  allowance is subtracted, cached minute and hour rollups are the exact sums of the closed seconds,
  and a consumer that applies the published changes holds the same values.
\<close>

section \<open>Published changes\<close>

lemma diff_loop_changes:
  "diff_loop limit emitted proposed keys work acc = Inr changes
     \<Longrightarrow> changes = acc @ List.map_filter (change_of emitted proposed) keys"
  by (induction limit emitted proposed keys work acc rule: diff_loop.induct)
     (auto simp: map_filter_simps split: if_splits option.splits)

fun change_rollup :: "rollup_change \<Rightarrow> rollup option" where
  "change_rollup (Upsert r) = Some r"
| "change_rollup (Correction r) = Some r"
| "change_rollup (Retire _) = None"

lemma apply_change_rollup:
  "apply_change c store = (case change_rollup c of None \<Rightarrow> store | Some r \<Rightarrow> store(ro_key r \<mapsto> r))"
  by (cases c) simp_all

lemma fold_apply_change:
  assumes "\<forall>c \<in> set cs. \<forall>q. change_rollup c = Some q \<and> ro_key q = k \<longrightarrow> q = r"
    and "store k = Some r \<or> (\<exists>c \<in> set cs. change_rollup c = Some r \<and> ro_key r = k)"
  shows "fold apply_change cs store k = Some r"
  using assms
proof (induction cs arbitrary: store)
  case Nil
  then show ?case by simp
next
  case (Cons c cs)
  have "apply_change c store k = Some r \<or> (\<exists>c \<in> set cs. change_rollup c = Some r \<and> ro_key r = k)"
    using Cons.prems by (auto simp: apply_change_rollup split: option.splits)
  then show ?case using Cons.IH [of "apply_change c store"] Cons.prems(1) by simp
qed

definition store_ok :: "flow_engine \<Rightarrow> (rollup_key \<Rightarrow> rollup option) \<Rightarrow> bool" where
  "store_ok e store \<longleftrightarrow> (\<forall>k r. hm_get (fe_emitted e) k = Some r \<longrightarrow> store k = Some r)"

definition keyed :: "(rollup_key, rollup) hmap \<Rightarrow> bool" where
  "keyed m \<longleftrightarrow> (\<forall>k r. hm_get m k = Some r \<longrightarrow> ro_key r = k)"

lemma change_of_rollup:
  "change_of emitted proposed k = Some c \<Longrightarrow> change_rollup c = Some q \<Longrightarrow> hm_get proposed k = Some q"
  by (auto simp: change_of_def split: option.splits if_splits)

lemma changes_reach_store:
  assumes store: "\<forall>k r. hm_get emitted k = Some r \<longrightarrow> store k = Some r" and "keyed proposed"
    and keys: "fst ` set proposed \<subseteq> set keys" and r: "hm_get proposed k = Some r"
  shows "fold apply_change (List.map_filter (change_of emitted proposed) keys) store k = Some r"
proof (rule fold_apply_change)
  show "\<forall>c \<in> set (List.map_filter (change_of emitted proposed) keys). \<forall>q. change_rollup c = Some q \<and> ro_key q = k \<longrightarrow> q = r"
  proof (intro ballI allI impI)
    fix c q
    assume c: "c \<in> set (List.map_filter (change_of emitted proposed) keys)" and q: "change_rollup c = Some q \<and> ro_key q = k"
    from c obtain k' where "change_of emitted proposed k' = Some c" by (auto simp: List.map_filter_def)
    with q have "hm_get proposed k' = Some q" using change_of_rollup by blast
    with assms(2) q r show "q = r" by (auto simp: keyed_def)
  qed
  have "k \<in> set keys" using keys hm_get_SomeD [OF r] by force
  show "store k = Some r \<or> (\<exists>c \<in> set (List.map_filter (change_of emitted proposed) keys). change_rollup c = Some r \<and> ro_key r = k)"
  proof (cases "hm_get emitted k = Some r")
    case True
    with store show ?thesis by blast
  next
    case False
    then obtain c where "change_of emitted proposed k = Some c" "change_rollup c = Some r"
      using r by (cases "hm_get emitted k") (auto simp: change_of_def)
    with \<open>k \<in> set keys\<close> assms(2) r show ?thesis by (auto simp: keyed_def intro: in_set_map_filterI)
  qed
qed

section \<open>The books of an advance\<close>

definition gone_at :: "flow_engine \<Rightarrow> rollup_key \<Rightarrow> bool" where
  "gone_at e k \<longleftrightarrow> (\<exists>w. fe_watermark e = Some w \<and> expired (fc_lateness (fe_cfg e)) k w)"

definition live_rows :: "flow_engine \<Rightarrow> bool" where
  "live_rows e \<longleftrightarrow> (\<forall>k b. hm_get (fe_seconds e) k = Some b \<longrightarrow> \<not> past (fe_watermark e) (row_edge (fe_cfg e) k))"

definition aligned :: "flow_engine \<Rightarrow> bool" where
  "aligned e \<longleftrightarrow> (\<forall>w. fe_watermark e = Some w \<longrightarrow> (w - fc_lateness (fe_cfg e)) mod NANOS = 0)"

definition books_inv :: "flow_world \<Rightarrow> bool" where
  "books_inv x \<longleftrightarrow> live_rows (fw_engine x) \<and> store_ok (fw_engine x) (fw_store x)
     \<and> books_ok (gone_at (fw_engine x)) (fe_emitted (fw_engine x)) (fw_ledger x)"

lemma select_loop_ok: "hm_ok out \<Longrightarrow> select_loop sources w rows out winners = Inr out' \<Longrightarrow> hm_ok out'"
  by (induction sources w rows out winners rule: select_loop.induct)
     (auto simp: Let_def split: option.splits if_splits prod.splits)

lemma selected_not_gone:
  assumes ok: "platform_ok pf" and rows: "live_rows e" "hm_ok (fe_seconds e)"
    and sel: "select_seconds (fe_seconds e) (fe_sources e) w = Inr selected" "(base, v) \<in> set selected"
    and s: "make_rollup pf SecondResolution (sk_epoch base) base v = Inr s"
  shows "\<not> gone_at e (ro_key s)"
proof -
  have "hm_ok selected" using sel(1) select_loop_ok [OF hm_ok_Nil] by (auto simp: select_seconds_def)
  with sel(2) have "hm_get selected base = Some v" by (simp add: hm_get_Some_iff)
  then obtain k where k: "(k, fv_bytes v) \<in> set (fe_seconds e)" "ss_base k = base"
    by (rule select_seconds_row [OF sel(1)])
  then have "\<not> past (fe_watermark e) (row_edge (fe_cfg e) k)" using rows by (auto simp: live_rows_def hm_get_Some_iff)
  with k(2) show ?thesis
    by (rule_tac make_rollup_Inr [OF ok s]) (auto simp: gone_at_def expired_def past_def row_edge_def algebra_simps)
qed

lemma advance_books:
  assumes ok: "platform_ok pf" and eng: "flow_engine_ok pf e" and run: "advance_watermark_at pf e w now = (Inr changes, e')"
    and books: "books_ok (gone_at e) (fe_emitted e) led" and live: "live_rows e"
  shows "books_ok (gone_at e') (fe_emitted e') (ledger_after pf e w led)"
proof -
  obtain work proposed where plan: "plan_advance pf e w work = Inr (proposed, changes)"
    and mono: "\<forall>old. fe_watermark e = Some old \<longrightarrow> old \<le> w" and e': "e' = advanced e w now proposed"
    by (rule advance_Inr [OF ok run])
  obtain selected all where parts: "select_seconds (fe_seconds e) (fe_sources e) w = Inr selected"
    "propose_seconds pf (sort_key (\<lambda>x. second_key_order (fst x)) selected) (fe_emitted e) = Inr all"
    "proposed = filter (\<lambda>(k, _). \<not> retired pf k w (fc_lateness (fe_cfg e))) all"
    by (rule plan_advance_Inr [OF plan])
  have rows: "hm_ok (fe_seconds e)" using eng by (simp add: flow_engine_ok_def)
  have "books_ok (gone_at e) all (ledger_after pf e w led)"
    unfolding ledger_after_def parts(1) sum.case
  proof (rule propose_seconds_books [OF ok _ _ books parts(2)])
    show "gone_at e k" if "is_parent p k" "second_rollup_key k" "gone_at e p" for p k
      using that parent_expires_later by (auto simp: gone_at_def)
    show "\<not> gone_at e (ro_key s)" if "(base, v) \<in> set (sort_key (\<lambda>x. second_key_order (fst x)) selected)"
      "make_rollup pf SecondResolution (sk_epoch base) base v = Inr s" for base v s
      using selected_not_gone [OF ok live rows parts(1) _ that(2)] that(1) by simp
  qed
  then have "books_ok (gone_at e') (filter (\<lambda>(k, _). \<not> retired pf k w (fc_lateness (fe_cfg e))) all) (ledger_after pf e w led)"
    by (rule books_ok_filter)
       (use mono retired_expired [OF ok] in \<open>fastforce simp: e' advanced_def Let_def gone_at_def expired_def\<close>)+
  then show ?thesis by (simp add: parts(3) e' advanced_def Let_def)
qed

lemma advance_store:
  assumes ok: "platform_ok pf" and run: "advance_watermark_at pf e w now = (Inr changes, e')"
    and store: "store_ok e store" and keyed: "keyed (fe_emitted e')"
  shows "store_ok e' (fold apply_change changes store)"
proof -
  obtain work proposed where plan: "plan_advance pf e w work = Inr (proposed, changes)" and e': "e' = advanced e w now proposed"
    by (rule advance_Inr [OF ok run])
  obtain keys where keys: "set keys = fst ` set (fe_emitted e) \<union> fst ` set proposed"
    "diff_loop (fc_max_work_per_call (fe_cfg e)) (fe_emitted e) proposed keys work [] = Inr changes"
    by (rule plan_advance_Inr [OF plan])
  have "keyed proposed" using keyed by (simp add: e' advanced_def Let_def)
  with changes_reach_store [of "fe_emitted e" store proposed keys] keys(1) store diff_loop_changes [OF keys(2)]
  show ?thesis by (auto simp: store_ok_def e' advanced_def Let_def)
qed

lemma advance_live:
  assumes ok: "platform_ok pf" and eng: "flow_engine_ok pf e" and run: "advance_watermark_at pf e w now = (Inr changes, e')"
    and aligned: "aligned e'"
  shows "live_rows e'"
proof -
  obtain proposed where e': "e' = advanced e w now proposed" by (rule advance_Inr [OF ok run])
  have whole: "timestamp (w - fc_lateness (fe_cfg e)) * NANOS = w - fc_lateness (fe_cfg e)"
    using aligned by (auto simp: aligned_def e' advanced_def Let_def timestamp_def)
  have "w \<le> row_edge (fe_cfg e) k" if "hm_get (kept_rows e w) k = Some b" for k b
  proof -
    have "timestamp (w - fc_lateness (fe_cfg e)) \<le> sk_epoch (ss_base k) + 1"
      using that kept_row [OF eng kept_subset [OF that], of w] by (simp split: if_splits)
    then have "timestamp (w - fc_lateness (fe_cfg e)) * NANOS \<le> (sk_epoch (ss_base k) + 1) * NANOS"
      by (intro mult_right_mono) (simp_all add: NANOS_def)
    with whole show ?thesis by (simp add: row_edge_def)
  qed
  then show ?thesis by (fastforce simp: live_rows_def e' advanced_def Let_def past_def)
qed

lemma observe_live:
  assumes ok: "platform_ok pf" and run: "flow_observe pf e ob = (Inr (), e')" and live: "live_rows e"
  shows "live_rows e'"
proof -
  obtain epoch cutoff metadata where o1: "observe_times pf e ob = Inr (epoch, cutoff)"
    "normalize_metadata (fe_cfg e) (fo_metadata ob) = Inr metadata"
    "store_observation pf e ob epoch cutoff metadata = (Inr (), e')"
    by (rule flow_observe_Inr [OF run])
  have row: "observation_row pf (fe_cfg e) ob = row_key pf ob epoch metadata"
    using observe_times_Inr(1) [OF ok o1(1)] o1(2) by (simp add: observation_row_def)
  show ?thesis
    by (rule store_observation_Inr [OF o1(3)])
       (use live observe_times_Inr(4) [OF ok o1(1)] row in \<open>auto simp: live_rows_def past_def split: if_splits\<close>)
qed

lemma observe_rest:
  assumes "flow_observe pf e ob = (Inr (), e')"
  shows "fe_emitted e' = fe_emitted e" "fe_watermark e' = fe_watermark e"
  using assms unfolding flow_observe_def store_observation_def
  by (auto simp: Let_def split: if_splits sum.splits prod.splits option.splits)

section \<open>Whole-second watermarks\<close>

definition aligned_step :: "platform \<Rightarrow> flow_world \<Rightarrow> flow_world \<Rightarrow> bool" where
  "aligned_step pf x y \<longleftrightarrow> flow_step pf x y \<and> aligned (fw_engine y)"

definition ledger_inv :: "platform \<Rightarrow> flow_config \<Rightarrow> flow_world \<Rightarrow> bool" where
  "ledger_inv pf cfg x \<longleftrightarrow> flow_inv pf cfg x \<and> (platform_ok pf \<longrightarrow> books_inv x)"

lemma books_inv_step:
  assumes ok: "platform_ok pf" and inv: "flow_inv pf cfg x" and books: "books_inv x" and step: "aligned_step pf x y"
  shows "books_inv y"
proof -
  let ?e = "fw_engine x"
  have eng: "flow_engine_ok pf ?e" using ok inv by (simp add: flow_inv_def)
  have parts: "live_rows ?e" "store_ok ?e (fw_store x)" "books_ok (gone_at ?e) (fe_emitted ?e) (fw_ledger x)"
    using books by (simp_all add: books_inv_def)
  from step have "flow_step pf x y" and aligned: "aligned (fw_engine y)" by (simp_all add: aligned_step_def)
  then show ?thesis
  proof cases
    case (observed ob e)
    note same = observe_rest [OF observed(2)] flow_observe_cfg [OF observed(2)]
    have "gone_at e = gone_at ?e" by (intro ext) (simp add: gone_at_def same)
    then show ?thesis
      using parts observe_live [OF ok observed(2) parts(1)] by (simp add: books_inv_def observed(1) store_ok_def same)
  next
    case (refused ob err e)
    with books flow_observe_Inl [OF refused(2)] show ?thesis by (simp add: books_inv_def)
  next
    case (closing w now changes e)
    have led: "books_ok (gone_at e) (fe_emitted e) (ledger_after pf ?e w (fw_ledger x))"
      by (rule advance_books [OF ok eng closing(2) parts(3,1)])
    then have "keyed (fe_emitted e)" by (simp add: books_ok_def keyed_def)
    with led advance_store [OF ok closing(2) parts(2)] advance_live [OF ok eng closing(2)] aligned
    show ?thesis by (simp add: books_inv_def closing(1))
  next
    case (stalled w now err e)
    with books advance_Inl [OF stalled(2)] show ?thesis by (simp add: books_inv_def)
  qed
qed

interpretation flow_books: invariant_system "flow_init cfg registrations" "aligned_step pf" "ledger_inv pf cfg"
  for cfg registrations pf
proof (unfold_locales, goal_cases)
  case (1 x)
  have "books_inv x" using 1
    by (auto simp: flow_init_def new_flow_engine_def books_inv_def live_rows_def store_ok_def books_ok_def split: if_splits sum.splits)
  with flow_system.inv_init [OF 1] show ?case by (simp add: ledger_inv_def)
next
  case (2 x y)
  with books_inv_step [of pf cfg x y] flow_system.inv_step [of pf cfg x y] show ?case by (auto simp: ledger_inv_def aligned_step_def)
qed

end
