(* ===== verification/Flow_Properties.thy ===== *)
theory Flow_Properties
  imports Flow_Books
begin

text \<open>
  What the flow engine promises: published rollups add up, one authoritative source per second,
  no event is counted twice, bounded memory, and where these promises end.
\<close>

section \<open>One authoritative source per second\<close>

text \<open>The row of a closed second whose source outranks every other source that saw it.\<close>

definition wins :: "flow_engine \<Rightarrow> instant \<Rightarrow> source_second_key \<Rightarrow> bool" where
  "wins e w k \<longleftrightarrow> hm_contains (fe_seconds e) k \<and> closed w k
     \<and> (\<forall>k'. hm_contains (fe_seconds e) k' \<and> ss_base k' = ss_base k \<longrightarrow> outranks (fe_sources e) (ss_source k) (ss_source k'))"

definition key_of :: "platform \<Rightarrow> second_key \<Rightarrow> rollup_key \<Rightarrow> bool" where
  "key_of pf base key \<longleftrightarrow> rk_resolution key = SecondResolution \<and> rk_bucket key = sk_epoch base * NANOS
     \<and> pf_to_string pf (rk_device_id key) = sk_device base \<and> rk_protocol key = sk_protocol base
     \<and> rk_destination key = sk_destination base \<and> rk_interface key = sk_interface base \<and> rk_metadata key = sk_metadata base"

lemma key_of_inj: "key_of pf base key \<Longrightarrow> key_of pf base' key \<Longrightarrow> base = base'"
  by (cases base; cases base') (auto simp: key_of_def NANOS_def)

text \<open>The ledger's entry of a row: the traffic accepted for it, under its source's coverage.\<close>

definition booked :: "platform \<Rightarrow> flow_world \<Rightarrow> ledger \<Rightarrow> source_second_key \<Rightarrow> bool" where
  "booked pf x led k \<longleftrightarrow> (\<exists>s kind. led (ro_key s) = Some s \<and> key_of pf (ss_base k) (ro_key s)
     \<and> hm_get (fe_sources (fw_engine x)) (ss_source k) = Some kind \<and> ro_coverage s = coverage_of kind
     \<and> unat (bc_upload (ro_bytes s)) = counted pf (fe_cfg (fw_engine x)) fo_upload (fw_accepted x) k
     \<and> unat (bc_download (ro_bytes s)) = counted pf (fe_cfg (fw_engine x)) fo_download (fw_accepted x) k)"

lemma wins_unique: "wins e w k \<Longrightarrow> wins e w k' \<Longrightarrow> ss_base k = ss_base k' \<Longrightarrow> k = k'"
  unfolding wins_def using outranks_antisym by (metis source_second_key.equality old.unit.exhaust)

lemma wins_authoritative:
  assumes "hm_ok (fe_seconds e)" and "\<forall>(k, _) \<in> set (fe_seconds e). hm_contains (fe_sources e) (ss_source k)"
  shows "authoritative (fe_sources e) w (set (fe_seconds e)) base v \<longleftrightarrow>
    (\<exists>k kind. wins e w k \<and> ss_base k = base \<and> hm_get (fe_seconds e) k = Some (fv_bytes v)
       \<and> hm_get (fe_sources e) (ss_source k) = Some kind \<and> fv_coverage v = coverage_of kind)"
    (is "?auth \<longleftrightarrow> (\<exists>k kind. ?win k kind)")
proof
  assume ?auth
  then obtain i kind where i: "(\<lparr> ss_base = base, ss_source = i \<rparr>, fv_bytes v) \<in> set (fe_seconds e)"
      "closed w \<lparr> ss_base = base, ss_source = i \<rparr>" "hm_get (fe_sources e) i = Some kind" "fv_coverage v = coverage_of kind"
      "\<forall>j b. (\<lparr> ss_base = base, ss_source = j \<rparr>, b) \<in> set (fe_seconds e) \<longrightarrow> outranks (fe_sources e) i j"
    unfolding authoritative_def by blast
  have "outranks (fe_sources e) i (ss_source k')" if "hm_contains (fe_seconds e) k'" "ss_base k' = base" for k'
  proof -
    have "k' = \<lparr> ss_base = base, ss_source = ss_source k' \<rparr>" using that(2) by simp
    with that(1) i(5) show ?thesis unfolding hm_contains_iff by (metis imageE prod.collapse)
  qed
  then have "?win \<lparr> ss_base = base, ss_source = i \<rparr> kind"
    using i(1-4) assms(1) by (auto simp: wins_def hm_contains_def hm_get_Some_iff)
  then show "\<exists>k kind. ?win k kind" by blast
next
  assume "\<exists>k kind. ?win k kind"
  then obtain k kind where win: "?win k kind" by blast
  then have key: "\<lparr> ss_base = base, ss_source = ss_source k \<rparr> = k" by auto
  have "outranks (fe_sources e) (ss_source k) j" if "(\<lparr> ss_base = base, ss_source = j \<rparr>, b) \<in> set (fe_seconds e)" for j b
  proof -
    have "hm_contains (fe_seconds e) \<lparr> ss_base = base, ss_source = j \<rparr>" using that by (force simp: hm_contains_iff)
    with win show ?thesis by (force simp: wins_def)
  qed
  moreover have "(k, fv_bytes v) \<in> set (fe_seconds e)" "closed w k" using win assms(1) by (auto simp: wins_def hm_get_Some_iff)
  ultimately show ?auth unfolding authoritative_def
    by (intro exI [of _ "ss_source k"] exI [of _ kind]) (use win in \<open>simp add: key\<close>)
qed

text \<open>The key of a booked second determines its base, and the rollup made for a base is the only one.\<close>

lemma make_rollup_key_of:
  assumes ok: "platform_ok pf" and dev: "sk_device base \<in> range (pf_to_string pf)"
    and s: "make_rollup pf SecondResolution (sk_epoch base) base v = Inr s"
  shows "key_of pf base (ro_key s)" "ro_bytes s = fv_bytes v" "ro_coverage s = fv_coverage v"
  using dev parse_to_string [OF ok] by (rule_tac make_rollup_Inr [OF ok s]; force simp: key_of_def)+

lemma ledger_after_closing:
  assumes ok: "platform_ok pf" and eng: "flow_engine_ok pf e" and run: "advance_watermark_at pf e w now = (Inr changes, e')"
  obtains sel where "select_seconds (fe_seconds e) (fe_sources e) w = Inr sel"
    "\<forall>base v. hm_get sel base = Some v \<longrightarrow> (\<exists>s. ledger_after pf e w led (ro_key s) = Some s
       \<and> key_of pf base (ro_key s) \<and> ro_bytes s = fv_bytes v \<and> ro_coverage s = fv_coverage v)"
    "\<forall>key. ledger_after pf e w led key \<noteq> led key \<longrightarrow> (\<exists>base v. hm_get sel base = Some v \<and> key_of pf base key)"
proof -
  obtain work proposed where plan: "plan_advance pf e w work = Inr (proposed, changes)" by (rule advance_Inr [OF ok run])
  obtain sel all where sel: "select_seconds (fe_seconds e) (fe_sources e) w = Inr sel"
    and all: "propose_seconds pf (sort_key (\<lambda>x. second_key_order (fst x)) sel) (fe_emitted e) = Inr all"
    by (rule plan_advance_Inr [OF plan])
  let ?xs = "sort_key (\<lambda>x. second_key_order (fst x)) sel"
  have selok: "hm_ok sel" using sel select_loop_ok [OF hm_ok_Nil] by (auto simp: select_seconds_def)
  have dev: "sk_device base \<in> range (pf_to_string pf)" if "hm_get sel base = Some v" for base v
    by (rule select_seconds_row [OF sel that]) (use eng in \<open>fastforce simp: flow_engine_ok_def row_ok_def\<close>)
  have led: "ledger_after pf e w led = close_seconds pf ?xs led" by (simp add: ledger_after_def sel)
  show thesis
  proof (rule that [OF sel]; intro allI impI)
    fix base v assume v: "hm_get sel base = Some v"
    then have mem: "(base, v) \<in> set ?xs" by (simp add: hm_get_SomeD)
    obtain s where s: "make_rollup pf SecondResolution (sk_epoch base) base v = Inr s"
      by (rule propose_seconds_makes [OF all mem])
    have same: "s' = s" if "(base', v') \<in> set ?xs" "make_rollup pf SecondResolution (sk_epoch base') base' v' = Inr s'"
      "ro_key s' = ro_key s" for base' v' s'
    proof -
      have v': "hm_get sel base' = Some v'" using that(1) selok by (simp add: hm_get_Some_iff)
      have "base' = base"
        using make_rollup_key_of(1) [OF ok dev [OF v] s] make_rollup_key_of(1) [OF ok dev [OF v'] that(2)] that(3) key_of_inj by metis
      with v v' s that(2) show ?thesis by simp
    qed
    have "close_seconds pf ?xs led (ro_key s) = Some s"
      by (rule close_seconds_entry [OF mem s]) (use same in auto)
    with make_rollup_key_of [OF ok dev [OF v] s] led
    show "\<exists>s. ledger_after pf e w led (ro_key s) = Some s \<and> key_of pf base (ro_key s) \<and> ro_bytes s = fv_bytes v \<and> ro_coverage s = fv_coverage v"
      by auto
  next
    fix key assume "ledger_after pf e w led key \<noteq> led key"
    then obtain base v s where x: "(base, v) \<in> set ?xs" "make_rollup pf SecondResolution (sk_epoch base) base v = Inr s" "ro_key s = key"
      unfolding led using close_seconds_other [of ?xs pf key led] by auto
    then have "hm_get sel base = Some v" using selok by (simp add: hm_get_Some_iff)
    with x make_rollup_key_of(1) [OF ok dev x(2)] show "\<exists>base v. hm_get sel base = Some v \<and> key_of pf base key" by blast
  qed
qed

text \<open>C28. One authoritative source per second. Whatever a reachable engine is asked to close, each
  second that closes has exactly one winning row: its source's coverage ranks highest (complete, router
  reported, local only, estimated), with the smaller source identifier on a tie. The ledger then
  books for that second exactly the upload and download bytes of the accepted observations of the
  winning source, under that source's coverage; traffic seen by several sources is never added up, and
  no other second's entry changes.\<close>

theorem closing_books_one_source:
  assumes "platform_ok pf" and "reachable (flow_init cfg registrations) (flow_step pf) x"
    and "advance_watermark_at pf (fw_engine x) w now = (Inr changes, e')"
  shows "(\<forall>k. hm_contains (fe_seconds (fw_engine x)) k \<and> closed w k
            \<longrightarrow> (\<exists>!k'. ss_base k' = ss_base k \<and> wins (fw_engine x) w k'))
    \<and> (\<forall>k. wins (fw_engine x) w k \<longrightarrow> booked pf x (ledger_after pf (fw_engine x) w (fw_ledger x)) k)
    \<and> (\<forall>key. ledger_after pf (fw_engine x) w (fw_ledger x) key \<noteq> fw_ledger x key
            \<longrightarrow> (\<exists>k. wins (fw_engine x) w k \<and> key_of pf (ss_base k) key))"
proof -
  let ?e = "fw_engine x" and ?led = "ledger_after pf (fw_engine x) w (fw_ledger x)"
  have inv: "flow_engine_ok pf ?e" "traffic_ok pf ?e (fw_accepted x)"
    using flow_system.reachable_inv [OF assms(2)] assms(1) by (simp_all add: flow_inv_def)
  have rows: "hm_ok (fe_seconds ?e)" "\<forall>(k, _) \<in> set (fe_seconds ?e). hm_contains (fe_sources ?e) (ss_source k)"
    using inv(1) by (auto simp: flow_engine_ok_def row_ok_def)
  obtain sel where sel: "select_seconds (fe_seconds ?e) (fe_sources ?e) w = Inr sel"
    and entry: "\<forall>base v. hm_get sel base = Some v \<longrightarrow> (\<exists>s. ?led (ro_key s) = Some s
       \<and> key_of pf base (ro_key s) \<and> ro_bytes s = fv_bytes v \<and> ro_coverage s = fv_coverage v)"
    and other: "\<forall>key. ?led key \<noteq> fw_ledger x key \<longrightarrow> (\<exists>base v. hm_get sel base = Some v \<and> key_of pf base key)"
    by (rule ledger_after_closing [OF assms(1) inv(1) assms(3)])
  have chosen: "hm_get sel base = Some v \<longleftrightarrow> (\<exists>k kind. wins ?e w k \<and> ss_base k = base \<and> hm_get (fe_seconds ?e) k = Some (fv_bytes v)
       \<and> hm_get (fe_sources ?e) (ss_source k) = Some kind \<and> fv_coverage v = coverage_of kind)" for base v
    using select_seconds_authoritative [OF rows(1) sel] wins_authoritative [OF rows] by simp
  have "\<exists>!k'. ss_base k' = ss_base k \<and> wins ?e w k'" if k: "hm_contains (fe_seconds ?e) k" "closed w k" for k
  proof -
    obtain b where "(k, b) \<in> set (fe_seconds ?e)" using k(1) by (auto simp: hm_contains_iff)
    from select_seconds_closed [OF sel this k(2)] obtain k' where "wins ?e w k'" "ss_base k' = ss_base k"
      using chosen by blast
    then show ?thesis using wins_unique by metis
  qed
  moreover have "booked pf x ?led k" if k: "wins ?e w k" for k
  proof -
    obtain b where b: "hm_get (fe_seconds ?e) k = Some b" using k by (auto simp: wins_def hm_contains_def)
    then obtain kind where kind: "hm_get (fe_sources ?e) (ss_source k) = Some kind"
      using rows(2) hm_get_SomeD [OF b] by (auto simp: hm_contains_def)
    have "hm_get sel (ss_base k) = Some \<lparr> fv_bytes = b, fv_coverage = coverage_of kind \<rparr>"
      using k b kind by (auto simp: chosen)
    from entry [rule_format, OF this] b kind inv(2) show ?thesis by (auto simp: booked_def traffic_ok_def)
  qed
  moreover have "\<exists>k. wins ?e w k \<and> key_of pf (ss_base k) key" if "?led key \<noteq> fw_ledger x key" for key
    using other [rule_format, OF that] by (auto simp: chosen)
  ultimately show ?thesis by blast
qed

section \<open>Rollups add up\<close>

text \<open>C27. Published rollups add up. While the watermarks, less the lateness allowance, fall on whole seconds,
  in every reachable state each rollup the engine holds is what a consumer of its changes has stored
  under the same key; a cached second is the ledger's; and a cached minute or hour has exactly the upload and
  the download of the seconds booked in it, whatever corrections arrived, with a coverage that is
  \<open>Estimated\<close> unless all of these seconds have that very coverage.\<close>

theorem flow_rollups_add_up:
  assumes "platform_ok pf" and "reachable (flow_init cfg registrations) (aligned_step pf) x"
    and "hm_get (fe_emitted (fw_engine x)) p = Some r"
  shows "fw_store x p = Some r \<and> ro_key r = p
    \<and> (if rk_resolution p = SecondResolution then fw_ledger x p = Some r
       else unat (bc_upload (ro_bytes r)) = ledger_sum bc_upload (fw_ledger x) p
         \<and> unat (bc_download (ro_bytes r)) = ledger_sum bc_download (fw_ledger x) p
         \<and> (ro_coverage r = Estimated \<or> (\<forall>k \<in> children (fw_ledger x) p. ro_coverage (the (fw_ledger x k)) = ro_coverage r)))"
proof -
  have inv: "store_ok (fw_engine x) (fw_store x)" "books_ok (gone_at (fw_engine x)) (fe_emitted (fw_engine x)) (fw_ledger x)"
    using flow_books.reachable_inv [OF assms(2)] assms(1) by (simp_all add: ledger_inv_def books_inv_def)
  have "fw_store x p = Some r" using inv(1) assms(3) by (simp add: store_ok_def)
  moreover have "ro_key r = p" using inv(2) assms(3) by (simp add: books_ok_def)
  moreover have "fw_ledger x p = Some r" if "rk_resolution p = SecondResolution"
    using that inv(2) assms(3) by (simp add: books_ok_def)
  moreover have "agrees_with (fw_ledger x) p r" if "rk_resolution p \<noteq> SecondResolution"
    using that inv(2) assms(3) by (simp add: books_ok_def)
  ultimately show ?thesis by (simp add: agrees_with_def)
qed

section \<open>No event is counted twice\<close>

text \<open>C29. No event is counted twice when replay identifiers are kept long enough. If the time to live of
  replay identifiers covers the lateness allowance, the tolerated future skew and one second more, then in every
  reachable state an observation that repeats the identifier and the event time of an accepted one is refused,
  however late it arrives, and leaves the engine as it was.\<close>

theorem replayed_event_counted_once:
  assumes "platform_ok pf" and "reachable (flow_init cfg registrations) (flow_step pf) x"
    and "fc_lateness cfg + fc_future_skew cfg + NANOS \<le> fc_replay_ttl cfg"
    and "ob \<in> set (fw_accepted x)" and "fo_replay_id ob' = fo_replay_id ob" and "fo_event_time ob' = fo_event_time ob"
  shows "\<exists>err. flow_observe pf (fw_engine x) ob' = (Inl err, fw_engine x)"
proof (rule ccontr)
  let ?e = "fw_engine x"
  assume none: "\<nexists>err. flow_observe pf ?e ob' = (Inl err, ?e)"
  obtain e' where run: "flow_observe pf ?e ob' = (Inr (), e')"
  proof (cases "flow_observe pf ?e ob'")
    case (Pair r e')
    with none flow_observe_Inl [of pf ?e ob' _ e'] that show thesis by (cases r) auto
  qed
  have inv: "fe_cfg ?e = cfg" "traffic_ok pf ?e (fw_accepted x)"
    using flow_system.reachable_inv [OF assms(2)] assms(1) by (simp_all add: flow_inv_def)
  obtain epoch cutoff where
    o1: "observe_times pf ?e ob' = Inr (epoch, cutoff)"
    "\<not> is_some_and (hm_get (fe_replay ?e) (fo_replay_id ob')) (\<lambda>x. cutoff \<le> re_arrival x)"
    by (rule flow_observe_Inr [OF run])
  note times = observe_times_Inr [OF assms(1) o1(1)]
  have "fo_arrival_time ob + fc_replay_ttl cfg < fo_arrival_time ob'"
    using inv assms(4,5) o1(2) times(2,3) unfolding traffic_ok_def past_def by fastforce
  moreover have "fo_event_time ob \<le> fo_arrival_time ob + fc_future_skew cfg"
    using inv assms(4) by (simp add: traffic_ok_def)
  moreover have "timestamp (fo_event_time ob) * NANOS \<le> fo_event_time ob"
    by (simp add: timestamp_def NANOS_def minus_mod_eq_div_mult [symmetric])
  ultimately show False
    using times(7) assms(3,6) by (simp add: inv(1) row_edge_observation algebra_simps)
qed

section \<open>Bounds and refusals\<close>

text \<open>C30. Memory is bounded and refusals are harmless. In every reachable state the registered sources, open rows,
  replay identifiers, tracked devices and cached rollups are within the configured limits, and the tracked devices
  are those of the open rows and of the remembered replays; a refused observation or advance leaves the
  engine as it was, and an accepted advance publishes no more changes than allowed.\<close>

theorem flow_engine_bounded:
  assumes "platform_ok pf" and "reachable (flow_init cfg registrations) (flow_step pf) x"
  shows "length (fe_sources (fw_engine x)) \<le> fc_max_sources cfg \<and> length (fe_seconds (fw_engine x)) \<le> fc_max_open_rows cfg
    \<and> length (fe_replay (fw_engine x)) \<le> fc_max_replay_ids cfg \<and> card (fe_devices (fw_engine x)) \<le> fc_max_devices cfg
    \<and> length (fe_emitted (fw_engine x)) \<le> fc_max_finalized_rows cfg
    \<and> fe_devices (fw_engine x) = active_devices (fe_seconds (fw_engine x)) (fe_replay (fw_engine x))
    \<and> (\<forall>ob err e. flow_observe pf (fw_engine x) ob = (Inl err, e) \<longrightarrow> e = fw_engine x)
    \<and> (\<forall>w now. case advance_watermark_at pf (fw_engine x) w now of
         (Inl err, e) \<Rightarrow> e = fw_engine x
       | (Inr changes, e) \<Rightarrow> length changes \<le> fc_max_outputs_per_call cfg)"
proof -
  let ?e = "fw_engine x"
  have inv: "fe_cfg ?e = cfg" "flow_engine_ok pf ?e"
    using flow_system.reachable_inv [OF assms(2)] assms(1) by (simp_all add: flow_inv_def)
  have "length changes \<le> fc_max_outputs_per_call cfg" if run: "advance_watermark_at pf ?e w now = (Inr changes, e)" for w now changes e
  proof -
    obtain work proposed where "plan_advance pf ?e w work = Inr (proposed, changes)" by (rule advance_Inr [OF assms(1) run])
    from this inv(1) show ?thesis by (rule_tac plan_advance_Inr) auto
  qed
  moreover have "length (fe_sources ?e) \<le> fc_max_sources cfg \<and> length (fe_seconds ?e) \<le> fc_max_open_rows cfg
    \<and> length (fe_replay ?e) \<le> fc_max_replay_ids cfg \<and> card (fe_devices ?e) \<le> fc_max_devices cfg
    \<and> length (fe_emitted ?e) \<le> fc_max_finalized_rows cfg \<and> fe_devices ?e = active_devices (fe_seconds ?e) (fe_replay ?e)"
    using inv by (auto simp: flow_engine_ok_def)
  ultimately show ?thesis
    using flow_observe_Inl advance_Inl by (force split: prod.splits sum.splits)
qed

section \<open>Concrete runs\<close>

definition sample_platform :: platform where
  "sample_platform =
     \<lparr> pf_add = utc_calendar, pf_from_timestamp = (\<lambda>s n. utc_calendar (s * NANOS) n),
       pf_to_string = (\<lambda>d. replicate (unat d) CHR ''x''), pf_parse = (\<lambda>s. Some (of_nat (length s))) \<rparr>"

lemma sample_platform_ok: "platform_ok sample_platform"
  unfolding platform_ok_def sample_platform_def utc_calendar_def platform.simps
  by (intro conjI exI [of _ "- 8334601228800000000000"] exI [of _ "8210266876799999999999"]) simp_all

definition sample_observation :: "replay_id \<Rightarrow> instant \<Rightarrow> flow_observation" where
  "sample_observation i arrival =
     \<lparr> fo_replay_id = i, fo_event_time = seconds 100, fo_arrival_time = arrival, fo_device_id = 3, fo_upload = 7,
       fo_download = 2, fo_protocol = Tcp, fo_destination = LanDestination, fo_interface = 1, fo_source = 1,
       fo_metadata = None \<rparr>"

text \<open>Small limits keep the runs short; the time parameters are the default ones except \<open>ttl\<close>.\<close>

definition sample_flow_config :: "duration \<Rightarrow> flow_config" where
  "sample_flow_config ttl =
     \<lparr> fc_lateness = seconds 5, fc_future_skew = seconds 5, fc_replay_ttl = ttl,
       fc_correction_retention = hours 24, fc_retain_destination_metadata = False,
       fc_max_domain_bytes = 16, fc_max_devices = 2, fc_max_sources = 2, fc_max_open_rows = 4,
       fc_max_replay_ids = 4, fc_max_finalized_rows = 16, fc_max_outputs_per_call = 16,
       fc_max_work_per_call = 64 \<rparr>"

definition sample_flow_start :: "duration \<Rightarrow> flow_engine" where
  "sample_flow_start ttl = (case new_flow_engine (sample_flow_config ttl) [verified_gateway 1, collector_local 2] of Inr e \<Rightarrow> e)"

definition sample_open :: "duration \<Rightarrow> flow_engine" where
  "sample_open ttl = snd (flow_observe sample_platform (sample_flow_start ttl) (sample_observation 9 (seconds 100)))"

lemma sample_new: "new_flow_engine (sample_flow_config (minutes 10)) [verified_gateway 1, collector_local 2] = Inr (sample_flow_start (minutes 10))"
  by code_simp

lemma sample_flow_observe: "flow_observe sample_platform (sample_flow_start (minutes 10)) (sample_observation 9 (seconds 100))
    = (Inr (), sample_open (minutes 10))"
  by code_simp

text \<open>The engine, the ledger and the store after closing the observed second at 103 s.\<close>

definition sample_rollup :: "resolution \<Rightarrow> int \<Rightarrow> u64 \<Rightarrow> u64 \<Rightarrow> rollup" where
  "sample_rollup res bucket up down =
     \<lparr> ro_key = \<lparr> rk_resolution = res, rk_bucket = seconds bucket, rk_device_id = 3, rk_protocol = Tcp,
         rk_destination = LanDestination, rk_interface = 1, rk_metadata = None \<rparr>,
       ro_bytes = \<lparr> bc_upload = up, bc_download = down \<rparr>, ro_coverage = Complete, ro_metadata = None \<rparr>"

definition sample_changes :: "rollup_change list" where
  "sample_changes = [Upsert (sample_rollup SecondResolution 100 7 2), Upsert (sample_rollup MinuteResolution 60 7 2),
     Upsert (sample_rollup HourResolution 0 7 2)]"

definition sample_advance :: "flow_engine \<Rightarrow> instant \<Rightarrow> (flow_error + rollup_change list) \<times> flow_engine" where
  "sample_advance e w = advance_watermark_at sample_platform e w w"

definition sample_closed :: flow_engine where
  "sample_closed = snd (sample_advance (sample_open (minutes 10)) (seconds 103))"

lemma sample_close: "advance_watermark_at sample_platform (sample_open (minutes 10)) (seconds 103) (seconds 103) = (Inr sample_changes, sample_closed)"
  by code_simp

definition sample_world :: flow_world where
  "sample_world = \<lparr> fw_engine = sample_open (minutes 10), fw_ledger = Map.empty, fw_store = Map.empty,
     fw_accepted = [sample_observation 9 (seconds 100)] \<rparr>"

definition sample_booked :: flow_world where
  "sample_booked = sample_world \<lparr> fw_engine := sample_closed,
     fw_ledger := ledger_after sample_platform (sample_open (minutes 10)) (seconds 103) Map.empty,
     fw_store := fold apply_change sample_changes Map.empty \<rparr>"

lemma sample_steps:
  "flow_init (sample_flow_config (minutes 10)) [verified_gateway 1, collector_local 2]
     (sample_world \<lparr> fw_engine := sample_flow_start (minutes 10), fw_accepted := [] \<rparr>)"
  "flow_step sample_platform (sample_world \<lparr> fw_engine := sample_flow_start (minutes 10), fw_accepted := [] \<rparr>) sample_world"
  "flow_step sample_platform sample_world sample_booked"
proof -
  show "flow_init (sample_flow_config (minutes 10)) [verified_gateway 1, collector_local 2]
     (sample_world \<lparr> fw_engine := sample_flow_start (minutes 10), fw_accepted := [] \<rparr>)"
    by (simp add: flow_init_def sample_new sample_world_def)
  show "flow_step sample_platform (sample_world \<lparr> fw_engine := sample_flow_start (minutes 10), fw_accepted := [] \<rparr>) sample_world"
    using flow_step.observed [of sample_platform "sample_world \<lparr> fw_engine := sample_flow_start (minutes 10), fw_accepted := [] \<rparr>"]
      sample_flow_observe by (simp add: sample_world_def)
  show "flow_step sample_platform sample_world sample_booked"
    using flow_step.closing [of sample_platform sample_world] sample_close by (simp add: sample_booked_def sample_world_def)
qed

lemma sample_aligned: "aligned (sample_open (minutes 10))" "aligned sample_closed"
proof -
  have "fe_watermark (sample_open (minutes 10)) = None" by code_simp
  then show "aligned (sample_open (minutes 10))" by (simp add: aligned_def)
  have "fe_watermark sample_closed = Some (seconds 103)" "fc_lateness (fe_cfg sample_closed) = seconds 5" by code_simp+
  then show "aligned sample_closed" by (simp add: aligned_def seconds_def NANOS_def)
qed

lemma sample_flow_reachable:
  "reachable (flow_init (sample_flow_config (minutes 10)) [verified_gateway 1, collector_local 2]) (flow_step sample_platform) sample_world"
  "reachable (flow_init (sample_flow_config (minutes 10)) [verified_gateway 1, collector_local 2]) (aligned_step sample_platform) sample_booked"
proof -
  show "reachable (flow_init (sample_flow_config (minutes 10)) [verified_gateway 1, collector_local 2]) (flow_step sample_platform) sample_world"
    using sample_steps by (meson reachable.intros)
  have "aligned_step sample_platform (sample_world \<lparr> fw_engine := sample_flow_start (minutes 10), fw_accepted := [] \<rparr>) sample_world"
    "aligned_step sample_platform sample_world sample_booked"
    using sample_steps(2,3) sample_aligned by (simp_all add: aligned_step_def sample_world_def sample_booked_def)
  with sample_steps(1)
  show "reachable (flow_init (sample_flow_config (minutes 10)) [verified_gateway 1, collector_local 2]) (aligned_step sample_platform) sample_booked"
    by (meson reachable.intros)
qed

lemma sample_minute: "hm_get (fe_emitted sample_closed) (ro_key (sample_rollup MinuteResolution 60 7 2)) = Some (sample_rollup MinuteResolution 60 7 2)"
  by code_simp

theorem flow_rollups_add_up_witness:
  "fw_store sample_booked (ro_key (sample_rollup MinuteResolution 60 7 2)) = Some (sample_rollup MinuteResolution 60 7 2)
    \<and> ledger_sum bc_upload (fw_ledger sample_booked) (ro_key (sample_rollup MinuteResolution 60 7 2)) = 7"
proof -
  have "hm_get (fe_emitted (fw_engine sample_booked)) (ro_key (sample_rollup MinuteResolution 60 7 2)) = Some (sample_rollup MinuteResolution 60 7 2)"
    using sample_minute by (simp add: sample_booked_def)
  from flow_rollups_add_up [OF sample_platform_ok sample_flow_reachable(2) this] show ?thesis by (simp add: sample_rollup_def)
qed

definition sample_row :: source_second_key where
  "sample_row = \<lparr> ss_base = \<lparr> sk_epoch = 100, sk_device = ''xxx'', sk_protocol = Tcp, sk_destination = LanDestination,
     sk_interface = 1, sk_metadata = None \<rparr>, ss_source = 1 \<rparr>"

theorem closing_books_one_source_witness:
  "\<exists>!k. ss_base k = ss_base sample_row \<and> wins (sample_open (minutes 10)) (seconds 103) k"
proof -
  have "hm_contains (fe_seconds (sample_open (minutes 10))) sample_row" "closed (seconds 103) sample_row" by code_simp+
  with closing_books_one_source [OF sample_platform_ok sample_flow_reachable(1), of "seconds 103" "seconds 103"] sample_close
  show ?thesis by (simp add: sample_world_def)
qed

theorem replayed_event_counted_once_witness:
  "\<exists>err. flow_observe sample_platform (sample_open (minutes 10)) (sample_observation 9 (seconds 900)) = (Inl err, sample_open (minutes 10))"
proof -
  have "fc_lateness (sample_flow_config (minutes 10)) + fc_future_skew (sample_flow_config (minutes 10)) + NANOS \<le> fc_replay_ttl (sample_flow_config (minutes 10))"
    by code_simp
  from replayed_event_counted_once [OF sample_platform_ok sample_flow_reachable(1) this,
      of "sample_observation 9 (seconds 100)" "sample_observation 9 (seconds 900)"]
  show ?thesis by (simp add: sample_world_def sample_observation_def)
qed

theorem flow_engine_bounded_witness: "length (fe_seconds (sample_open (minutes 10))) \<le> 4"
  using flow_engine_bounded [OF sample_platform_ok sample_flow_reachable(1)] by (simp add: sample_world_def sample_flow_config_def)

section \<open>Where the books fail\<close>

text \<open>Runs behind the reported defects. The promises of the rollup contract end in three places, each reached from a fresh engine. With a
  watermark that is not a whole second after the lateness allowance, a closed second is published only inside its
  minute and hour, and advancing to the same watermark again counts it a second time (7 bytes
  become 14). With replay identifiers kept just as long as the lateness allowance, which the constructor accepts, the
  same event is accepted twice. With a watermark that jumps past a minute's correction window, traffic
  accepted for that minute is never published in it: the minute is retired at its old total.\<close>

lemma flow_books_can_fail:
  "(let first = sample_advance (sample_open (minutes 10)) 106500000000;
        again = sample_advance (snd first) 106500000000
    in fst first = Inr [Upsert (sample_rollup MinuteResolution 60 7 2), Upsert (sample_rollup HourResolution 0 7 2)]
       \<and> fst again = Inr [Correction (sample_rollup MinuteResolution 60 14 4), Correction (sample_rollup HourResolution 0 14 4)])
   \<and> (let again = flow_observe sample_platform (sample_open (seconds 5)) (sample_observation 9 105500000000)
      in fst again = Inr () \<and> hm_get (fe_seconds (snd again)) sample_row = Some \<lparr> bc_upload = 14, bc_download = 4 \<rparr>)
   \<and> (let more = flow_observe sample_platform sample_closed
             (sample_observation 10 (seconds 103) \<lparr> fo_event_time := seconds 101 \<rparr>);
          jump = sample_advance (snd more) (seconds 200)
      in fst more = Inr ()
       \<and> fst jump = Inr [Retire \<lparr> rt_key = ro_key (sample_rollup SecondResolution 100 7 2), rt_cache_only = True \<rparr>,
            Retire \<lparr> rt_key = ro_key (sample_rollup MinuteResolution 60 7 2), rt_cache_only = True \<rparr>,
            Correction (sample_rollup HourResolution 0 14 4)])"
  by (intro conjI) code_simp+

end
