(* ===== verification/Rust_Text.thy ===== *)
theory Rust_Text
  imports Identity Flow
begin

text \<open>
  What the packet decoder uses of Rust's standard library for text: UTF-8 validation, lossy
  conversion, scalar-wise trimming and control characters, ASCII case, splitting, number parsing, and
  the printed form of addresses. A \<open>String\<close> is its UTF-8 bytes; \<open>str_scalars\<close> cuts it
  into the encodings of its scalar values.
\<close>

section \<open>Bytes and text\<close>

definition byte_of :: "char \<Rightarrow> nat" where
  "byte_of c = of_char c"

definition str_of :: "u8 list \<Rightarrow> string" where
  "str_of b = map (\<lambda>x. char_of (unat x)) b"

definition continuation :: "nat \<Rightarrow> bool" where
  "continuation n \<longleftrightarrow> 128 \<le> n \<and> n < 192"

text \<open>The second bytes a leading byte of a longer sequence admits.\<close>

definition second_ok :: "nat \<Rightarrow> nat \<Rightarrow> bool" where
  "second_ok a b =
     (if a = 224 then 160 \<le> b \<and> b < 192
      else if a = 237 then 128 \<le> b \<and> b < 160
      else if a = 240 then 144 \<le> b \<and> b < 192
      else if a = 244 then 128 \<le> b \<and> b < 144
      else continuation b)"

definition sequence_length :: "nat \<Rightarrow> nat" where
  "sequence_length a =
     (if a < 128 then 1 else if 194 \<le> a \<and> a < 224 then 2 else if 224 \<le> a \<and> a < 240 then 3
      else if 240 \<le> a \<and> a < 245 then 4 else 0)"

text \<open>
  The first sequence of a non-empty text: whether it is well formed, and how many bytes it has; an
  ill-formed one ends before the first byte that cannot continue it.
\<close>

definition utf8_step :: "string \<Rightarrow> bool \<times> nat" where
  "utf8_step s =
     (let a = byte_of (hd s); n = sequence_length a;
          at = (\<lambda>i p. i < length s \<and> p (byte_of (s ! i)))
      in if n = 0 then (False, 1)
         else if n = 1 then (True, 1)
         else if \<not> at 1 (second_ok a) then (False, 1)
         else if n = 2 then (True, 2)
         else if \<not> at 2 continuation then (False, 2)
         else if n = 3 then (True, 3)
         else if \<not> at 3 continuation then (False, 3)
         else (True, 4))"

lemma utf8_step_pos [simp]: "0 < snd (utf8_step s)"
  by (simp add: utf8_step_def Let_def)

function utf8_cut :: "string \<Rightarrow> (bool \<times> string) list" where
  "utf8_cut s =
     (if s = [] then []
      else (fst (utf8_step s), take (snd (utf8_step s)) s) # utf8_cut (drop (snd (utf8_step s)) s))"
  by pat_completeness auto
termination
  by (relation "measure length") simp_all

declare utf8_cut.simps [simp del]

definition utf8_valid :: "string \<Rightarrow> bool" where
  "utf8_valid s = list_all fst (utf8_cut s)"

definition str_scalars :: "string \<Rightarrow> string list" where
  "str_scalars s = map snd (utf8_cut s)"

definition REPLACEMENT :: string where
  "REPLACEMENT = [char_of (239 :: nat), char_of (191 :: nat), char_of (189 :: nat)]"

definition from_utf8_lossy :: "string \<Rightarrow> string" where
  "from_utf8_lossy s = concat (map (\<lambda>(ok, x). if ok then x else REPLACEMENT) (utf8_cut s))"

definition is_control :: "string \<Rightarrow> bool" where
  "is_control c =
     (case map byte_of c of
        [a] \<Rightarrow> a < 32 \<or> a = 127
      | [a, b] \<Rightarrow> a = 194 \<and> b < 160
      | _ \<Rightarrow> False)"

definition is_whitespace :: "string \<Rightarrow> bool" where
  "is_whitespace c =
     (case map byte_of c of
        [a] \<Rightarrow> 9 \<le> a \<and> a \<le> 13 \<or> a = 32
      | [a, b] \<Rightarrow> a = 194 \<and> (b = 133 \<or> b = 160)
      | [a, b, d] \<Rightarrow> a = 225 \<and> b = 154 \<and> d = 128
          \<or> a = 226 \<and> b = 128 \<and> (d \<le> 138 \<or> d = 168 \<or> d = 169 \<or> d = 175)
          \<or> a = 226 \<and> b = 129 \<and> d = 159 \<or> a = 227 \<and> b = 128 \<and> d = 128
      | _ \<Rightarrow> False)"

definition trim_end :: "string \<Rightarrow> string" where
  "trim_end s = concat (rev (dropWhile is_whitespace (rev (str_scalars s))))"

definition trim :: "string \<Rightarrow> string" where
  "trim s = concat (rev (dropWhile is_whitespace (rev (dropWhile is_whitespace (str_scalars s)))))"

definition is_ascii_graphic :: "nat \<Rightarrow> bool" where
  "is_ascii_graphic n \<longleftrightarrow> 33 \<le> n \<and> n \<le> 126"

section \<open>Splitting and parsing\<close>

text \<open>\<open>split("\r\n")\<close>.\<close>

fun split_crlf :: "string \<Rightarrow> string list" where
  "split_crlf [] = [[]]"
| "split_crlf [c] = [[c]]"
| "split_crlf (c # d # s) =
     (if byte_of c = 13 \<and> byte_of d = 10 then [] # split_crlf s
      else case split_crlf (d # s) of [] \<Rightarrow> [[c]] | part # parts \<Rightarrow> (c # part) # parts)"

fun split_once :: "char \<Rightarrow> string \<Rightarrow> (string \<times> string) option" where
  "split_once c [] = None"
| "split_once c (x # xs) =
     (if x = c then Some ([], xs) else map_option (\<lambda>(k, z). (x # k, z)) (split_once c xs))"

definition strip_prefix :: "string \<Rightarrow> string \<Rightarrow> string option" where
  "strip_prefix pre s = (if take (length pre) s = pre then Some (drop (length pre) s) else None)"

text \<open>\<open>str::split_ascii_whitespace\<close>.\<close>

definition is_ascii_whitespace :: "char \<Rightarrow> bool" where
  "is_ascii_whitespace c \<longleftrightarrow> byte_of c \<in> {9, 10, 12, 13, 32}"

fun ascii_words :: "string \<Rightarrow> string \<Rightarrow> string list" where
  "ascii_words word [] = (if word = [] then [] else [rev word])"
| "ascii_words word (c # s) =
     (if is_ascii_whitespace c then (if word = [] then [] else [rev word]) @ ascii_words [] s
      else ascii_words (c # word) s)"

definition split_ascii_whitespace :: "string \<Rightarrow> string list" where
  "split_ascii_whitespace s = ascii_words [] s"

definition is_digit :: "char \<Rightarrow> bool" where
  "is_digit c \<longleftrightarrow> 48 \<le> byte_of c \<and> byte_of c \<le> 57"

definition digits_value :: "string \<Rightarrow> int" where
  "digits_value s = foldl (\<lambda>n c. n * 10 + (int (byte_of c) - 48)) 0 s"

text \<open>\<open>str::parse::<i64>\<close>: an optional sign and at least one digit, within the type's range.\<close>

definition parse_i64 :: "string \<Rightarrow> int option" where
  "parse_i64 s =
     (let sign = (if s \<noteq> [] \<and> hd s = CHR ''-'' then - 1 else 1);
          body = (if s \<noteq> [] \<and> hd s \<in> {CHR ''-'', CHR ''+''} then tl s else s);
          n = sign * digits_value body
      in if body = [] \<or> \<not> list_all is_digit body then None else i64_checked n)"

section \<open>Printed forms\<close>

text \<open>\<open>u16::from_be_bytes\<close> and \<open>u32::from_be_bytes\<close>.\<close>

definition be16 :: "u8 \<Rightarrow> u8 \<Rightarrow> u16" where
  "be16 a b = word_of_int (uint a * 256 + uint b)"

definition be32 :: "u8 \<Rightarrow> u8 \<Rightarrow> u8 \<Rightarrow> u8 \<Rightarrow> u32" where
  "be32 a b c d = word_of_int (((uint a * 256 + uint b) * 256 + uint c) * 256 + uint d)"

text \<open>Hexadecimal digits without leading zeros, and with at least a given number of digits.\<close>

function show_hex :: "int \<Rightarrow> string" where
  "show_hex n = (if n < 16 then [hex_char (nat n)] else show_hex (n div 16) @ [hex_char (nat (n mod 16))])"
  by pat_completeness auto
termination
  by (relation "measure nat") simp_all

declare show_hex.simps [simp del]

definition pad_hex :: "nat \<Rightarrow> int \<Rightarrow> string" where
  "pad_hex w n = replicate (w - length (show_hex n)) CHR ''0'' @ show_hex n"

definition show_int :: "int \<Rightarrow> string" where
  "show_int n = (if n < 0 then CHR ''-'' # show_nat (nat (- n)) else show_nat (nat n))"

definition ipv6_of :: "u8 list \<Rightarrow> 128 word" where
  "ipv6_of b = word_of_int (foldl (\<lambda>n x. n * 256 + uint x) 0 b)"

definition show_ipv4 :: "u32 \<Rightarrow> string" where
  "show_ipv4 a = join ''.'' (map (\<lambda>i. show_nat (nat (uint a div 256 ^ (3 - i) mod 256))) [0..<4])"

definition segments :: "128 word \<Rightarrow> int list" where
  "segments a = map (\<lambda>i. uint a div 65536 ^ (7 - i) mod 65536) [0..<8]"

text \<open>The first longest run of zero segments, as its start and length.\<close>

fun zero_run :: "int list \<Rightarrow> nat \<Rightarrow> nat \<times> nat \<Rightarrow> nat \<times> nat \<Rightarrow> nat \<times> nat" where
  "zero_run [] i current longest = longest"
| "zero_run (x # xs) i current longest =
     (if x = 0
      then (let c = (if snd current = 0 then (i, 1) else (fst current, snd current + 1))
            in zero_run xs (i + 1) c (if snd longest < snd c then c else longest))
      else zero_run xs (i + 1) (0, 0) longest)"

definition show_ipv6 :: "128 word \<Rightarrow> string" where
  "show_ipv6 a =
     (let s = segments a; (start, n) = zero_run s 0 (0, 0) (0, 0);
          part = (\<lambda>xs. join '':'' (map show_hex xs))
      in if take 6 s = [0, 0, 0, 0, 0, 65535]
         then ''::ffff:'' @ show_ipv4 (word_of_int (s ! 6 * 65536 + s ! 7))
         else if 1 < n then part (take start s) @ ''::'' @ part (drop (start + n) s)
         else part s)"

fun show_ip :: "ip_addr \<Rightarrow> string" where
  "show_ip (V4 a) = show_ipv4 a"
| "show_ip (V6 a) = show_ipv6 a"

fun is_unspecified :: "ip_addr \<Rightarrow> bool" where
  "is_unspecified (V4 a) = (a = 0)"
| "is_unspecified (V6 a) = (a = 0)"

end
