(* ===== verification/Passive.thy ===== *)
theory Passive
  imports Rust_Text
begin

text \<open>
  The passive decoder of \<open>lattice-sensor/src/passive.rs\<close> and \<open>passive/link_discovery.rs\<close>: Ethernet
  frames become bounded observations. Indexing or slicing a buffer out of range panics in Rust;
  here it is the outcome \<open>Panicked\<close>, so that the absence of panics is a theorem. The codecs the
  decoder calls (etherparse, hickory, quick-xml, pcap-file, chrono) are the parameter \<open>codecs\<close>. A
  \<open>&mut\<close> argument is returned with the result; the question mark is \<open>and_then\<close>.
\<close>

section \<open>Limits and data\<close>

definition MAX_FRAME_BYTES :: nat where "MAX_FRAME_BYTES = 65535"
definition MAX_METADATA_BYTES :: nat where "MAX_METADATA_BYTES = 2048"
definition MAX_PCAP_BYTES :: nat where "MAX_PCAP_BYTES = 4 * 1024 * 1024"
definition MAX_PCAP_RECORDS :: nat where "MAX_PCAP_RECORDS = 4096"
definition MAX_SKIPPED_FRAMES :: nat where "MAX_SKIPPED_FRAMES = 256"
definition MAX_OBSERVATIONS :: nat where "MAX_OBSERVATIONS = 4096"
definition MAX_OBSERVATIONS_PER_FRAME :: nat where "MAX_OBSERVATIONS_PER_FRAME = 16"
definition MAX_FACTS_PER_OBSERVATION :: nat where "MAX_FACTS_PER_OBSERVATION = 32"
definition MAX_VALUE_BYTES :: nat where "MAX_VALUE_BYTES = 1024"
definition MAX_NORMALIZED_VALUE_BYTES :: nat where "MAX_NORMALIZED_VALUE_BYTES = 1024 * 1024"
definition MAX_DHCP_OPTIONS :: nat where "MAX_DHCP_OPTIONS = 64"
definition MAX_DUID_BYTES :: nat where "MAX_DUID_BYTES = 128"
definition MAX_IAADDRS :: nat where "MAX_IAADDRS = 8"
definition MAX_RELAY_MESSAGE_BYTES :: nat where "MAX_RELAY_MESSAGE_BYTES = 16 * 1024"
definition DEFAULT_TTL :: int where "DEFAULT_TTL = 300"

lemma limits_code [code_unfold]:
  "MAX_FRAME_BYTES < n \<longleftrightarrow> 65535 < int n" "MAX_METADATA_BYTES < n \<longleftrightarrow> 2048 < int n" "MAX_PCAP_BYTES < n \<longleftrightarrow> 4194304 < int n"
  "MAX_PCAP_RECORDS < n \<longleftrightarrow> 4096 < int n" "MAX_OBSERVATIONS < n \<longleftrightarrow> 4096 < int n" "MAX_VALUE_BYTES < n \<longleftrightarrow> 1024 < int n"
  "MAX_NORMALIZED_VALUE_BYTES < n \<longleftrightarrow> 1048576 < int n" "MAX_RELAY_MESSAGE_BYTES < n \<longleftrightarrow> 16384 < int n"
  by (simp_all add: MAX_FRAME_BYTES_def MAX_METADATA_BYTES_def MAX_PCAP_BYTES_def MAX_PCAP_RECORDS_def MAX_OBSERVATIONS_def
      MAX_VALUE_BYTES_def MAX_NORMALIZED_VALUE_BYTES_def MAX_RELAY_MESSAGE_BYTES_def)

record passive_options =
  po_metadata_enabled :: bool

definition default_passive_options :: passive_options where
  "default_passive_options = \<lparr> po_metadata_enabled = True \<rparr>"

record passive_observation =
  pv_interface :: string
  pv_observed_at :: instant
  pv_subject_mac :: "string option"
  pv_subject_ip :: "ip_addr option"
  pv_protocol :: string
  pv_facts :: "evidence_fact list"

record pcap_ingest =
  pi_observations :: "passive_observation list"
  pi_skipped_frames :: nat

datatype passive_parse_error = PcapHeader | Truncated | InvalidLength | OversizedFrame | Metadata

datatype passive_stop = Refused passive_parse_error | Panicked

type_synonym 'a parsed = "passive_stop + 'a"

type_synonym val = "string \<times> string \<times> evidence_family \<times> int"

abbreviation refused :: "passive_parse_error \<Rightarrow> 'a parsed" where
  "refused err \<equiv> Inl (Refused err)"

section \<open>Codecs\<close>

text \<open>What \<open>hickory_proto::op::Message\<close> offers: names in presentation form and the records' data.\<close>

datatype rdata =
    PtrData string
  | SrvData string u16
  | TxtData "u8 list list"
  | AData u32
  | AaaaData "128 word"
  | OtherData

record dns_record =
  dr_name :: string
  dr_ttl :: u32
  dr_data :: rdata

record dns_message =
  dq_queries :: "string list"
  dq_answers :: "dns_record list"
  dq_authorities :: "dns_record list"
  dq_additionals :: "dns_record list"

text \<open>
  The events of \<open>quick_xml::NsReader\<close>, each with the namespace it resolves to; \<open>DecodedText None\<close>
  is text that does not decode.
\<close>

datatype xml_event =
    StartTag string string
  | DecodedText "string option"
  | EndTag string
  | EmptyTag
  | CData
  | Forbidden
  | Eof
  | OtherEvent

record xml_reader =
  xr_event :: "nat \<Rightarrow> (string option \<times> xml_event) option"
  xr_resolve :: "nat \<Rightarrow> string \<Rightarrow> string option"

record pcap_packet =
  pk_secs :: u64
  pk_nanos :: u32
  pk_data :: "u8 list"
  pk_orig_len :: u32

record pcap_file =
  pc_ethernet :: bool
  pc_snaplen :: u32
  pc_packets :: "pcap_packet option list"

record codecs =
  cd_add :: calendar
  cd_timestamp :: "int \<Rightarrow> u32 \<Rightarrow> instant option"
  cd_ethernet_ok :: "u8 list \<Rightarrow> bool"
  cd_dns :: "u8 list \<Rightarrow> dns_message option"
  cd_xml :: "u8 list \<Rightarrow> xml_reader"
  cd_pcap :: "u8 list \<Rightarrow> pcap_file option"

section \<open>Buffers\<close>

definition at_index :: "u8 list \<Rightarrow> nat \<Rightarrow> u8 parsed" where
  "at_index p i = (if i < length p then Inr (p ! i) else Inl Panicked)"

definition slice :: "u8 list \<Rightarrow> nat \<Rightarrow> nat \<Rightarrow> u8 list parsed" where
  "slice p a b = (if a \<le> b \<and> b \<le> length p then Inr (take (b - a) (drop a p)) else Inl Panicked)"

definition get_slice :: "u8 list \<Rightarrow> nat \<Rightarrow> nat \<Rightarrow> u8 list option" where
  "get_slice p a b = (if a \<le> b \<and> b \<le> length p then Some (take (b - a) (drop a p)) else None)"

definition be16_at :: "u8 list \<Rightarrow> nat \<Rightarrow> u16 parsed" where
  "be16_at p i = and_then (at_index p i) (\<lambda>a. and_then (at_index p (i + 1)) (\<lambda>b. Inr (be16 a b)))"

definition be32_at :: "u8 list \<Rightarrow> nat \<Rightarrow> u32 parsed" where
  "be32_at p i =
     and_then (at_index p i) (\<lambda>a. and_then (at_index p (i + 1)) (\<lambda>b.
     and_then (at_index p (i + 2)) (\<lambda>c. and_then (at_index p (i + 3)) (\<lambda>d. Inr (be32 a b c d)))))"

definition or_refuse :: "'a option \<Rightarrow> passive_parse_error \<Rightarrow> 'a parsed" where
  "or_refuse x err = (case x of None \<Rightarrow> refused err | Some v \<Rightarrow> Inr v)"

section \<open>Facts and observations\<close>

definition F32_0_8 :: f32 where "F32_0_8 = 0x3F4CCCCD"

definition clamp :: "int \<Rightarrow> int \<Rightarrow> int \<Rightarrow> int" where
  "clamp lo hi n = (if n < lo then lo else if hi < n then hi else n)"

definition passive_fact ::
  "codecs \<Rightarrow> string \<Rightarrow> string \<Rightarrow> string \<Rightarrow> evidence_family \<Rightarrow> instant \<Rightarrow> int \<Rightarrow> evidence_fact parsed" where
  "passive_fact cd src k v family t ttl =
     (if 64 < length k \<or> MAX_VALUE_BYTES < length v then refused Metadata
      else and_then (or_refuse (cd_add cd t (seconds (clamp 1 86400 ttl))) Metadata) (\<lambda>expires_at.
        Inr \<lparr> ef_family = family, ef_source = src, ef_key = k, ef_value = v, ef_confidence = F32_0_8,
              ef_observed_at = t, ef_expires_at = Some expires_at, ef_owner_confirmed = False \<rparr>))"

fun passive_facts :: "codecs \<Rightarrow> string \<Rightarrow> instant \<Rightarrow> val list \<Rightarrow> evidence_fact list parsed" where
  "passive_facts cd src t [] = Inr []"
| "passive_facts cd src t ((k, v, f, ttl) # vals) =
     and_then (passive_fact cd src k v f t ttl) (\<lambda>x.
       and_then (passive_facts cd src t vals) (\<lambda>xs. Inr (x # xs)))"

definition passive_source :: "string \<Rightarrow> string" where
  "passive_source p = ''passive.'' @ p"

definition observation ::
  "codecs \<Rightarrow> string \<Rightarrow> instant \<Rightarrow> string option \<Rightarrow> ip_addr option \<Rightarrow> string \<Rightarrow> val list
     \<Rightarrow> passive_observation list parsed" where
  "observation cd i t m ip p vals =
     (if MAX_FACTS_PER_OBSERVATION < length vals + (if m \<noteq> None then 1 else 0)
         \<or> MAX_NORMALIZED_VALUE_BYTES < sum_list (map (\<lambda>(_, v, _, _). length v) vals)
      then refused Metadata
      else let src = passive_source p;
               head = (case m of None \<Rightarrow> [] | Some x \<Rightarrow> [(''mac'', x, LinkLayer, DEFAULT_TTL)])
           in and_then (passive_facts cd src t (head @ vals)) (\<lambda>facts.
             Inr [\<lparr> pv_interface = i, pv_observed_at = t, pv_subject_mac = m, pv_subject_ip = ip,
                    pv_protocol = p, pv_facts = facts \<rparr>]))"

fun validate_values :: "evidence_fact list \<Rightarrow> nat \<Rightarrow> nat parsed" where
  "validate_values [] acc = Inr acc"
| "validate_values (f # fs) acc =
     (if MAX_VALUE_BYTES < length (ef_value f) \<or> \<not> usize_fits (acc + length (ef_value f)) then refused Metadata
      else validate_values fs (acc + length (ef_value f)))"

fun validate_observations :: "passive_observation list \<Rightarrow> nat \<Rightarrow> nat parsed" where
  "validate_observations [] acc = Inr acc"
| "validate_observations (one # rest) acc =
     (if MAX_FACTS_PER_OBSERVATION < length (pv_facts one) then refused Metadata
      else and_then (validate_values (pv_facts one) acc) (validate_observations rest))"

definition validate_normalized :: "passive_observation list \<Rightarrow> nat \<Rightarrow> unit parsed" where
  "validate_normalized out limit =
     (if limit < length out then refused Metadata
      else and_then (validate_observations out 0) (\<lambda>acc.
        if MAX_NORMALIZED_VALUE_BYTES < acc then refused Metadata else Inr ()))"

definition hex_text :: "u8 list \<Rightarrow> string" where
  "hex_text b = concat (map (\<lambda>x. hex_of_byte (unat x)) b)"

definition passive_mac :: "u8 list \<Rightarrow> string parsed" where
  "passive_mac b = (if length b \<noteq> 6 then refused Truncated else Inr (join '':'' (map (\<lambda>x. hex_of_byte (unat x)) b)))"

definition passive_text :: "u8 list \<Rightarrow> string parsed" where
  "passive_text b =
     (let s = str_of b in
      if MAX_METADATA_BYTES < length b then refused Metadata
      else if \<not> utf8_valid s then refused Metadata
      else if list_ex (\<lambda>c. is_control c \<and> c \<notin> {[CHR 13], [CHR 10], [CHR 9]}) (str_scalars s) then refused Metadata
      else Inr s)"

section \<open>Link and network layer\<close>

definition arp :: "codecs \<Rightarrow> string \<Rightarrow> instant \<Rightarrow> string option \<Rightarrow> u8 list \<Rightarrow> passive_observation list parsed" where
  "arp cd i t m p =
     (if length p < 28 then refused Truncated
      else and_then (slice p 0 6) (\<lambda>kind.
       if kind \<noteq> [0, 1, 8, 0, 6, 4] then Inr []
       else and_then (be32_at p 14) (\<lambda>sip.
       and_then (and_then (slice p 8 14) passive_mac) (\<lambda>sm.
       observation cd i t m (Some (V4 sip)) ''arp''
         [(''sender_ip'', show_ipv4 sip, Addressing, 300), (''sender_mac'', sm, Addressing, 300)]))))"

text \<open>The facts of a flow: source, destination and payload size.\<close>

definition flow_vals :: "ip_addr \<Rightarrow> u16 \<Rightarrow> ip_addr \<Rightarrow> u16 \<Rightarrow> nat \<Rightarrow> val list" where
  "flow_vals src s dst d n =
     [(''src'', show_ip src @ '':'' @ show_nat (unat s), Service, 300),
      (''dst'', show_ip dst @ '':'' @ show_nat (unat d), Service, 300),
      (''bytes'', show_nat n, Service, 300)]"

definition tcp ::
  "codecs \<Rightarrow> string \<Rightarrow> instant \<Rightarrow> string option \<Rightarrow> ip_addr \<Rightarrow> ip_addr \<Rightarrow> u8 list \<Rightarrow> passive_observation list parsed" where
  "tcp cd i t m src dst p =
     (if length p < 20 then refused Truncated
      else and_then (at_index p 12) (\<lambda>b.
       let h = unat (drop_bit 4 b) * 4 in
       if h < 20 \<or> length p < h then refused InvalidLength
       else and_then (be16_at p 0) (\<lambda>s. and_then (be16_at p 2) (\<lambda>d.
       observation cd i t m (Some src) ''tcp-flow'' (flow_vals src s dst d (length p - h))))))"

definition igmp ::
  "codecs \<Rightarrow> string \<Rightarrow> instant \<Rightarrow> string option \<Rightarrow> ip_addr \<Rightarrow> u8 list \<Rightarrow> passive_observation list parsed" where
  "igmp cd i t m src p =
     (if length p < 8 then refused Truncated
      else and_then (be32_at p 4) (\<lambda>group.
       observation cd i t m (Some src) ''igmp'' [(''group'', show_ipv4 group, Service, 300)]))"

text \<open>The loop over neighbour discovery options from offset \<open>k\<close>.\<close>

function ndp_options :: "u8 list \<Rightarrow> nat \<Rightarrow> val list \<Rightarrow> val list parsed" where
  "ndp_options p k v =
     (if k < length p
      then if length p < k + 2 then refused Truncated
      else and_then (at_index p (k + 1)) (\<lambda>u.
       let units = unat u in
       if units = 0 \<or> length p < k + units * 8 then refused InvalidLength
       else and_then (at_index p k) (\<lambda>kind.
       if kind \<in> {1, 2} \<and> 1 \<le> units
       then and_then (and_then (slice p (k + 2) (k + 8)) passive_mac) (\<lambda>lladdr.
         ndp_options p (k + units * 8)
           (v @ [(if kind = 1 then ''source_lladdr'' else ''target_lladdr'', lladdr, Addressing, 300)]))
       else ndp_options p (k + units * 8) v))
      else Inr v)"
  by pat_completeness auto
termination
  by (relation "measure (\<lambda>(p, k, _). length p - k)") auto

declare ndp_options.simps [simp del]

definition icmp6 ::
  "codecs \<Rightarrow> string \<Rightarrow> instant \<Rightarrow> string option \<Rightarrow> ip_addr \<Rightarrow> u8 list \<Rightarrow> passive_observation list parsed" where
  "icmp6 cd i t m src p =
     (if length p < 8 then refused Truncated
      else and_then (at_index p 0) (\<lambda>kind.
       if kind \<in> {135, 136}
       then if length p < 24 then refused Truncated
         else and_then (slice p 8 24) (\<lambda>b.
           and_then (ndp_options p 24 [(''target'', show_ipv6 (ipv6_of b), Addressing, 300)]) (\<lambda>v.
           observation cd i t m (Some src) ''ipv6-ndp'' v))
       else if 130 \<le> kind \<and> kind \<le> 132
       then if length p < 24 then refused Truncated
         else and_then (slice p 8 24) (\<lambda>b.
           observation cd i t m (Some src) ''mld'' [(''group'', show_ipv6 (ipv6_of b), Service, 300)])
       else Inr []))"

section \<open>DHCP version 4\<close>

record dhcp4_state =
  d4_client :: "val list"
  d4_lease :: int
  d4_options :: nat
  d4_hostname :: bool
  d4_client_seen :: bool
  d4_server_seen :: bool
  d4_lease_seen :: bool
  d4_server_id :: "u32 option"

text \<open>One option with its code and its value.\<close>

definition dhcp4_option :: "dhcp4_state \<Rightarrow> u8 \<Rightarrow> u8 list \<Rightarrow> dhcp4_state parsed" where
  "dhcp4_option s code z =
     (if code = 12
      then if d4_hostname s then refused Metadata
        else and_then (passive_text z) (\<lambda>name.
          Inr (s \<lparr> d4_hostname := True, d4_client := d4_client s @ [(''hostname'', name, Naming, d4_lease s)] \<rparr>))
      else if code = 51 \<and> length z = 4
      then if d4_lease_seen s then refused Metadata
        else and_then (be32_at z 0) (\<lambda>n. Inr (s \<lparr> d4_lease_seen := True, d4_lease := clamp 1 86400 (uint n) \<rparr>))
      else if code = 54
      then if length z = 4 \<and> \<not> d4_server_seen s
        then and_then (be32_at z 0) (\<lambda>a. Inr (s \<lparr> d4_server_seen := True, d4_server_id := Some a \<rparr>))
        else refused Metadata
      else if code = 61
      then if \<not> d4_client_seen s \<and> z \<noteq> [] \<and> length z \<le> MAX_DUID_BYTES
        then Inr (s \<lparr> d4_client_seen := True,
                     d4_client := d4_client s @ [(''client_id'', hex_text z, Addressing, d4_lease s)] \<rparr>)
        else refused Metadata
      else Inr s)"

function dhcp4_options :: "u8 list \<Rightarrow> nat \<Rightarrow> dhcp4_state \<Rightarrow> dhcp4_state parsed" where
  "dhcp4_options q k s =
     (if k < length q
      then and_then (at_index q k) (\<lambda>code.
       let s = s \<lparr> d4_options := d4_options s + 1 \<rparr> in
       if MAX_DHCP_OPTIONS < d4_options s then refused Metadata
       else if code = 0 then dhcp4_options q (k + 1) s
       else if code = 255 then Inr s
       else if length q \<le> k + 1 then refused Truncated
       else and_then (at_index q (k + 1)) (\<lambda>len.
       let n = unat len in
       if length q < k + 2 + n then refused Truncated
       else and_then (slice q (k + 2) (k + 2 + n)) (\<lambda>z.
       and_then (dhcp4_option s code z) (dhcp4_options q (k + 2 + n)))))
      else Inr s)"
  by pat_completeness auto
termination
  by (relation "measure (\<lambda>(q, k, _). length q - k)") auto

declare dhcp4_options.simps [simp del]

definition dhcp4 ::
  "codecs \<Rightarrow> string \<Rightarrow> instant \<Rightarrow> string option \<Rightarrow> ip_addr \<Rightarrow> u8 list \<Rightarrow> passive_observation list parsed" where
  "dhcp4 cd i t m src q =
     (if length q < 240 then refused Metadata
      else and_then (slice q 236 240) (\<lambda>magic.
       if magic \<noteq> [99, 130, 83, 99] then refused Metadata
       else and_then (at_index q 1) (\<lambda>htype. and_then (at_index q 2) (\<lambda>hlen.
       if htype \<noteq> 1 \<or> hlen \<noteq> 6 then refused Metadata
       else and_then (be32_at q 12) (\<lambda>ci. and_then (be32_at q 16) (\<lambda>yi.
       and_then (and_then (slice q 28 (28 + unat hlen)) passive_mac) (\<lambda>client_mac.
       let client = [(''chaddr'', client_mac, Addressing, 300)]
             @ (if ci \<noteq> 0 then [(''ciaddr'', show_ipv4 ci, Addressing, 300)] else [])
             @ (if yi \<noteq> 0 then [(''yiaddr'', show_ipv4 yi, Addressing, 300)] else [])
       in and_then (dhcp4_options q 240
            \<lparr> d4_client = client, d4_lease = 300, d4_options = 0, d4_hostname = False, d4_client_seen = False,
              d4_server_seen = False, d4_lease_seen = False, d4_server_id = None \<rparr>) (\<lambda>s.
       and_then (at_index q 0) (\<lambda>op.
       let vals = map (\<lambda>(k, v, f, _). (k, v, f, d4_lease s)) (d4_client s);
           client_ip = (if yi \<noteq> 0 then Some (V4 yi) else if ci \<noteq> 0 then Some (V4 ci)
             else if op = 1 \<and> \<not> is_unspecified src then Some src else None)
       in and_then (observation cd i t (Some client_mac) client_ip ''dhcpv4'' vals) (\<lambda>out.
       case d4_server_id s of
         None \<Rightarrow> Inr out
       | Some a \<Rightarrow>
           and_then (observation cd i t (if src = V4 a then m else None) (Some (V4 a)) ''dhcpv4''
             [(''server_id'', show_ipv4 a, Addressing, d4_lease s),
              (''service'', ''dhcp_server'', Service, d4_lease s)]) (\<lambda>server.
           Inr (out @ server))))))))))))"

section \<open>DHCP version 6\<close>

record dhcp6_fields =
  d6_client :: "val list"
  d6_server :: "val list"
  d6_client_mac :: "string option"
  d6_client_ip :: "ip_addr option"
  d6_seen_client :: bool
  d6_seen_server :: bool
  d6_seen_fqdn :: bool

record dhcp6_budget =
  db_option_count :: nat
  db_iaaddr_count :: nat

definition default_dhcp6_fields :: dhcp6_fields where
  "default_dhcp6_fields = \<lparr> d6_client = [], d6_server = [], d6_client_mac = None, d6_client_ip = None,
     d6_seen_client = False, d6_seen_server = False, d6_seen_fqdn = False \<rparr>"

definition default_dhcp6_budget :: dhcp6_budget where
  "default_dhcp6_budget = \<lparr> db_option_count = 0, db_iaaddr_count = 0 \<rparr>"

definition duid_mac :: "u8 list \<Rightarrow> string option" where
  "duid_mac duid =
     (case duid of
        a # b # _ \<Rightarrow>
          (let ty = be16 a b in
           if ty = 1 \<and> 14 \<le> length duid \<or> ty = 3 \<and> 10 \<le> length duid
           then (case passive_mac (drop (length duid - 6) duid) of Inl _ \<Rightarrow> None | Inr x \<Rightarrow> Some x)
           else None)
      | _ \<Rightarrow> None)"

function decode_plain_name :: "u8 list \<Rightarrow> nat \<Rightarrow> string list \<Rightarrow> string parsed" where
  "decode_plain_name q k parts =
     (if k < length q
      then and_then (at_index q k) (\<lambda>len.
       let n = unat len in
       if n = 0 then Inr (join ''.'' parts)
       else if 63 < n \<or> length q < k + 1 + n then refused Metadata
       else and_then (and_then (slice q (k + 1) (k + 1 + n)) passive_text) (\<lambda>part.
         decode_plain_name q (k + 1 + n) (parts @ [part])))
      else refused Truncated)"
  by pat_completeness auto
termination
  by (relation "measure (\<lambda>(q, k, _). length q - k)") auto

declare decode_plain_name.simps [simp del]

text \<open>The address of an identity association: its lifetimes bound the facts.\<close>

definition dhcp6_iaaddr :: "u8 list \<Rightarrow> dhcp6_fields \<Rightarrow> dhcp6_fields parsed" where
  "dhcp6_iaaddr z v =
     and_then (slice z 0 16) (\<lambda>b. and_then (be32_at z 16) (\<lambda>pref. and_then (be32_at z 20) (\<lambda>valid.
       let a = ipv6_of b; ttl = clamp 1 86400 (uint valid) in
       Inr (v \<lparr> d6_client_ip := (case d6_client_ip v of None \<Rightarrow> Some (V6 a) | Some x \<Rightarrow> Some x),
                d6_client := d6_client v @ [(''iaaddr'', show_ipv6 a, Addressing, ttl),
                  (''preferred_lifetime'', show_int (uint pref), Addressing, ttl),
                  (''valid_lifetime'', show_int (uint valid), Addressing, ttl)] \<rparr>))))"

text \<open>One option other than an identity association.\<close>

definition dhcp6_option ::
  "u16 \<Rightarrow> u8 list \<Rightarrow> dhcp6_fields \<Rightarrow> dhcp6_budget \<Rightarrow> (dhcp6_fields \<times> dhcp6_budget) parsed" where
  "dhcp6_option c z v budget =
     (if c = 1
      then if \<not> d6_seen_client v \<and> z \<noteq> [] \<and> length z \<le> MAX_DUID_BYTES
        then Inr (v \<lparr> d6_seen_client := True, d6_client_mac := duid_mac z,
                    d6_client := d6_client v @ [(''client_duid'', hex_text z, Addressing, 3600)] \<rparr>, budget)
        else refused Metadata
      else if c = 2
      then if \<not> d6_seen_server v \<and> z \<noteq> [] \<and> length z \<le> MAX_DUID_BYTES
        then Inr (v \<lparr> d6_seen_server := True,
                    d6_server := d6_server v @ [(''server_duid'', hex_text z, Addressing, 3600)] \<rparr>, budget)
        else refused Metadata
      else if c = 5 \<and> 24 \<le> length z
      then let budget = budget \<lparr> db_iaaddr_count := db_iaaddr_count budget + 1 \<rparr> in
        if MAX_IAADDRS < db_iaaddr_count budget then refused Metadata
        else and_then (dhcp6_iaaddr z v) (\<lambda>v. Inr (v, budget))
      else if c = 39
      then if \<not> d6_seen_fqdn v \<and> 1 < length z \<and> length z \<le> 256
        then and_then (and_then (slice z 1 (length z)) (\<lambda>name. decode_plain_name name 0 [])) (\<lambda>fqdn.
          Inr (v \<lparr> d6_seen_fqdn := True, d6_client := d6_client v @ [(''fqdn'', fqdn, Naming, 3600)] \<rparr>, budget))
        else refused Metadata
      else Inr (v, budget))"

text \<open>The options of a message; the value of an association without its first twelve bytes, \<open>&z[12..]\<close>, is
  the nested option list.\<close>

function parse_dhcp6_options ::
  "u8 list \<Rightarrow> nat \<Rightarrow> dhcp6_fields \<Rightarrow> nat \<Rightarrow> dhcp6_budget \<Rightarrow> (dhcp6_fields \<times> dhcp6_budget) parsed" where
  "parse_dhcp6_options q k v depth budget =
     (if 3 < depth then refused Metadata
      else if k < length q
      then let budget = budget \<lparr> db_option_count := db_option_count budget + 1 \<rparr> in
       if MAX_DHCP_OPTIONS < db_option_count budget then refused Metadata
       else if length q < k + 4 then refused Truncated
       else and_then (be16_at q k) (\<lambda>c. and_then (be16_at q (k + 2)) (\<lambda>len.
       let n = unat len in
       if length q < k + 4 + n then refused Truncated
       else and_then (slice q (k + 4) (k + 4 + n)) (\<lambda>z.
       if c = 3 \<and> 12 \<le> n
       then and_then (parse_dhcp6_options (take (n - 12) (drop (k + 16) q)) 0 v (depth + 1) budget)
         (\<lambda>(v, budget). parse_dhcp6_options q (k + 4 + n) v depth budget)
       else and_then (dhcp6_option c z v budget)
         (\<lambda>(v, budget). parse_dhcp6_options q (k + 4 + n) v depth budget))))
      else Inr (v, budget))"
  by pat_completeness auto
termination
  by (relation "measure (\<lambda>(q, k, _). length q - k)") auto

declare parse_dhcp6_options.simps [simp del]

text \<open>The options of a relayed message: the embedded message is option 9.\<close>

function relay_options :: "u8 list \<Rightarrow> nat \<Rightarrow> u8 list option \<Rightarrow> dhcp6_budget \<Rightarrow> (u8 list option \<times> dhcp6_budget) parsed" where
  "relay_options q k message budget =
     (if k < length q
      then let budget = budget \<lparr> db_option_count := db_option_count budget + 1 \<rparr> in
       if MAX_DHCP_OPTIONS < db_option_count budget \<or> length q < k + 4 then refused Metadata
       else and_then (be16_at q k) (\<lambda>code. and_then (be16_at q (k + 2)) (\<lambda>l.
       let len = unat l in
       if length q < k + 4 + len then refused Truncated
       else if code = 9
       then if message \<noteq> None \<or> len = 0 \<or> MAX_RELAY_MESSAGE_BYTES < len then refused Metadata
         else and_then (slice q (k + 4) (k + 4 + len)) (\<lambda>z. relay_options q (k + 4 + len) (Some z) budget)
       else relay_options q (k + 4 + len) message budget))
      else Inr (message, budget))"
  by pat_completeness auto
termination
  by (relation "measure (\<lambda>(q, k, _). length q - k)") auto

declare relay_options.simps [simp del]

text \<open>The message of a client or a server itself.\<close>

definition dhcp6_message ::
  "codecs \<Rightarrow> string \<Rightarrow> instant \<Rightarrow> string option \<Rightarrow> ip_addr option \<Rightarrow> u8 list \<Rightarrow> dhcp6_budget
     \<Rightarrow> passive_observation list parsed" where
  "dhcp6_message cd i t link_mac source_ip q budget =
     and_then (at_index q 0) (\<lambda>message_type.
       let client_origin = message_type \<in> {1, 3, 4, 5, 6, 8, 9, 11};
           server_origin = message_type \<in> {2, 7, 10}
       in if \<not> client_origin \<and> \<not> server_origin then refused Metadata
       else and_then (slice q 4 (length q)) (\<lambda>body.
       and_then (parse_dhcp6_options body 0 default_dhcp6_fields 0 budget) (\<lambda>(fields, _).
       let client_mac = (case d6_client_mac fields of Some x \<Rightarrow> Some x
             | None \<Rightarrow> if client_origin then link_mac else None);
           client_ip = (case d6_client_ip fields of Some x \<Rightarrow> Some x
             | None \<Rightarrow> if client_origin then source_ip else None)
       in and_then (if d6_client fields = [] then Inr []
            else observation cd i t client_mac client_ip ''dhcpv6'' (d6_client fields)) (\<lambda>out.
       if d6_server fields = [] then Inr out
       else and_then (observation cd i t (if server_origin then link_mac else None)
             (if server_origin then source_ip else None) ''dhcpv6''
             (d6_server fields @ [(''service'', ''dhcpv6_server'', Service, 3600)])) (\<lambda>server.
       Inr (out @ server))))))"

function decode_dhcp6 ::
  "codecs \<Rightarrow> string \<Rightarrow> instant \<Rightarrow> string option \<Rightarrow> ip_addr option \<Rightarrow> u8 list \<Rightarrow> nat \<Rightarrow> dhcp6_budget
     \<Rightarrow> passive_observation list parsed" where
  "decode_dhcp6 cd i t link_mac source_ip q relay_depth budget =
     (if length q < 4 then refused Truncated
      else and_then (at_index q 0) (\<lambda>message_type.
       if message_type \<in> {12, 13}
       then if 2 \<le> relay_depth \<or> length q < 34 then refused Metadata
         else and_then (at_index q 1) (\<lambda>hops.
           if 32 < hops then refused Metadata
           else and_then (relay_options q 34 None budget) (\<lambda>(message, budget).
           and_then (or_refuse message Metadata) (\<lambda>relayed.
           decode_dhcp6 cd i t None None relayed (relay_depth + 1) budget)))
       else dhcp6_message cd i t link_mac source_ip q budget))"
  by pat_completeness auto
termination
  by (relation "measure (\<lambda>(_, _, _, _, _, _, relay_depth, _). 2 - relay_depth)") auto

declare decode_dhcp6.simps [simp del]

definition dhcp6 ::
  "codecs \<Rightarrow> string \<Rightarrow> instant \<Rightarrow> string option \<Rightarrow> ip_addr \<Rightarrow> u8 list \<Rightarrow> passive_observation list parsed" where
  "dhcp6 cd i t m src q = decode_dhcp6 cd i t m (Some src) q 0 default_dhcp6_budget"

section \<open>Names\<close>

text \<open>Three octal digits that fit into a byte.\<close>

definition octal_escape :: "string option \<Rightarrow> char option" where
  "octal_escape digits =
     (case digits of
        None \<Rightarrow> None
      | Some ds \<Rightarrow>
          if length ds \<noteq> 3 \<or> \<not> list_all (\<lambda>d. 48 \<le> byte_of d \<and> byte_of d \<le> 55) ds then None
          else let n = foldl (\<lambda>acc d. acc * 8 + (byte_of d - 48)) 0 ds
               in if n < 256 then Some (char_of n) else None)"

definition BACKSLASH :: char where "BACKSLASH = CHR 92"

function unescape_name :: "string \<Rightarrow> string" where
  "unescape_name s =
     (case s of
        [] \<Rightarrow> []
      | c # rest \<Rightarrow>
          if c = BACKSLASH \<and> rest \<noteq> [] \<and> hd rest = BACKSLASH then BACKSLASH # unescape_name (tl rest)
          else case (if c = BACKSLASH \<and> 3 \<le> length rest then octal_escape (Some (take 3 rest)) else None) of
              Some x \<Rightarrow> x # unescape_name (drop 3 rest)
            | None \<Rightarrow> c # unescape_name rest)"
  by pat_completeness auto
termination
  by (relation "measure length") auto

declare unescape_name.simps [simp del]

definition trim_name :: "string \<Rightarrow> string" where
  "trim_name s = from_utf8_lossy (unescape_name (rev (dropWhile (\<lambda>c. c = CHR ''.'') (rev s))))"

section \<open>DNS, multicast DNS and LLMNR\<close>

fun txt_vals :: "u8 list list \<Rightarrow> int \<Rightarrow> val list parsed" where
  "txt_vals [] ttl = Inr []"
| "txt_vals (z # zs) ttl =
     and_then (passive_text z) (\<lambda>v. and_then (txt_vals zs ttl) (\<lambda>vs. Inr ((''txt'', v, Service, ttl) # vs)))"

definition record_vals :: "dns_record \<Rightarrow> val list parsed" where
  "record_vals r =
     (let ttl = clamp 1 86400 (uint (dr_ttl r)); owner = trim_name (dr_name r) in
      case dr_data r of
        PtrData x \<Rightarrow> Inr [(''service_instance'', owner @ '' -> '' @ trim_name x, Service, ttl)]
      | SrvData target port \<Rightarrow> Inr [(''service_target'', trim_name target @ '':'' @ show_nat (unat port), Service, ttl)]
      | TxtData zs \<Rightarrow> txt_vals zs ttl
      | AData x \<Rightarrow> Inr [(''host_address'', show_ipv4 x, Addressing, ttl)]
      | AaaaData x \<Rightarrow> Inr [(''host_address'', show_ipv6 x, Addressing, ttl)]
      | OtherData \<Rightarrow> Inr [])"

fun records_vals :: "dns_record list \<Rightarrow> val list parsed" where
  "records_vals [] = Inr []"
| "records_vals (r # rs) =
     and_then (record_vals r) (\<lambda>v. and_then (records_vals rs) (\<lambda>vs. Inr (v @ vs)))"

definition dns ::
  "codecs \<Rightarrow> string \<Rightarrow> instant \<Rightarrow> string option \<Rightarrow> ip_addr \<Rightarrow> u8 list \<Rightarrow> passive_options \<Rightarrow> string
     \<Rightarrow> passive_observation list parsed" where
  "dns cd i t m src q opts p =
     (if MAX_METADATA_BYTES < length q then refused Metadata
      else and_then (or_refuse (cd_dns cd q) Metadata) (\<lambda>msg.
       let queries = (if po_metadata_enabled opts
             then map (\<lambda>x. (''query'', trim_name x, Naming, 300)) (dq_queries msg) else [])
       in and_then (if p = ''mdns-dns-sd''
            then records_vals (dq_answers msg @ dq_authorities msg @ dq_additionals msg) else Inr []) (\<lambda>records.
       observation cd i t m (Some src) p
         (take (MAX_FACTS_PER_OBSERVATION - (if m \<noteq> None then 1 else 0)) (queries @ records)))))"

section \<open>NetBIOS names\<close>

text \<open>Each byte of the name is two letters from A to P.\<close>

fun nbns_bytes :: "u8 list \<Rightarrow> nat list \<Rightarrow> u8 list parsed" where
  "nbns_bytes e [] = Inr []"
| "nbns_bytes e (n # ns) =
     and_then (at_index e (n * 2)) (\<lambda>a. and_then (at_index e (n * 2 + 1)) (\<lambda>b.
       if \<not> (65 \<le> a \<and> a \<le> 80) \<or> \<not> (65 \<le> b \<and> b \<le> 80) then refused Metadata
       else and_then (nbns_bytes e ns) (\<lambda>raw. Inr (or (push_bit 4 (a - 65)) (b - 65) # raw))))"

definition nbns ::
  "codecs \<Rightarrow> string \<Rightarrow> instant \<Rightarrow> string option \<Rightarrow> ip_addr \<Rightarrow> u8 list \<Rightarrow> passive_observation list parsed" where
  "nbns cd i t m src q =
     (if length q < 46 then refused Truncated
      else and_then (at_index q 12) (\<lambda>len.
       if len \<noteq> 32 then refused Truncated
       else and_then (slice q 13 45) (\<lambda>e. and_then (nbns_bytes e [0..<16]) (\<lambda>raw.
       and_then (and_then (slice raw 0 15) passive_text) (\<lambda>name. and_then (at_index raw 15) (\<lambda>suffix.
       observation cd i t m (Some src) ''nbns''
         [(''name'', trim_end name, Naming, 300), (''suffix'', ''0x'' @ hex_of_byte (unat suffix), Naming, 300)]))))))"

section \<open>SSDP\<close>

text \<open>The first \<open>max-age\<close> directive of a cache control header.\<close>

definition max_age :: "string \<Rightarrow> int option" where
  "max_age z =
     (case List.map_filter (\<lambda>x. Option.bind (strip_prefix ''max-age='' (trim x)) parse_i64)
         (split_on CHR '','' (map ascii_lowercase z)) of
        [] \<Rightarrow> None
      | n # _ \<Rightarrow> Some n)"

fun ssdp_lines :: "string list \<Rightarrow> val list \<Rightarrow> int \<Rightarrow> (val list \<times> int) parsed" where
  "ssdp_lines [] v ttl = Inr (v, ttl)"
| "ssdp_lines (line # rest) v ttl =
     (if line = [] then Inr (v, ttl)
      else and_then (or_refuse (split_once CHR '':'' line) Metadata) (\<lambda>(k, z).
       if 64 < length k \<or> 1024 < length z then refused Metadata
       else let name = map ascii_lowercase (trim k) in
         if name \<in> {''st'', ''nt''} then ssdp_lines rest (v @ [(''service_type'', trim z, Service, ttl)]) ttl
         else if name = ''usn'' then ssdp_lines rest (v @ [(''usn'', trim z, Service, ttl)]) ttl
         else if name = ''location'' then ssdp_lines rest (v @ [(''location'', trim z, Service, ttl)]) ttl
         else if name = ''cache-control''
         then ssdp_lines rest v (case max_age z of None \<Rightarrow> ttl | Some n \<Rightarrow> clamp 1 86400 n)
         else ssdp_lines rest v ttl))"

definition ssdp ::
  "codecs \<Rightarrow> string \<Rightarrow> instant \<Rightarrow> string option \<Rightarrow> ip_addr \<Rightarrow> u8 list \<Rightarrow> passive_observation list parsed" where
  "ssdp cd i t m src q =
     and_then (passive_text q) (\<lambda>x.
       case split_crlf x of
         [] \<Rightarrow> refused Metadata
       | start # lines \<Rightarrow>
           if start \<notin> {''M-SEARCH * HTTP/1.1'', ''NOTIFY * HTTP/1.1'', ''HTTP/1.1 200 OK''} then refused Metadata
           else and_then (ssdp_lines (take 64 lines) [] 300) (\<lambda>(v, ttl).
             observation cd i t m (Some src) ''ssdp-upnp'' (map (\<lambda>(k, z, f, _). (k, z, f, ttl)) v)))"

section \<open>WS-Discovery\<close>

definition SOAP12 :: string where "SOAP12 = ''http://www.w3.org/2003/05/soap-envelope''"
definition WSA :: string where "WSA = ''http://www.w3.org/2005/08/addressing''"
definition WSD09 :: string where "WSD09 = ''http://docs.oasis-open.org/ws-dd/ns/discovery/2009/01''"
definition WSD05 :: string where "WSD05 = ''http://schemas.xmlsoap.org/ws/2005/04/discovery''"
definition ONVIF :: string where "ONVIF = ''http://www.onvif.org/ver10/network/wsdl''"

record active_xml_field =
  ax_key :: string
  ax_depth :: nat
  ax_consumed :: bool

record soap_state =
  so_depth :: nat
  so_current :: "active_xml_field option"
  so_vals :: "val list"
  so_stack :: "(string \<times> string option) list"
  so_envelope :: "nat option"
  so_body :: "nat option"
  so_matches :: "nat option"
  so_probe :: "nat option"
  so_endpoint :: "nat option"
  so_onvif :: bool

definition soap_field :: "soap_state \<Rightarrow> string \<Rightarrow> soap_state" where
  "soap_field s k = s \<lparr> so_current := Some \<lparr> ax_key = k, ax_depth = so_depth s, ax_consumed = False \<rparr> \<rparr>"

text \<open>A start tag with its local name in its namespace; the depth already counts it.\<close>

definition soap_element :: "soap_state \<Rightarrow> string \<Rightarrow> string option \<Rightarrow> soap_state" where
  "soap_element s local ns =
     (let depth = so_depth s; up = Some (depth - 1); is_wsd = (ns = Some WSD09 \<or> ns = Some WSD05) in
      if local = ''Envelope'' \<and> depth = 1 \<and> ns = Some SOAP12 then s \<lparr> so_envelope := Some depth \<rparr>
      else if local = ''Body'' \<and> so_envelope s = up \<and> ns = Some SOAP12 then s \<lparr> so_body := Some depth \<rparr>
      else if local = ''ProbeMatches'' \<and> so_body s = up \<and> is_wsd then s \<lparr> so_matches := Some depth \<rparr>
      else if local = ''ProbeMatch'' \<and> is_wsd \<and> (so_body s = up \<or> so_matches s = up) then s \<lparr> so_probe := Some depth \<rparr>
      else if local = ''EndpointReference'' \<and> so_probe s = up \<and> ns = Some WSA then s \<lparr> so_endpoint := Some depth \<rparr>
      else if local = ''Address'' \<and> so_endpoint s = up \<and> ns = Some WSA then soap_field s ''endpoint''
      else if local = ''Types'' \<and> so_probe s = up \<and> is_wsd then soap_field s ''types''
      else if local = ''Scopes'' \<and> so_probe s = up \<and> is_wsd then soap_field s ''scopes''
      else if local = ''XAddrs'' \<and> so_probe s = up \<and> is_wsd then soap_field s ''xaddrs''
      else s)"

definition soap_start :: "soap_state \<Rightarrow> string \<Rightarrow> string \<Rightarrow> string option \<Rightarrow> soap_state parsed" where
  "soap_start s name local ns =
     (if so_current s \<noteq> None then refused Metadata
      else let s = s \<lparr> so_depth := so_depth s + 1 \<rparr> in
       if 32 < so_depth s then refused Metadata
       else Inr (soap_element (s \<lparr> so_stack := (name, ns) # so_stack s \<rparr>) local ns))"

definition soap_text :: "soap_state \<Rightarrow> string option \<Rightarrow> (string \<Rightarrow> string option) \<Rightarrow> soap_state parsed" where
  "soap_text s content ns_of =
     (case so_current s of
        None \<Rightarrow> Inr s
      | Some active \<Rightarrow>
          if ax_depth active \<noteq> so_depth s then refused Metadata
          else if ax_consumed active then refused Metadata
          else let k = ax_key active in
           and_then (or_refuse content Metadata) (\<lambda>z.
           if 1024 < length z then refused Metadata
           else let found = (if k = ''types''
                  then list_ex (\<lambda>q. ns_of q = Some ONVIF) (split_ascii_whitespace z)
                  else if k = ''scopes''
                  then list_ex (\<lambda>scope. strip_prefix ''onvif://www.onvif.org/'' scope \<noteq> None) (split_ascii_whitespace z)
                  else False)
            in Inr (s \<lparr> so_current := Some (active \<lparr> ax_consumed := True \<rparr>), so_onvif := (so_onvif s \<or> found),
                        so_vals := so_vals s @ [(k, z, Service, 300)] \<rparr>)))"

definition left_at :: "nat \<Rightarrow> nat option \<Rightarrow> nat option" where
  "left_at depth x = (if x = Some depth then None else x)"

definition soap_end :: "soap_state \<Rightarrow> string \<Rightarrow> string option \<Rightarrow> soap_state parsed" where
  "soap_end s name ns =
     (case so_stack s of
        [] \<Rightarrow> refused Metadata
      | (start, start_ns) # stack \<Rightarrow>
          if start \<noteq> name \<or> start_ns \<noteq> ns then refused Metadata
          else let depth = so_depth s;
                   s = s \<lparr> so_stack := stack,
                     so_current := (if is_some_and (so_current s) (\<lambda>active. ax_depth active = depth) then None
                                    else so_current s),
                     so_endpoint := left_at depth (so_endpoint s), so_probe := left_at depth (so_probe s),
                     so_matches := left_at depth (so_matches s), so_body := left_at depth (so_body s) \<rparr>
               in if depth = 0 then refused Metadata else Inr (s \<lparr> so_depth := depth - 1 \<rparr>))"

text \<open>
  The loop from event \<open>n\<close> with \<open>left\<close> more events allowed; the final state when the document ends.
\<close>

fun soap_loop :: "xml_reader \<Rightarrow> nat \<Rightarrow> nat \<Rightarrow> soap_state \<Rightarrow> soap_state parsed" where
  "soap_loop r 0 n s = refused Metadata"
| "soap_loop r (Suc left) n s =
     (case xr_event r n of
        None \<Rightarrow> refused Metadata
      | Some (ns, event) \<Rightarrow>
          (case event of
             StartTag name local \<Rightarrow> and_then (soap_start s name local ns) (soap_loop r left (n + 1))
           | DecodedText content \<Rightarrow> and_then (soap_text s content (xr_resolve r n)) (soap_loop r left (n + 1))
           | EndTag name \<Rightarrow> and_then (soap_end s name ns) (soap_loop r left (n + 1))
           | EmptyTag \<Rightarrow> if so_current s \<noteq> None then refused Metadata else soap_loop r left (n + 1) s
           | CData \<Rightarrow> if so_current s \<noteq> None then refused Metadata else soap_loop r left (n + 1) s
           | Forbidden \<Rightarrow> refused Metadata
           | Eof \<Rightarrow> Inr s
           | OtherEvent \<Rightarrow> soap_loop r left (n + 1) s))"

definition soap ::
  "codecs \<Rightarrow> string \<Rightarrow> instant \<Rightarrow> string option \<Rightarrow> ip_addr \<Rightarrow> u8 list \<Rightarrow> passive_observation list parsed" where
  "soap cd i t m src q =
     (if MAX_METADATA_BYTES < length q then refused Metadata
      else if \<not> utf8_valid (str_of q) then refused Metadata
      else and_then (soap_loop (cd_xml cd q) 256 0
         \<lparr> so_depth = 0, so_current = None, so_vals = [], so_stack = [], so_envelope = None, so_body = None,
           so_matches = None, so_probe = None, so_endpoint = None, so_onvif = False \<rparr>) (\<lambda>s.
       if so_envelope s = None \<or> so_stack s \<noteq> [] \<or> so_depth s \<noteq> 0 \<or> so_vals s = [] then refused Metadata
       else observation cd i t m (Some src) (if so_onvif s then ''onvif-discovery'' else ''ws-discovery'') (so_vals s)))"

section \<open>Transport and network dispatch\<close>

definition udp ::
  "codecs \<Rightarrow> string \<Rightarrow> instant \<Rightarrow> string option \<Rightarrow> ip_addr \<Rightarrow> ip_addr \<Rightarrow> u8 list \<Rightarrow> passive_options
     \<Rightarrow> passive_observation list parsed" where
  "udp cd i t m src dst p opts =
     (if length p < 8 then refused Truncated
      else and_then (be16_at p 0) (\<lambda>s. and_then (be16_at p 2) (\<lambda>d. and_then (be16_at p 4) (\<lambda>len.
       let n = unat len in
       if n < 8 \<or> length p < n then refused InvalidLength
       else and_then (slice p 8 n) (\<lambda>q.
       if s \<in> {67, 68} \<and> d \<in> {67, 68} then dhcp4 cd i t m src q
       else if s \<in> {546, 547} \<and> d \<in> {546, 547} then dhcp6 cd i t m src q
       else if s = 53 \<or> d = 53 then dns cd i t m src q opts ''dns-query''
       else if s = 5353 \<or> d = 5353 then dns cd i t m src q opts ''mdns-dns-sd''
       else if s = 5355 \<or> d = 5355 then dns cd i t m src q opts ''llmnr''
       else if s = 137 \<or> d = 137 then nbns cd i t m src q
       else if s = 1900 \<or> d = 1900 then ssdp cd i t m src q
       else if s = 3702 \<or> d = 3702 then soap cd i t m src q
       else observation cd i t m (Some src) ''udp-flow'' (flow_vals src s dst d (length q)))))))"

definition ipv4 ::
  "codecs \<Rightarrow> string \<Rightarrow> instant \<Rightarrow> string option \<Rightarrow> u8 list \<Rightarrow> passive_options \<Rightarrow> passive_observation list parsed" where
  "ipv4 cd i t m p opts =
     (if length p < 20 then refused Truncated
      else and_then (at_index p 0) (\<lambda>b.
       if drop_bit 4 b \<noteq> 4 then refused Truncated
       else and_then (be16_at p 2) (\<lambda>l.
       let ihl = unat (and b 15) * 4; len = unat l in
       if ihl < 20 \<or> len < ihl \<or> length p < len then refused InvalidLength
       else and_then (be16_at p 6) (\<lambda>fragment.
       if and fragment 0x3fff \<noteq> 0 then Inr []
       else and_then (be32_at p 12) (\<lambda>src. and_then (be32_at p 16) (\<lambda>dst.
       and_then (slice p ihl len) (\<lambda>body. and_then (at_index p 9) (\<lambda>protocol.
       if protocol = 17 then udp cd i t m (V4 src) (V4 dst) body opts
       else if protocol = 6 then tcp cd i t m (V4 src) (V4 dst) body
       else if protocol = 2 then igmp cd i t m (V4 src) body
       else Inr []))))))))"

text \<open>
  At most eight extension headers, from offset \<open>k\<close>: the next protocol and the offset of its
  payload, or nothing for a fragment.
\<close>

fun ipv6_headers :: "u8 list \<Rightarrow> nat \<Rightarrow> nat \<Rightarrow> u8 \<Rightarrow> nat \<Rightarrow> (u8 \<times> nat) option parsed" where
  "ipv6_headers p limit 0 protocol k = Inr (Some (protocol, k))"
| "ipv6_headers p limit (Suc n) protocol k =
     (if protocol \<in> {0, 43, 60}
      then if limit < k + 2 then refused Truncated
        else and_then (at_index p (k + 1)) (\<lambda>units.
          let len = (unat units + 1) * 8 in
          if limit < k + len then refused InvalidLength
          else and_then (at_index p k) (\<lambda>next. ipv6_headers p limit n next (k + len)))
      else if protocol = 44
      then if limit < k + 8 then refused Truncated else Inr None
      else Inr (Some (protocol, k)))"

definition ipv6 ::
  "codecs \<Rightarrow> string \<Rightarrow> instant \<Rightarrow> string option \<Rightarrow> u8 list \<Rightarrow> passive_options \<Rightarrow> passive_observation list parsed" where
  "ipv6 cd i t m p opts =
     (if length p < 40 then refused Truncated
      else and_then (at_index p 0) (\<lambda>b.
       if drop_bit 4 b \<noteq> 6 then refused Truncated
       else and_then (be16_at p 4) (\<lambda>l.
       let plen = unat l; limit = 40 + plen in
       if length p - 40 < plen then refused InvalidLength
       else and_then (slice p 8 24) (\<lambda>s. and_then (slice p 24 40) (\<lambda>d.
       let src = V6 (ipv6_of s); dst = V6 (ipv6_of d) in
       and_then (at_index p 6) (\<lambda>first. and_then (ipv6_headers p limit 8 first 40) (\<lambda>found.
       case found of
         None \<Rightarrow> Inr []
       | Some (protocol, k) \<Rightarrow>
           and_then (slice p k limit) (\<lambda>body.
           if protocol = 17 then udp cd i t m src dst body opts
           else if protocol = 6 then tcp cd i t m src dst body
           else if protocol = 58 then icmp6 cd i t m src body
           else Inr []))))))))"

section \<open>Link discovery\<close>

definition link_text :: "u8 list \<Rightarrow> string parsed" where
  "link_text b =
     (if 512 < length b then refused Metadata
      else Inr (concat (filter (\<lambda>c. \<not> is_control c) (str_scalars (from_utf8_lossy (str_of b))))))"

definition link_identifier :: "u8 list \<Rightarrow> string parsed" where
  "link_identifier b =
     (if length b < 2 \<or> 256 < length b then refused Metadata
      else and_then (at_index b 0) (\<lambda>kind.
       if \<not> (1 \<le> kind \<and> kind \<le> 7) then refused Metadata
       else and_then (slice b 1 (length b)) (\<lambda>rest.
       if list_all (\<lambda>x. is_ascii_graphic (unat x) \<or> x = 32) rest then link_text rest
       else Inr (hex_text rest))))"

text \<open>One LLDP element: the values and the lifetime after it, or the end of the advertisement.\<close>

definition lldp_element ::
  "nat \<Rightarrow> nat \<Rightarrow> u8 list \<Rightarrow> (string \<times> string) list \<Rightarrow> int \<Rightarrow> (bool \<times> (string \<times> string) list \<times> int) parsed" where
  "lldp_element n kind z values ttl =
     (if n < 3 \<and> kind \<noteq> n + 1 then refused Metadata
      else if 3 \<le> n \<and> 1 \<le> kind \<and> kind \<le> 3 then refused Metadata
      else if kind = 0
      then if length z \<noteq> 0 \<or> n < 3 then refused Metadata else Inr (True, values, ttl)
      else if kind = 1 then and_then (link_identifier z) (\<lambda>v. Inr (False, values @ [(''chassis_id'', v)], ttl))
      else if kind = 2 then and_then (link_identifier z) (\<lambda>v. Inr (False, values @ [(''port_id'', v)], ttl))
      else if kind = 3
      then if length z \<noteq> 2 then refused Metadata
        else and_then (be16_at z 0) (\<lambda>x.
          Inr (False, values @ [(''ttl_seconds'', show_int (uint x))], uint x))
      else if kind = 4 then and_then (link_text z) (\<lambda>v. Inr (False, values @ [(''port_description'', v)], ttl))
      else if kind = 5 then and_then (link_text z) (\<lambda>v. Inr (False, values @ [(''system_name'', v)], ttl))
      else if kind = 6 then and_then (link_text z) (\<lambda>v. Inr (False, values @ [(''system_description'', v)], ttl))
      else if kind = 7
      then if length z \<noteq> 4 then refused Metadata
        else and_then (be16_at z 2) (\<lambda>x.
          Inr (False, values @ [(''enabled_capabilities'', ''0x'' @ pad_hex 4 (uint x))], ttl))
      else Inr (False, values, ttl))"

fun lldp_loop ::
  "u8 list \<Rightarrow> nat list \<Rightarrow> nat \<Rightarrow> (string \<times> string) list \<Rightarrow> int \<Rightarrow> ((string \<times> string) list \<times> int) parsed" where
  "lldp_loop b [] k values ttl = refused Metadata"
| "lldp_loop b (n # ns) k values ttl =
     and_then (or_refuse (get_slice b k (k + 2)) Truncated) (\<lambda>h. and_then (be16_at h 0) (\<lambda>header.
       let kind = unat (drop_bit 9 header); len = unat (and header 511) in
       and_then (or_refuse (get_slice b (k + 2) (k + 2 + len)) Truncated) (\<lambda>z.
       and_then (lldp_element n kind z values ttl) (\<lambda>(ended, values, ttl).
       if ended then Inr (values, ttl)
       else if 24 < length values then refused Metadata
       else lldp_loop b ns (k + 2 + len) values ttl))))"

definition lldp :: "u8 list \<Rightarrow> ((string \<times> string) list \<times> int) parsed" where
  "lldp b = (if 9000 < length b then refused Metadata else lldp_loop b [0..<64] 0 [] 0)"

text \<open>The checksum: one's complement sum of the big-endian pairs, a last odd byte sign-extended.\<close>

fun pair_sum :: "u8 list \<Rightarrow> nat" where
  "pair_sum (a # b # rest) = unat (be16 a b) + pair_sum rest"
| "pair_sum _ = 0"

function fold_carry :: "nat \<Rightarrow> nat" where
  "fold_carry n = (if 65535 < n then fold_carry (n mod 65536 + n div 65536) else n)"
  by pat_completeness auto
termination
proof (relation "measure id")
  fix n :: nat
  assume "65535 < n"
  then have "1 \<le> n div 65536" by (simp add: div_greater_zero_iff Suc_leI)
  moreover have "n div 65536 * 65536 + n mod 65536 = n" by (rule div_mult_mod_eq)
  ultimately have "n mod 65536 + n div 65536 < n" by linarith
  then show "(n mod 65536 + n div 65536, n) \<in> measure id" by simp
qed simp

declare fold_carry.simps [simp del]

definition cdp_checksum :: "u8 list \<Rightarrow> u16" where
  "cdp_checksum b =
     (let sum = pair_sum b
            + (if odd (length b) then (let x = unat (last b) in if 128 \<le> x then 65280 + x - 1 else x) else 0)
      in not (of_nat (fold_carry sum)))"

definition cdp_key :: "u16 \<Rightarrow> string option" where
  "cdp_key kind =
     (if kind = 1 then Some ''device_id'' else if kind = 3 then Some ''port_id''
      else if kind = 5 then Some ''software_version'' else if kind = 6 then Some ''platform''
      else if kind = 0x14 then Some ''system_name'' else None)"

definition cdp_element ::
  "u16 \<Rightarrow> u8 list \<Rightarrow> (string \<times> string) list \<Rightarrow> u16 set \<Rightarrow> ((string \<times> string) list \<times> u16 set) parsed" where
  "cdp_element kind z values seen =
     and_then (case cdp_key kind of
         None \<Rightarrow> Inr (values, seen)
       | Some k \<Rightarrow> if kind \<in> seen \<or> z = [] then refused Metadata
           else and_then (link_text z) (\<lambda>v. Inr (values @ [(k, v)], insert kind seen))) (\<lambda>(values, seen).
       if kind = 4
       then if length z \<noteq> 4 then refused Metadata
         else and_then (be32_at z 0) (\<lambda>x. Inr (values @ [(''capabilities'', ''0x'' @ pad_hex 8 (uint x))], seen))
       else Inr (values, seen))"

fun cdp_loop ::
  "u8 list \<Rightarrow> nat \<Rightarrow> nat \<Rightarrow> (string \<times> string) list \<Rightarrow> u16 set \<Rightarrow> (string \<times> string) list parsed" where
  "cdp_loop b 0 k values seen = refused Metadata"
| "cdp_loop b (Suc n) k values seen =
     (if k = length b then (if 1 \<in> seen \<and> 3 \<in> seen then Inr values else refused Metadata)
      else and_then (or_refuse (get_slice b k (k + 4)) Truncated) (\<lambda>h.
       and_then (be16_at h 0) (\<lambda>kind. and_then (be16_at h 2) (\<lambda>l.
       let len = unat l in
       if len < 4 then refused Metadata
       else and_then (or_refuse (get_slice b (k + 4) (k + len)) Truncated) (\<lambda>z.
       and_then (cdp_element kind z values seen) (\<lambda>(values, seen).
       if 24 < length values then refused Metadata
       else cdp_loop b n (k + len) values seen))))))"

definition cdp :: "u8 list \<Rightarrow> ((string \<times> string) list \<times> int) parsed" where
  "cdp b =
     (if length b < 4 \<or> 1500 < length b then refused Metadata
      else and_then (at_index b 0) (\<lambda>version.
       if version \<notin> {1, 2} then refused Metadata
       else if cdp_checksum b \<noteq> 0 then refused Metadata
       else and_then (at_index b 1) (\<lambda>x.
       let ttl = uint x in
       and_then (cdp_loop b 64 4 [(''ttl_seconds'', show_int ttl)] {}) (\<lambda>values. Inr (values, ttl)))))"

text \<open>At most two VLAN tags: the frame's kind and the offset of its payload.\<close>

fun vlan_tags :: "u8 list \<Rightarrow> nat \<Rightarrow> u16 \<Rightarrow> nat \<Rightarrow> (u16 \<times> nat) parsed" where
  "vlan_tags f 0 kind offset = Inr (kind, offset)"
| "vlan_tags f (Suc n) kind offset =
     (if kind \<notin> {0x8100, 0x88a8} then Inr (kind, offset)
      else and_then (or_refuse (get_slice f offset (offset + 4)) Truncated) (\<lambda>tag.
       and_then (be16_at tag 2) (\<lambda>kind. vlan_tags f n kind (offset + 4))))"

text \<open>The advertisement of a frame, if it is one: its protocol, values and lifetime.\<close>

definition link_advertisement ::
  "u8 list \<Rightarrow> u16 \<Rightarrow> nat \<Rightarrow> (string \<times> (string \<times> string) list \<times> int) option parsed" where
  "link_advertisement f kind offset =
     (if kind = 0x88cc
      then and_then (slice f 0 5) (\<lambda>group. and_then (at_index f 5) (\<lambda>x.
        if group \<noteq> [1, 0x80, 0xc2, 0, 0] \<or> x \<notin> {0, 3, 14} then refused Metadata
        else and_then (and_then (slice f offset (length f)) lldp) (\<lambda>(v, ttl). Inr (Some (''lldp'', v, ttl)))))
      else if kind \<le> 1500
      then and_then (slice f 0 6) (\<lambda>group.
        if group \<noteq> [1, 0, 0x0c, 0xcc, 0xcc, 0xcc] then Inr None
        else and_then (or_refuse (get_slice f offset (offset + unat kind)) Truncated) (\<lambda>payload.
        if get_slice payload 0 8 \<noteq> Some [0xaa, 0xaa, 3, 0, 0, 0x0c, 0x20, 0] then Inr None
        else and_then (and_then (slice payload 8 (length payload)) cdp) (\<lambda>(v, ttl). Inr (Some (''cdp'', v, ttl)))))
      else Inr None)"

text \<open>The observation of an advertisement; its facts expire with the advertised lifetime.\<close>

definition link_observed ::
  "codecs \<Rightarrow> string \<Rightarrow> instant \<Rightarrow> u8 list \<Rightarrow> string \<Rightarrow> (string \<times> string) list \<Rightarrow> int \<Rightarrow> passive_observation list option parsed" where
  "link_observed cd i t f protocol values ttl =
     and_then (at_index f 6) (\<lambda>x. and_then (slice f 6 12) (\<lambda>src.
       if odd (unat x) \<or> src = [0, 0, 0, 0, 0, 0] then refused Metadata
       else and_then (passive_mac src) (\<lambda>m.
       and_then (observation cd i t (Some m) None protocol (map (\<lambda>(k, v). (k, v, Service, ttl)) values)) (\<lambda>out.
       Inr (Some (map (\<lambda>one. one \<lparr> pv_facts := map (\<lambda>x. x \<lparr> ef_expires_at := cd_add cd t (seconds ttl) \<rparr>)
         (pv_facts one) \<rparr>) out))))))"

definition link_decode ::
  "codecs \<Rightarrow> string \<Rightarrow> instant \<Rightarrow> u8 list \<Rightarrow> passive_options \<Rightarrow> passive_observation list option parsed" where
  "link_decode cd i t f opts =
     and_then (be16_at f 12) (\<lambda>kind. and_then (vlan_tags f 2 kind 14) (\<lambda>(kind, offset).
     and_then (link_advertisement f kind offset) (\<lambda>found.
     case found of
       None \<Rightarrow> Inr None
     | Some (protocol, values, ttl) \<Rightarrow>
         if \<not> po_metadata_enabled opts then Inr (Some [])
         else link_observed cd i t f protocol values ttl)))"

section \<open>Frames and captures\<close>

definition frame_payload ::
  "codecs \<Rightarrow> string \<Rightarrow> instant \<Rightarrow> string option \<Rightarrow> u16 \<Rightarrow> u8 list \<Rightarrow> passive_options \<Rightarrow> passive_observation list parsed" where
  "frame_payload cd i t m kind p opts =
     (if kind = 0x0806 then arp cd i t m p
      else if kind = 0x0800 then ipv4 cd i t m p opts
      else if kind = 0x86dd then ipv6 cd i t m p opts
      else Inr [])"

definition normalize ::
  "codecs \<Rightarrow> string \<Rightarrow> instant \<Rightarrow> u8 list \<Rightarrow> passive_options \<Rightarrow> passive_observation list parsed" where
  "normalize cd i t f opts =
     (if MAX_FRAME_BYTES < length f then refused OversizedFrame
      else if length f < 14 then refused Truncated
      else and_then (link_decode cd i t f opts) (\<lambda>found.
       case found of
         Some out \<Rightarrow> and_then (validate_normalized out MAX_OBSERVATIONS_PER_FRAME) (\<lambda>_. Inr out)
       | None \<Rightarrow>
           if \<not> cd_ethernet_ok cd f then refused InvalidLength
           else and_then (and_then (slice f 6 12) passive_mac) (\<lambda>m. and_then (be16_at f 12) (\<lambda>kind.
            and_then (slice f 14 (length f)) (\<lambda>p.
            and_then (frame_payload cd i t (Some m) kind p opts) (\<lambda>out.
            and_then (validate_normalized out MAX_OBSERVATIONS_PER_FRAME) (\<lambda>_. Inr out)))))))"

definition value_bytes :: "passive_observation \<Rightarrow> nat" where
  "value_bytes one = sum_list (map (\<lambda>x. length (ef_value x)) (pv_facts one))"

fun charge_values :: "passive_observation list \<Rightarrow> nat \<Rightarrow> nat parsed" where
  "charge_values [] acc = Inr acc"
| "charge_values (one # rest) acc =
     (if \<not> usize_fits (acc + value_bytes one) \<or> MAX_NORMALIZED_VALUE_BYTES < acc + value_bytes one then refused Metadata
      else charge_values rest (acc + value_bytes one))"

text \<open>The loop over the records: observations so far, records, skipped frames and value bytes.\<close>

fun ingest_records ::
  "codecs \<Rightarrow> string \<Rightarrow> passive_options \<Rightarrow> u32 \<Rightarrow> pcap_packet option list \<Rightarrow> passive_observation list \<Rightarrow> nat \<Rightarrow> nat \<Rightarrow> nat
     \<Rightarrow> pcap_ingest parsed" where
  "ingest_records cd i opts snaplen [] out records skipped acc =
     Inr \<lparr> pi_observations = out, pi_skipped_frames = skipped \<rparr>"
| "ingest_records cd i opts snaplen (next # rest) out records skipped acc =
     (if MAX_PCAP_RECORDS < records + 1 then refused Metadata
      else and_then (or_refuse next Truncated) (\<lambda>p.
       let n = length (pk_data p) in
       if MAX_FRAME_BYTES < n \<or> MAX_FRAME_BYTES < unat (pk_orig_len p)
          \<or> pk_orig_len p < of_nat n \<or> snaplen < of_nat n then refused InvalidLength
       else and_then (or_refuse (i64_checked (uint (pk_secs p))) PcapHeader) (\<lambda>secs.
       and_then (or_refuse (cd_timestamp cd secs (pk_nanos p)) PcapHeader) (\<lambda>t.
       case normalize cd i t (pk_data p) opts of
         Inl (Refused err) \<Rightarrow>
           if err \<in> {Metadata, Truncated}
           then if MAX_SKIPPED_FRAMES < skipped + 1 then refused Metadata
             else ingest_records cd i opts snaplen rest out (records + 1) (skipped + 1) acc
           else refused err
       | Inl Panicked \<Rightarrow> Inl Panicked
       | Inr found \<Rightarrow>
           if MAX_OBSERVATIONS < length out + length found then refused Metadata
           else and_then (charge_values found acc) (\<lambda>acc.
             ingest_records cd i opts snaplen rest (out @ found) (records + 1) skipped acc)))))"

definition ingest_pcap_report :: "codecs \<Rightarrow> string \<Rightarrow> u8 list \<Rightarrow> passive_options \<Rightarrow> pcap_ingest parsed" where
  "ingest_pcap_report cd i b opts =
     (if MAX_PCAP_BYTES < length b then refused OversizedFrame
      else and_then (or_refuse (cd_pcap cd b) PcapHeader) (\<lambda>r.
       if \<not> pc_ethernet r \<or> pc_snaplen r = 0 \<or> MAX_FRAME_BYTES < unat (pc_snaplen r) then refused PcapHeader
       else ingest_records cd i opts (pc_snaplen r) (pc_packets r) [] 0 0 0))"

definition ingest_pcap :: "codecs \<Rightarrow> string \<Rightarrow> u8 list \<Rightarrow> passive_options \<Rightarrow> passive_observation list parsed" where
  "ingest_pcap cd i b opts = and_then (ingest_pcap_report cd i b opts) (\<lambda>report. Inr (pi_observations report))"

end
