(* ===== verification/Passive_Safety.thy ===== *)
theory Passive_Safety
  imports Passive
begin

text \<open>
  The decoder on hostile input: a Hoare-style predicate \<open>safely m Q\<close> says that a computation does not
  panic and that its result satisfies \<open>Q\<close>. Its rules compute through \<open>and_then\<close> and the buffer
  operations; one specification per decoder function gives the absence of panics and the bounds.
\<close>

named_theorems safe_simps \<open>how safety computes\<close>

definition safely :: "'a parsed \<Rightarrow> ('a \<Rightarrow> bool) \<Rightarrow> bool" where
  "safely m post \<longleftrightarrow> (case m of Inl (Refused _) \<Rightarrow> True | Inl Panicked \<Rightarrow> False | Inr x \<Rightarrow> post x)"

lemma safely_refused [safe_simps]: "safely (refused err) post"
  by (simp add: safely_def)

lemma safely_panic [safe_simps]: "\<not> safely (Inl Panicked) post"
  by (simp add: safely_def)

lemma safely_Inr [safe_simps]: "safely (Inr x) post \<longleftrightarrow> post x"
  by (simp add: safely_def)

lemma safely_and_then [safe_simps]: "safely (and_then m f) post \<longleftrightarrow> safely m (\<lambda>x. safely (f x) post)"
  by (auto simp: safely_def and_then_def split: sum.splits passive_stop.splits)

lemma safely_at_index [safe_simps]: "safely (at_index p i) post \<longleftrightarrow> i < length p \<and> post (p ! i)"
  by (simp add: at_index_def safely_def)

lemma safely_slice [safe_simps]:
  "safely (slice p a b) post \<longleftrightarrow> a \<le> b \<and> b \<le> length p \<and> post (take (b - a) (drop a p))"
  by (auto simp: slice_def safely_def)

lemma safely_or_refuse [safe_simps]: "safely (or_refuse x err) post \<longleftrightarrow> (\<forall>v. x = Some v \<longrightarrow> post v)"
  by (auto simp: or_refuse_def safely_def split: option.splits)

lemma safely_be16_at [safe_simps]:
  "safely (be16_at p i) post \<longleftrightarrow> i + 1 < length p \<and> post (be16 (p ! i) (p ! (i + 1)))"
  by (auto simp: be16_at_def safe_simps)

lemma safely_be32_at [safe_simps]:
  "safely (be32_at p i) post \<longleftrightarrow> i + 3 < length p \<and> post (be32 (p ! i) (p ! (i + 1)) (p ! (i + 2)) (p ! (i + 3)))"
  by (auto simp: be32_at_def safe_simps)

lemma safely_if [safe_simps]: "safely (if b then m else m') post \<longleftrightarrow> (if b then safely m post else safely m' post)"
  by simp

lemma safely_Let [safe_simps]: "safely (Let x f) post \<longleftrightarrow> (let y = x in safely (f y) post)"
  by (simp add: Let_def)

lemma safely_mono: "safely m post \<Longrightarrow> (\<And>x. post x \<Longrightarrow> post' x) \<Longrightarrow> safely m post'"
  by (auto simp: safely_def split: sum.splits passive_stop.splits)

lemma safely_True_mono: "safely m post \<Longrightarrow> (\<And>x. post' x) \<Longrightarrow> safely m post'"
  by (erule safely_mono)

lemma safely_InrD: "safely m post \<Longrightarrow> m = Inr x \<Longrightarrow> post x"
  by (simp add: safely_def)

lemma safely_no_panic: "safely m post \<Longrightarrow> m \<noteq> Inl Panicked"
  by (auto simp: safely_def)

section \<open>What every observation satisfies\<close>

text \<open>The calendar is an interval that contains the capture time.\<close>

definition clock_ok :: "codecs \<Rightarrow> instant \<Rightarrow> bool" where
  "clock_ok cd t \<longleftrightarrow> (\<exists>lo hi. lo \<le> t \<and> t \<le> hi
     \<and> (\<forall>s d. cd_add cd s d = (if lo \<le> s + d \<and> s + d \<le> hi then Some (s + d) else None)))"

lemma clock_okD: "clock_ok cd t \<Longrightarrow> cd_add cd s d = Some u \<Longrightarrow> u = s + d"
  unfolding clock_ok_def by (metis option.discI option.inject)

lemma clock_ok_sooner:
  assumes "clock_ok cd t" and "cd_add cd t d \<noteq> None" and "0 \<le> d'" and "d' \<le> d"
  shows "cd_add cd t d' = Some (t + d')"
proof -
  obtain lo hi where cal: "lo \<le> t" "\<And>s d. cd_add cd s d = (if lo \<le> s + d \<and> s + d \<le> hi then Some (s + d) else None)"
    using assms(1) unfolding clock_ok_def by blast
  have "t + d \<le> hi" using assms(2) by (simp add: cal(2) split: if_splits)
  with cal assms(3,4) show ?thesis by (simp add: cal(2))
qed

definition fact_ok :: "instant \<Rightarrow> string \<Rightarrow> evidence_fact \<Rightarrow> bool" where
  "fact_ok t p x \<longleftrightarrow> length (ef_value x) \<le> MAX_VALUE_BYTES \<and> length (ef_key x) \<le> 64 \<and> ef_source x = passive_source p
     \<and> \<not> ef_owner_confirmed x \<and> ef_observed_at x = t \<and> ef_confidence x = F32_0_8
     \<and> (\<exists>u. ef_expires_at x = Some u \<and> t \<le> u \<and> u \<le> t + hours 24)"

text \<open>A subject's hardware address is the printed form of six bytes.\<close>

definition mac_ok :: "string option \<Rightarrow> bool" where
  "mac_ok m \<longleftrightarrow> (\<forall>x. m = Some x \<longrightarrow> (\<exists>b :: u8 list. length b = 6 \<and> x = join '':'' (map (\<lambda>y. hex_of_byte (unat y)) b)))"

lemma mac_ok_None [simp]: "mac_ok None"
  by (simp add: mac_ok_def)

lemma mac_ok_Some [intro]: "length b = 6 \<Longrightarrow> mac_ok (Some (join '':'' (map (\<lambda>y. hex_of_byte (unat y)) (b :: u8 list))))"
  by (auto simp: mac_ok_def)

definition observation_ok :: "string \<Rightarrow> instant \<Rightarrow> passive_observation \<Rightarrow> bool" where
  "observation_ok i t one \<longleftrightarrow> pv_interface one = i \<and> pv_observed_at one = t \<and> mac_ok (pv_subject_mac one)
     \<and> length (pv_facts one) \<le> MAX_FACTS_PER_OBSERVATION \<and> (\<forall>x \<in> set (pv_facts one). fact_ok t (pv_protocol one) x)"

definition observations_ok :: "string \<Rightarrow> instant \<Rightarrow> passive_observation list \<Rightarrow> bool" where
  "observations_ok i t out \<longleftrightarrow> (\<forall>one \<in> set out. observation_ok i t one)"

lemma observations_ok_simps [simp]:
  "observations_ok i t []" "observations_ok i t (a @ b) \<longleftrightarrow> observations_ok i t a \<and> observations_ok i t b"
  by (auto simp: observations_ok_def)

lemma clamp_range: "1 \<le> clamp 1 86400 n" "clamp 1 86400 n \<le> 86400"
  by (auto simp: clamp_def)

lemma passive_fact_safe:
  assumes "clock_ok cd t"
  shows "safely (passive_fact cd (passive_source p) k v f t ttl)
    (\<lambda>x. fact_ok t p x \<and> cd_add cd t (seconds (clamp 1 86400 ttl)) \<noteq> None)"
proof -
  have "t \<le> u \<and> u \<le> t + hours 24" if "cd_add cd t (seconds (clamp 1 86400 ttl)) = Some u" for u
    using clock_okD [OF assms that] clamp_range [of ttl] by (simp add: seconds_def hours_def)
  then show ?thesis
    unfolding passive_fact_def by (auto simp: safe_simps fact_ok_def not_less)
qed

lemma passive_facts_safe:
  assumes "clock_ok cd t"
  shows "safely (passive_facts cd (passive_source p) t vals) (\<lambda>xs. length xs = length vals \<and> (\<forall>x \<in> set xs. fact_ok t p x)
    \<and> (\<forall>(_, _, _, ttl) \<in> set vals. cd_add cd t (seconds (clamp 1 86400 ttl)) \<noteq> None))"
proof (induction vals)
  case Nil
  then show ?case by (simp add: safe_simps)
next
  case (Cons x vals)
  obtain k v f ttl where x: "x = (k, v, f, ttl)" by (cases x)
  show ?case unfolding x passive_facts.simps safe_simps
    by (rule safely_mono [OF passive_fact_safe [OF assms]]) (auto intro: safely_mono [OF Cons.IH])
qed

lemma observation_safe:
  assumes "clock_ok cd t" and "mac_ok m"
  shows "safely (observation cd i t m ip p vals) (\<lambda>out. observations_ok i t out
    \<and> (\<forall>(_, _, _, ttl) \<in> set vals. cd_add cd t (seconds (clamp 1 86400 ttl)) \<noteq> None))"
proof -
  let ?head = "case m of None \<Rightarrow> [] | Some x \<Rightarrow> [(''mac'', x, LinkLayer, DEFAULT_TTL)]"
  have "safely (passive_facts cd (passive_source p) t (?head @ vals))
      (\<lambda>facts. observations_ok i t [\<lparr> pv_interface = i, pv_observed_at = t, pv_subject_mac = m, pv_subject_ip = ip,
        pv_protocol = p, pv_facts = facts \<rparr>] \<and> (\<forall>(_, _, _, ttl) \<in> set vals. cd_add cd t (seconds (clamp 1 86400 ttl)) \<noteq> None))"
    if "length vals + (if m \<noteq> None then 1 else 0) \<le> MAX_FACTS_PER_OBSERVATION"
    by (rule safely_mono [OF passive_facts_safe [OF assms(1)]])
       (use that assms(2) in \<open>auto simp: observations_ok_def observation_ok_def split: option.splits\<close>)
  then show ?thesis unfolding observation_def by (simp add: safe_simps Let_def not_less)
qed

text \<open>The form in which the decoder functions use it.\<close>

lemma observed [intro]: "clock_ok cd t \<Longrightarrow> mac_ok m \<Longrightarrow> safely (observation cd i t m ip p vals) (observations_ok i t)"
  by (rule safely_mono [OF observation_safe]) simp_all

section \<open>The decoder functions\<close>

lemma passive_mac_safe [safe_simps]: "safely (passive_mac b) post \<longleftrightarrow> (length b = 6 \<longrightarrow> post (join '':'' (map (\<lambda>x. hex_of_byte (unat x)) b)))"
  by (auto simp: passive_mac_def safe_simps)

lemma passive_text_safe: "safely (passive_text b) (\<lambda>s. s = str_of b)"
  by (auto simp: passive_text_def safe_simps Let_def)

lemma passive_text_any [intro!]: "(\<And>x. post x) \<Longrightarrow> safely (passive_text b) post"
  by (rule safely_mono [OF passive_text_safe]) simp

lemma arp_safe: "clock_ok cd t \<Longrightarrow> mac_ok m \<Longrightarrow> safely (arp cd i t m p) (observations_ok i t)"
  unfolding arp_def by (auto simp: safe_simps)

lemma tcp_safe: "clock_ok cd t \<Longrightarrow> mac_ok m \<Longrightarrow> safely (tcp cd i t m src dst p) (observations_ok i t)"
  unfolding tcp_def by (auto simp: safe_simps Let_def)

lemma igmp_safe: "clock_ok cd t \<Longrightarrow> mac_ok m \<Longrightarrow> safely (igmp cd i t m src p) (observations_ok i t)"
  unfolding igmp_def by (auto simp: safe_simps)

lemma ndp_options_safe: "(\<And>v. post v) \<Longrightarrow> safely (ndp_options p k v) post"
  by (induction p k v rule: ndp_options.induct) (subst ndp_options.simps, auto simp: safe_simps Let_def)

lemma icmp6_safe: "clock_ok cd t \<Longrightarrow> mac_ok m \<Longrightarrow> safely (icmp6 cd i t m src p) (observations_ok i t)"
  unfolding icmp6_def by (auto simp: safe_simps intro!: ndp_options_safe)

lemma dhcp4_option_safe: "(\<And>s. post s) \<Longrightarrow> safely (dhcp4_option s code z) post"
  unfolding dhcp4_option_def by (auto simp: safe_simps)

lemma dhcp4_options_safe:
  assumes "\<And>s. post s"
  shows "safely (dhcp4_options q k s) post"
proof (induction "length q - k" arbitrary: k s rule: less_induct)
  case less
  show ?case
    by (subst dhcp4_options.simps) (auto simp: safe_simps Let_def intro!: dhcp4_option_safe less assms)
qed

lemma dhcp4_safe: "clock_ok cd t \<Longrightarrow> mac_ok m \<Longrightarrow> safely (dhcp4 cd i t m src q) (observations_ok i t)"
  unfolding dhcp4_def
  by (auto simp: safe_simps Let_def intro!: dhcp4_options_safe safely_mono [OF observed] split: option.splits)

lemma decode_plain_name_safe:
  assumes "\<And>s. post s"
  shows "safely (decode_plain_name q k parts) post"
proof (induction "length q - k" arbitrary: k parts rule: less_induct)
  case less
  show ?case
    by (subst decode_plain_name.simps) (auto simp: safe_simps Let_def intro!: less assms)
qed

lemma duid_mac_ok: "mac_ok (duid_mac z)"
  by (auto simp: duid_mac_def passive_mac_def Let_def split: list.splits sum.splits)

lemma dhcp6_option_safe:
  assumes "mac_ok (d6_client_mac v)" and "\<And>v b. mac_ok (d6_client_mac v) \<Longrightarrow> post (v, b)"
  shows "safely (dhcp6_option c z v budget) post"
  unfolding dhcp6_option_def dhcp6_iaaddr_def
  by (auto simp: safe_simps Let_def intro!: decode_plain_name_safe assms duid_mac_ok)

lemma parse_dhcp6_options_safe:
  assumes "mac_ok (d6_client_mac v)" and "\<And>v b. mac_ok (d6_client_mac v) \<Longrightarrow> post (v, b)"
  shows "safely (parse_dhcp6_options q k v depth budget) post"
  using assms
proof (induction "length q - k" arbitrary: q k v depth budget post rule: less_induct)
  case less
  show ?case
    by (subst parse_dhcp6_options.simps)
       (auto simp: safe_simps Let_def split_beta intro!: dhcp6_option_safe less)
qed

lemma relay_options_safe:
  assumes "\<And>x. post x"
  shows "safely (relay_options q k message budget) post"
proof (induction "length q - k" arbitrary: k message budget rule: less_induct)
  case less
  show ?case
    by (subst relay_options.simps) (auto simp: safe_simps Let_def intro!: less assms)
qed

lemma default_fields_mac [simp]: "mac_ok (d6_client_mac default_dhcp6_fields)"
  by (simp add: default_dhcp6_fields_def)

lemma mac_ok_or_else: "mac_ok a \<Longrightarrow> mac_ok b \<Longrightarrow> mac_ok (case a of None \<Rightarrow> b | Some x \<Rightarrow> Some x)"
  by (cases a) simp_all

lemma dhcp6_message_safe:
  "clock_ok cd t \<Longrightarrow> mac_ok m \<Longrightarrow> 4 \<le> length q \<Longrightarrow> safely (dhcp6_message cd i t m ip q budget) (observations_ok i t)"
  unfolding dhcp6_message_def
  by (auto simp: safe_simps Let_def split_beta intro!: parse_dhcp6_options_safe mac_ok_or_else safely_mono [OF observed])

lemma decode_dhcp6_safe:
  assumes "clock_ok cd t" and "mac_ok m"
  shows "safely (decode_dhcp6 cd i t m ip q depth budget) (observations_ok i t)"
  using assms(2)
proof (induction "2 - depth" arbitrary: m ip q depth budget rule: less_induct)
  case less
  show ?case
    by (subst decode_dhcp6.simps)
       (auto simp: safe_simps split_beta intro!: relay_options_safe dhcp6_message_safe less assms(1))
qed

lemma txt_vals_safe: "(\<And>x. post x) \<Longrightarrow> safely (txt_vals zs ttl) post"
  by (induction zs arbitrary: post) (auto simp: safe_simps)

lemma record_vals_safe: "(\<And>x. post x) \<Longrightarrow> safely (record_vals r) post"
  unfolding record_vals_def by (auto simp: safe_simps Let_def txt_vals_safe split: rdata.splits)

lemma records_vals_safe: "(\<And>x. post x) \<Longrightarrow> safely (records_vals rs) post"
  by (induction rs arbitrary: post) (auto simp: safe_simps record_vals_safe)

lemma dns_safe: "clock_ok cd t \<Longrightarrow> mac_ok m \<Longrightarrow> safely (dns cd i t m src q opts p) (observations_ok i t)"
  unfolding dns_def by (auto simp: safe_simps Let_def intro!: records_vals_safe observed)

lemma nbns_bytes_safe:
  assumes "\<forall>n \<in> set ns. n * 2 + 1 < length e" and "\<And>raw. length raw = length ns \<Longrightarrow> post raw"
  shows "safely (nbns_bytes e ns) post"
  using assms
proof (induction ns arbitrary: post)
  case Nil
  then show ?case by (simp add: safe_simps)
next
  case (Cons n ns)
  then have "safely (nbns_bytes e ns) (\<lambda>raw. length raw = length ns)" by simp
  with Cons.prems show ?case by (auto simp: safe_simps elim!: safely_mono)
qed

lemma nbns_safe: "clock_ok cd t \<Longrightarrow> mac_ok m \<Longrightarrow> safely (nbns cd i t m src q) (observations_ok i t)"
  unfolding nbns_def by (auto simp: safe_simps intro!: nbns_bytes_safe)

lemma ssdp_lines_safe: "(\<And>x. post x) \<Longrightarrow> safely (ssdp_lines xs v ttl) post"
  by (induction xs arbitrary: v ttl) (auto simp: safe_simps Let_def simp del: map_eq_Cons_conv)

lemma ssdp_safe: "clock_ok cd t \<Longrightarrow> mac_ok m \<Longrightarrow> safely (ssdp cd i t m src q) (observations_ok i t)"
  unfolding ssdp_def
  by (auto simp: safe_simps split_beta intro!: ssdp_lines_safe split: list.splits)

lemma soap_loop_safe: "(\<And>x. post x) \<Longrightarrow> safely (soap_loop r n k s) post"
proof (induction n arbitrary: k s)
  case 0
  then show ?case by (simp add: safe_simps)
next
  case (Suc n)
  then show ?case
    by (auto simp: safe_simps soap_start_def soap_text_def soap_end_def Let_def split: option.splits xml_event.splits list.splits)
qed

lemma soap_safe: "clock_ok cd t \<Longrightarrow> mac_ok m \<Longrightarrow> safely (soap cd i t m src q) (observations_ok i t)"
  unfolding soap_def by (auto simp: safe_simps intro!: soap_loop_safe)

lemma udp_safe: "clock_ok cd t \<Longrightarrow> mac_ok m \<Longrightarrow> safely (udp cd i t m src dst p opts) (observations_ok i t)"
  unfolding udp_def dhcp6_def
  by (auto simp: safe_simps Let_def dhcp4_safe decode_dhcp6_safe dns_safe nbns_safe ssdp_safe soap_safe)

lemma ipv4_safe: "clock_ok cd t \<Longrightarrow> mac_ok m \<Longrightarrow> safely (ipv4 cd i t m p opts) (observations_ok i t)"
  unfolding ipv4_def by (auto simp: safe_simps Let_def udp_safe tcp_safe igmp_safe)

lemma ipv6_headers_safe:
  assumes "k \<le> limit" and "limit \<le> length p" and "\<And>found. (\<forall>protocol k. found = Some (protocol, k) \<longrightarrow> k \<le> limit) \<Longrightarrow> post found"
  shows "safely (ipv6_headers p limit n protocol k) post"
  using assms(1)
proof (induction n arbitrary: protocol k)
  case 0
  then show ?case by (auto simp: safe_simps intro!: assms(3))
next
  case (Suc n)
  then show ?case using assms(2) by (auto simp: safe_simps Let_def intro!: assms(3))
qed

lemma ipv6_safe: "clock_ok cd t \<Longrightarrow> mac_ok m \<Longrightarrow> safely (ipv6 cd i t m p opts) (observations_ok i t)"
  unfolding ipv6_def
  by (auto simp: safe_simps Let_def udp_safe tcp_safe icmp6_safe intro!: ipv6_headers_safe split: option.splits)

section \<open>Link discovery\<close>

lemma link_text_any [intro!]: "(\<And>x. post x) \<Longrightarrow> safely (link_text b) post"
  by (simp add: link_text_def safe_simps)

lemma link_identifier_any [intro!]: "(\<And>x. post x) \<Longrightarrow> safely (link_identifier b) post"
  unfolding link_identifier_def by (auto simp: safe_simps)

text \<open>Advertisements have values, and their lifetime is a sixteen-bit number.\<close>

definition advertised :: "('k \<times> 'v) list \<times> int \<Rightarrow> bool" where
  "advertised a \<longleftrightarrow> fst a \<noteq> [] \<and> 0 \<le> snd a \<and> snd a \<le> 65535"

lemma u16_range: "0 \<le> uint (x :: u16)" "uint (x :: u16) \<le> 65535"
  using uint_lt2p [of x] by simp_all

lemma lldp_element_safe:
  assumes "0 \<le> ttl" "ttl \<le> 65535"
    and "\<And>ended v u. (vs \<noteq> [] \<or> n = 0 \<longrightarrow> v \<noteq> []) \<Longrightarrow> 0 \<le> u \<Longrightarrow> u \<le> 65535 \<Longrightarrow> post (ended, v, u)"
  shows "safely (lldp_element n kind z vs ttl) post"
  unfolding lldp_element_def using assms(1,2) u16_range by (auto simp: safe_simps intro!: assms(3))

lemma lldp_loop_safe:
  assumes "0 \<le> ttl" "ttl \<le> 65535" "vs \<noteq> [] \<or> (\<exists>ms. ns = 0 # ms)"
  shows "safely (lldp_loop b ns k vs ttl) advertised"
  using assms
proof (induction ns arbitrary: k vs ttl)
  case Nil
  then show ?case by (simp add: safe_simps)
next
  case (Cons n ns)
  then show ?case
    by (auto simp: safe_simps Let_def get_slice_def advertised_def split_beta split: if_splits intro!: lldp_element_safe)
qed

lemma lldp_safe: "safely (lldp b) advertised"
proof -
  have "[0..<64] = 0 # [1..<64]" by (simp add: upt_conv_Cons)
  then have "safely (lldp_loop b [0..<64] 0 [] 0) advertised" by (intro lldp_loop_safe) auto
  then show ?thesis by (simp add: lldp_def safe_simps)
qed

lemma cdp_element_safe:
  assumes "\<And>v s. (vs \<noteq> [] \<longrightarrow> v \<noteq> []) \<Longrightarrow> post (v, s)"
  shows "safely (cdp_element kind z vs seen) post"
  unfolding cdp_element_def
  by (auto simp: safe_simps intro!: assms split: option.splits)

lemma cdp_loop_safe: "vs \<noteq> [] \<Longrightarrow> safely (cdp_loop b n k vs seen) (\<lambda>v. v \<noteq> [])"
proof (induction n arbitrary: k vs seen)
  case 0
  then show ?case by (simp add: safe_simps)
next
  case (Suc n)
  then show ?case
    by (auto simp: safe_simps Let_def get_slice_def split_beta split: if_splits intro!: cdp_element_safe)
qed

lemma cdp_safe: "safely (cdp b) advertised"
proof -
  have "uint (b ! 1) \<le> 65535" using uint_lt2p [of "b ! 1"] by simp
  then show ?thesis unfolding cdp_def
    by (auto simp: safe_simps Let_def advertised_def intro!: safely_mono [OF cdp_loop_safe])
qed

lemma vlan_tags_safe:
  assumes "offset \<le> length f" and "\<And>kind k. k \<le> length f \<Longrightarrow> post (kind, k)"
  shows "safely (vlan_tags f n kind offset) post"
  using assms(1)
proof (induction n arbitrary: kind offset)
  case 0
  with assms(2) show ?case by (simp add: safe_simps)
next
  case (Suc n)
  with assms(2) show ?case by (auto simp: safe_simps get_slice_def split: if_splits)
qed

definition advertisement_ok :: "(string \<times> (string \<times> string) list \<times> int) option \<Rightarrow> bool" where
  "advertisement_ok found \<longleftrightarrow> (\<forall>p v ttl. found = Some (p, v, ttl) \<longrightarrow> advertised (v, ttl))"

lemma link_advertisement_safe:
  assumes "12 \<le> length f" and "offset \<le> length f"
  shows "safely (link_advertisement f kind offset) advertisement_ok"
  using assms unfolding link_advertisement_def
  by (auto simp: safe_simps get_slice_def advertisement_ok_def split: if_splits
      intro!: safely_mono [OF lldp_safe] safely_mono [OF cdp_safe])

text \<open>Replacing the expiry by the advertised lifetime keeps the facts within their bounds.\<close>

lemma readvertised_ok:
  assumes "clock_ok cd t" and "0 \<le> ttl" "ttl \<le> 65535" and "cd_add cd t (seconds (clamp 1 86400 ttl)) \<noteq> None"
    and "observations_ok i t out"
  shows "observations_ok i t (map (\<lambda>one. one \<lparr> pv_facts := map (\<lambda>x. x \<lparr> ef_expires_at := cd_add cd t (seconds ttl) \<rparr>)
    (pv_facts one) \<rparr>) out)"
proof -
  have "seconds ttl \<le> seconds (clamp 1 86400 ttl)" using assms(2,3) by (simp add: clamp_def seconds_def)
  then have "cd_add cd t (seconds ttl) = Some (t + seconds ttl)"
    using clock_ok_sooner [OF assms(1,4)] assms(2) by (simp add: seconds_def)
  moreover have "0 \<le> seconds ttl" "seconds ttl \<le> hours 24" using assms(2,3) by (simp_all add: seconds_def hours_def)
  ultimately show ?thesis using assms(5) by (auto simp: observations_ok_def observation_ok_def fact_ok_def)
qed

definition link_ok :: "string \<Rightarrow> instant \<Rightarrow> passive_observation list option \<Rightarrow> bool" where
  "link_ok i t found \<longleftrightarrow> (\<forall>out. found = Some out \<longrightarrow> observations_ok i t out)"

lemma link_observed_safe:
  assumes clock: "clock_ok cd t" and f: "14 \<le> length f" and ad: "advertised (vs, ttl)"
  shows "safely (link_observed cd i t f p vs ttl) (link_ok i t)"
proof -
  have ttl: "vs \<noteq> []" "0 \<le> ttl" "ttl \<le> 65535" using ad by (simp_all add: advertised_def)
  have "safely (observation cd i t m None p (map (\<lambda>(k, v). (k, v, Service, ttl)) vs)) (\<lambda>out.
      link_ok i t (Some (map (\<lambda>one. one \<lparr> pv_facts := map (\<lambda>x. x \<lparr> ef_expires_at := cd_add cd t (seconds ttl) \<rparr>)
        (pv_facts one) \<rparr>) out)))" if m: "mac_ok m" for m
    by (rule safely_mono [OF observation_safe [OF clock m]])
       (use readvertised_ok [OF clock ttl(2,3)] ttl(1) in \<open>cases vs, auto simp: link_ok_def\<close>)
  moreover have "mac_ok (Some (join '':'' (map (\<lambda>x. hex_of_byte (unat x)) (take 6 (drop 6 f)))))"
    using f by (intro mac_ok_Some) simp
  ultimately show ?thesis unfolding link_observed_def using f by (auto simp: safe_simps)
qed

lemma link_decode_safe:
  assumes clock: "clock_ok cd t" and f: "14 \<le> length f"
  shows "safely (link_decode cd i t f opts) (link_ok i t)"
proof -
  have "safely (case found of
       None \<Rightarrow> Inr None
     | Some (protocol, vs, ttl) \<Rightarrow>
         if \<not> po_metadata_enabled opts then Inr (Some []) else link_observed cd i t f protocol vs ttl) (link_ok i t)"
    if "advertisement_ok found" for found
    using that link_observed_safe [OF clock f]
    by (auto simp: safe_simps link_ok_def advertisement_ok_def split: option.splits)
  then show ?thesis unfolding link_decode_def
    using f by (auto simp: safe_simps intro!: vlan_tags_safe safely_mono [OF link_advertisement_safe])
qed

section \<open>Frames and captures\<close>

lemma validate_values_sum:
  "validate_values fs acc = Inr acc' \<Longrightarrow> acc' = acc + sum_list (map (\<lambda>x. length (ef_value x)) fs)"
  by (induction fs acc rule: validate_values.induct) (auto split: if_splits)

lemma validate_values_safe: "safely (validate_values fs acc) (\<lambda>_. True)"
  by (induction fs acc rule: validate_values.induct) (auto simp: safe_simps)

lemma validate_observations_sum:
  "validate_observations out acc = Inr acc' \<Longrightarrow> acc' = acc + sum_list (map value_bytes out)"
proof (induction out arbitrary: acc)
  case (Cons one out)
  then obtain mid where mid: "validate_values (pv_facts one) acc = Inr mid" "validate_observations out mid = Inr acc'"
    by (auto split: if_splits)
  from Cons.IH [OF mid(2)] validate_values_sum [OF mid(1)] show ?case by (simp add: value_bytes_def)
qed simp

lemma validate_observations_safe: "safely (validate_observations out acc) (\<lambda>_. True)"
proof (induction out arbitrary: acc)
  case (Cons one out)
  then show ?case by (auto simp: safe_simps intro!: safely_mono [OF validate_values_safe])
qed (simp add: safe_simps)

text \<open>What a normalised frame satisfies.\<close>

definition frame_ok :: "string \<Rightarrow> instant \<Rightarrow> passive_observation list \<Rightarrow> bool" where
  "frame_ok i t out \<longleftrightarrow> observations_ok i t out \<and> length out \<le> MAX_OBSERVATIONS_PER_FRAME
     \<and> sum_list (map value_bytes out) \<le> MAX_NORMALIZED_VALUE_BYTES"

lemma validated_frame:
  assumes "observations_ok i t out"
  shows "safely (and_then (validate_normalized out MAX_OBSERVATIONS_PER_FRAME) (\<lambda>_. Inr out)) (frame_ok i t)"
proof (cases "validate_observations out 0")
  case (Inl err)
  then show ?thesis using validate_observations_safe [of out 0]
    by (auto simp: validate_normalized_def safely_def and_then_def split: passive_stop.splits)
next
  case (Inr acc)
  from validate_observations_sum [OF Inr] show ?thesis
    by (auto simp: validate_normalized_def safe_simps Inr frame_ok_def assms)
qed

lemma frame_payload_safe: "clock_ok cd t \<Longrightarrow> mac_ok m \<Longrightarrow> safely (frame_payload cd i t m kind p opts) (observations_ok i t)"
  unfolding frame_payload_def by (simp add: arp_safe ipv4_safe ipv6_safe safely_Inr)

lemma normalize_safe:
  assumes clock: "clock_ok cd t"
  shows "safely (normalize cd i t f opts) (frame_ok i t)"
proof (cases "14 \<le> length f")
  case False
  then show ?thesis by (simp add: normalize_def safe_simps)
next
  case True
  have payload: "safely (and_then (frame_payload cd i t m kind p opts) (\<lambda>out.
      and_then (validate_normalized out MAX_OBSERVATIONS_PER_FRAME) (\<lambda>_. Inr out))) (frame_ok i t)" if m: "mac_ok m" for m kind p
    unfolding safely_and_then [of "frame_payload cd i t m kind p opts"]
    by (rule safely_mono [OF frame_payload_safe [OF clock m]]) (rule validated_frame)
  let ?rest = "\<lambda>found. case found of
         Some out \<Rightarrow> and_then (validate_normalized out MAX_OBSERVATIONS_PER_FRAME) (\<lambda>_. Inr out)
       | None \<Rightarrow>
           if \<not> cd_ethernet_ok cd f then refused InvalidLength
           else and_then (and_then (slice f 6 12) passive_mac) (\<lambda>m. and_then (be16_at f 12) (\<lambda>kind.
            and_then (slice f 14 (length f)) (\<lambda>p.
            and_then (frame_payload cd i t (Some m) kind p opts) (\<lambda>out.
            and_then (validate_normalized out MAX_OBSERVATIONS_PER_FRAME) (\<lambda>_. Inr out)))))"
  have rest: "safely (?rest found) (frame_ok i t)" if "link_ok i t found" for found
  proof (cases found)
    case (Some out)
    with that validated_frame show ?thesis by (simp add: link_ok_def)
  next
    case None
    with True payload mac_ok_Some [of "take 6 (drop 6 f)"] show ?thesis
      by (simp add: safely_if safely_refused safely_and_then safely_slice safely_be16_at passive_mac_safe)
  qed
  have "safely (and_then (link_decode cd i t f opts) ?rest) (frame_ok i t)"
    unfolding safely_and_then [of "link_decode cd i t f opts"]
    by (rule safely_mono [OF link_decode_safe [OF clock True]]) (rule rest)
  with True show ?thesis unfolding normalize_def by (simp add: safely_refused)
qed

end
