(* ===== verification/Passive_Frames.thy ===== *)
theory Passive_Frames
  imports Passive_Safety
begin

text \<open>
  UDP packets in wire format, from the Ethernet header to the padding, over IPv4 with options and
  over IPv6 with extension headers, and what \<open>normalize\<close> does with such a frame: it finds exactly the
  payload that was sent, and hands it to the decoder of its ports.
\<close>

named_theorems wire_simps \<open>reading bytes at known places\<close>

lemmas [wire_simps] = and_then_known

section \<open>Packets\<close>

definition bytes16 :: "nat \<Rightarrow> u8 list" where
  "bytes16 n = [of_nat (n div 256), of_nat n]"

text \<open>
  The network header. IPv4: version and header length, type of service, the six bytes from the
  identification to the protocol, and the addresses with the options. IPv6: the first four bytes, the
  hop limit, the two addresses, and the extension headers, each with its kind and its bytes after the
  length.
\<close>

datatype network =
    Ipv4Network u8 u8 "u8 list" "u8 list"
  | Ipv6Network "u8 list" u8 "u8 list" "(u8 \<times> u8 list) list"

record udp_packet =
  up_macs :: "u8 list"
  up_network :: network
  up_header_checksum :: "u8 list"
  up_source_port :: u16
  up_destination_port :: u16
  up_checksum :: "u8 list"
  up_payload :: "u8 list"
  up_padding :: "u8 list"

text \<open>A chain of extension headers that ends at UDP: the kind of its first header, and its bytes.\<close>

fun extension_chain :: "(u8 \<times> u8 list) list \<Rightarrow> u8 \<times> u8 list" where
  "extension_chain [] = (17, [])"
| "extension_chain ((kind, body) # es) =
     (kind, fst (extension_chain es) # of_nat ((length body + 2) div 8 - 1) # body @ snd (extension_chain es))"

definition udp_bytes :: "udp_packet \<Rightarrow> u8 list" where
  "udp_bytes x = bytes16 (unat (up_source_port x)) @ bytes16 (unat (up_destination_port x))
     @ bytes16 (8 + length (up_payload x)) @ up_checksum x @ up_payload x"

fun network_bytes :: "network \<Rightarrow> u8 list \<Rightarrow> u8 list \<Rightarrow> u8 list" where
  "network_bytes (Ipv4Network b tos control addresses) checksum body =
     [b, tos] @ bytes16 (12 + length addresses + length body) @ control @ checksum @ addresses @ body"
| "network_bytes (Ipv6Network start hops addresses es) checksum body =
     start @ bytes16 (length (snd (extension_chain es)) + length body) @ [fst (extension_chain es), hops]
       @ addresses @ snd (extension_chain es) @ body"

fun ether_type :: "network \<Rightarrow> u8 list" where
  "ether_type (Ipv4Network _ _ _ _) = [8, 0]"
| "ether_type (Ipv6Network _ _ _ _) = [0x86, 0xdd]"

definition packet_frame :: "udp_packet \<Rightarrow> u8 list" where
  "packet_frame x = up_macs x @ ether_type (up_network x)
     @ network_bytes (up_network x) (up_header_checksum x) (udp_bytes x) @ up_padding x"

fun network_ok :: "network \<Rightarrow> bool" where
  "network_ok (Ipv4Network b tos control addresses) \<longleftrightarrow>
     drop_bit 4 b = 4 \<and> length control = 6 \<and> control ! 5 = 17 \<and> 8 \<le> length addresses
     \<and> 12 + length addresses = unat (and b 15) * 4"
| "network_ok (Ipv6Network start hops addresses es) \<longleftrightarrow>
     length start = 4 \<and> drop_bit 4 (start ! 0) = 6 \<and> length addresses = 32 \<and> length es \<le> 8
     \<and> list_all (\<lambda>(kind, body). kind \<in> {0, 43, 60} \<and> (length body + 2) mod 8 = 0 \<and> length body + 2 \<le> 2048) es"

text \<open>A packet whose parts have the sizes of the format and whose frame is within the frame limit.\<close>

definition packet_ok :: "udp_packet \<Rightarrow> bool" where
  "packet_ok x \<longleftrightarrow> length (up_macs x) = 12 \<and> network_ok (up_network x) \<and> length (up_header_checksum x) = 2
     \<and> length (up_checksum x) = 2 \<and> length (packet_frame x) \<le> MAX_FRAME_BYTES"

section \<open>Reading them back\<close>

lemma bytes16_length [simp]: "length (bytes16 n) = 2"
  by (simp add: bytes16_def)

lemma be16_bytes16:
  assumes "n < 65536"
  shows "be16 (of_nat (n div 256)) (of_nat n) = of_nat n"
proof -
  have "uint (of_nat (n div 256) :: u8) = int (n div 256)" "uint (of_nat n :: u8) = int (n mod 256)"
    using assms by (simp_all add: uint_word_of_int take_bit_eq_mod zmod_int unsigned_of_nat take_bit_nat_eq_self_iff div_less_iff_less_mult)
  moreover have "int (n div 256) * 256 + int (n mod 256) = int n" by (simp add: zdiv_int zmod_int)
  ultimately show ?thesis by (simp only: be16_def) simp
qed

lemma at_index_known [wire_simps]: "k < length p \<Longrightarrow> at_index p k = Inr (p ! k)"
  by (simp add: at_index_def)

lemma be16_at_known [wire_simps]: "k + 1 < length p \<Longrightarrow> be16_at p k = Inr (be16 (p ! k) (p ! (k + 1)))"
  by (simp add: be16_at_def wire_simps)

lemma be32_at_known [wire_simps]:
  "k + 3 < length p \<Longrightarrow> be32_at p k = Inr (be32 (p ! k) (p ! (k + 1)) (p ! (k + 2)) (p ! (k + 3)))"
  by (simp add: be32_at_def wire_simps)

lemma slice_middle: "k = length xs \<Longrightarrow> n = length xs + length ys \<Longrightarrow> slice (xs @ ys @ zs) k n = Inr ys"
  by (simp add: slice_def)

lemma be16_at_middle:
  "k = length xs \<Longrightarrow> n < 65536 \<Longrightarrow> be16_at (xs @ bytes16 n @ ys) k = Inr (of_nat n)"
  by (simp add: be16_at_known nth_append bytes16_def be16_bytes16)

lemma be16_at_word:
  assumes "k = length xs"
  shows "be16_at (xs @ bytes16 (unat (w :: u16)) @ ys) k = Inr w"
proof -
  have "unat w < 65536" by (rule order_less_le_trans [OF unsigned_less]) simp
  then show ?thesis using be16_at_middle [OF assms, of "unat w" ys] by simp
qed

lemma udp_bytes_length: "packet_ok x \<Longrightarrow> length (udp_bytes x) = 8 + length (up_payload x)"
  by (simp add: udp_bytes_def packet_ok_def)

lemma network_bytes_length:
  "network_ok net \<Longrightarrow> length checksum = 2 \<Longrightarrow> 20 + length body \<le> length (network_bytes net checksum body)"
  by (cases net) auto

text \<open>The ports of the name services that use the DNS message format, and the label of each.\<close>

definition dns_ports :: "udp_packet \<Rightarrow> bool" where
  "dns_ports x \<longleftrightarrow> up_source_port x \<in> {53, 5353, 5355} \<or> up_destination_port x \<in> {53, 5353, 5355}"

definition dns_label :: "udp_packet \<Rightarrow> string" where
  "dns_label x =
     (if 53 \<in> {up_source_port x, up_destination_port x} then ''dns-query''
      else if 5353 \<in> {up_source_port x, up_destination_port x} then ''mdns-dns-sd'' else ''llmnr'')"

lemma udp_dns:
  assumes "packet_ok x" and "dns_ports x"
  shows "udp cd i t m src dst (udp_bytes x) opts = dns cd i t m src (up_payload x) opts (dns_label x)"
proof -
  define len where "len = 8 + length (up_payload x)"
  have small: "len < 65536"
    using assms(1) network_bytes_length [of "up_network x" "up_header_checksum x" "udp_bytes x"]
    by (simp add: packet_ok_def packet_frame_def udp_bytes_length len_def MAX_FRAME_BYTES_def)
  have bytes: "udp_bytes x = bytes16 (unat (up_source_port x)) @ bytes16 (unat (up_destination_port x))
      @ bytes16 len @ up_checksum x @ up_payload x" "length (up_checksum x) = 2" "length (udp_bytes x) = len"
    using assms(1) by (simp_all add: udp_bytes_def packet_ok_def len_def)
  have s: "be16_at (udp_bytes x) 0 = Inr (up_source_port x)"
    using be16_at_word [of 0 "[]"] by (simp add: bytes)
  have d: "be16_at (udp_bytes x) 2 = Inr (up_destination_port x)"
    using be16_at_word [of 2 "bytes16 _"] by (simp add: bytes)
  have n: "be16_at (udp_bytes x) 4 = Inr (of_nat len)"
    using be16_at_middle [of 4 "bytes16 _ @ bytes16 _"] small by (simp add: bytes)
  have q: "slice (udp_bytes x) 8 len = Inr (up_payload x)"
    using slice_middle [of 8 "bytes16 _ @ bytes16 _ @ bytes16 _ @ up_checksum x" len "up_payload x" "[]"] bytes(2)
    by (simp add: bytes(1) len_def)
  have "unat (of_nat len :: u16) = len" using small by (simp add: unat_of_nat)
  moreover have "8 \<le> len" by (simp add: len_def)
  ultimately show ?thesis
    using assms(2) by (auto simp: udp_def s d n q bytes(3) wire_simps Let_def dns_ports_def dns_label_def)
qed

text \<open>Extension headers are walked to the payload.\<close>

lemma extension_header_size:
  assumes "(n + 2) mod 8 = 0" and "n + 2 \<le> (2048 :: nat)"
  shows "(unat (of_nat ((n + 2) div 8 - 1) :: u8) + 1) * 8 = n + 2"
proof -
  define k where "k = (n + 2) div 8 - 1"
  have "(n + 2) div 8 * 8 = n + 2" by (rule dvd_div_mult_self [OF mod_0_imp_dvd [OF assms(1)]])
  then have "(k + 1) * 8 = n + 2" "k < 256" using assms(2) by (simp_all add: k_def)
  moreover from this have "unat (of_nat k :: u8) = k" by (simp add: unat_of_nat)
  ultimately show ?thesis by (simp only: flip: k_def)
qed

lemma ipv6_headers_chain:
  assumes "list_all (\<lambda>(kind, body). kind \<in> {0, 43, 60} \<and> (length body + 2) mod 8 = 0 \<and> length body + 2 \<le> 2048) es"
    and "length es \<le> n" and "length start + length (snd (extension_chain es)) \<le> limit"
  shows "ipv6_headers (start @ snd (extension_chain es) @ rest) limit n (fst (extension_chain es)) (length start)
    = Inr (Some (17, length start + length (snd (extension_chain es))))"
  using assms
proof (induction es arbitrary: start n)
  case Nil
  then show ?case by (cases n) simp_all
next
  case (Cons e es)
  obtain kind body where e: "e = (kind, body)" by (cases e)
  obtain m where n: "n = Suc m" using Cons.prems(2) by (cases n) simp_all
  let ?next = "fst (extension_chain es)"
  let ?units = "of_nat ((length body + 2) div 8 - 1) :: u8"
  let ?start = "start @ ?next # ?units # body"
  have ok: "kind \<in> {0, 43, 60}" "(unat ?units + 1) * 8 = length body + 2"
    using Cons.prems(1) extension_header_size [of "length body"] by (auto simp: e)
  define p where "p = start @ snd (extension_chain (e # es)) @ rest"
  have p: "p = ?start @ snd (extension_chain es) @ rest" by (simp add: p_def e)
  have bytes: "at_index p (length start + 1) = Inr ?units" "at_index p (length start) = Inr ?next"
    by (simp_all add: p at_index_def nth_append)
  have "ipv6_headers p limit m ?next (length start + (length body + 2))
      = Inr (Some (17, length start + length (snd (extension_chain (e # es)))))"
    using Cons.IH [of m ?start] Cons.prems by (simp add: p e n add.assoc add.commute add.left_commute)
  moreover have "length start + (length body + 2) \<le> limit" using Cons.prems(3) by (simp add: e)
  ultimately have "ipv6_headers p limit n kind (length start)
      = Inr (Some (17, length start + length (snd (extension_chain (e # es)))))"
    using ok(1) unfolding n ipv6_headers.simps bytes and_then_known Let_def ok(2) by auto
  then show ?case by (simp add: p_def e)
qed

section \<open>The frame as a whole\<close>

text \<open>What the network header decides: fragments are ignored, anything else reaches UDP with its addresses.\<close>

fun via_network :: "network \<Rightarrow> (ip_addr \<Rightarrow> ip_addr \<Rightarrow> passive_observation list parsed) \<Rightarrow> passive_observation list parsed" where
  "via_network (Ipv4Network b tos control addresses) k =
     (if and (be16 (control ! 2) (control ! 3)) 0x3fff \<noteq> 0 then Inr []
      else k (V4 (be32 (addresses ! 0) (addresses ! 1) (addresses ! 2) (addresses ! 3)))
             (V4 (be32 (addresses ! 4) (addresses ! 5) (addresses ! 6) (addresses ! 7))))"
| "via_network (Ipv6Network start hops addresses es) k =
     k (V6 (ipv6_of (take 16 addresses))) (V6 (ipv6_of (drop 16 addresses)))"

lemma ipv4_udp:
  assumes "network_ok (Ipv4Network b tos control addresses)" and "length checksum = 2"
    and "12 + length addresses + length body < 65536"
  shows "ipv4 cd i t m (network_bytes (Ipv4Network b tos control addresses) checksum body @ pad) opts
    = via_network (Ipv4Network b tos control addresses) (\<lambda>src dst. udp cd i t m src dst body opts)"
proof -
  define len where "len = 12 + length addresses + length body"
  define p where "p = [b, tos] @ bytes16 len @ control @ checksum @ addresses @ body @ pad"
  have ok: "drop_bit 4 b = 4" "length control = 6" "control ! 5 = 17" "8 \<le> length addresses"
    "unat (and b 15) * 4 = 12 + length addresses" using assms(1) by simp_all
  have small: "len < 65536" using assms(3) by (simp add: len_def)
  have l: "be16_at p 2 = Inr (of_nat len)" "unat (of_nat len :: u16) = len"
    using be16_at_middle [of 2 "[b, tos]"] small by (simp_all add: p_def unat_of_nat)
  have body: "slice p (12 + length addresses) len = Inr body"
    using slice_middle [of "12 + length addresses" "[b, tos] @ bytes16 len @ control @ checksum @ addresses" len body pad]
      ok(2) assms(2) by (simp add: p_def len_def)
  have bytes: "p ! 0 = b" "p ! 6 = control ! 2" "p ! 7 = control ! 3" "p ! 9 = control ! 5"
    "p ! 12 = addresses ! 0" "p ! 13 = addresses ! 1" "p ! 14 = addresses ! 2" "p ! 15 = addresses ! 3"
    "p ! 16 = addresses ! 4" "p ! 17 = addresses ! 5" "p ! 18 = addresses ! 6" "p ! 19 = addresses ! 7"
    using ok(2,4) assms(2) by (auto simp: p_def nth_append bytes16_def)
  have sizes: "(length p < 20) = False" "(12 + length addresses < 20) = False" "(len < 12 + length addresses) = False"
    "(length p < len) = False" using ok(2,4) assms(2) by (simp_all add: p_def len_def)
  have reads: "at_index p 0 = Inr b" "be16_at p 6 = Inr (be16 (control ! 2) (control ! 3))" "at_index p 9 = Inr 17"
    "be32_at p 12 = Inr (be32 (addresses ! 0) (addresses ! 1) (addresses ! 2) (addresses ! 3))"
    "be32_at p 16 = Inr (be32 (addresses ! 4) (addresses ! 5) (addresses ! 6) (addresses ! 7))"
    using bytes sizes(1) ok(3) by (auto simp: at_index_def be16_at_def be32_at_def wire_simps)
  have "ipv4 cd i t m p opts = via_network (Ipv4Network b tos control addresses) (\<lambda>src dst. udp cd i t m src dst body opts)"
    unfolding ipv4_def sizes reads l body and_then_known Let_def ok by simp
  then show ?thesis by (simp add: p_def len_def)
qed

lemma ipv6_udp:
  assumes "network_ok (Ipv6Network start hops addresses es)" and "length (snd (extension_chain es)) + length body < 65536"
  shows "ipv6 cd i t m (network_bytes (Ipv6Network start hops addresses es) checksum body @ pad) opts
    = via_network (Ipv6Network start hops addresses es) (\<lambda>src dst. udp cd i t m src dst body opts)"
proof -
  let ?first = "fst (extension_chain es)"
  let ?exts = "snd (extension_chain es)"
  define len where "len = length ?exts + length body"
  define p where "p = start @ bytes16 len @ [?first, hops] @ addresses @ ?exts @ body @ pad"
  have ok: "length start = 4" "drop_bit 4 (start ! 0) = 6" "length addresses = 32" "length es \<le> 8"
    "list_all (\<lambda>(kind, body). kind \<in> {0, 43, 60} \<and> (length body + 2) mod 8 = 0 \<and> length body + 2 \<le> 2048) es"
    using assms(1) by simp_all
  have small: "len < 65536" using assms(2) by (simp add: len_def)
  have l: "be16_at p 4 = Inr (of_nat len)" "unat (of_nat len :: u16) = len"
    using be16_at_middle [of 4 start] ok(1) small by (simp_all add: p_def unat_of_nat)
  have src: "slice p 8 24 = Inr (take 16 addresses)" "slice p 24 40 = Inr (drop 16 addresses)"
    using ok(1,3) by (simp_all add: p_def slice_def)
  have body: "slice p (40 + length ?exts) (40 + len) = Inr body"
    using slice_middle [of "40 + length ?exts" "start @ bytes16 len @ [?first, hops] @ addresses @ ?exts" "40 + len" body pad] ok(1,3)
    by (simp add: p_def len_def)
  have chain: "ipv6_headers p (40 + len) 8 ?first 40 = Inr (Some (17, 40 + length ?exts))"
    using ipv6_headers_chain [OF ok(5,4), of "start @ bytes16 len @ [?first, hops] @ addresses" "40 + len" "body @ pad"] ok(1,3)
    by (simp add: p_def len_def)
  have bytes: "p ! 0 = start ! 0" "p ! 6 = ?first" "40 \<le> length p" "len \<le> length p - 40" "p \<noteq> []"
    using ok(1,3) by (simp_all add: p_def len_def nth_append bytes16_def)
  have "ipv6 cd i t m p opts = via_network (Ipv6Network start hops addresses es) (\<lambda>src dst. udp cd i t m src dst body opts)"
    using bytes(3-5) by (simp add: ipv6_def wire_simps bytes(1,2) ok(2) l src body chain Let_def not_less)
  then show ?thesis by (simp add: p_def len_def)
qed

text \<open>
  A whole frame: the frame check decides first, then the network header, then the payload alone; a
  packet on a name service port is never taken for a link advertisement.
\<close>

definition checked_observations :: "passive_observation list parsed \<Rightarrow> passive_observation list parsed" where
  "checked_observations r = and_then r (\<lambda>out. and_then (validate_normalized out MAX_OBSERVATIONS_PER_FRAME) (\<lambda>_. Inr out))"

lemma normalize_packet:
  assumes "packet_ok x" and "dns_ports x"
  shows "normalize cd i t (packet_frame x) opts =
    (if \<not> cd_ethernet_ok cd (packet_frame x) then refused InvalidLength
     else and_then (passive_mac (drop 6 (up_macs x))) (\<lambda>m. checked_observations
       (via_network (up_network x) (\<lambda>src _. dns cd i t (Some m) src (up_payload x) opts (dns_label x)))))"
proof -
  define p where "p = network_bytes (up_network x) (up_header_checksum x) (udp_bytes x) @ up_padding x"
  have ok: "length (up_macs x) = 12" "network_ok (up_network x)" "length (up_header_checksum x) = 2"
    using assms(1) by (simp_all add: packet_ok_def)
  have f: "packet_frame x = up_macs x @ ether_type (up_network x) @ p" by (simp add: packet_frame_def p_def)
  have len: "length (packet_frame x) \<le> MAX_FRAME_BYTES" "length (packet_frame x) = 14 + length p" "length p < 65536"
    using assms(1) ok by (cases "up_network x"; simp add: packet_ok_def f MAX_FRAME_BYTES_def)+
  have mac: "slice (packet_frame x) 6 12 = Inr (drop 6 (up_macs x))"
    using ok(1) by (simp add: f slice_def)
  have payload: "slice (packet_frame x) 14 (length (packet_frame x)) = Inr p"
    using ok(1) by (cases "up_network x") (simp_all add: f slice_def)
  define kind where "kind = (if ether_type (up_network x) = [8, 0] then 0x0800 else 0x86dd :: u16)"
  have kind: "be16_at (packet_frame x) 12 = Inr kind"
    using ok(1) by (cases "up_network x") (simp_all add: f kind_def wire_simps nth_append be16_def)
  have "kind \<notin> {0x8100, 0x88a8, 0x88cc}" "\<not> kind \<le> 1500" by (cases "up_network x"; simp add: kind_def)+
  then have "link_decode cd i t (packet_frame x) opts = Inr None"
    by (simp add: link_decode_def kind wire_simps numeral_2_eq_2 link_advertisement_def)
  moreover have "frame_payload cd i t m kind p opts
      = via_network (up_network x) (\<lambda>src _. dns cd i t m src (up_payload x) opts (dns_label x))" for m
  proof (cases "up_network x")
    case (Ipv4Network b tos control addresses)
    then have "ipv4 cd i t m p opts = via_network (up_network x) (\<lambda>src dst. udp cd i t m src dst (udp_bytes x) opts)"
      using ok len(3) unfolding p_def Ipv4Network by (intro ipv4_udp) simp_all
    then show ?thesis using Ipv4Network by (simp add: frame_payload_def kind_def udp_dns [OF assms])
  next
    case (Ipv6Network start hops addresses es)
    then have "ipv6 cd i t m p opts = via_network (up_network x) (\<lambda>src dst. udp cd i t m src dst (udp_bytes x) opts)"
      using ok len(3) unfolding p_def Ipv6Network by (intro ipv6_udp) simp_all
    then show ?thesis using Ipv6Network by (simp add: frame_payload_def kind_def udp_dns [OF assms])
  qed
  ultimately show ?thesis
    using len by (simp add: normalize_def mac payload [unfolded len(2)] kind wire_simps checked_observations_def)
qed

end
