(* ===== verification/Passive_Properties.thy ===== *)
theory Passive_Properties
  imports Passive_Frames
begin

text \<open>
  What the passive decoder promises: no panic on any frame, bounded and expiring facts, nothing of the
  questions of DNS, multicast DNS and LLMNR when metadata is off, options decoded exactly, and captures
  accepted and reported exactly.
\<close>

section \<open>Any frame\<close>

text \<open>C32. Hostile frames are harmless. Whatever bytes a frame has and whatever the codecs answer, decoding it
  does not panic; it is refused or gives at most sixteen observations with at most a mebibyte of values, and each
  observation carries the interface and the capture time, at most 32 facts, and facts that are never
  owner confirmed, have bounded keys and values, name the decoder as their source and expire within a day.\<close>

theorem frames_decode_safely:
  assumes "clock_ok cd t"
  shows "normalize cd i t f opts \<noteq> Inl Panicked
    \<and> (\<forall>out. normalize cd i t f opts = Inr out \<longrightarrow>
        length out \<le> 16 \<and> sum_list (map value_bytes out) \<le> 1024 * 1024
        \<and> (\<forall>one \<in> set out. pv_interface one = i \<and> pv_observed_at one = t \<and> length (pv_facts one) \<le> 32
            \<and> (\<forall>x \<in> set (pv_facts one). length (ef_value x) \<le> 1024 \<and> length (ef_key x) \<le> 64
                \<and> ef_source x = passive_source (pv_protocol one) \<and> \<not> ef_owner_confirmed x \<and> ef_observed_at x = t
                \<and> (\<exists>u. ef_expires_at x = Some u \<and> t \<le> u \<and> u \<le> t + hours 24))))"
proof -
  note safe = normalize_safe [OF assms, of i f opts]
  have "frame_ok i t out" if "normalize cd i t f opts = Inr out" for out
    using safely_InrD [OF safe that] .
  then show ?thesis
    using safely_no_panic [OF safe]
    unfolding frame_ok_def observations_ok_def observation_ok_def fact_ok_def
      MAX_OBSERVATIONS_PER_FRAME_def MAX_NORMALIZED_VALUE_BYTES_def MAX_FACTS_PER_OBSERVATION_def MAX_VALUE_BYTES_def
    by fastforce
qed

section \<open>Privacy\<close>

text \<open>What is public of a DNS message: its record sections.\<close>

definition without_queries :: "dns_message option \<Rightarrow> dns_message option" where
  "without_queries msg = map_option (\<lambda>m. m \<lparr> dq_queries := [] \<rparr>) msg"

lemma same_sections: "m \<lparr> dq_queries := [] \<rparr> = m' \<lparr> dq_queries := [] \<rparr> \<longleftrightarrow>
    dq_answers m = dq_answers m' \<and> dq_authorities m = dq_authorities m' \<and> dq_additionals m = dq_additionals m'"
  for m m' :: dns_message
  by (cases m; cases m') simp

lemma without_queries_eq:
  "without_queries a = without_queries b \<longleftrightarrow> (case (a, b) of
     (None, None) \<Rightarrow> True
   | (Some m, Some m') \<Rightarrow> dq_answers m = dq_answers m' \<and> dq_authorities m = dq_authorities m' \<and> dq_additionals m = dq_additionals m'
   | _ \<Rightarrow> False)"
  by (cases a; cases b) (simp_all add: without_queries_def same_sections)

lemma dns_private:
  assumes "\<not> po_metadata_enabled opts" and "length q \<le> MAX_METADATA_BYTES" and "length q' \<le> MAX_METADATA_BYTES"
    and "without_queries (cd_dns cd q) = without_queries (cd_dns cd q')"
  shows "dns cd i t m src q opts p = dns cd i t m src q' opts p"
  using assms by (auto simp: dns_def or_refuse_def and_then_def without_queries_eq split: option.splits)

text \<open>The keys of the facts: those of the values, in order, after the address of the sender.\<close>

lemma passive_facts_keys: "passive_facts cd src t vals = Inr facts \<Longrightarrow> map ef_key facts = map fst vals"
  by (induction vals arbitrary: facts) (auto simp: passive_fact_def or_refuse_def split: if_splits option.splits)

lemma observation_keys:
  assumes "observation cd i t m ip p vals = Inr out" and "one \<in> set out"
  shows "ef_key ` set (pv_facts one) \<subseteq> insert ''mac'' (fst ` set vals)"
proof -
  obtain facts where one: "one = \<lparr> pv_interface = i, pv_observed_at = t, pv_subject_mac = m, pv_subject_ip = ip,
      pv_protocol = p, pv_facts = facts \<rparr>"
    and keys: "map ef_key facts = map fst ((case m of None \<Rightarrow> [] | Some x \<Rightarrow> [(''mac'', x, LinkLayer, DEFAULT_TTL)]) @ vals)"
    using assms by (auto simp: observation_def Let_def simp del: passive_facts.simps dest!: passive_facts_keys split: if_splits)
  have "ef_key ` set facts = set (map ef_key facts)" by simp
  also have "\<dots> \<subseteq> insert ''mac'' (fst ` set vals)" unfolding keys by (cases m) auto
  finally show ?thesis by (simp add: one)
qed

lemma record_keys: "record_vals r = Inr vals \<Longrightarrow> list_all (\<lambda>v. fst v \<noteq> ''query'') vals"
proof -
  have "list_all (\<lambda>v. fst v \<noteq> ''query'') vals" if "txt_vals zs ttl = Inr vals" for zs ttl vals
    using that by (induction zs arbitrary: vals) auto
  then show "record_vals r = Inr vals \<Longrightarrow> list_all (\<lambda>v. fst v \<noteq> ''query'') vals"
    by (auto simp: record_vals_def Let_def split: rdata.splits)
qed

lemma records_keys: "records_vals rs = Inr vals \<Longrightarrow> list_all (\<lambda>v. fst v \<noteq> ''query'') vals"
  by (induction rs arbitrary: vals) (auto dest: record_keys)

lemma dns_keys:
  assumes "dns cd i t m src q opts p = Inr out" and "\<not> po_metadata_enabled opts" and "one \<in> set out"
  shows "''query'' \<notin> ef_key ` set (pv_facts one) \<and> (p \<noteq> ''mdns-dns-sd'' \<longrightarrow> ef_key ` set (pv_facts one) \<subseteq> {''mac''})"
proof -
  have "\<not> MAX_METADATA_BYTES < length q" using assms(1) by (auto simp: dns_def)
  then obtain msg :: dns_message and records n where
      found: "(if p = ''mdns-dns-sd'' then records_vals (dq_answers msg @ dq_authorities msg @ dq_additionals msg) else Inr []) = Inr records"
    and run: "observation cd i t m (Some src) p (take n records) = Inr out"
    using assms(1,2) by (simp add: dns_def Let_def) blast
  from found have "list_all (\<lambda>v. fst v \<noteq> ''query'') records" "p \<noteq> ''mdns-dns-sd'' \<Longrightarrow> records = []"
    by (auto split: if_splits dest: records_keys)
  then show ?thesis using observation_keys [OF run assms(3)] set_take_subset [of n records] by (fastforce simp: list_all_iff)
qed

text \<open>Two packets with the same envelope: addresses, network header and ports, but not the checksums.\<close>

definition same_envelope :: "udp_packet \<Rightarrow> udp_packet \<Rightarrow> bool" where
  "same_envelope x y \<longleftrightarrow> up_macs x = up_macs y \<and> up_network x = up_network y
     \<and> up_source_port x = up_source_port y \<and> up_destination_port x = up_destination_port y"

text \<open>C33. With metadata off, nothing of a question leaves the decoder for the protocols in DNS format (DNS,
  multicast DNS and LLMNR, over IPv4 and IPv6). Two frames whose packets have the same addresses,
  network header and ports, payloads of at most 2,048 bytes that decode to the same record sections (or
  both do not decode), and that the frame check treats alike, give the same outcome, whatever
  they ask, however their bytes, lengths, checksums and padding differ; no reported fact is a query,
  DNS and LLMNR packets yield the sender's hardware address only, and link advertisements are dropped. NetBIOS name
  packets are not covered: their decoder does not consult the option and reports the name.\<close>

theorem query_names_stay_private:
  assumes "\<not> po_metadata_enabled opts" and "dns_ports x" and "packet_ok x" and "packet_ok y" and "same_envelope x y"
    and "length (up_payload x) \<le> 2048" and "length (up_payload y) \<le> 2048"
    and "without_queries (cd_dns cd (up_payload x)) = without_queries (cd_dns cd (up_payload y))"
    and "cd_ethernet_ok cd (packet_frame x) = cd_ethernet_ok cd (packet_frame y)"
  shows "normalize cd i t (packet_frame x) opts = normalize cd i t (packet_frame y) opts
    \<and> (\<forall>out. normalize cd i t (packet_frame x) opts = Inr out \<longrightarrow> (\<forall>one \<in> set out. \<forall>z \<in> set (pv_facts one).
          ef_key z \<noteq> ''query'' \<and> (dns_label x \<noteq> ''mdns-dns-sd'' \<longrightarrow> ef_key z = ''mac'')))
    \<and> (\<forall>f out. link_decode cd i t f opts = Inr (Some out) \<longrightarrow> out = [])"
proof -
  have same: "up_macs y = up_macs x" "up_network y = up_network x" "dns_label y = dns_label x" "dns_ports y"
    using assms(2,5) by (auto simp: same_envelope_def dns_label_def dns_ports_def)
  have "dns cd i t m src (up_payload x) opts p = dns cd i t m src (up_payload y) opts p" for m src p
    using assms(1,6-8) by (intro dns_private) (simp_all add: MAX_METADATA_BYTES_def)
  then have "normalize cd i t (packet_frame x) opts = normalize cd i t (packet_frame y) opts"
    unfolding normalize_packet [OF assms(3,2)] normalize_packet [OF assms(4) same(4)] same assms(9) by simp
  moreover have "ef_key z \<noteq> ''query'' \<and> (dns_label x \<noteq> ''mdns-dns-sd'' \<longrightarrow> ef_key z = ''mac'')"
    if run: "normalize cd i t (packet_frame x) opts = Inr out" and one: "one \<in> set out" "z \<in> set (pv_facts one)" for out one z
  proof -
    obtain m where "via_network (up_network x) (\<lambda>src _. dns cd i t m src (up_payload x) opts (dns_label x)) = Inr out"
      using run by (auto simp: normalize_packet [OF assms(3,2)] checked_observations_def split: if_splits)
    then obtain src where "dns cd i t m src (up_payload x) opts (dns_label x) = Inr out"
      using one(1) by (cases "up_network x") (auto split: if_splits)
    from dns_keys [OF this assms(1) one(1)] one(2) show ?thesis by (force simp: image_iff)
  qed
  moreover have "out = []" if "link_decode cd i t f opts = Inr (Some out)" for f out
    using that assms(1) by (auto simp: link_decode_def split: option.splits)
  ultimately show ?thesis by blast
qed

section \<open>DHCP options\<close>

text \<open>The wire format of an option, and reading a list of options one after the other.\<close>

definition encode_options :: "(u8 \<times> u8 list) list \<Rightarrow> u8 list" where
  "encode_options os = concat (map (\<lambda>(c, z). c # of_nat (length z) # z) os)"

definition count_option :: "dhcp4_state \<Rightarrow> dhcp4_state parsed" where
  "count_option s =
     (if MAX_DHCP_OPTIONS < d4_options s + 1 then refused Metadata else Inr (s \<lparr> d4_options := d4_options s + 1 \<rparr>))"

fun read_options :: "(u8 \<times> u8 list) list \<Rightarrow> dhcp4_state \<Rightarrow> dhcp4_state parsed" where
  "read_options [] s = count_option s"
| "read_options ((c, z) # os) s =
     and_then (count_option s) (\<lambda>s. and_then (dhcp4_option s c z) (read_options os))"

definition encodable :: "(u8 \<times> u8 list) list \<Rightarrow> bool" where
  "encodable os \<longleftrightarrow> (\<forall>(c, z) \<in> set os. c \<noteq> 0 \<and> c \<noteq> 255 \<and> length z < 256)"

text \<open>C34. Options are decoded exactly as they were encoded: after any header, a list of options with codes other
  than padding and end and values of at most 255 bytes, closed by the end marker and followed by
  anything, is read as these options in this order, with the same outcome, refusals included; the
  bytes after the end marker do not matter.\<close>

theorem dhcp4_options_round_trip:
  assumes "encodable os"
  shows "dhcp4_options (header @ encode_options os @ 255 # rest) (length header) s = read_options os s"
  using assms
proof (induction os arbitrary: header s)
  case Nil
  show ?case
    by (subst dhcp4_options.simps) (auto simp: encode_options_def count_option_def at_index_def and_then_def Let_def nth_append)
next
  case (Cons x os)
  obtain c z where x: "x = (c, z)" by (cases x)
  have ok: "c \<noteq> 0" "c \<noteq> 255" "length z < 256" "encodable os" using Cons.prems by (auto simp: x encodable_def)
  let ?h = "header @ c # of_nat (length z) # z"
  define q where "q = header @ encode_options (x # os) @ 255 # rest"
  have q: "q = ?h @ encode_options os @ 255 # rest" by (simp add: q_def encode_options_def x)
  have n: "unat (of_nat (length z) :: u8) = length z" using ok(3) by (simp add: unat_of_nat)
  have bytes: "q ! length header = c" "q ! Suc (length header) = of_nat (length z)"
    "take (length z) (drop (Suc (Suc (length header))) q) = z" "Suc (Suc (length header + length z)) \<le> length q"
    by (simp_all add: q nth_append)
  have IH: "dhcp4_options q (Suc (Suc (length header + length z))) s' = read_options os s'" for s'
    using Cons.IH [OF ok(4), of ?h s'] unfolding q by simp
  have "dhcp4_options q (length header) s = read_options (x # os) s"
    by (subst dhcp4_options.simps)
       (use bytes ok IH in \<open>simp add: x at_index_def slice_def and_then_def Let_def n count_option_def cong: sum.case_cong\<close>)
  then show ?case by (simp add: q_def)
qed

section \<open>Captures\<close>

text \<open>A capture whose header is accepted.\<close>

definition capture_opens :: "codecs \<Rightarrow> u8 list \<Rightarrow> pcap_file \<Rightarrow> bool" where
  "capture_opens cd b r \<longleftrightarrow> length b \<le> 4 * 1024 * 1024 \<and> cd_pcap cd b = Some r \<and> pc_ethernet r
     \<and> 0 < unat (pc_snaplen r) \<and> unat (pc_snaplen r) \<le> 65535"

text \<open>What one record comes to: its lengths must be consistent and its time representable, then its frame decides.\<close>

definition record_result ::
  "codecs \<Rightarrow> string \<Rightarrow> passive_options \<Rightarrow> u32 \<Rightarrow> pcap_packet \<Rightarrow> passive_observation list parsed" where
  "record_result cd i opts snaplen p =
     (if \<not> (length (pk_data p) \<le> unat (pk_orig_len p) \<and> unat (pk_orig_len p) \<le> 65535 \<and> length (pk_data p) \<le> unat snaplen)
      then refused InvalidLength
      else if 2 ^ 63 \<le> uint (pk_secs p) then refused PcapHeader
      else case cd_timestamp cd (uint (pk_secs p)) (pk_nanos p) of
          None \<Rightarrow> refused PcapHeader
        | Some t \<Rightarrow> normalize cd i t (pk_data p) opts)"

definition skippable :: "'a parsed \<Rightarrow> bool" where
  "skippable r \<longleftrightarrow> r = refused Metadata \<or> r = refused Truncated"

definition decoded_records :: "codecs \<Rightarrow> string \<Rightarrow> passive_options \<Rightarrow> u32 \<Rightarrow> pcap_packet list \<Rightarrow> passive_observation list" where
  "decoded_records cd i opts snaplen ps =
     concat (map (\<lambda>p. case record_result cd i opts snaplen p of Inl _ \<Rightarrow> [] | Inr out \<Rightarrow> out) ps)"

definition skipped_records :: "codecs \<Rightarrow> string \<Rightarrow> passive_options \<Rightarrow> u32 \<Rightarrow> pcap_packet list \<Rightarrow> nat" where
  "skipped_records cd i opts snaplen ps = length (filter (\<lambda>p. skippable (record_result cd i opts snaplen p)) ps)"

text \<open>Records that are decoded or skipped, and together stay within the limits.\<close>

definition records_within :: "codecs \<Rightarrow> string \<Rightarrow> passive_options \<Rightarrow> u32 \<Rightarrow> pcap_packet list \<Rightarrow> bool" where
  "records_within cd i opts snaplen ps \<longleftrightarrow>
     length ps \<le> 4096
     \<and> (\<forall>p \<in> set ps. skippable (record_result cd i opts snaplen p) \<or> (\<exists>found. record_result cd i opts snaplen p = Inr found))
     \<and> skipped_records cd i opts snaplen ps \<le> 256
     \<and> length (decoded_records cd i opts snaplen ps) \<le> 4096
     \<and> sum_list (map value_bytes (decoded_records cd i opts snaplen ps)) \<le> 1024 * 1024"

lemma charge_values_exact:
  "acc \<le> MAX_NORMALIZED_VALUE_BYTES \<Longrightarrow> charge_values found acc =
     (if acc + sum_list (map value_bytes found) \<le> MAX_NORMALIZED_VALUE_BYTES
      then Inr (acc + sum_list (map value_bytes found)) else refused Metadata)"
  by (induction found arbitrary: acc) (auto simp: usize_fits_def MAX_NORMALIZED_VALUE_BYTES_def)

text \<open>One turn of the loop, over what the record comes to.\<close>

lemma ingest_records_step:
  "ingest_records cd i opts snaplen (Some p # rest) out records skipped acc =
     (if MAX_PCAP_RECORDS < records + 1 then refused Metadata
      else case record_result cd i opts snaplen p of
        Inl stop \<Rightarrow>
          if \<not> skippable (record_result cd i opts snaplen p) then Inl stop
          else if MAX_SKIPPED_FRAMES < skipped + 1 then refused Metadata
          else ingest_records cd i opts snaplen rest out (records + 1) (skipped + 1) acc
      | Inr found \<Rightarrow>
          if MAX_OBSERVATIONS < length out + length found then refused Metadata
          else and_then (charge_values found acc) (\<lambda>acc.
            ingest_records cd i opts snaplen rest (out @ found) (records + 1) skipped acc))"
proof -
  let ?n = "length (pk_data p)"
  have lengths: "MAX_FRAME_BYTES < ?n \<or> MAX_FRAME_BYTES < unat (pk_orig_len p) \<or> pk_orig_len p < of_nat ?n \<or> snaplen < of_nat ?n
    \<longleftrightarrow> \<not> (?n \<le> unat (pk_orig_len p) \<and> unat (pk_orig_len p) \<le> 65535 \<and> ?n \<le> unat snaplen)"
  proof (cases "?n \<le> 65535")
    case True
    then have "unat (of_nat ?n :: u32) = ?n" by (simp add: unat_of_nat)
    then show ?thesis by (auto simp: word_less_nat_alt MAX_FRAME_BYTES_def)
  qed (auto simp: MAX_FRAME_BYTES_def)
  have secs: "i64_checked (uint (pk_secs p)) = (if 2 ^ 63 \<le> uint (pk_secs p) then None else Some (uint (pk_secs p)))"
  proof -
    have "- (2 ^ 63) \<le> uint (pk_secs p)" by (rule order_trans [OF _ uint_ge_0]) simp
    then show ?thesis by (simp add: i64_checked_def not_le)
  qed
  let ?fits = "?n \<le> unat (pk_orig_len p) \<and> unat (pk_orig_len p) \<le> 65535 \<and> ?n \<le> unat snaplen"
  note loop = ingest_records.simps or_refuse_def option.case and_then_known Let_def lengths secs
  consider "\<not> ?fits" | "?fits" "2 ^ 63 \<le> uint (pk_secs p) \<or> cd_timestamp cd (uint (pk_secs p)) (pk_nanos p) = None"
    | t where "?fits" "\<not> 2 ^ 63 \<le> uint (pk_secs p)" "cd_timestamp cd (uint (pk_secs p)) (pk_nanos p) = Some t"
    by (cases "cd_timestamp cd (uint (pk_secs p)) (pk_nanos p)") auto
  then show ?thesis
  proof cases
    case 1
    then have "record_result cd i opts snaplen p = refused InvalidLength" by (simp add: record_result_def)
    with 1 show ?thesis unfolding loop by (simp add: skippable_def)
  next
    case 2
    then have "record_result cd i opts snaplen p = refused PcapHeader" by (auto simp: record_result_def)
    with 2 show ?thesis unfolding loop by (auto simp: skippable_def and_then_def)
  next
    case (3 t)
    then have "record_result cd i opts snaplen p = normalize cd i t (pk_data p) opts" by (simp add: record_result_def)
    with 3 show ?thesis unfolding loop
      by (simp add: skippable_def and_then_known split: sum.split passive_stop.split)
  qed
qed

lemma capture_counts [simp]:
  "decoded_records cd i opts snaplen [] = []" "skipped_records cd i opts snaplen [] = 0"
  "decoded_records cd i opts snaplen (p # ps) =
     (case record_result cd i opts snaplen p of Inl _ \<Rightarrow> [] | Inr out \<Rightarrow> out) @ decoded_records cd i opts snaplen ps"
  "skipped_records cd i opts snaplen (p # ps) =
     (if skippable (record_result cd i opts snaplen p) then 1 else 0) + skipped_records cd i opts snaplen ps"
  by (simp_all add: decoded_records_def skipped_records_def)

lemma skippable_values [simp]: "\<not> skippable (Inr out)"
  by (simp add: skippable_def)

lemma skippable_Inl: "skippable r \<Longrightarrow> \<exists>stop. r = Inl stop"
  by (auto simp: skippable_def)

text \<open>What the loop keeps, for the records still to come.\<close>

definition room :: "codecs \<Rightarrow> string \<Rightarrow> passive_options \<Rightarrow> u32 \<Rightarrow> passive_observation list \<Rightarrow> nat \<Rightarrow> nat \<Rightarrow> pcap_packet list \<Rightarrow> bool" where
  "room cd i opts snaplen out records skipped ps \<longleftrightarrow>
     records + length ps \<le> MAX_PCAP_RECORDS
     \<and> (\<forall>p \<in> set ps. skippable (record_result cd i opts snaplen p) \<or> (\<exists>found. record_result cd i opts snaplen p = Inr found))
     \<and> skipped + skipped_records cd i opts snaplen ps \<le> MAX_SKIPPED_FRAMES
     \<and> length (out @ decoded_records cd i opts snaplen ps) \<le> MAX_OBSERVATIONS
     \<and> sum_list (map value_bytes (out @ decoded_records cd i opts snaplen ps)) \<le> MAX_NORMALIZED_VALUE_BYTES"

lemma room_start: "room cd i opts snaplen [] 0 0 ps \<longleftrightarrow> records_within cd i opts snaplen ps"
  by (simp add: room_def records_within_def MAX_PCAP_RECORDS_def MAX_SKIPPED_FRAMES_def MAX_OBSERVATIONS_def
      MAX_NORMALIZED_VALUE_BYTES_def)

lemma room_skip:
  assumes "skippable (record_result cd i opts snaplen p)"
  shows "room cd i opts snaplen out records skipped (p # ps) \<longleftrightarrow> room cd i opts snaplen out (records + 1) (skipped + 1) ps"
  using assms skippable_Inl [OF assms] by (auto simp: room_def)

lemma room_decode:
  assumes "record_result cd i opts snaplen p = Inr found"
  shows "room cd i opts snaplen out records skipped (p # ps) \<longleftrightarrow> room cd i opts snaplen (out @ found) (records + 1) skipped ps"
  using assms by (simp add: room_def add.assoc)

text \<open>Within the limits, the loop runs over the records and only adds to what it has.\<close>

lemma ingest_records_run:
  assumes "room cd i opts snaplen out records skipped ps"
  shows "ingest_records cd i opts snaplen (map Some ps @ rest) out records skipped (sum_list (map value_bytes out))
    = ingest_records cd i opts snaplen rest (out @ decoded_records cd i opts snaplen ps) (records + length ps)
        (skipped + skipped_records cd i opts snaplen ps) (sum_list (map value_bytes (out @ decoded_records cd i opts snaplen ps)))"
  using assms
proof (induction ps arbitrary: out records skipped)
  case (Cons p ps)
  from Cons.prems consider "skippable (record_result cd i opts snaplen p)"
    | found where "record_result cd i opts snaplen p = Inr found" by (auto simp: room_def)
  then show ?case
  proof cases
    case 1
    then obtain stop where stop: "record_result cd i opts snaplen p = Inl stop" using skippable_Inl by blast
    have "room cd i opts snaplen out (records + 1) (skipped + 1) ps" using Cons.prems by (simp add: room_skip [OF 1])
    note Cons.IH [OF this]
    moreover have "records + 1 \<le> MAX_PCAP_RECORDS" "skipped + 1 \<le> MAX_SKIPPED_FRAMES"
      using Cons.prems 1 by (simp_all add: room_def)
    ultimately show ?thesis using 1 stop by (simp add: ingest_records_step del: ingest_records.simps)
  next
    case (2 found)
    have "room cd i opts snaplen (out @ found) (records + 1) skipped ps" using Cons.prems by (simp add: room_decode [OF 2])
    note Cons.IH [OF this]
    moreover have "records + 1 \<le> MAX_PCAP_RECORDS" "length out + length found \<le> MAX_OBSERVATIONS"
      "sum_list (map value_bytes out) + sum_list (map value_bytes found) \<le> MAX_NORMALIZED_VALUE_BYTES"
      using Cons.prems 2 by (simp_all add: room_def)
    ultimately show ?thesis
      using 2 by (simp add: ingest_records_step charge_values_exact and_then_known add.assoc del: ingest_records.simps)
  qed
qed simp

text \<open>A run that ends in a report was within the limits all along.\<close>

lemma ingest_records_within:
  assumes "ingest_records cd i opts snaplen xs out records skipped (sum_list (map value_bytes out)) = Inr rep"
    and "room cd i opts snaplen out records skipped []"
  shows "\<exists>ps. xs = map Some ps \<and> room cd i opts snaplen out records skipped ps"
  using assms
proof (induction xs arbitrary: out records skipped)
  case (Cons x xs)
  obtain p where p: "x = Some p" using Cons.prems(1) by (cases x) (auto simp: or_refuse_def split: if_splits)
  note run = Cons.prems(1) [unfolded p ingest_records_step]
  have few: "records + 1 \<le> MAX_PCAP_RECORDS" using run by (auto split: if_splits)
  show ?case
  proof (cases "record_result cd i opts snaplen p")
    case (Inl stop)
    then have skip: "skippable (record_result cd i opts snaplen p)" and left: "skipped + 1 \<le> MAX_SKIPPED_FRAMES"
      and next': "ingest_records cd i opts snaplen xs out (records + 1) (skipped + 1) (sum_list (map value_bytes out)) = Inr rep"
      using run by (auto split: if_splits)
    have "room cd i opts snaplen out (records + 1) (skipped + 1) []" using Cons.prems(2) few left by (simp add: room_def)
    from Cons.IH [OF next' this] obtain ps where "xs = map Some ps" "room cd i opts snaplen out (records + 1) (skipped + 1) ps"
      by blast
    then show ?thesis by (intro exI [of _ "p # ps"]) (simp add: p room_skip [OF skip])
  next
    case (Inr found)
    have start: "sum_list (map value_bytes out) \<le> MAX_NORMALIZED_VALUE_BYTES" using Cons.prems(2) by (simp add: room_def)
    have left: "length out + length found \<le> MAX_OBSERVATIONS"
      "sum_list (map value_bytes (out @ found)) \<le> MAX_NORMALIZED_VALUE_BYTES"
      and next': "ingest_records cd i opts snaplen xs (out @ found) (records + 1) skipped (sum_list (map value_bytes (out @ found))) = Inr rep"
      using run by (auto simp: Inr charge_values_exact [OF start] split: if_splits)
    have "room cd i opts snaplen (out @ found) (records + 1) skipped []" using Cons.prems(2) few left by (simp add: room_def)
    from Cons.IH [OF next' this] obtain ps where "xs = map Some ps" "room cd i opts snaplen (out @ found) (records + 1) skipped ps"
      by blast
    then show ?thesis by (intro exI [of _ "p # ps"]) (simp add: p room_decode [OF Inr])
  qed
qed simp

lemma charge_values_safe: "safely (charge_values found acc) (\<lambda>_. True)"
  by (induction found acc rule: charge_values.induct) (auto simp: safe_simps)

definition clocked :: "codecs \<Rightarrow> bool" where
  "clocked cd \<longleftrightarrow> (\<forall>s n t. cd_timestamp cd s n = Some t \<longrightarrow> clock_ok cd t)"

lemma ingest_records_safe:
  assumes "clocked cd"
  shows "safely (ingest_records cd i opts snaplen ps out records skipped acc) (\<lambda>_. True)"
proof (induction ps arbitrary: out records skipped acc)
  case Nil
  then show ?case by (simp add: safe_simps)
next
  case (Cons x ps)
  have "normalize cd i t f opts \<noteq> Inl Panicked" if "cd_timestamp cd s n = Some t" for s n t f
    using assms that safely_no_panic [OF normalize_safe] by (auto simp: clocked_def)
  moreover have "safely (charge_values found acc) (\<lambda>acc. safely (ingest_records cd i opts snaplen ps out' n k acc) (\<lambda>_. True))" for found out' n k acc
    by (rule safely_mono [OF charge_values_safe]) (rule Cons.IH)
  ultimately show ?case using Cons.IH
    by (auto simp: safe_simps Let_def split: sum.splits passive_stop.splits)
qed

lemma ingest_pcap_report_opened:
  "capture_opens cd b r \<Longrightarrow> ingest_pcap_report cd i b opts = ingest_records cd i opts (pc_snaplen r) (pc_packets r) [] 0 0 0"
  by (auto simp: capture_opens_def ingest_pcap_report_def or_refuse_def and_then_known MAX_PCAP_BYTES_def MAX_FRAME_BYTES_def)

lemma ingest_pcap_report_cases:
  "ingest_pcap_report cd i b opts = Inr rep \<longleftrightarrow>
     (\<exists>r. capture_opens cd b r \<and> ingest_records cd i opts (pc_snaplen r) (pc_packets r) [] 0 0 0 = Inr rep)"
proof
  assume "ingest_pcap_report cd i b opts = Inr rep"
  then show "\<exists>r. capture_opens cd b r \<and> ingest_records cd i opts (pc_snaplen r) (pc_packets r) [] 0 0 0 = Inr rep"
    by (auto simp: ingest_pcap_report_def or_refuse_def capture_opens_def MAX_PCAP_BYTES_def MAX_FRAME_BYTES_def unat_gt_0
        split: if_splits option.splits)
qed (auto simp: ingest_pcap_report_opened)

text \<open>C35. One bad frame does not hide the rest of a capture. Ingesting a capture never panics, and it succeeds exactly
  when the capture is at most 4 MiB, its header is read and is Ethernet with a snapshot length between 1 and
  65,535, every record is readable and either decodes or is refused as malformed or truncated,
  and there are at most 4,096 records, 256 refused ones, 4,096 observations and a mebibyte of values;
  the report then has, in order, exactly the observations of the records that decode, and counts
  exactly the refused ones. A record refused for another reason, such as an inconsistent length or a time
  out of range, after records within these limits refuses the capture with that reason.\<close>

theorem capture_report_is_exact:
  assumes "clocked cd"
  shows "ingest_pcap_report cd i b opts \<noteq> Inl Panicked
    \<and> (\<forall>rep. ingest_pcap_report cd i b opts = Inr rep \<longleftrightarrow>
        (\<exists>r ps. capture_opens cd b r \<and> pc_packets r = map Some ps \<and> records_within cd i opts (pc_snaplen r) ps
          \<and> pi_observations rep = decoded_records cd i opts (pc_snaplen r) ps
          \<and> pi_skipped_frames rep = skipped_records cd i opts (pc_snaplen r) ps))
    \<and> (\<forall>r ps p rest err. capture_opens cd b r \<and> pc_packets r = map Some ps @ Some p # rest
          \<and> records_within cd i opts (pc_snaplen r) ps \<and> length ps < 4096
          \<and> record_result cd i opts (pc_snaplen r) p = refused err \<and> err \<notin> {Metadata, Truncated} \<longrightarrow>
          ingest_pcap_report cd i b opts = refused err)"
proof (intro conjI allI)
  have "safely (ingest_pcap_report cd i b opts) (\<lambda>_. True)"
    unfolding ingest_pcap_report_def by (auto simp: safe_simps ingest_records_safe [OF assms])
  then show "ingest_pcap_report cd i b opts \<noteq> Inl Panicked" by (rule safely_no_panic)
next
  fix rep
  show "ingest_pcap_report cd i b opts = Inr rep \<longleftrightarrow>
        (\<exists>r ps. capture_opens cd b r \<and> pc_packets r = map Some ps \<and> records_within cd i opts (pc_snaplen r) ps
          \<and> pi_observations rep = decoded_records cd i opts (pc_snaplen r) ps
          \<and> pi_skipped_frames rep = skipped_records cd i opts (pc_snaplen r) ps)" (is "?run \<longleftrightarrow> ?within")
  proof
    assume ?run
    then obtain r where r: "capture_opens cd b r" "ingest_records cd i opts (pc_snaplen r) (pc_packets r) [] 0 0 0 = Inr rep"
      unfolding ingest_pcap_report_cases by blast
    then obtain ps where ps: "pc_packets r = map Some ps" "room cd i opts (pc_snaplen r) [] 0 0 ps"
      using ingest_records_within [of cd i opts "pc_snaplen r" "pc_packets r" "[]" 0 0 rep] by (auto simp: room_def)
    with r(2) ingest_records_run [OF ps(2), of "[]"] show ?within
      by (intro exI [of _ r] exI [of _ ps]) (auto simp: r(1) room_start)
  next
    assume ?within
    then obtain r ps where r: "capture_opens cd b r" "pc_packets r = map Some ps" "room cd i opts (pc_snaplen r) [] 0 0 ps"
      "rep = \<lparr> pi_observations = decoded_records cd i opts (pc_snaplen r) ps, pi_skipped_frames = skipped_records cd i opts (pc_snaplen r) ps \<rparr>"
      unfolding room_start by (auto intro: pcap_ingest.equality)
    with ingest_records_run [OF r(3), of "[]"] show ?run
      unfolding ingest_pcap_report_cases by (intro exI [of _ r]) simp
  qed
next
  fix r ps p rest err
  show "capture_opens cd b r \<and> pc_packets r = map Some ps @ Some p # rest
          \<and> records_within cd i opts (pc_snaplen r) ps \<and> length ps < 4096
          \<and> record_result cd i opts (pc_snaplen r) p = refused err \<and> err \<notin> {Metadata, Truncated} \<longrightarrow>
          ingest_pcap_report cd i b opts = refused err"
  proof (intro impI, elim conjE)
    assume opened: "capture_opens cd b r" "pc_packets r = map Some ps @ Some p # rest"
      and ps: "records_within cd i opts (pc_snaplen r) ps" "length ps < 4096"
      and bad: "record_result cd i opts (pc_snaplen r) p = refused err" "err \<notin> {Metadata, Truncated}"
    from ps(1) have "room cd i opts (pc_snaplen r) [] 0 0 ps" by (simp add: room_start)
    from ingest_records_run [OF this, of "Some p # rest"] ps(2) bad
    have "ingest_records cd i opts (pc_snaplen r) (pc_packets r) [] 0 0 0 = refused err"
      by (simp add: opened(2) ingest_records_step skippable_def MAX_PCAP_RECORDS_def del: ingest_records.simps)
    then show "ingest_pcap_report cd i b opts = refused err" by (simp add: ingest_pcap_report_opened [OF opened(1)])
  qed
qed

section \<open>Concrete frames\<close>

text \<open>A DNS codec that takes the whole payload for the name that is asked for.\<close>

definition sample_message :: "u8 list \<Rightarrow> dns_message" where
  "sample_message q = \<lparr> dq_queries = [map (\<lambda>b. char_of (unat b)) q], dq_answers = [], dq_authorities = [], dq_additionals = [] \<rparr>"

definition arp_frame :: "u8 list" where
  "arp_frame = [255, 255, 255, 255, 255, 255, 2, 0, 0, 0, 0, 7, 8, 6, 0, 1, 8, 0, 6, 4, 0, 1,
     2, 0, 0, 0, 0, 7, 10, 0, 0, 5, 0, 0, 0, 0, 0, 0, 10, 0, 0, 1]"

text \<open>A record that decodes, one that is cut short, and one that claims to hold more than was on the wire.\<close>

definition sample_records :: "pcap_packet list" where
  "sample_records = [\<lparr> pk_secs = 5, pk_nanos = 0, pk_data = arp_frame, pk_orig_len = 42 \<rparr>,
     \<lparr> pk_secs = 6, pk_nanos = 0, pk_data = [1, 2, 3], pk_orig_len = 3 \<rparr>]"

definition bad_record :: pcap_packet where
  "bad_record = \<lparr> pk_secs = 7, pk_nanos = 0, pk_data = [1, 2, 3], pk_orig_len = 2 \<rparr>"

definition sample_codecs :: codecs where
  "sample_codecs =
     \<lparr> cd_add = utc_calendar, cd_timestamp = (\<lambda>s n. if 0 \<le> s \<and> s < 1000000 then Some (seconds s) else None),
       cd_ethernet_ok = (\<lambda>_. True), cd_dns = (\<lambda>q. Some (sample_message q)),
       cd_xml = (\<lambda>_. \<lparr> xr_event = (\<lambda>_. None), xr_resolve = (\<lambda>_ _. None) \<rparr>),
       cd_pcap = (\<lambda>b. Some \<lparr> pc_ethernet = True, pc_snaplen = 256,
         pc_packets = map Some (sample_records @ (if b = [] then [] else [bad_record])) \<rparr>) \<rparr>"

lemma sample_clock: "0 \<le> t \<Longrightarrow> t \<le> seconds 1000000 \<Longrightarrow> clock_ok sample_codecs t"
  unfolding clock_ok_def sample_codecs_def utc_calendar_def
  by (intro exI [of _ "- 8334601228800000000000"] exI [of _ "8210266876799999999999"]) (auto simp: seconds_def)

lemma sample_clocked: "clocked sample_codecs"
proof -
  have "clock_ok sample_codecs t" if "cd_timestamp sample_codecs s n = Some t" for s n t
    by (rule sample_clock) (use that in \<open>auto simp: sample_codecs_def seconds_def split: if_splits\<close>)
  then show ?thesis by (simp add: clocked_def)
qed

definition arp_observation :: "instant \<Rightarrow> passive_observation" where
  "arp_observation t =
     (let fact = (\<lambda>family k v. \<lparr> ef_family = family, ef_source = ''passive.arp'', ef_key = k, ef_value = v, ef_confidence = F32_0_8,
            ef_observed_at = t, ef_expires_at = Some (t + seconds 300), ef_owner_confirmed = False \<rparr>)
      in \<lparr> pv_interface = ''eth0'', pv_observed_at = t, pv_subject_mac = Some ''02:00:00:00:00:07'',
           pv_subject_ip = Some (V4 0x0A000005), pv_protocol = ''arp'',
           pv_facts = [fact LinkLayer ''mac'' ''02:00:00:00:00:07'', fact Addressing ''sender_ip'' ''10.0.0.5'',
             fact Addressing ''sender_mac'' ''02:00:00:00:00:07''] \<rparr>)"

lemma arp_frame_decodes:
  "normalize sample_codecs ''eth0'' (seconds 5) arp_frame default_passive_options = Inr [arp_observation (seconds 5)]"
  by code_simp

theorem frames_decode_safely_witness:
  "normalize sample_codecs ''eth0'' (seconds 5) arp_frame default_passive_options = Inr [arp_observation (seconds 5)]
   \<and> list_all (\<lambda>x. \<not> ef_owner_confirmed x \<and> length (ef_value x) \<le> 1024) (pv_facts (arp_observation (seconds 5)))
   \<and> normalize sample_codecs ''eth0'' (seconds 5) [1, 2, 3] default_passive_options \<noteq> Inl Panicked"
  using frames_decode_safely [of sample_codecs "seconds 5" "''eth0''" arp_frame default_passive_options]
    frames_decode_safely [of sample_codecs "seconds 5" "''eth0''" "[1, 2, 3]" default_passive_options]
    sample_clock [of "seconds 5"] arp_frame_decodes
  by (simp add: seconds_def list_all_iff)

text \<open>Two multicast DNS packets that ask for different names, with payloads of different lengths.\<close>

definition mdns_packet :: "u8 list \<Rightarrow> u8 list \<Rightarrow> udp_packet" where
  "mdns_packet checksum q =
     \<lparr> up_macs = [1, 0, 94, 0, 0, 251, 2, 0, 0, 0, 0, 7],
       up_network = Ipv4Network 69 0 [0, 0, 0, 0, 255, 17] [10, 0, 0, 5, 224, 0, 0, 251],
       up_header_checksum = [0, 0], up_source_port = 5353, up_destination_port = 5353,
       up_checksum = checksum, up_payload = q, up_padding = [] \<rparr>"

definition metadata_off :: passive_options where
  "metadata_off = \<lparr> po_metadata_enabled = False \<rparr>"

lemma mdns_packet_frames:
  "packet_frame (mdns_packet [1, 2] [97]) = [1, 0, 94, 0, 0, 251, 2, 0, 0, 0, 0, 7, 8, 0,
     69, 0, 0, 29, 0, 0, 0, 0, 255, 17, 0, 0, 10, 0, 0, 5, 224, 0, 0, 251, 20, 233, 20, 233, 0, 9, 1, 2, 97]"
  "packet_frame (mdns_packet [3, 4] [98, 99]) = [1, 0, 94, 0, 0, 251, 2, 0, 0, 0, 0, 7, 8, 0,
     69, 0, 0, 30, 0, 0, 0, 0, 255, 17, 0, 0, 10, 0, 0, 5, 224, 0, 0, 251, 20, 233, 20, 233, 0, 10, 3, 4, 98, 99]"
  by (simp_all add: packet_frame_def mdns_packet_def udp_bytes_def bytes16_def)

lemma mdns_packets_differ:
  "normalize sample_codecs ''eth0'' (seconds 5) (packet_frame (mdns_packet [1, 2] [97])) default_passive_options
     \<noteq> normalize sample_codecs ''eth0'' (seconds 5) (packet_frame (mdns_packet [3, 4] [98, 99])) default_passive_options"
  unfolding mdns_packet_frames by code_simp

lemma mdns_packets_ok:
  "packet_ok (mdns_packet [1, 2] [97])" "packet_ok (mdns_packet [3, 4] [98, 99])"
  unfolding packet_ok_def mdns_packet_frames by (simp_all add: mdns_packet_def MAX_FRAME_BYTES_def)

theorem query_names_stay_private_witness:
  "normalize sample_codecs ''eth0'' (seconds 5) (packet_frame (mdns_packet [1, 2] [97])) metadata_off
     = normalize sample_codecs ''eth0'' (seconds 5) (packet_frame (mdns_packet [3, 4] [98, 99])) metadata_off
   \<and> normalize sample_codecs ''eth0'' (seconds 5) (packet_frame (mdns_packet [1, 2] [97])) default_passive_options
     \<noteq> normalize sample_codecs ''eth0'' (seconds 5) (packet_frame (mdns_packet [3, 4] [98, 99])) default_passive_options"
  using query_names_stay_private [of metadata_off "mdns_packet [1, 2] [97]" "mdns_packet [3, 4] [98, 99]" sample_codecs "''eth0''" "seconds 5"]
    mdns_packets_ok mdns_packets_differ
  by (simp add: metadata_off_def dns_ports_def same_envelope_def mdns_packet_def without_queries_def sample_codecs_def sample_message_def)

definition dhcp4_start :: dhcp4_state where
  "dhcp4_start = \<lparr> d4_client = [], d4_lease = 300, d4_options = 0, d4_hostname = False, d4_client_seen = False,
     d4_server_seen = False, d4_lease_seen = False, d4_server_id = None \<rparr>"

theorem dhcp4_options_round_trip_witness:
  "dhcp4_options ([1, 2, 3] @ encode_options [(12, [104, 105])] @ 255 # [12, 9]) 3 dhcp4_start
     = read_options [(12, [104, 105])] dhcp4_start"
  using dhcp4_options_round_trip [of "[(12, [104, 105])]" "[1, 2, 3]" "[12, 9]" dhcp4_start]
  by (simp add: encodable_def numeral_3_eq_3)

lemma sample_capture:
  "ingest_pcap_report sample_codecs ''eth0'' [] default_passive_options
     = Inr \<lparr> pi_observations = [arp_observation (seconds 5)], pi_skipped_frames = 1 \<rparr>"
  by code_simp

theorem capture_report_is_exact_witness:
  "ingest_pcap_report sample_codecs ''eth0'' [] default_passive_options
     = Inr \<lparr> pi_observations = [arp_observation (seconds 5)], pi_skipped_frames = 1 \<rparr>
   \<and> decoded_records sample_codecs ''eth0'' default_passive_options 256 sample_records = [arp_observation (seconds 5)]
   \<and> skipped_records sample_codecs ''eth0'' default_passive_options 256 sample_records = 1
   \<and> ingest_pcap_report sample_codecs ''eth0'' [0] default_passive_options = refused InvalidLength"
proof -
  note exact = capture_report_is_exact [OF sample_clocked, of "''eth0''" _ default_passive_options]
  obtain r ps where r: "capture_opens sample_codecs [] r" "pc_packets r = map Some ps"
    "records_within sample_codecs ''eth0'' default_passive_options (pc_snaplen r) ps"
    "decoded_records sample_codecs ''eth0'' default_passive_options (pc_snaplen r) ps = [arp_observation (seconds 5)]"
    "skipped_records sample_codecs ''eth0'' default_passive_options (pc_snaplen r) ps = 1"
    using conjunct1 [OF conjunct2 [OF exact [of "[]"]], rule_format, THEN iffD1, OF sample_capture] by auto
  then have ps: "pc_snaplen r = 256" "ps = sample_records" by (auto simp: capture_opens_def sample_codecs_def dest: map_injective)
  define r' where "r' = \<lparr> pc_ethernet = True, pc_snaplen = 256, pc_packets = map Some sample_records @ Some bad_record # [] \<rparr>"
  have "capture_opens sample_codecs [0] r'" by (simp add: capture_opens_def sample_codecs_def r'_def)
  moreover have "record_result sample_codecs ''eth0'' default_passive_options 256 bad_record = refused InvalidLength"
    by (simp add: record_result_def bad_record_def)
  moreover have "pc_snaplen r' = 256" "pc_packets r' = map Some sample_records @ Some bad_record # []" "length sample_records < 4096"
    by (simp_all add: r'_def sample_records_def)
  ultimately have "ingest_pcap_report sample_codecs ''eth0'' [0] default_passive_options = refused InvalidLength"
    using conjunct2 [OF conjunct2 [OF exact [of "[0]"]], rule_format, of r' sample_records bad_record "[]" InvalidLength] r(3)
    by (simp add: ps)
  with r(4,5) sample_capture show ?thesis by (simp add: ps)
qed

end
