(* ===== verification/Audit_Manifest.thy ===== *)
theory Audit_Manifest
  imports Rust_Text
begin

text \<open>
  The signed manifest of an audit module (\<open>lattice-audit-wasm/src/manifest.rs\<close>): its data, the
  structural checks, the bytes that are signed, verification, and what the deserialiser checks beyond
  what serde does. SHA-256 and Ed25519 are parameters. A \<open>BTreeSet\<close> or a \<open>BTreeMap\<close> is
  the list of its entries in ascending order; an array is a list of its length.
\<close>

section \<open>Limits\<close>

definition MAX_WASM_BYTES :: u64 where "MAX_WASM_BYTES = 16777216"
definition MAX_TEXT :: int where "MAX_TEXT = 4096"
definition MAX_FIELDS :: nat where "MAX_FIELDS = 64"
definition MAX_CAPABILITIES :: nat where "MAX_CAPABILITIES = 16"
definition MAX_REQUESTS :: u32 where "MAX_REQUESTS = 1024"
definition MAX_TIME_SECS :: int where "MAX_TIME_SECS = 300"
definition MAX_FUEL :: u64 where "MAX_FUEL = 10000000000"
definition MAX_MEMORY_PAGES :: u32 where "MAX_MEMORY_PAGES = 1024"

text \<open>A \<open>std::time::Duration\<close> is its number of nanoseconds.\<close>

record limits =
  lm_max_bytes :: u64
  lm_max_requests :: u32
  lm_max_time :: duration
  lm_max_fuel :: u64
  lm_max_memory_pages :: u32

definition as_secs :: "duration \<Rightarrow> int" where "as_secs d = d div 1000000000"
definition subsec_nanos :: "duration \<Rightarrow> int" where "subsec_nanos d = d mod 1000000000"

definition valid_limits :: "limits \<Rightarrow> bool" where
  "valid_limits l \<longleftrightarrow>
     0 < lm_max_bytes l \<and> lm_max_bytes l \<le> MAX_WASM_BYTES
     \<and> 0 < lm_max_requests l \<and> lm_max_requests l \<le> MAX_REQUESTS
     \<and> lm_max_time l \<noteq> 0 \<and> subsec_nanos (lm_max_time l) = 0 \<and> as_secs (lm_max_time l) \<le> MAX_TIME_SECS
     \<and> 0 < lm_max_fuel l \<and> lm_max_fuel l \<le> MAX_FUEL
     \<and> 0 < lm_max_memory_pages l \<and> lm_max_memory_pages l \<le> MAX_MEMORY_PAGES"

section \<open>The manifest\<close>

datatype side_effect_profile =
    ReadOnly | Destructive | Persistent | CredentialExfiltration | DenialOfService | FirmwareWrite

datatype audit_error =
    InvalidManifest string
  | DigestMismatch
  | InvalidSignature
  | UnsafeSideEffects side_effect_profile
  | WasmTooLarge
  | ForbiddenImport string
  | FuelExhausted
  | SandboxTimedOut
  | MemoryLimitExceeded
  | TableLimitExceeded
  | OutputLimitExceeded
  | GuestTrapped
  | InvalidModule
  | InvalidAbi
  | InputLimitExceeded
  | RequestLimitExceeded
  | ByteBudgetExhausted
  | HostRejected
  | AuditCancelled

datatype capability = TcpExchange u16 | HttpExchange u16 | TlsMetadata u16

fun capability_key :: "capability \<Rightarrow> nat \<times> u16" where
  "capability_key (TcpExchange p) = (0, p)"
| "capability_key (HttpExchange p) = (1, p)"
| "capability_key (TlsMetadata p) = (2, p)"

lemma capability_key_inj [simp]: "capability_key a = capability_key b \<longleftrightarrow> a = b"
  by (cases a; cases b) simp_all

instantiation capability :: linorder
begin

definition less_eq_capability :: "capability \<Rightarrow> capability \<Rightarrow> bool" where
  "less_eq_capability a b \<longleftrightarrow> capability_key a \<le> capability_key b"

definition less_capability :: "capability \<Rightarrow> capability \<Rightarrow> bool" where
  "less_capability a b \<longleftrightarrow> capability_key a < capability_key b"

instance
proof
  fix x y z :: capability
  show "(x < y) = (x \<le> y \<and> \<not> y \<le> x)" unfolding less_eq_capability_def less_capability_def by (rule less_le_not_le)
  show "x \<le> x" by (simp add: less_eq_capability_def)
  show "x \<le> y \<Longrightarrow> y \<le> z \<Longrightarrow> x \<le> z" unfolding less_eq_capability_def by (rule order_trans)
  show "x \<le> y \<Longrightarrow> y \<le> x \<Longrightarrow> x = y" unfolding less_eq_capability_def using capability_key_inj by (metis antisym)
  show "x \<le> y \<or> y \<le> x" unfolding less_eq_capability_def by (rule linear)
qed

end

datatype target_kind = NumericPrivateDevice

record rollback_plan =
  rp_required :: bool
  rp_description :: string

datatype evidence_type = EvidenceText | EvidenceInteger | EvidenceBoolean | EvidenceBytes

type_synonym evidence_schema = "(string \<times> evidence_type) list"

record audit_manifest =
  am_module_id :: string
  am_version :: u16
  am_sha256 :: "u8 list"
  am_target_kind :: target_kind
  am_capabilities :: "capability list"
  am_expected_behavior :: string
  am_side_effects :: side_effect_profile
  am_rollback :: rollback_plan
  am_evidence_schema :: evidence_schema
  am_limits :: limits
  am_signature :: "u8 list"

text \<open>What the types of the source guarantee: arrays have their length, sets and maps are in order.\<close>

definition manifest_typed :: "audit_manifest \<Rightarrow> bool" where
  "manifest_typed m \<longleftrightarrow>
     length (am_sha256 m) = 32 \<and> length (am_signature m) = 64 \<and> 0 \<le> lm_max_time (am_limits m)
     \<and> sorted_wrt (<) (am_capabilities m) \<and> sorted_wrt (<) (map fst (am_evidence_schema m))"

fun capability_port :: "capability \<Rightarrow> u16" where
  "capability_port (TcpExchange p) = p"
| "capability_port (HttpExchange p) = p"
| "capability_port (TlsMetadata p) = p"

text \<open>The bytes a module identifier may have: \<open>is_ascii_alphanumeric\<close>, dot, hyphen and underscore.\<close>

definition ascii_letter :: "char \<Rightarrow> bool" where
  "ascii_letter c = (let n = byte_of c in n \<in> {65..90} \<or> n \<in> {97..122})"

definition module_id_char :: "char \<Rightarrow> bool" where
  "module_id_char c \<longleftrightarrow> is_digit c \<or> ascii_letter c \<or> byte_of c = 46 \<or> byte_of c = 45 \<or> byte_of c = 95"

definition has_control :: "string \<Rightarrow> bool" where
  "has_control s \<longleftrightarrow> list_ex is_control (str_scalars s)"

definition bad_text :: "string \<Rightarrow> bool" where
  "bad_text s \<longleftrightarrow> trim s = [] \<or> MAX_TEXT < int (length s) \<or> trim s \<noteq> s \<or> has_control s"

definition bad_field_key :: "string \<Rightarrow> bool" where
  "bad_field_key k \<longleftrightarrow> k = [] \<or> 128 < int (length k) \<or> trim k \<noteq> k \<or> has_control k"

definition from_parts :: "audit_manifest \<Rightarrow> audit_error + audit_manifest" where
  "from_parts m =
     (if am_version m = 0 \<or> am_module_id m = [] \<or> 128 < int (length (am_module_id m))
         \<or> \<not> list_all module_id_char (am_module_id m)
      then Inl (InvalidManifest ''noncanonical module identity'')
      else if bad_text (am_expected_behavior m) \<or> bad_text (rp_description (am_rollback m))
      then Inl (InvalidManifest ''invalid text'')
      else if rp_required (am_rollback m)
      then Inl (InvalidManifest ''executable rollback is unsupported'')
      else if am_capabilities m = [] \<or> MAX_CAPABILITIES < length (am_capabilities m)
         \<or> list_ex (\<lambda>c. capability_port c = 0) (am_capabilities m)
      then Inl (InvalidManifest ''invalid capabilities'')
      else if am_evidence_schema m = [] \<or> MAX_FIELDS < length (am_evidence_schema m)
         \<or> list_ex (\<lambda>(k, _). bad_field_key k) (am_evidence_schema m)
      then Inl (InvalidManifest ''invalid evidence schema'')
      else if \<not> valid_limits (am_limits m) then Inl (InvalidManifest ''invalid limits'')
      else Inr m)"

definition new_manifest :: "audit_manifest \<Rightarrow> audit_error + audit_manifest" where
  "new_manifest m = from_parts (m \<lparr> am_signature := replicate 64 0 \<rparr>)"

section \<open>The signed bytes\<close>

definition as_bytes :: "string \<Rightarrow> u8 list" where
  "as_bytes s = map (\<lambda>c. of_nat (byte_of c)) s"

text \<open>\<open>to_be_bytes\<close> of an unsigned integer of so many bytes.\<close>

fun be_bytes :: "nat \<Rightarrow> int \<Rightarrow> u8 list" where
  "be_bytes 0 n = []"
| "be_bytes (Suc k) n = be_bytes k (n div 256) @ [word_of_int n]"

definition DOMAIN :: "u8 list" where
  "DOMAIN = as_bytes ''NeonHearth/lattice-audit-wasm/manifest/v1'' @ [0]"

definition put_str :: "string \<Rightarrow> u8 list" where
  "put_str s = be_bytes 4 (int (length s)) @ as_bytes s"

fun capability_bytes :: "capability \<Rightarrow> u8 list" where
  "capability_bytes (TcpExchange p) = 1 # be_bytes 2 (uint p)"
| "capability_bytes (HttpExchange p) = 2 # be_bytes 2 (uint p)"
| "capability_bytes (TlsMetadata p) = 3 # be_bytes 2 (uint p)"

fun side_effect_byte :: "side_effect_profile \<Rightarrow> u8" where
  "side_effect_byte ReadOnly = 0"
| "side_effect_byte Destructive = 1"
| "side_effect_byte Persistent = 2"
| "side_effect_byte CredentialExfiltration = 3"
| "side_effect_byte DenialOfService = 4"
| "side_effect_byte FirmwareWrite = 5"

fun evidence_type_byte :: "evidence_type \<Rightarrow> u8" where
  "evidence_type_byte EvidenceText = 1"
| "evidence_type_byte EvidenceInteger = 2"
| "evidence_type_byte EvidenceBoolean = 3"
| "evidence_type_byte EvidenceBytes = 4"

definition field_bytes :: "string \<times> evidence_type \<Rightarrow> u8 list" where
  "field_bytes x = put_str (fst x) @ [evidence_type_byte (snd x)]"

definition limits_bytes :: "limits \<Rightarrow> u8 list" where
  "limits_bytes l = be_bytes 8 (uint (lm_max_bytes l)) @ be_bytes 4 (uint (lm_max_requests l))
     @ be_bytes 8 (as_secs (lm_max_time l)) @ be_bytes 8 (uint (lm_max_fuel l)) @ be_bytes 4 (uint (lm_max_memory_pages l))"

definition canonical_unsigned :: "audit_manifest \<Rightarrow> u8 list" where
  "canonical_unsigned m =
     DOMAIN @ put_str (am_module_id m) @ be_bytes 2 (uint (am_version m)) @ am_sha256 m
     @ [case am_target_kind m of NumericPrivateDevice \<Rightarrow> 1]
     @ be_bytes 4 (int (length (am_capabilities m))) @ concat (map capability_bytes (am_capabilities m))
     @ put_str (am_expected_behavior m) @ [side_effect_byte (am_side_effects m)]
     @ [if rp_required (am_rollback m) then 1 else 0] @ put_str (rp_description (am_rollback m))
     @ be_bytes 4 (int (length (am_evidence_schema m))) @ concat (map field_bytes (am_evidence_schema m))
     @ limits_bytes (am_limits m)"

definition sign_manifest :: "(u8 list \<Rightarrow> u8 list) \<Rightarrow> audit_manifest \<Rightarrow> audit_manifest" where
  "sign_manifest key m = m \<lparr> am_signature := key (canonical_unsigned m) \<rparr>"

section \<open>Verification\<close>

record verified_manifest =
  vm_inner :: audit_manifest
  vm_wasm :: "u8 list"

definition verify_manifest ::
  "(u8 list \<Rightarrow> u8 list) \<Rightarrow> (u8 list \<Rightarrow> u8 list \<Rightarrow> bool) \<Rightarrow> audit_manifest \<Rightarrow> u8 list \<Rightarrow> audit_error + verified_manifest" where
  "verify_manifest digest verify_strict m wasm =
     and_then (from_parts m) (\<lambda>_.
       if uint MAX_WASM_BYTES < int (length wasm) then Inl WasmTooLarge
       else if digest wasm \<noteq> am_sha256 m then Inl DigestMismatch
       else if am_side_effects m \<noteq> ReadOnly then Inl (UnsafeSideEffects (am_side_effects m))
       else if \<not> verify_strict (canonical_unsigned m) (am_signature m) then Inl InvalidSignature
       else Inr \<lparr> vm_inner = m, vm_wasm = wasm \<rparr>)"

section \<open>Deserialisation\<close>

text \<open>
  What serde hands to the visitors, the entries of sequences and maps in the order of the document,
  and what the visitors make of it. An error is its message.
\<close>

record audit_wire =
  wi_module_id :: string
  wi_version :: u16
  wi_sha256 :: "u8 list"
  wi_target_kind :: target_kind
  wi_capabilities :: "capability list"
  wi_expected_behavior :: string
  wi_side_effects :: side_effect_profile
  wi_rollback :: rollback_plan
  wi_evidence_schema :: "(string \<times> evidence_schema) list"
  wi_limits :: limits
  wi_signature :: "u8 list"

definition bounded_string :: "int \<Rightarrow> string \<Rightarrow> string + string" where
  "bounded_string limit v = (if limit < int (length v) then Inl ''string exceeds maximum length'' else Inr v)"

definition bounded_signature :: "u8 list \<Rightarrow> string + u8 list" where
  "bounded_signature v = (if length v = 64 then Inr v else Inl ''signature must contain exactly 64 bytes'')"

text \<open>\<open>BTreeMap::insert\<close> and \<open>BTreeSet::insert\<close> of an absent entry.\<close>

fun visit_fields :: "evidence_schema \<Rightarrow> evidence_schema \<Rightarrow> string + evidence_schema" where
  "visit_fields out [] = Inr out"
| "visit_fields out ((k, v) # rest) =
     (if length out = MAX_FIELDS then Inl ''too many evidence fields''
      else if bad_field_key k then Inl ''invalid evidence field key''
      else if k \<in> fst ` set out then Inl ''duplicate evidence field''
      else visit_fields (insort_key fst (k, v) out) rest)"

fun visit_schema :: "evidence_schema option \<Rightarrow> (string \<times> evidence_schema) list \<Rightarrow> string + evidence_schema" where
  "visit_schema None [] = Inl ''missing fields''"
| "visit_schema (Some found) [] = Inr found"
| "visit_schema found ((k, entries) # rest) =
     (if k \<noteq> ''fields'' \<or> found \<noteq> None then Inl ''unknown or duplicate evidence schema field''
      else and_then (visit_fields [] entries) (\<lambda>out. visit_schema (Some out) rest))"

fun visit_capabilities :: "capability list \<Rightarrow> capability list \<Rightarrow> string + capability list" where
  "visit_capabilities out [] = Inr out"
| "visit_capabilities out (c # rest) =
     (if length out = MAX_CAPABILITIES then Inl ''too many capabilities'' else visit_capabilities (out @ [c]) rest)"

fun insert_capabilities :: "capability list \<Rightarrow> capability list \<Rightarrow> string + capability list" where
  "insert_capabilities out [] = Inr out"
| "insert_capabilities out (c # rest) =
     (if c \<in> set out then Inl ''duplicate capability'' else insert_capabilities (insort c out) rest)"

text \<open>\<open>Display\<close> of the errors of \<open>from_parts\<close>, which are all of one kind.\<close>

definition manifest_error_text :: "audit_error \<Rightarrow> string" where
  "manifest_error_text e = (case e of InvalidManifest s \<Rightarrow> ''invalid manifest: '' @ s | _ \<Rightarrow> [])"

definition deserialize_manifest :: "audit_wire \<Rightarrow> string + audit_manifest" where
  "deserialize_manifest w =
     and_then (bounded_string 128 (wi_module_id w)) (\<lambda>module_id.
     and_then (visit_capabilities [] (wi_capabilities w)) (\<lambda>caps.
     and_then (bounded_string MAX_TEXT (wi_expected_behavior w)) (\<lambda>behavior.
     and_then (bounded_string MAX_TEXT (rp_description (wi_rollback w))) (\<lambda>description.
     and_then (visit_schema None (wi_evidence_schema w)) (\<lambda>schema.
     and_then (bounded_signature (wi_signature w)) (\<lambda>signature.
     if MAX_CAPABILITIES < length caps then Inl ''too many capabilities''
     else and_then (insert_capabilities [] caps) (\<lambda>capabilities.
     case from_parts \<lparr> am_module_id = module_id, am_version = wi_version w, am_sha256 = wi_sha256 w,
         am_target_kind = wi_target_kind w, am_capabilities = capabilities, am_expected_behavior = behavior,
         am_side_effects = wi_side_effects w,
         am_rollback = \<lparr> rp_required = rp_required (wi_rollback w), rp_description = description \<rparr>,
         am_evidence_schema = schema, am_limits = wi_limits w, am_signature = signature \<rparr> of
       Inl e \<Rightarrow> Inl (manifest_error_text e)
     | Inr m \<Rightarrow> Inr m)))))))"

text \<open>What the derived \<open>Serialize\<close> writes; a duration is written as its whole seconds.\<close>

definition serialize_manifest :: "audit_manifest \<Rightarrow> audit_wire" where
  "serialize_manifest m =
     \<lparr> wi_module_id = am_module_id m, wi_version = am_version m, wi_sha256 = am_sha256 m,
       wi_target_kind = am_target_kind m, wi_capabilities = am_capabilities m,
       wi_expected_behavior = am_expected_behavior m, wi_side_effects = am_side_effects m,
       wi_rollback = am_rollback m, wi_evidence_schema = [(''fields'', am_evidence_schema m)],
       wi_limits = (am_limits m) \<lparr> lm_max_time := seconds (as_secs (lm_max_time (am_limits m))) \<rparr>,
       wi_signature = am_signature m \<rparr>"

end
