(* ===== verification/Audit_Runtime.thy ===== *)
theory Audit_Runtime
  imports Audit_Manifest
begin

text \<open>
  The sandbox that runs an audit module (\<open>lattice-audit-wasm/src/runtime.rs\<close>) and the targets it may
  be pointed at (\<open>target.rs\<close>). The WebAssembly engine is a parameter: what it compiles, what a
  module imports and exports, and what the guest does between two calls of the host. The host is a
  function of the sandbox, as in the source. Time limits of the asynchronous runtime are answers of the
  environment at the points where the code can be suspended.
\<close>

section \<open>Targets\<close>

datatype target_error = InvalidTarget | InvalidInterface | InvalidPort | TargetRejected

record authorized_target =
  au_target :: ip_addr
  au_interface :: u32
  au_port :: u16

text \<open>The address classes of the standard library.\<close>

definition ipv4_private :: "u32 \<Rightarrow> bool" where
  "ipv4_private a \<longleftrightarrow> uint a div 2 ^ 24 = 10 \<or> uint a div 2 ^ 20 = 0xAC1 \<or> uint a div 2 ^ 16 = 0xC0A8"

definition ipv4_link_local :: "u32 \<Rightarrow> bool" where "ipv4_link_local a \<longleftrightarrow> uint a div 2 ^ 16 = 0xA9FE"
definition ipv4_loopback :: "u32 \<Rightarrow> bool" where "ipv4_loopback a \<longleftrightarrow> uint a div 2 ^ 24 = 127"
definition ipv4_multicast :: "u32 \<Rightarrow> bool" where "ipv4_multicast a \<longleftrightarrow> uint a div 2 ^ 28 = 14"
definition ipv4_broadcast :: "u32 \<Rightarrow> bool" where "ipv4_broadcast a \<longleftrightarrow> a = 0xFFFFFFFF"
definition ipv6_unique_local :: "128 word \<Rightarrow> bool" where "ipv6_unique_local a \<longleftrightarrow> uint a div 2 ^ 121 = 0x7E"
definition ipv6_unicast_link_local :: "128 word \<Rightarrow> bool" where "ipv6_unicast_link_local a \<longleftrightarrow> uint a div 2 ^ 118 = 0x3FA"
definition ipv6_multicast :: "128 word \<Rightarrow> bool" where "ipv6_multicast a \<longleftrightarrow> uint a div 2 ^ 120 = 0xFF"

fun target_allowed :: "ip_addr \<Rightarrow> bool" where
  "target_allowed (V4 a) \<longleftrightarrow> (ipv4_private a \<or> ipv4_link_local a) \<and> \<not> ipv4_loopback a \<and> \<not> ipv4_multicast a
     \<and> \<not> ipv4_broadcast a \<and> a \<noteq> 0"
| "target_allowed (V6 a) \<longleftrightarrow> a \<noteq> 1 \<and> \<not> ipv6_multicast a \<and> a \<noteq> 0 \<and> (ipv6_unique_local a \<or> ipv6_unicast_link_local a)"

definition new_target :: "ip_addr \<Rightarrow> u32 \<Rightarrow> u16 \<Rightarrow> target_error + authorized_target" where
  "new_target ip interface port =
     (if interface = 0 then Inl InvalidInterface
      else if port = 0 then Inl InvalidPort
      else if \<not> target_allowed ip then Inl InvalidTarget
      else Inr \<lparr> au_target = ip, au_interface = interface, au_port = port \<rparr>)"

section \<open>The engine\<close>

datatype val_type = I32 | I64 | OtherVal

datatype extern_type = ExternFunc "val_type list" "val_type list" | ExternMemory | ExternOther

record module_import =
  mi_module :: string
  mi_name :: string
  mi_type :: extern_type

record module_export =
  me_name :: string
  me_type :: extern_type

text \<open>What the parser finds in the module; \<open>None\<close> is an error of the parser.\<close>

record memory_type =
  mt_memory64 :: bool
  mt_shared :: bool
  mt_custom_page :: bool
  mt_initial :: nat
  mt_maximum :: "nat option"

record table_type =
  tt_table64 :: bool
  tt_shared :: bool
  tt_initial :: nat
  tt_maximum :: "nat option"

datatype wasm_payload =
    StartSection
  | ImportSection "(string \<times> string \<times> bool) option list"
  | MemorySection "memory_type option list"
  | TableSection "table_type option list"
  | OtherPayload

datatype growth = GrowMemory nat | GrowTable nat

datatype guest_trap = OutOfFuel | Interrupt | OtherTrap

text \<open>Signed 32 and 64 bit values of the guest are integers.\<close>

datatype guest_action =
    CallDeterministic
  | CallExchange int int int int
  | Returned int
  | Trapped guest_trap

text \<open>
  The guest between two host calls asks for growth and then calls the host, returns or traps; its fuel
  is given at instantiation. Reading and writing are of the exported memory.
\<close>

record ('m, 'g) wasm_engine =
  we_compile :: "u8 list \<Rightarrow> 'm option"
  we_imports :: "'m \<Rightarrow> module_import list"
  we_exports :: "'m \<Rightarrow> module_export list"
  we_payloads :: "u8 list \<Rightarrow> wasm_payload option list"
  we_instantiate :: "u64 \<Rightarrow> 'm \<Rightarrow> growth list \<times> (guest_trap + 'g)"
  we_memory :: "'g \<Rightarrow> u8 list option"
  we_write :: "'g \<Rightarrow> nat \<Rightarrow> u8 list \<Rightarrow> 'g option"
  we_run :: "'g \<Rightarrow> nat \<Rightarrow> nat \<Rightarrow> 'g option"
  we_next :: "'g \<Rightarrow> growth list \<times> guest_action"
  we_resume :: "'g \<Rightarrow> int \<Rightarrow> 'g"

section \<open>Admission\<close>

definition MAX_TABLE_ELEMENTS :: nat where "MAX_TABLE_ELEMENTS = 64"

definition takes :: "extern_type \<Rightarrow> nat \<Rightarrow> val_type \<Rightarrow> bool" where
  "takes t n result = (case t of ExternFunc ps rs \<Rightarrow> length ps = n \<and> list_all ((=) I32) ps \<and> rs = [result] | _ \<Rightarrow> False)"

fun check_imports :: "module_import list \<Rightarrow> audit_error + unit" where
  "check_imports [] = Inr ()"
| "check_imports (i # rest) =
     (if mi_module i = ''audit'' \<and> mi_name i = ''deterministic''
      then (if takes (mi_type i) 0 I32 then check_imports rest else Inl InvalidAbi)
      else if mi_module i = ''audit'' \<and> mi_name i = ''exchange''
      then (if takes (mi_type i) 4 I32 then check_imports rest else Inl InvalidAbi)
      else Inl (ForbiddenImport (mi_module i @ ''::'' @ mi_name i)))"

definition find_export :: "string \<Rightarrow> module_export list \<Rightarrow> audit_error + extern_type" where
  "find_export name xs = (case find (\<lambda>x. me_name x = name) xs of None \<Rightarrow> Inl InvalidAbi | Some x \<Rightarrow> Inr (me_type x))"

definition validate_abi :: "('m, 'g) wasm_engine \<Rightarrow> 'm \<Rightarrow> audit_error + unit" where
  "validate_abi en c =
     and_then (check_imports (we_imports en c)) (\<lambda>_.
     and_then (find_export ''run'' (we_exports en c)) (\<lambda>run.
     and_then (find_export ''memory'' (we_exports en c)) (\<lambda>mem.
     if mem \<noteq> ExternMemory \<or> \<not> takes run 2 I64 then Inl InvalidAbi else Inr ())))"

definition compile_module :: "('m, 'g) wasm_engine \<Rightarrow> verified_manifest \<Rightarrow> audit_error + 'm" where
  "compile_module en v =
     (case we_compile en (vm_wasm v) of
        None \<Rightarrow> Inl InvalidModule
      | Some c \<Rightarrow> and_then (validate_abi en c) (\<lambda>_. Inr c))"

fun check_static_imports :: "(string \<times> string \<times> bool) option list \<Rightarrow> audit_error + unit" where
  "check_static_imports [] = Inr ()"
| "check_static_imports (None # rest) = Inl InvalidModule"
| "check_static_imports (Some (from, name, is_func) # rest) =
     (if from = ''audit'' \<and> (name = ''deterministic'' \<or> name = ''exchange'')
      then (if is_func then check_static_imports rest else Inl InvalidAbi)
      else Inl (ForbiddenImport (from @ ''::'' @ name)))"

fun check_memories :: "limits \<Rightarrow> memory_type option list \<Rightarrow> u32 \<Rightarrow> audit_error + u32" where
  "check_memories l [] n = Inr n"
| "check_memories l (m # rest) n =
     (case checked_add n 1 of
        None \<Rightarrow> Inl MemoryLimitExceeded
      | Some n \<Rightarrow>
          (case m of
             None \<Rightarrow> Inl InvalidModule
           | Some m \<Rightarrow>
               if mt_memory64 m \<or> mt_shared m \<or> mt_custom_page m \<or> unat (lm_max_memory_pages l) < mt_initial m
                  \<or> is_some_and (mt_maximum m) (\<lambda>x. unat (lm_max_memory_pages l) < x)
               then Inl MemoryLimitExceeded else check_memories l rest n))"

fun check_tables :: "table_type option list \<Rightarrow> u32 \<Rightarrow> audit_error + u32" where
  "check_tables [] n = Inr n"
| "check_tables (t # rest) n =
     (case checked_add n 1 of
        None \<Rightarrow> Inl TableLimitExceeded
      | Some n \<Rightarrow>
          (case t of
             None \<Rightarrow> Inl InvalidModule
           | Some t \<Rightarrow>
               if tt_table64 t \<or> tt_shared t \<or> MAX_TABLE_ELEMENTS < tt_initial t
                  \<or> is_some_and (tt_maximum t) (\<lambda>x. MAX_TABLE_ELEMENTS < x)
               then Inl TableLimitExceeded else check_tables rest n))"

fun check_payloads :: "limits \<Rightarrow> wasm_payload option list \<Rightarrow> u32 \<Rightarrow> u32 \<Rightarrow> audit_error + u32 \<times> u32" where
  "check_payloads l [] memories tables = Inr (memories, tables)"
| "check_payloads l (p # rest) memories tables =
     (case p of
        None \<Rightarrow> Inl InvalidModule
      | Some StartSection \<Rightarrow> Inl InvalidAbi
      | Some (ImportSection xs) \<Rightarrow> and_then (check_static_imports xs) (\<lambda>_. check_payloads l rest memories tables)
      | Some (MemorySection xs) \<Rightarrow> and_then (check_memories l xs memories) (\<lambda>n. check_payloads l rest n tables)
      | Some (TableSection xs) \<Rightarrow> and_then (check_tables xs tables) (\<lambda>n. check_payloads l rest memories n)
      | Some OtherPayload \<Rightarrow> check_payloads l rest memories tables)"

definition validate_static_limits :: "('m, 'g) wasm_engine \<Rightarrow> u8 list \<Rightarrow> limits \<Rightarrow> audit_error + unit" where
  "validate_static_limits en wasm l =
     and_then (check_payloads l (we_payloads en wasm) 0 0) (\<lambda>(memories, tables).
       if memories \<noteq> 1 then Inl InvalidAbi else if 1 < tables then Inl TableLimitExceeded else Inr ())"

definition check_limits :: "verified_manifest \<Rightarrow> limits \<Rightarrow> audit_error + unit" where
  "check_limits v l =
     (let signed = am_limits (vm_inner v)
      in if \<not> valid_limits l \<or> lm_max_bytes signed < lm_max_bytes l \<or> lm_max_requests signed < lm_max_requests l
            \<or> lm_max_time signed < lm_max_time l \<or> lm_max_fuel signed < lm_max_fuel l
            \<or> lm_max_memory_pages signed < lm_max_memory_pages l
         then Inl (InvalidManifest ''invalid effective limits'') else Inr ())"

record 'm sandbox =
  sb_compiled :: 'm
  sb_limits :: limits

definition with_compiled :: "('m, 'g) wasm_engine \<Rightarrow> verified_manifest \<Rightarrow> 'm \<Rightarrow> limits \<Rightarrow> audit_error + 'm sandbox" where
  "with_compiled en v c l =
     and_then (check_limits v l) (\<lambda>_. and_then (validate_static_limits en (vm_wasm v) l) (\<lambda>_.
       Inr \<lparr> sb_compiled = c, sb_limits = l \<rparr>))"

definition new_with_limits :: "('m, 'g) wasm_engine \<Rightarrow> verified_manifest \<Rightarrow> limits \<Rightarrow> audit_error + 'm sandbox" where
  "new_with_limits en v l =
     and_then (check_limits v l) (\<lambda>_. and_then (compile_module en v) (\<lambda>c. with_compiled en v c l))"

section \<open>Execution\<close>

datatype audit_host_error = HostDenied | HostBudgetExhausted | HostDeadlineExceeded | HostCancelled | HostExchangeFailed

datatype execution_failure =
    FailMemory | FailTable | FailRequest | FailBytes | FailInvalidAbi | FailHost audit_host_error

record store_state =
  ss_max_memory :: int
  ss_limiter_failure :: "execution_failure option"
  ss_requests :: u32
  ss_max_requests :: u32
  ss_max_bytes :: u64
  ss_bytes :: u64
  ss_failure :: "execution_failure option"

text \<open>\<open>memory_growing\<close> and \<open>table_growing\<close>, for the growth a guest asks for; the first refusal traps.\<close>

fun limiter_growing :: "growth list \<Rightarrow> store_state \<Rightarrow> bool \<times> store_state" where
  "limiter_growing [] st = (True, st)"
| "limiter_growing (GrowMemory desired # rest) st =
     (if ss_max_memory st < int desired then (False, st \<lparr> ss_limiter_failure := Some FailMemory \<rparr>) else limiter_growing rest st)"
| "limiter_growing (GrowTable desired # rest) st =
     (if MAX_TABLE_ELEMENTS < desired then (False, st \<lparr> ss_limiter_failure := Some FailTable \<rparr>) else limiter_growing rest st)"

text \<open>How the asynchronous runtime may end an execution while it is suspended.\<close>

datatype suspension = Resumed | CallerCancelled | CallerDeadline | SandboxTimeout

datatype guest_end = GuestStopped suspension | GuestFailed guest_trap | GuestReturned int

text \<open>
  The host as the sandbox sees it: \<open>deterministic\<close>, \<open>exchange\<close>, and whether the execution goes on; the
  last two change the state \<open>'h\<close> of the host.
\<close>

record 'h audit_host =
  ah_deterministic :: u32
  ah_exchange :: "u8 list \<Rightarrow> nat \<Rightarrow> 'h \<Rightarrow> (audit_host_error + u8 list) \<times> 'h"
  ah_suspended :: "'h \<Rightarrow> suspension \<times> 'h"

definition fail_with :: "execution_failure \<Rightarrow> store_state \<Rightarrow> store_state" where
  "fail_with f st = st \<lparr> ss_failure := Some f \<rparr>"

text \<open>The checks of the exchange call before the host is asked: the slice to send, and the charged store.\<close>

definition admit_exchange ::
  "('m, 'g) wasm_engine \<Rightarrow> 'g \<Rightarrow> int \<Rightarrow> int \<Rightarrow> int \<Rightarrow> int \<Rightarrow> store_state \<Rightarrow> store_state + u8 list \<times> store_state" where
  "admit_exchange en g req_ptr req_len out_ptr out_cap st =
     (if req_ptr < 0 \<or> req_len < 0 \<or> out_ptr < 0 \<or> out_cap < 0 then Inl (fail_with FailInvalidAbi st)
      else case we_memory en g of
        None \<Rightarrow> Inl st
      | Some mem \<Rightarrow>
          if int (length mem) < req_ptr + req_len \<or> int (length mem) < out_ptr + out_cap
          then Inl (fail_with FailInvalidAbi st)
          else if uint (saturating_sub (ss_max_bytes st) (ss_bytes st)) < req_len + out_cap
          then Inl (fail_with FailBytes st)
          else if ss_max_requests st \<le> ss_requests st then Inl (fail_with FailRequest st)
          else Inr (take (nat req_len) (drop (nat req_ptr) mem),
                    st \<lparr> ss_requests := ss_requests st + 1, ss_bytes := ss_bytes st + word_of_int (req_len + out_cap) \<rparr>))"

text \<open>What the exchange call does with the answer of the host: the guest goes on, or the call fails.\<close>

definition deliver_answer ::
  "('m, 'g) wasm_engine \<Rightarrow> 'g \<Rightarrow> int \<Rightarrow> int \<Rightarrow> audit_host_error + u8 list \<Rightarrow> store_state \<Rightarrow> store_state + 'g \<times> store_state" where
  "deliver_answer en g out_ptr out_cap answer st =
     (case answer of
        Inl e \<Rightarrow> Inl (fail_with (FailHost e) st)
      | Inr response \<Rightarrow>
          if int (length response) \<le> out_cap
          then let st = st \<lparr> ss_bytes := ss_bytes st - word_of_int (out_cap - int (length response)) \<rparr>
               in case we_write en g (nat out_ptr) response of
                    None \<Rightarrow> Inl st
                  | Some g \<Rightarrow> if int (length response) < 2 ^ 31 then Inr (we_resume en g (int (length response)), st) else Inl st
          else Inl (fail_with (FailHost HostExchangeFailed) st))"

lemma unat_plus_one:
  fixes a b :: "'n::len word"
  assumes "a < b"
  shows "unat (a + 1) = unat a + 1"
proof -
  have "unat a < unat b" using assms by (simp add: word_less_nat_alt)
  moreover have "unat b < 2 ^ LENGTH('n)" by (rule unsigned_less)
  ultimately have "unat a + 1 < 2 ^ LENGTH('n)" by linarith
  then show ?thesis by (simp add: unat_word_ariths)
qed

lemma requests_left:
  fixes n m :: u32
  assumes "\<not> m \<le> n"
  shows "unat m - unat (n + 1) < unat m - unat n"
proof -
  have "n < m" using assms by simp
  from unat_plus_one [OF this] this show ?thesis by (simp add: word_less_nat_alt)
qed

lemma admit_exchange_requests:
  assumes "admit_exchange en g a b c d st = Inr (request, st')"
  shows "unat (ss_max_requests st') - unat (ss_requests st') < unat (ss_max_requests st) - unat (ss_requests st)"
proof -
  have less: "ss_requests st < ss_max_requests st" and st': "ss_requests st' = ss_requests st + 1" "ss_max_requests st' = ss_max_requests st"
    using assms by (auto simp: admit_exchange_def split: if_splits option.splits)
  show ?thesis using unat_plus_one [OF less] less by (simp add: st' word_less_nat_alt)
qed

text \<open>
  The guest from one suspension to the next. Every host call uses up one request, so a guest makes at
  most as many calls as it was granted, whatever it does.
\<close>

function run_guest ::
  "('m, 'g) wasm_engine \<Rightarrow> 'h audit_host \<Rightarrow> 'g \<Rightarrow> store_state \<Rightarrow> 'h \<Rightarrow> guest_end \<times> 'g \<times> store_state \<times> 'h" where
  "run_guest en host g st h =
     (case ah_suspended host h of
        (Resumed, h) \<Rightarrow>
          (case we_next en g of (growths, action) \<Rightarrow>
             (case limiter_growing growths st of
                (False, st) \<Rightarrow> (GuestFailed OtherTrap, g, st, h)
              | (True, st1) \<Rightarrow>
                  (case action of
                     Trapped t \<Rightarrow> (GuestFailed t, g, st1, h)
                   | Returned packed \<Rightarrow> (GuestReturned packed, g, st1, h)
                   | CallDeterministic \<Rightarrow>
                       if ss_max_requests st1 \<le> ss_requests st1 then (GuestFailed OtherTrap, g, fail_with FailRequest st1, h)
                       else run_guest en host (we_resume en g (sint (ah_deterministic host))) (st1 \<lparr> ss_requests := ss_requests st1 + 1 \<rparr>) h
                   | CallExchange req_ptr req_len out_ptr out_cap \<Rightarrow>
                       (case admit_exchange en g req_ptr req_len out_ptr out_cap st1 of
                          Inl st2 \<Rightarrow> (GuestFailed OtherTrap, g, st2, h)
                        | Inr (request, st2) \<Rightarrow>
                            (case ah_exchange host request (nat out_cap) h of (answer, h) \<Rightarrow>
                               (case deliver_answer en g out_ptr out_cap answer st2 of
                                  Inl st3 \<Rightarrow> (GuestFailed OtherTrap, g, st3, h)
                                | Inr (g', st3) \<Rightarrow> run_guest en host g' st3 h))))))
      | (stop, h) \<Rightarrow> (GuestStopped stop, g, st, h))"
  by pat_completeness auto

lemma limiter_growing_keeps:
  assumes "limiter_growing growths st = (b, st')"
  shows "ss_requests st' = ss_requests st" "ss_max_requests st' = ss_max_requests st" "ss_bytes st' = ss_bytes st"
    "ss_max_bytes st' = ss_max_bytes st" "ss_failure st' = ss_failure st" "ss_max_memory st' = ss_max_memory st"
  using assms by (induction growths st rule: limiter_growing.induct) (auto split: if_splits)

lemma deliver_answer_keeps:
  assumes "deliver_answer en g p c answer st = Inr (g', st')"
  shows "ss_requests st' = ss_requests st" "ss_max_requests st' = ss_max_requests st" "ss_max_bytes st' = ss_max_bytes st"
  using assms by (auto simp: deliver_answer_def Let_def split: sum.splits if_splits option.splits)

termination run_guest
proof (relation "measure (\<lambda>(en, host, g, st, h). unat (ss_max_requests st) - unat (ss_requests st))")
qed (auto simp: limiter_growing_keeps deliver_answer_keeps requests_left
  dest!: sym [of _ "limiter_growing _ _"] sym [of _ "admit_exchange _ _ _ _ _ _ _"] sym [of _ "deliver_answer _ _ _ _ _ _"]
    admit_exchange_requests)

declare run_guest.simps [simp del]

definition map_error :: "store_state \<Rightarrow> guest_trap \<Rightarrow> audit_error" where
  "map_error st t =
     (case (case ss_failure st of None \<Rightarrow> ss_limiter_failure st | Some f \<Rightarrow> Some f) of
        Some FailMemory \<Rightarrow> MemoryLimitExceeded
      | Some FailTable \<Rightarrow> TableLimitExceeded
      | Some FailRequest \<Rightarrow> RequestLimitExceeded
      | Some FailBytes \<Rightarrow> ByteBudgetExhausted
      | Some FailInvalidAbi \<Rightarrow> InvalidAbi
      | Some (FailHost HostBudgetExhausted) \<Rightarrow> RequestLimitExceeded
      | Some (FailHost HostDeadlineExceeded) \<Rightarrow> SandboxTimedOut
      | Some (FailHost HostCancelled) \<Rightarrow> AuditCancelled
      | Some (FailHost _) \<Rightarrow> HostRejected
      | None \<Rightarrow> (case t of OutOfFuel \<Rightarrow> FuelExhausted | Interrupt \<Rightarrow> SandboxTimedOut | OtherTrap \<Rightarrow> GuestTrapped))"

definition WASM_PAGE_SIZE :: int where "WASM_PAGE_SIZE = 65536"

definition page_bytes :: "u32 \<Rightarrow> audit_error + int" where
  "page_bytes pages =
     (if uint pages * WASM_PAGE_SIZE < 2 ^ 64 then Inr (uint pages * WASM_PAGE_SIZE) else Inl MemoryLimitExceeded)"

text \<open>The packed result: the high half is a pointer, sign extended, the low half a length.\<close>

definition read_output :: "u8 list \<Rightarrow> limits \<Rightarrow> store_state \<Rightarrow> int \<Rightarrow> audit_error + u8 list" where
  "read_output mem l st packed =
     (let ptr = (word_of_int (packed div 2 ^ 32) :: u64); len = (word_of_int (packed mod 2 ^ 32) :: u64)
      in if lm_max_bytes l < len then Inl OutputLimitExceeded
         else if saturating_sub (ss_max_bytes st) (ss_bytes st) < len then Inl ByteBudgetExhausted
         else case checked_add ptr len of
             None \<Rightarrow> Inl InvalidAbi
           | Some end_ \<Rightarrow>
               if int (length mem) < uint end_ then Inl InvalidAbi
               else Inr (take (unat len) (drop (unat ptr) mem)))"

datatype sandbox_end = SandboxStopped suspension | SandboxDone "audit_error + u8 list"

definition finish_guest :: "('m, 'g) wasm_engine \<Rightarrow> limits \<Rightarrow> guest_end \<times> 'g \<times> store_state \<times> 'h \<Rightarrow> sandbox_end \<times> 'h" where
  "finish_guest en l r =
     (case r of (e, g, st, h) \<Rightarrow>
       (case e of
          GuestStopped stop \<Rightarrow> SandboxStopped stop
        | GuestFailed t \<Rightarrow> SandboxDone (Inl (map_error st t))
        | GuestReturned packed \<Rightarrow>
            SandboxDone (case we_memory en g of None \<Rightarrow> Inl InvalidAbi | Some mem \<Rightarrow> read_output mem l st packed), h))"

definition new_store :: "limits \<Rightarrow> int \<Rightarrow> nat \<Rightarrow> store_state" where
  "new_store l max_memory input_len =
     \<lparr> ss_max_memory = max_memory, ss_limiter_failure = None, ss_requests = 0, ss_max_requests = lm_max_requests l,
       ss_max_bytes = lm_max_bytes l, ss_bytes = of_nat input_len, ss_failure = None \<rparr>"

text \<open>The instance with the input in its memory, about to run.\<close>

definition start_guest :: "('m, 'g) wasm_engine \<Rightarrow> 'm sandbox \<Rightarrow> u8 list \<Rightarrow> audit_error + 'g \<times> store_state" where
  "start_guest en sb input =
     and_then (page_bytes (lm_max_memory_pages (sb_limits sb))) (\<lambda>max_memory.
       case we_instantiate en (lm_max_fuel (sb_limits sb)) (sb_compiled sb) of (growths, instance_) \<Rightarrow>
       (case limiter_growing growths (new_store (sb_limits sb) max_memory (length input)) of
          (False, st) \<Rightarrow> Inl (map_error st OtherTrap)
        | (True, st) \<Rightarrow>
            (case instance_ of
               Inl t \<Rightarrow> Inl (map_error st t)
             | Inr g \<Rightarrow>
                 (case we_memory en g of
                    None \<Rightarrow> Inl InvalidAbi
                  | Some mem \<Rightarrow>
                      if length mem < length input then Inl MemoryLimitExceeded
                      else case we_write en g 0 input of
                          None \<Rightarrow> Inl MemoryLimitExceeded
                        | Some g \<Rightarrow>
                            (case we_run en g 0 (length input) of
                               None \<Rightarrow> Inl InvalidAbi
                             | Some g \<Rightarrow> Inr (g, st))))))"

definition sandbox_execute ::
  "('m, 'g) wasm_engine \<Rightarrow> 'm sandbox \<Rightarrow> 'h audit_host \<Rightarrow> u8 list \<Rightarrow> 'h \<Rightarrow> sandbox_end \<times> 'h" where
  "sandbox_execute en sb host input h =
     (if uint (lm_max_bytes (sb_limits sb)) < int (length input) \<or> 2147483647 < int (length input)
      then (SandboxDone (Inl InputLimitExceeded), h)
      else case start_guest en sb input of
          Inl e \<Rightarrow> (SandboxDone (Inl e), h)
        | Inr (g, st) \<Rightarrow>
            (case finish_guest en (sb_limits sb) (run_guest en host g st h) of
               (SandboxStopped SandboxTimeout, h) \<Rightarrow> (SandboxDone (Inl SandboxTimedOut), h)
             | r \<Rightarrow> r))"

end
