(* ===== verification/Audit_Broker.thy ===== *)
theory Audit_Broker
  imports Audit_Runtime
begin

text \<open>
  The broker (\<open>lattice-audit-wasm/src/broker.rs\<close>): it admits a request, authorises the target, runs the
  module in the sandbox and accounts for every byte. The authoriser, the exchange with the target, the
  clock and the cancellation token are the fields of \<open>audit_io\<close>, functions of an arbitrary
  world. What the broker asks of the authoriser and sends to the target is recorded in a log, which
  no decision reads. The mutexes of the source are uncontended in a single request.
\<close>

section \<open>Vocabulary\<close>

datatype exchange_protocol = ProtoTcp | ProtoHttp | ProtoTlsMetadata

datatype broker_error =
    BrokerTarget target_error
  | MissingApproval
  | CapabilityDenied
  | BudgetExhausted
  | DeadlineExceeded
  | BrokerCancelled
  | BrokerSandbox audit_error
  | ExchangeFailed

record exchange_request =
  xq_payload :: "u8 list"
  xq_protocol :: exchange_protocol
  xq_response_limit :: nat
  xq_deadline :: instant

section \<open>Responses\<close>

record exchange_response =
  er_bytes :: "u8 list"
  er_limit :: nat

definition new_response :: "nat \<Rightarrow> exchange_response" where
  "new_response limit = \<lparr> er_bytes = [], er_limit = limit \<rparr>"

definition extend_from_slice :: "exchange_response \<Rightarrow> u8 list \<Rightarrow> (broker_error + unit) \<times> exchange_response" where
  "extend_from_slice r chunk =
     (if er_limit r - length (er_bytes r) < length chunk then (Inl ExchangeFailed, r)
      else (Inr (), r \<lparr> er_bytes := er_bytes r @ chunk \<rparr>))"

text \<open>The outcome of the exchange under the cancellation token and the deadline.\<close>

datatype exchange_reply = Answered exchange_response | ReplyFailed | ReplyCancelled | ReplyDeadline

section \<open>The budget\<close>

record audit_budget =
  ab_requests :: u32
  ab_bytes :: u64
  ab_max_requests :: u32
  ab_max_bytes :: u64
  ab_deadline :: instant

record reservation =
  rv_request_bytes :: nat
  rv_response_cap :: nat

definition new_audit_budget :: "limits \<Rightarrow> instant \<Rightarrow> audit_budget" where
  "new_audit_budget l deadline =
     \<lparr> ab_requests = 0, ab_bytes = 0, ab_max_requests = lm_max_requests l, ab_max_bytes = lm_max_bytes l, ab_deadline = deadline \<rparr>"

definition reserve :: "audit_budget \<Rightarrow> instant \<Rightarrow> nat \<Rightarrow> nat \<Rightarrow> (broker_error + reservation) \<times> audit_budget" where
  "reserve b now request_bytes response_cap =
     (case checked_add (of_nat request_bytes :: u64) (of_nat response_cap) of
        None \<Rightarrow> (Inl BudgetExhausted, b)
      | Some sum_ \<Rightarrow>
          if ab_deadline b \<le> now \<or> ab_max_requests b \<le> ab_requests b
             \<or> saturating_sub (ab_max_bytes b) (ab_bytes b) < sum_
          then (Inl BudgetExhausted, b)
          else case checked_add (ab_requests b) 1 of
              None \<Rightarrow> (Inl BudgetExhausted, b)
            | Some n \<Rightarrow>
                let b = b \<lparr> ab_requests := n \<rparr>
                in case checked_add (ab_bytes b) sum_ of
                     None \<Rightarrow> (Inl BudgetExhausted, b)
                   | Some k \<Rightarrow> (Inr \<lparr> rv_request_bytes = request_bytes, rv_response_cap = response_cap \<rparr>, b \<lparr> ab_bytes := k \<rparr>))"

definition refund :: "audit_budget \<Rightarrow> nat \<Rightarrow> nat \<Rightarrow> audit_budget" where
  "refund b response_cap actual = b \<lparr> ab_bytes := saturating_sub (ab_bytes b) (of_nat (response_cap - actual)) \<rparr>"

definition release :: "audit_budget \<Rightarrow> nat \<Rightarrow> nat \<Rightarrow> audit_budget" where
  "release b request_bytes response_cap =
     b \<lparr> ab_requests := saturating_sub (ab_requests b) 1,
         ab_bytes := saturating_sub (ab_bytes b) (saturating_add (of_nat request_bytes) (of_nat response_cap)) \<rparr>"

definition charge_bytes :: "audit_budget \<Rightarrow> instant \<Rightarrow> nat \<Rightarrow> (broker_error + unit) \<times> audit_budget" where
  "charge_bytes b now n =
     (if ab_deadline b \<le> now then (Inl DeadlineExceeded, b)
      else if saturating_sub (ab_max_bytes b) (ab_bytes b) < of_nat n then (Inl BudgetExhausted, b)
      else case checked_add (ab_bytes b) (of_nat n) of
          None \<Rightarrow> (Inl BudgetExhausted, b)
        | Some k \<Rightarrow> (Inr (), b \<lparr> ab_bytes := k \<rparr>))"

text \<open>Dropping an uncommitted reservation releases it; committing refunds what was not used.\<close>

definition drop_reservation :: "audit_budget \<Rightarrow> reservation \<Rightarrow> audit_budget" where
  "drop_reservation b r = release b (rv_request_bytes r) (rv_response_cap r)"

definition commit_reservation :: "audit_budget \<Rightarrow> reservation \<Rightarrow> nat \<Rightarrow> (broker_error + unit) \<times> audit_budget" where
  "commit_reservation b r actual =
     (if rv_response_cap r < actual then (Inl BudgetExhausted, drop_reservation b r)
      else (Inr (), refund b (rv_response_cap r) actual))"

section \<open>The host\<close>

record 'w audit_io =
  io_now :: "'w \<Rightarrow> instant \<times> 'w"
  io_add :: calendar
  io_cancelled :: "'w \<Rightarrow> bool \<times> 'w"
  io_authorize :: "ip_addr \<Rightarrow> u32 \<Rightarrow> u16 \<Rightarrow> 'w \<Rightarrow> (target_error + authorized_target) \<times> 'w"
  io_exchange :: "authorized_target \<Rightarrow> exchange_request \<Rightarrow> 'w \<Rightarrow> exchange_reply \<times> 'w"
  io_suspended :: "'w \<Rightarrow> suspension \<times> 'w"

text \<open>The log: the answers of the authoriser, the requests sent, and how much of an answer was delivered.\<close>

datatype audit_event =
    EvAuthorized "target_error + authorized_target"
  | EvSent authorized_target exchange_request
  | EvDelivered nat

record broker_host =
  bh_target :: authorized_target
  bh_capability :: capability
  bh_deadline :: instant

record 'w host_state =
  hs_world :: 'w
  hs_log :: "audit_event list"
  hs_budget :: audit_budget
  hs_target_error :: "target_error option"

fun protocol_of :: "capability \<Rightarrow> exchange_protocol" where
  "protocol_of (TcpExchange p) = ProtoTcp"
| "protocol_of (HttpExchange p) = ProtoHttp"
| "protocol_of (TlsMetadata p) = ProtoTlsMetadata"

definition intersect_limits :: "limits \<Rightarrow> limits \<Rightarrow> limits" where
  "intersect_limits a b =
     \<lparr> lm_max_bytes = min (lm_max_bytes a) (lm_max_bytes b), lm_max_requests = min (lm_max_requests a) (lm_max_requests b),
       lm_max_time = min (lm_max_time a) (lm_max_time b), lm_max_fuel = min (lm_max_fuel a) (lm_max_fuel b),
       lm_max_memory_pages = min (lm_max_memory_pages a) (lm_max_memory_pages b) \<rparr>"

text \<open>The part of \<open>BrokerHost::exchange\<close> that holds a reservation; leaving it early drops the reservation.\<close>

definition reserved_exchange ::
  "'w audit_io \<Rightarrow> broker_host \<Rightarrow> u8 list \<Rightarrow> nat \<Rightarrow> reservation \<Rightarrow> 'w host_state \<Rightarrow> (audit_host_error + u8 list) \<times> 'w host_state" where
  "reserved_exchange io host request response_cap r s =
     (let dropped = (\<lambda>s. s \<lparr> hs_budget := drop_reservation (hs_budget s) r \<rparr>); target = bh_target host
      in case io_authorize io (au_target target) (au_interface target) (au_port target) (hs_world s) of (answer, w) \<Rightarrow>
       let s = s \<lparr> hs_world := w, hs_log := hs_log s @ [EvAuthorized answer] \<rparr>
       in case answer of
            Inl error \<Rightarrow> (Inl HostDenied, dropped (s \<lparr> hs_target_error := Some error \<rparr>))
          | Inr refreshed \<Rightarrow>
              if refreshed \<noteq> target then (Inl HostDenied, dropped (s \<lparr> hs_target_error := Some TargetRejected \<rparr>))
              else let call = \<lparr> xq_payload = request, xq_protocol = protocol_of (bh_capability host),
                                xq_response_limit = response_cap, xq_deadline = bh_deadline host \<rparr>
                   in case io_exchange io target call (hs_world s) of (reply, w) \<Rightarrow>
                    let s = s \<lparr> hs_world := w, hs_log := hs_log s @ [EvSent target call] \<rparr>
                    in case reply of
                         ReplyCancelled \<Rightarrow> (Inl HostCancelled, dropped s)
                       | ReplyFailed \<Rightarrow> (Inl HostExchangeFailed, dropped s)
                       | ReplyDeadline \<Rightarrow> (Inl HostDeadlineExceeded, dropped s)
                       | Answered response \<Rightarrow>
                           let n = length (er_bytes response)
                           in if response_cap < n then (Inl HostExchangeFailed, dropped s)
                              else case commit_reservation (hs_budget s) r n of
                                  (Inl _, b) \<Rightarrow> (Inl HostBudgetExhausted, s \<lparr> hs_budget := b \<rparr>)
                                | (Inr _, b) \<Rightarrow>
                                    (Inr (er_bytes response), s \<lparr> hs_budget := b, hs_log := hs_log s @ [EvDelivered n] \<rparr>))"

definition host_exchange ::
  "'w audit_io \<Rightarrow> broker_host \<Rightarrow> u8 list \<Rightarrow> nat \<Rightarrow> 'w host_state \<Rightarrow> (audit_host_error + u8 list) \<times> 'w host_state" where
  "host_exchange io host request response_cap s =
     (case io_cancelled io (hs_world s) of (cancelled, w) \<Rightarrow>
      let s = s \<lparr> hs_world := w \<rparr>
      in if cancelled then (Inl HostCancelled, s)
      else case io_now io (hs_world s) of (now, w) \<Rightarrow>
      let s = s \<lparr> hs_world := w \<rparr>
      in if bh_deadline host \<le> now then (Inl HostDeadlineExceeded, s)
      else case io_now io (hs_world s) of (now, w) \<Rightarrow>
      let s = s \<lparr> hs_world := w \<rparr>
      in case reserve (hs_budget s) now (length request) response_cap of
           (Inl e, b) \<Rightarrow>
             (Inl (if e = BudgetExhausted then HostBudgetExhausted else HostExchangeFailed), s \<lparr> hs_budget := b \<rparr>)
         | (Inr r, b) \<Rightarrow> reserved_exchange io host request response_cap r (s \<lparr> hs_budget := b \<rparr>))"

definition host_of :: "'w audit_io \<Rightarrow> broker_host \<Rightarrow> 'w host_state audit_host" where
  "host_of io host =
     \<lparr> ah_deterministic = 0, ah_exchange = host_exchange io host,
       ah_suspended = (\<lambda>s. case io_suspended io (hs_world s) of (r, w) \<Rightarrow> (r, s \<lparr> hs_world := w \<rparr>)) \<rparr>"

section \<open>The broker\<close>

definition MAX_CACHED_MODULES :: nat where "MAX_CACHED_MODULES = 16"

record broker_request =
  br_module :: verified_manifest
  br_input :: "u8 list"
  br_target :: ip_addr
  br_interface :: u32
  br_port :: u16
  br_capability :: capability
  br_approval_id :: "128 word"
  br_limits :: limits

record broker_result =
  bt_target :: ip_addr
  bt_approval_id :: "128 word"
  bt_bytes :: "u8 list"

type_synonym 'm module_cache = "(u8 list, 'm) hmap"

definition cached_modules :: "'m module_cache \<Rightarrow> nat" where
  "cached_modules cache = length cache"

definition store_compiled :: "'m module_cache \<Rightarrow> u8 list \<Rightarrow> 'm \<Rightarrow> 'm \<times> 'm module_cache" where
  "store_compiled cache digest c =
     (let cache = (if MAX_CACHED_MODULES \<le> length cache then [] else cache)
      in case hm_get cache digest of Some old \<Rightarrow> (old, cache) | None \<Rightarrow> (c, hm_insert digest c cache))"

definition sandbox_for ::
  "('m, 'g) wasm_engine \<Rightarrow> 'm module_cache \<Rightarrow> verified_manifest \<Rightarrow> limits \<Rightarrow> (audit_error + 'm sandbox) \<times> 'm module_cache" where
  "sandbox_for en cache v l =
     (case check_limits v l of
        Inl e \<Rightarrow> (Inl e, cache)
      | Inr _ \<Rightarrow>
          (case hm_get cache (am_sha256 (vm_inner v)) of
             Some c \<Rightarrow> (with_compiled en v c l, cache)
           | None \<Rightarrow>
               (case compile_module en v of
                  Inl e \<Rightarrow> (Inl e, cache)
                | Inr c \<Rightarrow>
                    (case store_compiled cache (am_sha256 (vm_inner v)) c of (c, cache) \<Rightarrow> (with_compiled en v c l, cache)))))"

text \<open>The checks of a request before anything is asked of the environment.\<close>

definition admit_request :: "broker_request \<Rightarrow> broker_error + limits" where
  "admit_request q =
     (if br_approval_id q = 0 then Inl MissingApproval
      else if capability_port (br_capability q) \<noteq> br_port q \<or> br_capability q \<notin> set (am_capabilities (vm_inner (br_module q)))
      then Inl CapabilityDenied
      else if \<not> valid_limits (br_limits q) then Inl BudgetExhausted
      else let l = intersect_limits (am_limits (vm_inner (br_module q))) (br_limits q)
           in if lm_max_bytes l = 0 \<or> lm_max_requests l = 0 \<or> lm_max_time l = 0 \<or> lm_max_fuel l = 0 \<or> lm_max_memory_pages l = 0
              then Inl BudgetExhausted else Inr l)"

definition broker_failure :: "audit_error \<Rightarrow> target_error option \<Rightarrow> broker_error" where
  "broker_failure e refused =
     (case e of
        SandboxTimedOut \<Rightarrow> DeadlineExceeded
      | AuditCancelled \<Rightarrow> BrokerCancelled
      | ByteBudgetExhausted \<Rightarrow> BudgetExhausted
      | RequestLimitExceeded \<Rightarrow> BudgetExhausted
      | HostRejected \<Rightarrow> (case refused of Some error \<Rightarrow> BrokerTarget error | None \<Rightarrow> ExchangeFailed)
      | _ \<Rightarrow> BrokerSandbox e)"

text \<open>After the module has returned: cancellation, the output's bytes, and the commit of the publication.\<close>

definition publish_output ::
  "'w audit_io \<Rightarrow> broker_request \<Rightarrow> instant \<Rightarrow> u8 list \<Rightarrow> 'w host_state \<Rightarrow> (broker_error + broker_result) \<times> 'w host_state" where
  "publish_output io q deadline output s =
     (case io_cancelled io (hs_world s) of (cancelled, w) \<Rightarrow>
      if cancelled then (Inl BrokerCancelled, s \<lparr> hs_world := w \<rparr>)
      else case io_now io w of (now, w) \<Rightarrow>
      (case charge_bytes (hs_budget s) now (length output) of
         (Inl e, b) \<Rightarrow> (Inl e, s \<lparr> hs_world := w, hs_budget := b \<rparr>)
       | (Inr _, b) \<Rightarrow>
           (case io_cancelled io w of (cancelled, w) \<Rightarrow>
            if cancelled then (Inl BrokerCancelled, s \<lparr> hs_world := w, hs_budget := b \<rparr>)
            else case io_now io w of (now, w) \<Rightarrow>
              (if deadline \<le> now then Inl DeadlineExceeded
               else Inr \<lparr> bt_target = br_target q, bt_approval_id = br_approval_id q, bt_bytes = output \<rparr>,
               s \<lparr> hs_world := w, hs_budget := b \<rparr>))))"

text \<open>The module runs; the cancellation token comes first when the execution is polled.\<close>

definition run_module ::
  "'w audit_io \<Rightarrow> ('m, 'g) wasm_engine \<Rightarrow> broker_request \<Rightarrow> 'm sandbox \<Rightarrow> broker_host \<Rightarrow> 'w host_state
     \<Rightarrow> (broker_error + broker_result) \<times> 'w host_state" where
  "run_module io en q sb host s =
     (case sandbox_execute en sb (host_of io host) (br_input q) s of
        (SandboxStopped CallerCancelled, s) \<Rightarrow> (Inl BrokerCancelled, s)
      | (SandboxStopped _, s) \<Rightarrow> (Inl DeadlineExceeded, s)
      | (SandboxDone (Inl e), s) \<Rightarrow> (Inl (broker_failure e (hs_target_error s)), s)
      | (SandboxDone (Inr output), s) \<Rightarrow> publish_output io q (bh_deadline host) output s)"

record ('m, 'w) broker_state =
  bs_cache :: "'m module_cache"
  bs_world :: 'w
  bs_log :: "audit_event list"

text \<open>From the authorised target on.\<close>

definition execute_authorized ::
  "'w audit_io \<Rightarrow> ('m, 'g) wasm_engine \<Rightarrow> broker_request \<Rightarrow> limits \<Rightarrow> instant \<Rightarrow> authorized_target \<Rightarrow> ('m, 'w) broker_state
     \<Rightarrow> (broker_error + broker_result) \<times> ('m, 'w) broker_state" where
  "execute_authorized io en q l deadline target s =
     (case io_now io (bs_world s) of (now, w) \<Rightarrow>
      if deadline \<le> now then (Inl DeadlineExceeded, s \<lparr> bs_world := w \<rparr>)
      else case sandbox_for en (bs_cache s) (br_module q) l of
          (Inl e, cache) \<Rightarrow> (Inl (BrokerSandbox e), s \<lparr> bs_world := w, bs_cache := cache \<rparr>)
        | (Inr sb, cache) \<Rightarrow>
            (case io_now io w of (now, w) \<Rightarrow>
             if deadline \<le> now then (Inl DeadlineExceeded, s \<lparr> bs_world := w, bs_cache := cache \<rparr>)
             else case io_now io w of (now, w) \<Rightarrow>
               (case charge_bytes (new_audit_budget l deadline) now (length (br_input q)) of
                  (Inl e, _) \<Rightarrow> (Inl e, s \<lparr> bs_world := w, bs_cache := cache \<rparr>)
                | (Inr _, b) \<Rightarrow>
                    (case run_module io en q sb
                            \<lparr> bh_target = target, bh_capability = br_capability q, bh_deadline = deadline \<rparr>
                            \<lparr> hs_world = w, hs_log = bs_log s, hs_budget = b, hs_target_error = None \<rparr> of
                       (result, h) \<Rightarrow>
                         (result, s \<lparr> bs_world := hs_world h, bs_log := hs_log h, bs_cache := cache \<rparr>)))))"

definition broker_execute ::
  "'w audit_io \<Rightarrow> ('m, 'g) wasm_engine \<Rightarrow> broker_request \<Rightarrow> ('m, 'w) broker_state
     \<Rightarrow> (broker_error + broker_result) \<times> ('m, 'w) broker_state" where
  "broker_execute io en q s =
     (case admit_request q of
        Inl e \<Rightarrow> (Inl e, s)
      | Inr l \<Rightarrow>
          (case io_now io (bs_world s) of (now, w) \<Rightarrow>
           (case io_add io now (lm_max_time l) of
              None \<Rightarrow> (Inl DeadlineExceeded, s \<lparr> bs_world := w \<rparr>)
            | Some deadline \<Rightarrow>
                (case io_cancelled io w of (cancelled, w) \<Rightarrow>
                 if cancelled then (Inl BrokerCancelled, s \<lparr> bs_world := w \<rparr>)
                 else case io_authorize io (br_target q) (br_interface q) (br_port q) w of (answer, w) \<Rightarrow>
                   let s = s \<lparr> bs_world := w, bs_log := bs_log s @ [EvAuthorized answer] \<rparr>
                   in case answer of
                        Inl error \<Rightarrow> (Inl (BrokerTarget error), s)
                      | Inr target \<Rightarrow>
                          if au_target target \<noteq> br_target q \<or> au_interface target \<noteq> br_interface q \<or> au_port target \<noteq> br_port q
                          then (Inl (BrokerTarget TargetRejected), s)
                          else execute_authorized io en q l deadline target s))))"

end
