(* ===== verification/Audit_Signing.thy ===== *)
theory Audit_Signing
  imports Audit_Manifest
begin

text \<open>
  What the signature of a manifest covers. The signed bytes are a prefix code: every part is of fixed
  length or preceded by its length, so they determine every field. Verified modules are therefore
  exactly the ones that were issued; and a serialised manifest is read back unchanged.
\<close>

section \<open>A prefix code\<close>

lemma length_be_bytes [simp]: "length (be_bytes k n) = k"
  by (induction k arbitrary: n) simp_all

lemma be_bytes_append: "be_bytes k a @ r = be_bytes k b @ r' \<longleftrightarrow> be_bytes k a = be_bytes k b \<and> r = r'"
  by simp

lemma be_bytes_modD: "be_bytes k n = be_bytes k m \<Longrightarrow> n mod 256 ^ k = m mod 256 ^ k"
proof (induction k arbitrary: n m)
  case (Suc k)
  have "be_bytes k (n div 256) = be_bytes k (m div 256)" using Suc.prems by simp
  then have "(n div 256) mod 256 ^ k = (m div 256) mod 256 ^ k" by (rule Suc.IH)
  moreover have "(word_of_int n :: u8) = word_of_int m" using Suc.prems by simp
  then have "n mod 256 = m mod 256" by (simp add: word_of_int_eq_iff take_bit_eq_mod)
  ultimately show ?case using zmod_zmult2_eq [of "256 ^ k" n 256] zmod_zmult2_eq [of "256 ^ k" m 256] by simp
qed simp

lemma be_bytes_inj:
  assumes "be_bytes k n = be_bytes k m" and "0 \<le> n" "n < 256 ^ k" "0 \<le> m" "m < 256 ^ k"
  shows "n = m"
  using be_bytes_modD [OF assms(1)] assms(2-) by simp

lemma be_bytes_word [simp]:
  "be_bytes 8 (uint a) = be_bytes 8 (uint b) \<longleftrightarrow> a = (b :: u64)"
  "be_bytes 4 (uint c) = be_bytes 4 (uint d) \<longleftrightarrow> c = (d :: u32)"
  "be_bytes 2 (uint e) = be_bytes 2 (uint f) \<longleftrightarrow> e = (f :: u16)"
  using be_bytes_inj [of 8 "uint a" "uint b"] be_bytes_inj [of 4 "uint c" "uint d"] be_bytes_inj [of 2 "uint e" "uint f"]
    uint_lt2p [of a] uint_lt2p [of b] uint_lt2p [of c] uint_lt2p [of d] uint_lt2p [of e] uint_lt2p [of f]
  by (auto simp: word_uint_eq_iff)

lemma as_bytes_inj [simp]: "as_bytes s = as_bytes s' \<longleftrightarrow> s = s'"
proof -
  have "(of_nat (byte_of c) :: u8) = of_nat (byte_of d) \<longleftrightarrow> c = d" for c d
  proof
    assume eq: "(of_nat (byte_of c) :: u8) = of_nat (byte_of d)"
    have "byte_of c < 256" "byte_of d < 256" by (simp_all add: byte_of_def)
    with arg_cong [OF eq, of unat] have "byte_of c = byte_of d" by (simp add: unat_of_nat)
    then show "c = d" by (simp add: byte_of_def)
  qed simp
  then show ?thesis unfolding as_bytes_def by (simp add: inj_on_def inj_map_eq_map)
qed

lemma put_str_append:
  assumes "put_str s @ r = put_str s' @ r'" and "int (length s) < 256 ^ 4" "int (length s') < 256 ^ 4"
  shows "s = s' \<and> r = r'"
proof -
  have eq: "be_bytes 4 (int (length s)) = be_bytes 4 (int (length s')) \<and> as_bytes s @ r = as_bytes s' @ r'"
    using assms(1) by (simp add: put_str_def)
  then have "int (length s) = int (length s')" using assms(2,3) be_bytes_inj [of 4 "int (length s)" "int (length s')"] by simp
  then have "length (as_bytes s) = length (as_bytes s')" by (simp add: as_bytes_def)
  with eq show ?thesis by simp
qed

lemma capability_bytes_append: "capability_bytes c @ r = capability_bytes c' @ r' \<Longrightarrow> c = c' \<and> r = r'"
  by (cases c; cases c') auto

lemma evidence_type_byte_inj [simp]: "evidence_type_byte t = evidence_type_byte u \<longleftrightarrow> t = u"
  by (cases t; cases u) simp_all

lemma side_effect_byte_inj [simp]: "side_effect_byte t = side_effect_byte u \<longleftrightarrow> t = u"
  by (cases t; cases u) simp_all

lemma field_bytes_append:
  assumes "field_bytes x @ r = field_bytes x' @ r'" and "int (length (fst x)) < 256 ^ 4" "int (length (fst x')) < 256 ^ 4"
  shows "x = x' \<and> r = r'"
  using put_str_append [of "fst x" "evidence_type_byte (snd x) # r" "fst x'" "evidence_type_byte (snd x') # r'"] assms
  by (auto simp: field_bytes_def prod_eq_iff)

text \<open>A list of items that can be told apart is determined by its items' bytes, given how many there are.\<close>

lemma concat_append_inj:
  assumes "\<And>x x' r r'. x \<in> A \<Longrightarrow> x' \<in> A \<Longrightarrow> f x @ r = f x' @ r' \<Longrightarrow> x = x' \<and> r = r'"
    and "concat (map f xs) @ r = concat (map f xs') @ r'" and "length xs = length xs'" and "set xs \<subseteq> A" "set xs' \<subseteq> A"
  shows "xs = xs' \<and> r = r'"
  using assms(3,2,4,5)
proof (induction xs xs' arbitrary: r r' rule: list_induct2)
  case (Cons x xs y ys)
  have "f x @ concat (map f xs) @ r = f y @ concat (map f ys) @ r'" using Cons.prems(1) by simp
  then have "x = y \<and> concat (map f xs) @ r = concat (map f ys) @ r'"
    by (rule assms(1) [rotated 2]) (use Cons.prems in auto)
  with Cons.IH [of r r'] Cons.prems show ?case by simp
qed simp

lemma counted_append_inj:
  assumes "\<And>x x' r r'. x \<in> A \<Longrightarrow> x' \<in> A \<Longrightarrow> f x @ r = f x' @ r' \<Longrightarrow> x = x' \<and> r = r'"
    and "be_bytes 4 (int (length xs)) @ concat (map f xs) @ r = be_bytes 4 (int (length xs')) @ concat (map f xs') @ r'"
    and "int (length xs) < 256 ^ 4" "int (length xs') < 256 ^ 4" and "set xs \<subseteq> A" "set xs' \<subseteq> A"
  shows "xs = xs' \<and> r = r'"
proof -
  have "be_bytes 4 (int (length xs)) = be_bytes 4 (int (length xs'))
      \<and> concat (map f xs) @ r = concat (map f xs') @ r'" using assms(2) by simp
  moreover from this have "length xs = length xs'" using assms(3,4) be_bytes_inj [of 4 "int (length xs)" "int (length xs')"] by simp
  ultimately have eq: "concat (map f xs) @ r = concat (map f xs') @ r'" and len: "length xs = length xs'" by blast+
  show ?thesis by (rule concat_append_inj [OF _ eq len assms(5,6)]) (rule assms(1))
qed

section \<open>The signed bytes determine the manifest\<close>

lemma from_parts_Inr:
  "from_parts m = Inr m' \<longleftrightarrow> m' = m \<and> am_version m \<noteq> 0 \<and> am_module_id m \<noteq> [] \<and> length (am_module_id m) \<le> 128
     \<and> list_all module_id_char (am_module_id m) \<and> \<not> bad_text (am_expected_behavior m) \<and> \<not> bad_text (rp_description (am_rollback m))
     \<and> \<not> rp_required (am_rollback m) \<and> am_capabilities m \<noteq> [] \<and> length (am_capabilities m) \<le> 16
     \<and> list_all (\<lambda>c. capability_port c \<noteq> 0) (am_capabilities m) \<and> am_evidence_schema m \<noteq> []
     \<and> length (am_evidence_schema m) \<le> 64 \<and> list_all (\<lambda>(k, _). \<not> bad_field_key k) (am_evidence_schema m)
     \<and> valid_limits (am_limits m)"
  unfolding from_parts_def MAX_CAPABILITIES_def MAX_FIELDS_def
  by (auto simp: list_all_iff list_ex_iff not_less)

lemma limits_bytes_inj:
  assumes "limits_bytes l = limits_bytes l'" and "valid_limits l" "valid_limits l'" and "0 \<le> lm_max_time l" "0 \<le> lm_max_time l'"
  shows "l = l'"
proof -
  have parts: "lm_max_bytes l = lm_max_bytes l'" "lm_max_requests l = lm_max_requests l'" "lm_max_fuel l = lm_max_fuel l'"
    "lm_max_memory_pages l = lm_max_memory_pages l'" "be_bytes 8 (as_secs (lm_max_time l)) = be_bytes 8 (as_secs (lm_max_time l'))"
    using assms(1) unfolding limits_bytes_def be_bytes_append be_bytes_word by blast+
  have "0 \<le> as_secs (lm_max_time l)" "as_secs (lm_max_time l) \<le> 300" "0 \<le> as_secs (lm_max_time l')" "as_secs (lm_max_time l') \<le> 300"
    using assms(2-5) by (auto simp: valid_limits_def MAX_TIME_SECS_def as_secs_def)
  then have "as_secs (lm_max_time l) = as_secs (lm_max_time l')" using be_bytes_inj [OF parts(5)] by simp
  moreover have "lm_max_time l mod 1000000000 = 0" "lm_max_time l' mod 1000000000 = 0"
    using assms(2,3) by (auto simp: valid_limits_def subsec_nanos_def)
  ultimately have "lm_max_time l = lm_max_time l'"
    unfolding as_secs_def using div_mult_mod_eq [of "lm_max_time l" 1000000000] div_mult_mod_eq [of "lm_max_time l'" 1000000000] by simp
  with parts show ?thesis by (simp add: limits.equality)
qed

lemma short_texts:
  assumes "from_parts m = Inr m"
  shows "int (length (am_module_id m)) < 256 ^ 4" "int (length (am_expected_behavior m)) < 256 ^ 4"
    "int (length (rp_description (am_rollback m))) < 256 ^ 4" "int (length (am_capabilities m)) < 256 ^ 4"
    "int (length (am_evidence_schema m)) < 256 ^ 4" "set (am_evidence_schema m) \<subseteq> {x. int (length (fst x)) < 256 ^ 4}"
  using assms unfolding from_parts_Inr bad_text_def bad_field_key_def MAX_TEXT_def
  by (auto simp: list_all_iff)

lemma canonical_unsigned_inj:
  assumes "canonical_unsigned m = canonical_unsigned m'" and "from_parts m = Inr m" "from_parts m' = Inr m'"
    and "manifest_typed m" "manifest_typed m'"
  shows "m \<lparr> am_signature := s \<rparr> = m' \<lparr> am_signature := s \<rparr>"
proof -
  note small = short_texts [OF assms(2)] and small' = short_texts [OF assms(3)]
  have sha: "length (am_sha256 m) = length (am_sha256 m')" using assms(4,5) by (simp add: manifest_typed_def)
  let ?tail = "\<lambda>m. limits_bytes (am_limits m)"
  let ?fields = "\<lambda>m. be_bytes 4 (int (length (am_evidence_schema m))) @ concat (map field_bytes (am_evidence_schema m)) @ ?tail m"
  let ?rollback = "\<lambda>m. put_str (rp_description (am_rollback m)) @ ?fields m"
  let ?flags = "\<lambda>m. [side_effect_byte (am_side_effects m), if rp_required (am_rollback m) then 1 else 0] @ ?rollback m"
  let ?behavior = "\<lambda>m. put_str (am_expected_behavior m) @ ?flags m"
  let ?caps = "\<lambda>m. be_bytes 4 (int (length (am_capabilities m))) @ concat (map capability_bytes (am_capabilities m)) @ ?behavior m"
  let ?head = "\<lambda>m. be_bytes 2 (uint (am_version m)) @ am_sha256 m @ [1] @ ?caps m"
  have whole: "canonical_unsigned x = DOMAIN @ put_str (am_module_id x) @ ?head x" for x
    by (cases "am_target_kind x") (simp add: canonical_unsigned_def)
  have 1: "am_module_id m = am_module_id m' \<and> ?head m = ?head m'"
    using assms(1) unfolding whole append_same_eq same_append_eq by (rule put_str_append) (rule small(1) small'(1))+
  then have 2: "am_version m = am_version m' \<and> am_sha256 m = am_sha256 m' \<and> ?caps m = ?caps m'" using sha by simp
  have 3: "am_capabilities m = am_capabilities m' \<and> ?behavior m = ?behavior m'"
    by (rule counted_append_inj [OF _ conjunct2 [OF conjunct2 [OF 2]], where A = UNIV]) (use capability_bytes_append small small' in auto)
  have 4: "am_expected_behavior m = am_expected_behavior m' \<and> ?flags m = ?flags m'"
    using conjunct2 [OF 3] by (rule put_str_append) (rule small(2) small'(2))+
  then have 5: "am_side_effects m = am_side_effects m' \<and> rp_required (am_rollback m) = rp_required (am_rollback m') \<and> ?rollback m = ?rollback m'"
    by (auto split: if_splits)
  have 6: "rp_description (am_rollback m) = rp_description (am_rollback m') \<and> ?fields m = ?fields m'"
    using conjunct2 [OF conjunct2 [OF 5]] by (rule put_str_append) (rule small(3) small'(3))+
  have 7: "am_evidence_schema m = am_evidence_schema m' \<and> ?tail m = ?tail m'"
    by (rule counted_append_inj [OF _ conjunct2 [OF 6], where A = "{x. int (length (fst x)) < 256 ^ 4}"])
       (use field_bytes_append small(5,6) small'(5,6) in auto)
  have 8: "am_limits m = am_limits m'"
    using 7 limits_bytes_inj assms(2-5) by (auto simp: from_parts_Inr manifest_typed_def)
  have 9: "am_target_kind m = am_target_kind m'" by (cases "am_target_kind m"; cases "am_target_kind m'") simp
  from 1 2 3 4 5 6 7 8 9 show ?thesis by (intro audit_manifest.equality) (auto intro: rollback_plan.equality)
qed

lemma canonical_unsigned_signature [simp]:
  "canonical_unsigned (m \<lparr> am_signature := s \<rparr>) = canonical_unsigned m"
  by (simp add: canonical_unsigned_def)

lemma verify_manifest_Inr:
  "verify_manifest digest verify_strict m wasm = Inr v \<longleftrightarrow>
     v = \<lparr> vm_inner = m, vm_wasm = wasm \<rparr> \<and> from_parts m = Inr m \<and> length wasm \<le> 16777216 \<and> digest wasm = am_sha256 m
     \<and> am_side_effects m = ReadOnly \<and> verify_strict (canonical_unsigned m) (am_signature m)"
  by (auto simp: verify_manifest_def MAX_WASM_BYTES_def not_less from_parts_Inr split: if_splits)

text \<open>C39. Only issued modules run. When signatures verify only for what the key holder signed, the canonical bytes
  of a list of valid manifests, then a manifest with a module is verified exactly when its signature
  verifies and, the signature aside, it equals in every field an issued manifest that is read-only and
  names the module's digest, and the module is at most 16 MiB: no field of it can have been changed.\<close>

theorem only_issued_manifests_verify:
  assumes "\<And>b s. verify_strict b s \<Longrightarrow> b \<in> canonical_unsigned ` set issued"
    and "\<And>m0. m0 \<in> set issued \<Longrightarrow> from_parts m0 = Inr m0 \<and> manifest_typed m0" and "manifest_typed m"
  shows "verify_manifest digest verify_strict m wasm = Inr v \<longleftrightarrow>
    v = \<lparr> vm_inner = m, vm_wasm = wasm \<rparr> \<and> verify_strict (canonical_unsigned m) (am_signature m)
    \<and> (\<exists>m0 \<in> set issued. m = m0 \<lparr> am_signature := am_signature m \<rparr> \<and> digest wasm = am_sha256 m0
        \<and> am_side_effects m0 = ReadOnly \<and> length wasm \<le> 16777216)"
    (is "?ok \<longleftrightarrow> ?v \<and> ?sig \<and> (\<exists>m0 \<in> set issued. ?issued m0)")
proof
  assume ?ok
  then have ok: "?v" "from_parts m = Inr m" "length wasm \<le> 16777216" "digest wasm = am_sha256 m" "am_side_effects m = ReadOnly" "?sig"
    by (simp_all add: verify_manifest_Inr)
  obtain m0 where m0: "m0 \<in> set issued" "canonical_unsigned m = canonical_unsigned m0" using assms(1) [OF ok(6)] by blast
  have same: "m \<lparr> am_signature := am_signature m \<rparr> = m0 \<lparr> am_signature := am_signature m \<rparr>"
    by (rule canonical_unsigned_inj [OF m0(2) ok(2) conjunct1 [OF assms(2) [OF m0(1)]] assms(3) conjunct2 [OF assms(2) [OF m0(1)]]])
  then have "am_sha256 m = am_sha256 m0" "am_side_effects m = am_side_effects m0"
    by (metis audit_manifest.select_convs(3) audit_manifest.surjective audit_manifest.update_convs(11),
        metis audit_manifest.select_convs(7) audit_manifest.surjective audit_manifest.update_convs(11))
  then have "?issued m0" using same ok(3-5) by simp
  with ok(1,6) m0(1) show "?v \<and> ?sig \<and> (\<exists>m0 \<in> set issued. ?issued m0)" by blast
next
  assume r: "?v \<and> ?sig \<and> (\<exists>m0 \<in> set issued. ?issued m0)"
  then obtain m0 where m0: "m0 \<in> set issued" "?issued m0" by blast
  have "from_parts (m0 \<lparr> am_signature := am_signature m \<rparr>) = Inr (m0 \<lparr> am_signature := am_signature m \<rparr>)"
    using assms(2) [OF m0(1)] by (simp add: from_parts_Inr)
  then have "from_parts m = Inr m" using m0(2) by metis
  moreover have "am_sha256 (m0 \<lparr> am_signature := am_signature m \<rparr>) = am_sha256 m0"
    "am_side_effects (m0 \<lparr> am_signature := am_signature m \<rparr>) = am_side_effects m0" by simp_all
  then have "am_sha256 m = am_sha256 m0" "am_side_effects m = am_side_effects m0" using m0(2) by metis+
  ultimately show ?ok using r m0(2) by (simp add: verify_manifest_Inr)
qed

section \<open>Reading a manifest back\<close>

lemma insort_key_snoc: "\<forall>y \<in> set xs. f y < f x \<Longrightarrow> insort_key f x xs = xs @ [x]"
  by (induction xs) auto

lemma insort_key_strict:
  "sorted_wrt (<) (map f xs) \<Longrightarrow> f x \<notin> f ` set xs \<Longrightarrow> sorted_wrt (<) (map f (insort_key f x xs))"
  by (induction xs) (auto simp: set_insort_key)

lemma visit_fields_sorted:
  assumes "sorted_wrt (<) (map fst (out @ rest))" and "length (out @ rest) \<le> 64" and "list_all (\<lambda>(k, _). \<not> bad_field_key k) rest"
  shows "visit_fields out rest = Inr (out @ rest)"
  using assms
proof (induction out rest rule: visit_fields.induct)
  case (2 out k v rest)
  then have "insort_key fst (k, v) out = out @ [(k, v)]" by (intro insort_key_snoc) (auto simp: sorted_wrt_append)
  moreover have "k \<notin> fst ` set out" using 2(2) by (force simp: sorted_wrt_append)
  ultimately show ?case using 2 by (simp add: MAX_FIELDS_def)
qed simp

lemma visit_capabilities_id: "length (out @ rest) \<le> 16 \<Longrightarrow> visit_capabilities out rest = Inr (out @ rest)"
  by (induction out rest rule: visit_capabilities.induct) (auto simp: MAX_CAPABILITIES_def)

lemma insert_capabilities_sorted: "sorted_wrt (<) (out @ rest) \<Longrightarrow> insert_capabilities out rest = Inr (out @ rest)"
proof (induction out rest rule: insert_capabilities.induct)
  case (2 out c rest)
  then have "insort_key id c out = out @ [c]" by (intro insort_key_snoc) (auto simp: sorted_wrt_append)
  moreover have "c \<notin> set out" using 2(2) by (auto simp: sorted_wrt_append)
  ultimately show ?case using 2 by (simp add: id_def)
qed simp

lemma insert_capabilities_sound:
  "insert_capabilities out rest = Inr found \<Longrightarrow> sorted_wrt (<) out \<Longrightarrow> sorted_wrt (<) found"
  using insort_key_strict [where f = id]
  by (induction out rest rule: insert_capabilities.induct) (auto simp: id_def split: if_splits)

lemma visit_fields_sound:
  "visit_fields out rest = Inr found \<Longrightarrow> sorted_wrt (<) (map fst out) \<Longrightarrow> sorted_wrt (<) (map fst found)"
  by (induction out rest rule: visit_fields.induct) (simp_all add: insort_key_strict split: if_splits)

lemma relabelled: "(case x of Inl e \<Rightarrow> Inl (f e) | Inr v \<Rightarrow> Inr v) = Inr y \<longleftrightarrow> x = Inr y"
  by (cases x) simp_all

lemma if_then_Inr: "(if b then Inl e else x) = Inr y \<longleftrightarrow> \<not> b \<and> x = Inr y"
  by simp

text \<open>Manifests survive storage and transport. Serialising a valid manifest and reading it back gives the same manifest,
  so the same signed bytes and signature; and whatever document is read, a manifest that is
  accepted passes every structural check, has at most sixteen distinct capabilities and at most 64
  distinct fields, both in canonical order.\<close>

theorem manifest_document_round_trip:
  assumes "from_parts m = Inr m" and "manifest_typed m"
    and "length (wi_sha256 w) = 32" and "0 \<le> lm_max_time (wi_limits w)"
  shows "deserialize_manifest (serialize_manifest m) = Inr m
    \<and> (\<forall>m'. deserialize_manifest w = Inr m' \<longrightarrow> from_parts m' = Inr m' \<and> manifest_typed m'
        \<and> length (am_capabilities m') \<le> 16 \<and> length (am_evidence_schema m') \<le> 64)"
proof -
  note valid = assms(1) [unfolded from_parts_Inr] and typed = assms(2) [unfolded manifest_typed_def]
  have caps: "visit_capabilities [] (am_capabilities m) = Inr (am_capabilities m)"
    "insert_capabilities [] (am_capabilities m) = Inr (am_capabilities m)"
    using visit_capabilities_id [of "[]"] insert_capabilities_sorted [of "[]"] valid typed by simp_all
  have schema: "visit_schema None [(''fields'', am_evidence_schema m)] = Inr (am_evidence_schema m)"
    using visit_fields_sorted [of "[]" "am_evidence_schema m"] valid typed by (simp add: and_then_def)
  have texts: "bounded_string 128 (am_module_id m) = Inr (am_module_id m)"
    "bounded_string MAX_TEXT (am_expected_behavior m) = Inr (am_expected_behavior m)"
    "bounded_string MAX_TEXT (rp_description (am_rollback m)) = Inr (rp_description (am_rollback m))"
    "bounded_signature (am_signature m) = Inr (am_signature m)" "\<not> MAX_CAPABILITIES < length (am_capabilities m)"
    using valid typed by (auto simp: bounded_string_def bounded_signature_def bad_text_def MAX_CAPABILITIES_def)
  have time: "seconds (as_secs (lm_max_time (am_limits m))) = lm_max_time (am_limits m)"
    using valid div_mult_mod_eq [of "lm_max_time (am_limits m)" 1000000000]
    by (simp add: valid_limits_def seconds_def as_secs_def subsec_nanos_def)
  have whole: "\<lparr> am_module_id = am_module_id m, am_version = am_version m, am_sha256 = am_sha256 m,
         am_target_kind = am_target_kind m, am_capabilities = am_capabilities m, am_expected_behavior = am_expected_behavior m,
         am_side_effects = am_side_effects m,
         am_rollback = \<lparr> rp_required = rp_required (am_rollback m), rp_description = rp_description (am_rollback m) \<rparr>,
         am_evidence_schema = am_evidence_schema m, am_limits = am_limits m, am_signature = am_signature m \<rparr> = m"
    by simp
  have same_limits: "(am_limits m) \<lparr> lm_max_time := lm_max_time (am_limits m) \<rparr> = am_limits m" by simp
  have "deserialize_manifest (serialize_manifest m) = Inr m"
    unfolding deserialize_manifest_def serialize_manifest_def
    by (simp add: and_then_known caps schema texts time whole assms(1) del: visit_schema.simps visit_capabilities.simps insert_capabilities.simps)
  moreover have "from_parts m' = Inr m' \<and> manifest_typed m'" if "deserialize_manifest w = Inr m'" for m'
  proof -
    from that obtain X caps signature where read: "insert_capabilities [] caps = Inr (am_capabilities X)"
      "visit_schema None (wi_evidence_schema w) = Inr (am_evidence_schema X)" "bounded_signature (wi_signature w) = Inr (am_signature X)"
      "from_parts X = Inr m'" "am_sha256 X = wi_sha256 w" "am_limits X = wi_limits w"
      unfolding deserialize_manifest_def and_then_Inr relabelled if_then_Inr
      by (metis audit_manifest.select_convs(3,5,9,10,11))
    have m': "m' = X" "from_parts m' = Inr m'" using read(4) by (simp_all add: from_parts_Inr)
    obtain entries where "visit_fields [] entries = Inr (am_evidence_schema X)"
      using read(2) by (cases "wi_evidence_schema w"; cases "tl (wi_evidence_schema w)") (auto split: if_splits)
    then have "sorted_wrt (<) (map fst (am_evidence_schema X))" using visit_fields_sound by fastforce
    moreover have "sorted_wrt (<) (am_capabilities X)" using insert_capabilities_sound [OF read(1)] by simp
    moreover have "length (am_signature X) = 64" using read(3) by (auto simp: bounded_signature_def split: if_splits)
    ultimately show ?thesis using read(5,6) m' assms(3,4) by (simp add: manifest_typed_def)
  qed
  ultimately show ?thesis by (auto simp: from_parts_Inr)
qed

section \<open>A concrete manifest\<close>

definition tls_manifest :: audit_manifest where
  "tls_manifest =
     \<lparr> am_module_id = ''tls-check'', am_version = 1, am_sha256 = replicate 32 7, am_target_kind = NumericPrivateDevice,
       am_capabilities = [HttpExchange 80, TlsMetadata 443], am_expected_behavior = ''reads a certificate'',
       am_side_effects = ReadOnly, am_rollback = \<lparr> rp_required = False, rp_description = ''none needed'' \<rparr>,
       am_evidence_schema = [(''expires'', EvidenceInteger), (''subject'', EvidenceText)],
       am_limits = \<lparr> lm_max_bytes = 64, lm_max_requests = 2, lm_max_time = seconds 5, lm_max_fuel = 1000, lm_max_memory_pages = 1 \<rparr>,
       am_signature = replicate 64 9 \<rparr>"

lemma tls_manifest_valid: "from_parts tls_manifest = Inr tls_manifest"
  by code_simp

lemma tls_manifest_typed: "manifest_typed tls_manifest"
  by code_simp

definition issued_only :: "u8 list \<Rightarrow> u8 list \<Rightarrow> bool" where
  "issued_only b s \<longleftrightarrow> b = canonical_unsigned tls_manifest \<and> s = replicate 64 9"

theorem only_issued_manifests_verify_witness:
  "verify_manifest (\<lambda>_. replicate 32 7) issued_only tls_manifest [0, 97, 115, 109]
     = Inr \<lparr> vm_inner = tls_manifest, vm_wasm = [0, 97, 115, 109] \<rparr>"
proof -
  have one: "verify_manifest (\<lambda>_. replicate 32 7) issued_only tls_manifest [0, 97, 115, 109]
      = Inr \<lparr> vm_inner = tls_manifest, vm_wasm = [0, 97, 115, 109] \<rparr> \<longleftrightarrow>
    \<lparr> vm_inner = tls_manifest, vm_wasm = [0, 97, 115, 109] \<rparr> = \<lparr> vm_inner = tls_manifest, vm_wasm = [0, 97, 115, 109] \<rparr>
    \<and> issued_only (canonical_unsigned tls_manifest) (am_signature tls_manifest)
    \<and> (\<exists>m0 \<in> set [tls_manifest]. tls_manifest = m0 \<lparr> am_signature := am_signature tls_manifest \<rparr> \<and> replicate 32 7 = am_sha256 m0
        \<and> am_side_effects m0 = ReadOnly \<and> length [0 :: u8, 97, 115, 109] \<le> 16777216)"
    by (rule only_issued_manifests_verify) (auto simp: issued_only_def tls_manifest_valid tls_manifest_typed)
  show ?thesis unfolding one by (simp add: issued_only_def tls_manifest_def)
qed

theorem manifest_document_round_trip_witness:
  "deserialize_manifest (serialize_manifest tls_manifest) = Inr tls_manifest"
  using manifest_document_round_trip [OF tls_manifest_valid tls_manifest_typed, of "serialize_manifest tls_manifest"] tls_manifest_typed
  by (simp add: serialize_manifest_def manifest_typed_def seconds_def as_secs_def tls_manifest_def)

end
