(* ===== verification/Audit_Properties.thy ===== *)
theory Audit_Properties
  imports Audit_Broker Audit_Signing
begin

text \<open>
  What the audit broker guarantees for every guest, authoriser, target and clock: exchanges only with the
  approved target, freshly authorised; traffic within the signed and the requested limits; and a
  module cache that cannot be noticed.
\<close>

section \<open>The contract between the sandbox and its host\<close>

text \<open>
  While the guest runs, the host keeps the state \<open>live\<close>; a failed exchange may only leave it \<open>safe\<close>, and
  ends the run. The sandbox never asks for more than a machine word of bytes.
\<close>

locale audit_host_contract =
  fixes host :: "'h audit_host" and live :: "'h \<Rightarrow> bool" and safe :: "'h \<Rightarrow> bool"
  assumes suspended: "live h \<Longrightarrow> ah_suspended host h = (r, h') \<Longrightarrow> live h'"
    and answered: "live h \<Longrightarrow> length request + cap < 2 ^ 64 \<Longrightarrow> ah_exchange host request cap h = (Inr response, h') \<Longrightarrow> live h'"
    and failed: "live h \<Longrightarrow> length request + cap < 2 ^ 64 \<Longrightarrow> ah_exchange host request cap h = (Inl e, h') \<Longrightarrow> safe h'"
    and live_safe: "live h \<Longrightarrow> safe h"
begin

lemma admitted_size:
  assumes "admit_exchange en g a b c d st = Inr (request, st')"
  shows "length request + nat d < 2 ^ 64"
proof -
  have "b + d \<le> uint (saturating_sub (ss_max_bytes st) (ss_bytes st))" "0 \<le> b" "0 \<le> d" "length request \<le> nat b"
    using assms by (auto simp: admit_exchange_def not_less split: if_splits option.splits)
  moreover have "uint (saturating_sub (ss_max_bytes st) (ss_bytes st)) < 2 ^ 64" using uint_lt2p [of "saturating_sub (ss_max_bytes st) (ss_bytes st)"] by simp
  ultimately have "int (length request + nat d) < 2 ^ 64" by simp
  then show ?thesis by (metis of_nat_less_iff of_nat_numeral of_nat_power)
qed

lemma run_guest_contract:
  "live h \<Longrightarrow> run_guest en host g st h = (e, g', st', h') \<Longrightarrow> safe h' \<and> (\<forall>p. e = GuestReturned p \<longrightarrow> live h')"
proof (induction en h0 \<equiv> host g st h rule: run_guest.induct)
  case (1 en g st h)
  obtain r h1 where susp: "ah_suspended host h = (r, h1)" by fastforce
  have h1: "live h1" using suspended [OF 1(3) susp] .
  show ?case
  proof (cases "r = Resumed")
    case False
    then show ?thesis using 1(4) susp live_safe [OF h1] by (subst (asm) run_guest.simps) (cases r; auto)
  next
    case True
    obtain growths action where next_: "we_next en g = (growths, action)" by fastforce
    obtain b st1 where grow: "limiter_growing growths st = (b, st1)" by fastforce
    note run = 1(4) [unfolded run_guest.simps [of en host g st h], simplified susp True next_ grow prod.case suspension.case]
    note IH = 1(1,2) [OF susp [unfolded True, symmetric] refl next_ [symmetric] grow [symmetric]]
    show ?thesis
    proof (cases action)
      case CallDeterministic
      then show ?thesis using run IH(1) h1 live_safe [OF h1] by (cases b) (auto split: if_splits)
    next
      case (CallExchange x1 x2 x3 x4)
      show ?thesis
      proof (cases "b \<and> (\<exists>x. admit_exchange en g x1 x2 x3 x4 st1 = Inr x)")
        case False
        then show ?thesis using run CallExchange live_safe [OF h1]
          by (cases b; cases "admit_exchange en g x1 x2 x3 x4 st1") auto
      next
        case True
        then obtain request st2 where admit: "b = True" "admit_exchange en g x1 x2 x3 x4 st1 = Inr (request, st2)" by auto
        obtain answer h2 where ask: "ah_exchange host request (nat x4) h1 = (answer, h2)" by fastforce
        note size = admitted_size [OF admit(2)]
        note IH' = IH(2) [OF admit(1) CallExchange admit(2) refl ask [symmetric] _ refl]
        have h2: "safe h2" "\<And>v. answer = Inr v \<Longrightarrow> live h2"
          using answered [OF h1 size] failed [OF h1 size] live_safe ask by (cases answer; auto)+
        have "\<And>g2 st3. deliver_answer en g x3 x4 answer st2 = Inr (g2, st3) \<Longrightarrow> live h2"
          using h2(2) by (cases answer) (auto simp: deliver_answer_def)
        then show ?thesis using run CallExchange admit ask h2(1) IH'
          by (auto split: sum.splits)
      qed
    qed (use run live_safe [OF h1] h1 in \<open>auto split: bool.splits\<close>)
  qed
qed

lemma sandbox_execute_contract:
  assumes "live h" and "sandbox_execute en sb host input h = (e, h')"
  shows "safe h' \<and> (\<forall>out. e = SandboxDone (Inr out) \<longrightarrow> live h' \<and> length out < 2 ^ 64 \<and> length input \<le> unat (lm_max_bytes (sb_limits sb)))"
proof (cases "start_guest en sb input")
  case (Inl x)
  then show ?thesis using assms live_safe by (auto simp: sandbox_execute_def split: if_splits)
next
  case (Inr x)
  obtain g st where x: "x = (g, st)" by fastforce
  obtain r g' st' h1 where run: "run_guest en host g st h = (r, g', st', h1)" by (metis prod_cases4)
  note kept = run_guest_contract [OF assms(1) run]
  have out: "length out < 2 ^ 64" if "read_output mem l st' packed = Inr out" for mem l packed out
  proof -
    have "length out \<le> unat (word_of_int (packed mod 2 ^ 32) :: u64)"
      using that unfolding read_output_def Let_def by (simp split: if_split_asm option.split_asm) auto
    also have "\<dots> < 2 ^ 64" using unsigned_less [of "word_of_int (packed mod 2 ^ 32) :: u64"] by simp
    finally show ?thesis .
  qed
  have input: "int (length input) \<le> uint (lm_max_bytes (sb_limits sb)) \<Longrightarrow> length input \<le> unat (lm_max_bytes (sb_limits sb))"
    by (metis nat_int nat_mono unat_eq_nat_uint)
  show ?thesis
    using assms Inr x run kept live_safe [OF assms(1)] out input
    by (auto simp: sandbox_execute_def finish_guest_def not_less split: if_splits guest_end.splits option.splits suspension.splits sandbox_end.splits)
qed

end

section \<open>The broker's books\<close>

text \<open>Bytes sent and delivered, and requests sent.\<close>

fun event_bytes :: "audit_event \<Rightarrow> nat" where
  "event_bytes (EvAuthorized _) = 0"
| "event_bytes (EvSent _ q) = length (xq_payload q)"
| "event_bytes (EvDelivered n) = n"

definition traffic :: "audit_event list \<Rightarrow> nat" where
  "traffic ev = sum_list (map event_bytes ev)"

fun is_sent :: "audit_event \<Rightarrow> bool" where
  "is_sent (EvSent _ _) = True"
| "is_sent _ = False"

definition sends :: "audit_event list \<Rightarrow> nat" where
  "sends ev = length (filter is_sent ev)"

text \<open>Every request goes to the host's target, which the authoriser has just confirmed.\<close>

definition vetted :: "broker_host \<Rightarrow> audit_event list \<Rightarrow> bool" where
  "vetted host ev \<longleftrightarrow> (\<forall>i < length ev. \<forall>t q. ev ! i = EvSent t q \<longrightarrow>
     0 < i \<and> ev ! (i - 1) = EvAuthorized (Inr t) \<and> t = bh_target host \<and> xq_protocol q = protocol_of (bh_capability host)
     \<and> xq_deadline q = bh_deadline host)"

lemma traffic_simps [simp]: "traffic [] = 0" "traffic (ev @ ev') = traffic ev + traffic ev'" "traffic (e # ev) = event_bytes e + traffic ev"
  by (simp_all add: traffic_def)

lemma sends_simps [simp]: "sends [] = 0" "sends (ev @ ev') = sends ev + sends ev'" "sends (e # ev) = (if is_sent e then 1 else 0) + sends ev"
  by (simp_all add: sends_def)

lemma vetted_Nil [simp]: "vetted host []"
  by (simp add: vetted_def)

lemma vetted_other: "vetted host ev \<Longrightarrow> \<not> is_sent e \<Longrightarrow> vetted host (ev @ [e])"
  unfolding vetted_def by (auto simp: nth_append less_Suc_eq)

lemma vetted_sent:
  assumes "vetted host ev" and "t = bh_target host" "xq_protocol q = protocol_of (bh_capability host)" "xq_deadline q = bh_deadline host"
  shows "vetted host (ev @ [EvAuthorized (Inr t), EvSent t q])"
  using assms unfolding vetted_def by (auto simp: nth_append less_Suc_eq nth_Cons split: nat.splits)

definition broker_safe :: "broker_host \<Rightarrow> limits \<Rightarrow> audit_event list \<Rightarrow> nat \<Rightarrow> 'w host_state \<Rightarrow> bool" where
  "broker_safe host l log0 n0 s \<longleftrightarrow> (\<exists>ev. hs_log s = log0 @ ev \<and> vetted host ev
     \<and> n0 + traffic ev \<le> unat (lm_max_bytes l) \<and> sends ev \<le> unat (lm_max_requests l))"

text \<open>While the guest runs, the budget is the traffic, exactly.\<close>

definition broker_live :: "broker_host \<Rightarrow> limits \<Rightarrow> audit_event list \<Rightarrow> nat \<Rightarrow> 'w host_state \<Rightarrow> bool" where
  "broker_live host l log0 n0 s \<longleftrightarrow> (\<exists>ev. hs_log s = log0 @ ev \<and> vetted host ev
     \<and> ab_max_bytes (hs_budget s) = lm_max_bytes l \<and> ab_max_requests (hs_budget s) = lm_max_requests l
     \<and> unat (ab_bytes (hs_budget s)) = n0 + traffic ev \<and> unat (ab_requests (hs_budget s)) = sends ev
     \<and> n0 + traffic ev \<le> unat (lm_max_bytes l) \<and> sends ev \<le> unat (lm_max_requests l))"

lemma reserve_Inr:
  assumes "reserve b now n k = (Inr r, b')" and "n + k < 2 ^ 64" and "ab_bytes b \<le> ab_max_bytes b"
  shows "r = \<lparr> rv_request_bytes = n, rv_response_cap = k \<rparr>" "ab_max_bytes b' = ab_max_bytes b" "ab_max_requests b' = ab_max_requests b"
    "unat (ab_bytes b') = unat (ab_bytes b) + n + k" "unat (ab_requests b') = unat (ab_requests b) + 1"
    "unat (ab_bytes b') \<le> unat (ab_max_bytes b)" "unat (ab_requests b') \<le> unat (ab_max_requests b)"
proof -
  have word: "unat (of_nat n :: u64) = n" "unat (of_nat k :: u64) = k" using assms(2) by (simp_all add: unat_of_nat)
  obtain x m y where c: "checked_add (of_nat n :: u64) (of_nat k) = Some x" "checked_add (ab_requests b) 1 = Some m"
    "checked_add (ab_bytes b) x = Some y" "ab_requests b < ab_max_requests b" "x \<le> saturating_sub (ab_max_bytes b) (ab_bytes b)"
    "r = \<lparr> rv_request_bytes = n, rv_response_cap = k \<rparr>" "b' = b \<lparr> ab_requests := m, ab_bytes := y \<rparr>"
    using assms(1) by (auto simp: reserve_def Let_def not_le not_less split: option.splits if_splits)
  note sums = checked_add_SomeD [OF c(1)] checked_add_SomeD [OF c(2)] checked_add_SomeD [OF c(3)]
  show "r = \<lparr> rv_request_bytes = n, rv_response_cap = k \<rparr>" "ab_max_bytes b' = ab_max_bytes b" "ab_max_requests b' = ab_max_requests b"
    using c(6,7) by simp_all
  show "unat (ab_bytes b') = unat (ab_bytes b) + n + k" "unat (ab_requests b') = unat (ab_requests b) + 1"
    using c(7) sums word by simp_all
  show "unat (ab_requests b') \<le> unat (ab_max_requests b)" using c(4,7) sums(2) by (simp add: word_less_nat_alt)
  have "unat x \<le> unat (ab_max_bytes b) - unat (ab_bytes b)" using c(5) by (simp add: word_le_nat_alt unat_saturating_sub)
  then show "unat (ab_bytes b') \<le> unat (ab_max_bytes b)" using c(7) sums(3) assms(3) by (simp add: word_le_nat_alt)
qed

lemma refund_bytes:
  assumes "m \<le> k" and "k < 2 ^ 64"
  shows "unat (ab_bytes (refund b k m)) = unat (ab_bytes b) - (k - m)"
proof -
  have "unat (of_nat x :: u64) = x" if "x < 2 ^ 64" for x using that by (simp add: unat_of_nat)
  from this [of "k - m"] have "unat (of_nat (k - m) :: u64) = k - m" using assms by simp
  then show ?thesis by (simp add: refund_def unat_saturating_sub)
qed

lemma reserved_exchange_books:
  assumes run: "reserved_exchange io host request k \<lparr> rv_request_bytes = length request, rv_response_cap = k \<rparr> s = (a, s')"
    and log: "hs_log s = log0 @ ev" "vetted host ev"
    and limits: "ab_max_bytes (hs_budget s) = lm_max_bytes l" "ab_max_requests (hs_budget s) = lm_max_requests l"
    and books: "unat (ab_bytes (hs_budget s)) = n0 + traffic ev + length request + k" "unat (ab_requests (hs_budget s)) = sends ev + 1"
      "n0 + traffic ev + length request + k \<le> unat (lm_max_bytes l)" "sends ev + 1 \<le> unat (lm_max_requests l)"
  shows "broker_safe host l log0 n0 s' \<and> (\<forall>v. a = Inr v \<longrightarrow> broker_live host l log0 n0 s')"
proof -
  have "unat (lm_max_bytes l) < 2 ^ LENGTH(64)" by (rule unsigned_less)
  then have k: "k < 2 ^ 64" using books(3) by simp
  let ?t = "bh_target host"
  let ?q = "\<lparr> xq_payload = request, xq_protocol = protocol_of (bh_capability host), xq_response_limit = k, xq_deadline = bh_deadline host \<rparr>"
  obtain answer w1 where ask: "io_authorize io (au_target ?t) (au_interface ?t) (au_port ?t) (hs_world s) = (answer, w1)" by fastforce
  obtain reply w2 where reply: "io_exchange io ?t ?q w1 = (reply, w2)" by fastforce
  have refused: "broker_safe host l log0 n0 s1" if "hs_log s1 = log0 @ ev @ [EvAuthorized answer]" for s1 :: "'a host_state"
    unfolding broker_safe_def using that log(2) books(3,4) by (intro exI [of _ "ev @ [EvAuthorized answer]"]) (simp add: vetted_other)
  have sent: "vetted host (ev @ [EvAuthorized (Inr ?t), EvSent ?t ?q])" by (rule vetted_sent) (simp_all add: log)
  have failed: "broker_safe host l log0 n0 s1" if "hs_log s1 = log0 @ ev @ [EvAuthorized (Inr ?t), EvSent ?t ?q]" for s1 :: "'a host_state"
    unfolding broker_safe_def using that sent books(3,4) by (intro exI [of _ "ev @ [EvAuthorized (Inr ?t), EvSent ?t ?q]"]) simp
  show ?thesis
  proof (cases "answer = Inr ?t")
    case False
    then show ?thesis using run by (auto simp: reserved_exchange_def ask Let_def log(1) intro!: refused split: sum.splits if_splits)
  next
    case True
    show ?thesis
    proof (cases "\<exists>x. reply = Answered x \<and> length (er_bytes x) \<le> k")
      case False
      then show ?thesis using run ask True reply
        by (cases reply) (auto simp: reserved_exchange_def Let_def not_le log(1) intro!: failed)
    next
      case True
      then obtain x where x: "reply = Answered x" "length (er_bytes x) \<le> k" by blast
      let ?ev = "ev @ [EvAuthorized (Inr ?t), EvSent ?t ?q, EvDelivered (length (er_bytes x))]"
      have s': "hs_log s' = log0 @ ?ev" "hs_budget s' = refund (hs_budget s) k (length (er_bytes x))"
        using run ask \<open>answer = Inr ?t\<close> reply x by (auto simp: reserved_exchange_def commit_reservation_def Let_def log(1))
      have "vetted host ?ev" using vetted_other [OF sent, of "EvDelivered (length (er_bytes x))"] by simp
      moreover have "ab_requests (hs_budget s') = ab_requests (hs_budget s)" "ab_max_bytes (hs_budget s') = lm_max_bytes l"
        "ab_max_requests (hs_budget s') = lm_max_requests l" using limits by (simp_all add: s'(2) refund_def)
      moreover have "unat (ab_bytes (hs_budget s')) = n0 + traffic ?ev" "n0 + traffic ?ev \<le> unat (lm_max_bytes l)"
        unfolding s'(2) refund_bytes [OF x(2) k] using books(1,3) x(2) by simp_all
      ultimately have "broker_live host l log0 n0 s'"
        unfolding broker_live_def using s'(1) books(2,4) by (intro exI [of _ ?ev]) simp
      then show ?thesis by (auto simp: broker_live_def broker_safe_def)
    qed
  qed
qed

lemma broker_live_world: "broker_live host l log0 n0 (s \<lparr> hs_world := w \<rparr>) \<longleftrightarrow> broker_live host l log0 n0 s"
  by (simp add: broker_live_def)

lemma broker_live_safe: "broker_live host l log0 n0 s \<Longrightarrow> broker_safe host l log0 n0 s"
  by (auto simp: broker_live_def broker_safe_def)

lemma host_exchange_books:
  assumes live: "broker_live host l log0 n0 s" and "length request + k < 2 ^ 64" and run: "host_exchange io host request k s = (a, s')"
  shows "broker_safe host l log0 n0 s' \<and> (\<forall>v. a = Inr v \<longrightarrow> broker_live host l log0 n0 s')"
proof -
  from live obtain ev where ev: "hs_log s = log0 @ ev" "vetted host ev" "ab_max_bytes (hs_budget s) = lm_max_bytes l"
    "ab_max_requests (hs_budget s) = lm_max_requests l" "unat (ab_bytes (hs_budget s)) = n0 + traffic ev"
    "unat (ab_requests (hs_budget s)) = sends ev" "n0 + traffic ev \<le> unat (lm_max_bytes l)" "sends ev \<le> unat (lm_max_requests l)"
    by (auto simp: broker_live_def)
  have safe: "broker_safe host l log0 n0 (s \<lparr> hs_world := w, hs_budget := b \<rparr>)" "broker_safe host l log0 n0 (s \<lparr> hs_world := w \<rparr>)" for w b
    using ev by (auto simp: broker_safe_def)
  obtain c w1 where 1: "io_cancelled io (hs_world s) = (c, w1)" by fastforce
  obtain t2 w2 where 2: "io_now io w1 = (t2, w2)" by fastforce
  obtain t3 w3 where 3: "io_now io w2 = (t3, w3)" by fastforce
  obtain r b where 4: "reserve (hs_budget s) t3 (length request) k = (r, b)" by fastforce
  show ?thesis
  proof (cases "\<not> c \<and> t2 < bh_deadline host \<and> (\<exists>v. r = Inr v)")
    case False
    then show ?thesis using run 1 2 3 4 safe by (auto simp: host_exchange_def Let_def split: if_splits sum.splits)
  next
    case True
    then obtain v where v: "r = Inr v" by blast
    have le: "ab_bytes (hs_budget s) \<le> ab_max_bytes (hs_budget s)" using ev by (simp add: word_le_nat_alt)
    note reserved = reserve_Inr [OF 4 [unfolded v] assms(2) le]
    have "reserved_exchange io host request k \<lparr> rv_request_bytes = length request, rv_response_cap = k \<rparr>
        (s \<lparr> hs_world := w3, hs_budget := b \<rparr>) = (a, s')"
      using run 1 2 3 4 v True reserved(1) by (simp add: host_exchange_def Let_def)
    then show ?thesis
      by (rule reserved_exchange_books [where ev = ev]) (use ev reserved in simp_all)
  qed
qed

interpretation broker: audit_host_contract "host_of io host" "broker_live host l log0 n0" "broker_safe host l log0 n0"
  for io :: "'w audit_io" and host l log0 n0
proof
  fix h h' :: "'w host_state" and r request response e and cap :: nat
  show "broker_live host l log0 n0 h \<Longrightarrow> ah_suspended (host_of io host) h = (r, h') \<Longrightarrow> broker_live host l log0 n0 h'"
    by (auto simp: host_of_def broker_live_world split: prod.splits)
  show "broker_live host l log0 n0 h \<Longrightarrow> length request + cap < 2 ^ 64 \<Longrightarrow> ah_exchange (host_of io host) request cap h = (Inr response, h')
      \<Longrightarrow> broker_live host l log0 n0 h'"
    using host_exchange_books [of host l log0 n0 h request cap io] by (simp add: host_of_def)
  show "broker_live host l log0 n0 h \<Longrightarrow> length request + cap < 2 ^ 64 \<Longrightarrow> ah_exchange (host_of io host) request cap h = (Inl e, h')
      \<Longrightarrow> broker_safe host l log0 n0 h'"
    using host_exchange_books [of host l log0 n0 h request cap io] by (simp add: host_of_def)
  show "broker_live host l log0 n0 h \<Longrightarrow> broker_safe host l log0 n0 h" by (rule broker_live_safe)
qed

section \<open>One request\<close>

lemma charge_bytes_Inr:
  assumes "charge_bytes b now n = (Inr u, b')" and "n < 2 ^ 64" and "ab_bytes b \<le> ab_max_bytes b"
  shows "unat (ab_bytes b') = unat (ab_bytes b) + n" "unat (ab_bytes b') \<le> unat (ab_max_bytes b)"
    "ab_max_bytes b' = ab_max_bytes b" "ab_max_requests b' = ab_max_requests b" "ab_requests b' = ab_requests b"
proof -
  have word: "unat (of_nat n :: u64) = n" using assms(2) by (simp add: unat_of_nat)
  obtain k where k: "checked_add (ab_bytes b) (of_nat n) = Some k" "b' = b \<lparr> ab_bytes := k \<rparr>"
    "of_nat n \<le> saturating_sub (ab_max_bytes b) (ab_bytes b)"
    using assms(1) by (auto simp: charge_bytes_def not_less split: if_splits option.splits)
  show sum: "unat (ab_bytes b') = unat (ab_bytes b) + n" using checked_add_SomeD [OF k(1)] k(2) word by simp
  have "n \<le> unat (ab_max_bytes b) - unat (ab_bytes b)" using k(3) by (simp add: word_le_nat_alt unat_saturating_sub word)
  then show "unat (ab_bytes b') \<le> unat (ab_max_bytes b)" using sum assms(3) by (simp add: word_le_nat_alt)
  show "ab_max_bytes b' = ab_max_bytes b" "ab_max_requests b' = ab_max_requests b" "ab_requests b' = ab_requests b"
    using k by simp_all
qed

definition published :: "broker_host \<Rightarrow> limits \<Rightarrow> audit_event list \<Rightarrow> nat \<Rightarrow> broker_request \<Rightarrow> broker_result \<Rightarrow> audit_event list \<Rightarrow> bool" where
  "published host l log0 n0 q res log \<longleftrightarrow> (\<exists>ev. log = log0 @ ev \<and> vetted host ev \<and> sends ev \<le> unat (lm_max_requests l)
     \<and> n0 + traffic ev + length (bt_bytes res) \<le> unat (lm_max_bytes l)
     \<and> bt_target res = br_target q \<and> bt_approval_id res = br_approval_id q)"

lemma publish_output_books:
  assumes live: "broker_live host l log0 n0 s" and "length output < 2 ^ 64" and run: "publish_output io q deadline output s = (r, s')"
  shows "hs_log s' = hs_log s" "r = Inr res \<Longrightarrow> published host l log0 n0 q res (hs_log s')"
proof -
  show log: "hs_log s' = hs_log s"
    using run by (auto simp: publish_output_def split: prod.splits if_splits sum.splits)
  assume r: "r = Inr res"
  obtain now b u where c: "charge_bytes (hs_budget s) now (length output) = (Inr u, b)"
    and res: "res = \<lparr> bt_target = br_target q, bt_approval_id = br_approval_id q, bt_bytes = output \<rparr>"
    using run r by (auto simp: publish_output_def split: prod.splits if_splits sum.splits)
  from live obtain ev where ev: "hs_log s = log0 @ ev" "vetted host ev" "ab_max_bytes (hs_budget s) = lm_max_bytes l"
    "unat (ab_bytes (hs_budget s)) = n0 + traffic ev" "n0 + traffic ev \<le> unat (lm_max_bytes l)" "sends ev \<le> unat (lm_max_requests l)"
    by (auto simp: broker_live_def)
  have "ab_bytes (hs_budget s) \<le> ab_max_bytes (hs_budget s)" using ev by (simp add: word_le_nat_alt)
  from charge_bytes_Inr [OF c assms(2) this] have "n0 + traffic ev + length output \<le> unat (lm_max_bytes l)" using ev by simp
  then show "published host l log0 n0 q res (hs_log s')" using ev log res by (auto simp: published_def)
qed

lemma run_module_books:
  assumes live: "broker_live host l log0 n0 s" and run: "run_module io en q sb host s = (r, s')"
  shows "broker_safe host l log0 n0 s' \<and> (\<forall>res. r = Inr res \<longrightarrow> published host l log0 n0 q res (hs_log s'))"
proof -
  obtain e s1 where exec: "sandbox_execute en sb (host_of io host) (br_input q) s = (e, s1)" by fastforce
  note kept = broker.sandbox_execute_contract [OF live exec]
  show ?thesis
  proof (cases "\<exists>out. e = SandboxDone (Inr out)")
    case True
    then obtain out where out: "e = SandboxDone (Inr out)" by blast
    then have "broker_live host l log0 n0 s1" "length out < 2 ^ 64" using kept by auto
    note pub = publish_output_books [OF this, of io q "bh_deadline host" r s']
    have "publish_output io q (bh_deadline host) out s1 = (r, s')" using run by (simp add: run_module_def exec out)
    with pub kept show ?thesis by (auto simp: broker_safe_def)
  next
    case False
    then show ?thesis using run kept by (auto simp: run_module_def exec split: sandbox_end.splits suspension.splits sum.splits)
  qed
qed

definition host_for :: "broker_request \<Rightarrow> authorized_target \<Rightarrow> instant \<Rightarrow> broker_host" where
  "host_for q target deadline = \<lparr> bh_target = target, bh_capability = br_capability q, bh_deadline = deadline \<rparr>"

lemma execute_authorized_books:
  assumes run: "execute_authorized io en q l deadline target s = (r, s')" and "length (br_input q) < 2 ^ 64"
  shows "bs_log s' = bs_log s \<and> (\<forall>res. r \<noteq> Inr res)
    \<or> (\<exists>ev. bs_log s' = bs_log s @ ev \<and> vetted (host_for q target deadline) ev \<and> sends ev \<le> unat (lm_max_requests l)
        \<and> length (br_input q) + traffic ev \<le> unat (lm_max_bytes l)
        \<and> (\<forall>res. r = Inr res \<longrightarrow> published (host_for q target deadline) l (bs_log s) (length (br_input q)) q res (bs_log s')))"
proof -
  obtain t1 w1 where 1: "io_now io (bs_world s) = (t1, w1)" by fastforce
  obtain x cache where 2: "sandbox_for en (bs_cache s) (br_module q) l = (x, cache)" by fastforce
  obtain t3 w3 where 3: "io_now io w1 = (t3, w3)" by fastforce
  obtain t4 w4 where 4: "io_now io w3 = (t4, w4)" by fastforce
  obtain c b where 5: "charge_bytes (new_audit_budget l deadline) t4 (length (br_input q)) = (c, b)" by fastforce
  show ?thesis
  proof (cases "t1 < deadline \<and> (\<exists>sb. x = Inr sb) \<and> t3 < deadline \<and> (\<exists>u. c = Inr u)")
    case False
    then show ?thesis using run 1 2 3 4 5 by (auto simp: execute_authorized_def not_le split: if_splits sum.splits)
  next
    case True
    then obtain sb u where sb: "x = Inr sb" "c = Inr u" by blast
    let ?h = "host_for q target deadline"
    let ?s = "\<lparr> hs_world = w4, hs_log = bs_log s, hs_budget = b, hs_target_error = None \<rparr>"
    have "ab_bytes (new_audit_budget l deadline) \<le> ab_max_bytes (new_audit_budget l deadline)" by (simp add: new_audit_budget_def)
    note charged = charge_bytes_Inr [OF 5 [unfolded sb(2)] assms(2) this]
    have live: "broker_live ?h l (bs_log s) (length (br_input q)) ?s"
      using charged by (auto simp: broker_live_def new_audit_budget_def)
    obtain h where mod: "run_module io en q sb ?h ?s = (r, h)" and s': "bs_log s' = hs_log h"
      using run 1 2 3 4 5 True sb
      by (cases "run_module io en q sb ?h ?s") (auto simp: execute_authorized_def host_for_def)
    note books = run_module_books [OF live mod]
    then show ?thesis unfolding s' broker_safe_def by blast
  qed
qed

lemma broker_execute_books:
  assumes run: "broker_execute io en q s = (r, s')" and "length (br_input q) < 2 ^ 64"
  obtains "\<forall>res. r \<noteq> Inr res" "\<exists>ev. bs_log s' = bs_log s @ ev \<and> sends ev = 0 \<and> traffic ev = 0"
  | l deadline target ev w w' where "admit_request q = Inr l" "io_authorize io (br_target q) (br_interface q) (br_port q) w = (Inr target, w')"
    "au_target target = br_target q" "au_interface target = br_interface q" "au_port target = br_port q"
    "bs_log s' = bs_log s @ EvAuthorized (Inr target) # ev" "vetted (host_for q target deadline) ev"
    "sends ev \<le> unat (lm_max_requests l)" "length (br_input q) + traffic ev \<le> unat (lm_max_bytes l)"
    "\<forall>res. r = Inr res \<longrightarrow> length (br_input q) + traffic ev + length (bt_bytes res) \<le> unat (lm_max_bytes l)
       \<and> bt_target res = br_target q \<and> bt_approval_id res = br_approval_id q"
proof (cases "\<exists>l t w1 deadline w2 target w3. admit_request q = Inr l \<and> io_now io (bs_world s) = (t, w1)
    \<and> io_add io t (lm_max_time l) = Some deadline \<and> io_cancelled io w1 = (False, w2)
    \<and> io_authorize io (br_target q) (br_interface q) (br_port q) w2 = (Inr target, w3)
    \<and> au_target target = br_target q \<and> au_interface target = br_interface q \<and> au_port target = br_port q")
  case False
  have "(\<forall>res. r \<noteq> Inr res) \<and> (\<exists>ev. bs_log s' = bs_log s @ ev \<and> sends ev = 0 \<and> traffic ev = 0)"
    using run False unfolding broker_execute_def Let_def
    by (auto split: sum.splits prod.splits option.splits if_splits)
  then show thesis using that(1) by blast
next
  case True
  then obtain l t w1 deadline w2 target w3 where ok: "admit_request q = Inr l" "io_now io (bs_world s) = (t, w1)"
    "io_add io t (lm_max_time l) = Some deadline" "io_cancelled io w1 = (False, w2)"
    "io_authorize io (br_target q) (br_interface q) (br_port q) w2 = (Inr target, w3)"
    "au_target target = br_target q" "au_interface target = br_interface q" "au_port target = br_port q" by blast
  let ?s = "s \<lparr> bs_world := w3, bs_log := bs_log s @ [EvAuthorized (Inr target)] \<rparr>"
  have auth: "execute_authorized io en q l deadline target ?s = (r, s')"
    using run ok by (simp add: broker_execute_def Let_def)
  from execute_authorized_books [OF auth assms(2)] consider
      "bs_log s' = bs_log ?s" "\<forall>res. r \<noteq> Inr res"
    | ev where "bs_log s' = bs_log ?s @ ev" "vetted (host_for q target deadline) ev" "sends ev \<le> unat (lm_max_requests l)"
        "length (br_input q) + traffic ev \<le> unat (lm_max_bytes l)"
        "\<forall>res. r = Inr res \<longrightarrow> published (host_for q target deadline) l (bs_log ?s) (length (br_input q)) q res (bs_log s')"
    by blast
  then show thesis
  proof cases
    case 1
    then show thesis using that(1) by simp
  next
    case 2
    then show thesis using that(2) [OF ok(1,5,6,7,8), of ev deadline] by (auto simp: published_def)
  qed
qed

lemma admit_request_Inr:
  "admit_request q = Inr l \<longleftrightarrow> br_approval_id q \<noteq> 0 \<and> capability_port (br_capability q) = br_port q
     \<and> br_capability q \<in> set (am_capabilities (vm_inner (br_module q))) \<and> valid_limits (br_limits q)
     \<and> l = intersect_limits (am_limits (vm_inner (br_module q))) (br_limits q)
     \<and> lm_max_bytes l \<noteq> 0 \<and> lm_max_requests l \<noteq> 0 \<and> lm_max_time l \<noteq> 0 \<and> lm_max_fuel l \<noteq> 0 \<and> lm_max_memory_pages l \<noteq> 0"
  by (auto simp: admit_request_def Let_def)

section \<open>Properties\<close>

text \<open>Authorisers can only answer with targets made by the constructor, whose fields are private.\<close>

definition authorises_privately :: "'w audit_io \<Rightarrow> bool" where
  "authorises_privately io \<longleftrightarrow> (\<forall>ip interface port w t w'. io_authorize io ip interface port w = (Inr t, w')
     \<longrightarrow> new_target (au_target t) (au_interface t) (au_port t) = Inr t)"

text \<open>C37. A module only ever talks to the approved device. Whatever the guest does and whatever the authoriser, the
  target and the clock answer, the request appends to the log, and every message in it was sent
  directly after the authoriser confirmed exactly its target; that target is the address, interface and
  port of the request, a private or link-local unicast address; the protocol is the one of the requested
  capability, which the signed manifest declares for that port; and an approval was given.\<close>

theorem exchanges_reach_only_approved_target:
  assumes "broker_execute io en q s = (r, s')" and "authorises_privately io" and "length (br_input q) < 2 ^ 64"
  shows "\<exists>ev. bs_log s' = bs_log s @ ev \<and> (\<forall>i t x. i < length ev \<and> ev ! i = EvSent t x \<longrightarrow>
    0 < i \<and> ev ! (i - 1) = EvAuthorized (Inr t)
    \<and> au_target t = br_target q \<and> au_interface t = br_interface q \<and> au_port t = br_port q \<and> target_allowed (au_target t)
    \<and> xq_protocol x = protocol_of (br_capability q) \<and> capability_port (br_capability q) = br_port q
    \<and> br_capability q \<in> set (am_capabilities (vm_inner (br_module q))) \<and> br_approval_id q \<noteq> 0)"
  using assms(1,3)
proof (cases rule: broker_execute_books)
  case 1
  then obtain ev where ev: "bs_log s' = bs_log s @ ev" "sends ev = 0" by blast
  then have "\<not> is_sent (ev ! i)" if "i < length ev" for i
    using that by (auto simp: sends_def filter_empty_conv)
  then have "ev ! i \<noteq> EvSent t x" if "i < length ev" for i t x using that by fastforce
  with ev(1) show ?thesis by blast
next
  case (2 l deadline target ev w w')
  note admitted = 2(1) [unfolded admit_request_Inr]
  have "new_target (au_target target) (au_interface target) (au_port target) = Inr target"
    using 2(2) assms(2) unfolding authorises_privately_def by blast
  then have allowed: "target_allowed (au_target target)" by (auto simp: new_target_def split: if_splits)
  have "0 < i \<and> (EvAuthorized (Inr target) # ev) ! (i - 1) = EvAuthorized (Inr t) \<and> t = target \<and> xq_protocol x = protocol_of (br_capability q)"
    if here: "i < length (EvAuthorized (Inr target) # ev)" "(EvAuthorized (Inr target) # ev) ! i = EvSent t x" for i t x
  proof -
    obtain j where j: "i = Suc j" "j < length ev" "ev ! j = EvSent t x" using here by (cases i) auto
    then have "0 < j" "ev ! (j - 1) = EvAuthorized (Inr t)" "t = target" "xq_protocol x = protocol_of (br_capability q)"
      using 2(7) by (auto simp: vetted_def host_for_def)
    then show ?thesis using j(1) by (simp add: nth_Cons')
  qed
  then show ?thesis using 2(3-6) allowed admitted by (intro exI [of _ "EvAuthorized (Inr target) # ev"]) blast
qed

text \<open>C38. Traffic is bounded by what was signed and by what was asked for. For every guest and environment, a request sends
  at most as many messages as the smaller of the two request limits; if it sends any, its input, all bytes
  sent and all bytes delivered to the guest are together within the smaller of the two byte limits; and if it succeeds,
  so are these and the output, which is published for the requested target and approval. Without
  admission nothing is sent.\<close>

theorem broker_traffic_within_limits:
  assumes "broker_execute io en q s = (r, s')" and "length (br_input q) < 2 ^ 64"
  shows "\<exists>ev. bs_log s' = bs_log s @ ev
    \<and> sends ev \<le> min (unat (lm_max_requests (am_limits (vm_inner (br_module q))))) (unat (lm_max_requests (br_limits q)))
    \<and> (0 < sends ev \<longrightarrow> length (br_input q) + traffic ev
         \<le> min (unat (lm_max_bytes (am_limits (vm_inner (br_module q))))) (unat (lm_max_bytes (br_limits q))))
    \<and> (\<forall>res. r = Inr res \<longrightarrow> length (br_input q) + traffic ev + length (bt_bytes res)
         \<le> min (unat (lm_max_bytes (am_limits (vm_inner (br_module q))))) (unat (lm_max_bytes (br_limits q)))
         \<and> bt_target res = br_target q \<and> bt_approval_id res = br_approval_id q)
    \<and> ((\<forall>l. admit_request q \<noteq> Inr l) \<longrightarrow> ev = [])"
  using assms
proof (cases rule: broker_execute_books)
  case 1
  moreover have "bs_log s' = bs_log s" if "\<forall>l. admit_request q \<noteq> Inr l"
    using assms(1) that by (auto simp: broker_execute_def split: sum.splits)
  ultimately show ?thesis by (cases "\<forall>l. admit_request q \<noteq> Inr l") force+
next
  case (2 l deadline target ev w w')
  have unat_min: "unat (min a b) = min (unat a) (unat b)" for a b :: "'n::len word"
    by (simp add: min_def word_le_nat_alt)
  have l: "unat (lm_max_bytes l) = min (unat (lm_max_bytes (am_limits (vm_inner (br_module q))))) (unat (lm_max_bytes (br_limits q)))"
    "unat (lm_max_requests l) = min (unat (lm_max_requests (am_limits (vm_inner (br_module q))))) (unat (lm_max_requests (br_limits q)))"
    using 2(1) unfolding admit_request_Inr by (auto simp: intersect_limits_def unat_min)
  show ?thesis
    using 2(1,6,8-10) by (intro exI [of _ "EvAuthorized (Inr target) # ev"]) (simp add: l)
qed

section \<open>The module cache\<close>

definition cache_ok :: "('m, 'g) wasm_engine \<Rightarrow> (u8 list \<Rightarrow> u8 list) \<Rightarrow> 'm module_cache \<Rightarrow> bool" where
  "cache_ok en digest cache \<longleftrightarrow> hm_ok cache \<and> length cache \<le> 16
     \<and> (\<forall>d c. (d, c) \<in> set cache \<longrightarrow> (\<exists>wasm. digest wasm = d \<and> we_compile en wasm = Some c \<and> validate_abi en c = Inr ()))"

definition matches_digest :: "(u8 list \<Rightarrow> u8 list) \<Rightarrow> verified_manifest \<Rightarrow> bool" where
  "matches_digest digest v \<longleftrightarrow> digest (vm_wasm v) = am_sha256 (vm_inner v)"

text \<open>Modules with the same digest compile to the same code.\<close>

definition digest_respected :: "('m, 'g) wasm_engine \<Rightarrow> (u8 list \<Rightarrow> u8 list) \<Rightarrow> bool" where
  "digest_respected en digest \<longleftrightarrow> (\<forall>x y. digest x = digest y \<longrightarrow> we_compile en x = we_compile en y)"

lemma compile_module_Inr:
  "compile_module en v = Inr c \<longleftrightarrow> we_compile en (vm_wasm v) = Some c \<and> validate_abi en c = Inr ()"
  by (auto simp: compile_module_def split: option.splits)

lemma sandbox_for_cached:
  assumes "cache_ok en digest cache" and "matches_digest digest v" and "digest_respected en digest"
  shows "fst (sandbox_for en cache v l) = new_with_limits en v l" "cache_ok en digest (snd (sandbox_for en cache v l))"
proof -
  let ?d = "am_sha256 (vm_inner v)"
  have hit: "compile_module en v = Inr c" if found: "hm_get cache ?d = Some c" for c
  proof -
    obtain wasm where "digest wasm = ?d" "we_compile en wasm = Some c" "validate_abi en c = Inr ()"
      using hm_get_SomeD [OF found] assms(1) by (auto simp: cache_ok_def)
    then show ?thesis using assms(2,3) unfolding compile_module_Inr digest_respected_def matches_digest_def by metis
  qed
  have store: "store_compiled cache ?d c = (c, hm_insert ?d c (if 16 \<le> length cache then [] else cache))" if "hm_get cache ?d = None" for c
    using that by (simp add: store_compiled_def MAX_CACHED_MODULES_def)
  have ok: "cache_ok en digest (hm_insert ?d c (if 16 \<le> length cache then [] else cache))" if "compile_module en v = Inr c" for c
  proof -
    have "set (hm_insert ?d c m) \<subseteq> insert (?d, c) (set m)" for m by (induction ?d c m rule: hm_insert.induct) auto
    then show ?thesis
      using assms(1,2) that unfolding cache_ok_def compile_module_Inr matches_digest_def
      by (fastforce simp: length_hm_insert split: if_splits)
  qed
  show "fst (sandbox_for en cache v l) = new_with_limits en v l" "cache_ok en digest (snd (sandbox_for en cache v l))"
    using hit store ok assms(1)
    by (auto simp: sandbox_for_def new_with_limits_def and_then_def split: sum.splits option.splits)
qed

text \<open>The states a broker can be in: it starts with an empty cache and serves requests for verified modules.\<close>

inductive broker_reachable ::
  "'w audit_io \<Rightarrow> ('m, 'g) wasm_engine \<Rightarrow> (u8 list \<Rightarrow> u8 list) \<Rightarrow> ('m, 'w) broker_state \<Rightarrow> bool"
  for io :: "'w audit_io" and en :: "('m, 'g) wasm_engine" and digest where
  start: "bs_cache s = [] \<Longrightarrow> broker_reachable io en digest s"
| serve: "broker_reachable io en digest s \<Longrightarrow> matches_digest digest (br_module q)
    \<Longrightarrow> broker_reachable io en digest (snd (broker_execute io en q s))"
| elsewhere: "broker_reachable io en digest s \<Longrightarrow> broker_reachable io en digest (s \<lparr> bs_world := w \<rparr>)"

lemma execute_cache:
  "bs_cache (snd (broker_execute io en q s)) \<in> {bs_cache s} \<union> range (\<lambda>l. snd (sandbox_for en (bs_cache s) (br_module q) l))"
proof -
  define A where "A = {bs_cache s} \<union> range (\<lambda>l. snd (sandbox_for en (bs_cache s) (br_module q) l))"
  have inner: "bs_cache (snd (execute_authorized io en q l d t s1)) \<in> A" if "bs_cache s1 = bs_cache s" for l d t s1
    unfolding execute_authorized_def A_def that
    by (cases "sandbox_for en (bs_cache s) (br_module q) l") (auto simp: that split: prod.splits sum.splits intro!: image_eqI [of _ _ l])
  have same: "bs_cache s \<in> A" by (simp add: A_def)
  have "bs_cache (snd (broker_execute io en q s)) \<in> A"
    unfolding broker_execute_def Let_def by (auto simp: same inner split: sum.split prod.split option.split)
  then show ?thesis by (simp add: A_def)
qed

text \<open>C40. The cache of compiled modules cannot be noticed. When modules with the same digest compile to the same code, a
  broker that serves verified modules never holds more than sixteen of them, and in every state it
  can reach, the sandbox it builds for a verified module, or the error, is the one a fresh
  compilation of that very module gives.\<close>

theorem module_cache_is_transparent:
  assumes "broker_reachable io en digest s" and "digest_respected en digest" and "matches_digest digest v"
  shows "cached_modules (bs_cache s) \<le> 16 \<and> fst (sandbox_for en (bs_cache s) v l) = new_with_limits en v l"
proof -
  have "cache_ok en digest (bs_cache s)"
    using assms(1)
  proof (induction rule: broker_reachable.induct)
    case (serve s q)
    then show ?case using execute_cache [of io en q s] sandbox_for_cached(2) [OF _ serve.hyps(2) assms(2)] by auto
  qed (simp_all add: cache_ok_def)
  then show ?thesis using sandbox_for_cached(1) [OF _ assms(3,2)] by (simp add: cache_ok_def cached_modules_def)
qed

section \<open>A concrete request\<close>

record script_guest =
  sg_memory :: "u8 list"
  sg_script :: "guest_action list"

definition script_engine :: "guest_action list \<Rightarrow> (unit, script_guest) wasm_engine" where
  "script_engine script =
     \<lparr> we_compile = (\<lambda>_. Some ()), we_imports = (\<lambda>_. []),
       we_exports = (\<lambda>_. [\<lparr> me_name = ''run'', me_type = ExternFunc [I32, I32] [I64] \<rparr>, \<lparr> me_name = ''memory'', me_type = ExternMemory \<rparr>]),
       we_payloads = (\<lambda>_. [Some (MemorySection [Some \<lparr> mt_memory64 = False, mt_shared = False, mt_custom_page = False, mt_initial = 1, mt_maximum = None \<rparr>])]),
       we_instantiate = (\<lambda>_ _. ([], Inr \<lparr> sg_memory = replicate 8 0, sg_script = script \<rparr>)),
       we_memory = (\<lambda>g. Some (sg_memory g)),
       we_write = (\<lambda>g n b. Some (g \<lparr> sg_memory := take n (sg_memory g) @ b @ drop (n + length b) (sg_memory g) \<rparr>)),
       we_run = (\<lambda>g _ _. Some g),
       we_next = (\<lambda>g. ([], case sg_script g of [] \<Rightarrow> Trapped OutOfFuel | a # _ \<Rightarrow> a)),
       we_resume = (\<lambda>g _. g \<lparr> sg_script := tl (sg_script g) \<rparr>) \<rparr>"

definition quiet_io :: "unit audit_io" where
  "quiet_io =
     \<lparr> io_now = (\<lambda>w. (5, w)), io_add = (\<lambda>t d. Some (t + d)), io_cancelled = (\<lambda>w. (False, w)),
       io_authorize = (\<lambda>ip i p w. (new_target ip i p, w)),
       io_exchange = (\<lambda>t x w. (Answered \<lparr> er_bytes = [7, 8, 9], er_limit = xq_response_limit x \<rparr>, w)),
       io_suspended = (\<lambda>w. (Resumed, w)) \<rparr>"

definition tls_request :: broker_request where
  "tls_request =
     \<lparr> br_module = \<lparr> vm_inner = tls_manifest, vm_wasm = [0, 97, 115, 109] \<rparr>, br_input = [1, 2], br_target = V4 0xC0A80105,
       br_interface = 2, br_port = 443, br_capability = TlsMetadata 443, br_approval_id = 1, br_limits = am_limits tls_manifest \<rparr>"

definition empty_broker :: "(unit, unit) broker_state" where
  "empty_broker = \<lparr> bs_cache = [], bs_world = (), bs_log = [] \<rparr>"

text \<open>A guest that sends its input, gets an answer of three bytes into a buffer of four, and returns it.\<close>

definition tls_result :: int where "tls_result = 2 * 2 ^ 32 + 3"

abbreviation asking_script :: "guest_action list" where
  "asking_script \<equiv> [CallDeterministic, CallExchange 0 2 2 4, Returned tls_result]"

definition tls_deadline :: instant where "tls_deadline = 5 + seconds 5"

definition tls_target :: authorized_target where
  "tls_target = \<lparr> au_target = V4 0xC0A80105, au_interface = 2, au_port = 443 \<rparr>"

definition tls_message :: exchange_request where
  "tls_message = \<lparr> xq_payload = [1, 2], xq_protocol = ProtoTlsMetadata, xq_response_limit = 4, xq_deadline = tls_deadline \<rparr>"

definition tls_books :: "u32 \<Rightarrow> u64 \<Rightarrow> audit_event list \<Rightarrow> unit host_state" where
  "tls_books requests bytes log =
     \<lparr> hs_world = (), hs_log = log,
       hs_budget = \<lparr> ab_requests = requests, ab_bytes = bytes, ab_max_requests = 2, ab_max_bytes = 64, ab_deadline = tls_deadline \<rparr>,
       hs_target_error = None \<rparr>"

definition tls_log :: "audit_event list" where
  "tls_log = [EvAuthorized (Inr tls_target), EvAuthorized (Inr tls_target), EvSent tls_target tls_message, EvDelivered 3]"

definition tls_guest :: "u8 list \<Rightarrow> guest_action list \<Rightarrow> script_guest" where
  "tls_guest tail script = \<lparr> sg_memory = [1, 2] @ tail, sg_script = script \<rparr>"

definition tls_store :: "u32 \<Rightarrow> u64 \<Rightarrow> store_state" where
  "tls_store requests bytes =
     \<lparr> ss_max_memory = 65536, ss_limiter_failure = None, ss_requests = requests, ss_max_requests = 2, ss_max_bytes = 64,
       ss_bytes = bytes, ss_failure = None \<rparr>"

abbreviation "tls_host \<equiv> host_for tls_request tls_target tls_deadline"

lemma tls_admitted: "admit_request tls_request = Inr (am_limits tls_manifest)"
  by code_simp

lemma tls_sandboxed:
  "sandbox_for (script_engine s) [] (br_module tls_request) (am_limits tls_manifest)
     = (Inr \<lparr> sb_compiled = (), sb_limits = am_limits tls_manifest \<rparr>, [(replicate 32 7, ())])"
  by code_simp

lemma tls_started:
  "start_guest (script_engine s) \<lparr> sb_compiled = (), sb_limits = am_limits tls_manifest \<rparr> [1, 2] = Inr (tls_guest (replicate 6 0) s, tls_store 0 2)"
  by code_simp

lemma tls_authorized: "new_target (V4 0xC0A80105) 2 443 = Inr tls_target"
  by code_simp

lemma tls_exchanged:
  "host_exchange quiet_io tls_host [1, 2] 4 (tls_books 0 2 [EvAuthorized (Inr tls_target)]) = (Inr [7, 8, 9], tls_books 1 7 tls_log)"
proof -
  have reserved: "reserve (hs_budget (tls_books 0 2 log)) 5 2 4 = (Inr \<lparr> rv_request_bytes = 2, rv_response_cap = 4 \<rparr>, hs_budget (tls_books 1 8 log))" for log
    by code_simp
  have committed: "commit_reservation (hs_budget (tls_books 1 8 log)) \<lparr> rv_request_bytes = 2, rv_response_cap = 4 \<rparr> 3
      = (Inr (), hs_budget (tls_books 1 7 log))" for log
    by code_simp
  have [simp]: "bh_deadline tls_host = tls_deadline" "bh_target tls_host = tls_target" "protocol_of (bh_capability tls_host) = ProtoTlsMetadata"
    by (simp_all add: host_for_def tls_request_def)
  have target [simp]: "au_target tls_target = V4 0xC0A80105" "au_interface tls_target = 2" "au_port tls_target = 443" "\<not> tls_deadline \<le> 5"
    by (simp_all add: tls_target_def tls_deadline_def seconds_def)
  have "reserved_exchange quiet_io tls_host [1, 2] 4 \<lparr> rv_request_bytes = 2, rv_response_cap = 4 \<rparr> (tls_books 1 8 [EvAuthorized (Inr tls_target)])
      = (Inr [7, 8, 9], tls_books 1 7 tls_log)"
    using committed unfolding reserved_exchange_def
    by (simp add: Let_def quiet_io_def tls_authorized tls_books_def tls_log_def tls_message_def numeral_3_eq_3)
  then show ?thesis using reserved unfolding host_exchange_def
    by (simp add: Let_def quiet_io_def tls_books_def numeral_2_eq_2)
qed

lemma tls_guest_sel [simp]:
  "sg_script (tls_guest m script) = script" "sg_memory (tls_guest m script) = 1 # 2 # m" "tls_guest m script \<lparr> sg_script := script' \<rparr> = tls_guest m script'"
  by (simp_all add: tls_guest_def)

lemma quiet_host [simp]:
  "ah_suspended (host_of quiet_io host) s = (Resumed, s)" "ah_deterministic (host_of quiet_io host) = 0"
  "ah_exchange (host_of quiet_io host) = host_exchange quiet_io host"
  by (simp_all add: host_of_def quiet_io_def)

lemma script_steps [simp]:
  "we_next (script_engine s) g = ([], case sg_script g of [] \<Rightarrow> Trapped OutOfFuel | a # _ \<Rightarrow> a)"
  "we_resume (script_engine s) g n = g \<lparr> sg_script := tl (sg_script g) \<rparr>" "we_memory (script_engine s) g = Some (sg_memory g)"
  "we_write (script_engine s) g k b = Some (g \<lparr> sg_memory := take k (sg_memory g) @ b @ drop (k + length b) (sg_memory g) \<rparr>)"
  by (simp_all add: script_engine_def)

lemma tls_ran:
  "run_guest (script_engine s) (host_of quiet_io tls_host) (tls_guest (replicate 6 0) asking_script) (tls_store 0 2)
       (tls_books 0 2 [EvAuthorized (Inr tls_target)])
     = (GuestReturned tls_result, tls_guest [7, 8, 9, 0, 0, 0] [Returned tls_result], tls_store 2 7, tls_books 1 7 tls_log)"
proof -
  have 1: "run_guest (script_engine s) (host_of quiet_io tls_host) (tls_guest m (CallDeterministic # acts)) (tls_store 0 b) h
      = run_guest (script_engine s) (host_of quiet_io tls_host) (tls_guest m acts) (tls_store 1 b) h" for m acts b h
    by (subst run_guest.simps) (simp add: tls_store_def)
  have admit: "admit_exchange (script_engine s) (tls_guest (replicate 6 0) acts) 0 2 2 4 (tls_store 1 2) = Inr ([1, 2], tls_store 2 8)" for acts
    by code_simp
  have deliver: "deliver_answer (script_engine s) (tls_guest (replicate 6 0) (a # acts)) 2 4 (Inr [7, 8, 9]) (tls_store 2 8)
      = Inr (tls_guest [7, 8, 9, 0, 0, 0] acts, tls_store 2 7)" for a acts
    by code_simp
  have 2: "run_guest (script_engine s) (host_of quiet_io tls_host) (tls_guest (replicate 6 0) (CallExchange 0 2 2 4 # acts)) (tls_store 1 2)
      (tls_books 0 2 [EvAuthorized (Inr tls_target)])
      = run_guest (script_engine s) (host_of quiet_io tls_host) (tls_guest [7, 8, 9, 0, 0, 0] acts) (tls_store 2 7) (tls_books 1 7 tls_log)" for acts
    by (subst run_guest.simps) (simp add: admit deliver tls_exchanged)
  have 3: "run_guest (script_engine s) (host_of quiet_io tls_host) (tls_guest m (Returned p # acts)) st h
      = (GuestReturned p, tls_guest m (Returned p # acts), st, h)" for m p acts st h
    by (subst run_guest.simps) simp
  show ?thesis unfolding 1 2 3 ..
qed

lemma tls_executed:
  "broker_execute quiet_io (script_engine asking_script) tls_request empty_broker
     = (Inr \<lparr> bt_target = V4 0xC0A80105, bt_approval_id = 1, bt_bytes = [7, 8, 9] \<rparr>,
        \<lparr> bs_cache = [(replicate 32 7, ())], bs_world = (), bs_log = tls_log \<rparr>)"
proof -
  have time: "\<not> tls_deadline \<le> 5" "5 + seconds 5 = tls_deadline" by (simp_all add: tls_deadline_def seconds_def)
  have read: "read_output [1, 2, 7, 8, 9, 0, 0, 0] (am_limits tls_manifest) (tls_store 2 7) tls_result = Inr [7, 8, 9]"
    by code_simp
  have ran: "sandbox_execute (script_engine asking_script) \<lparr> sb_compiled = (), sb_limits = am_limits tls_manifest \<rparr> (host_of quiet_io tls_host) [1, 2]
      (tls_books 0 2 [EvAuthorized (Inr tls_target)]) = (SandboxDone (Inr [7, 8, 9]), tls_books 1 7 tls_log)"
    unfolding sandbox_execute_def tls_started
    using read by (simp add: tls_ran finish_guest_def) (simp add: tls_manifest_def)
  have charged: "charge_bytes (new_audit_budget (am_limits tls_manifest) tls_deadline) 5 2 = (Inr (), hs_budget (tls_books 0 2 []))"
    "fst (charge_bytes (hs_budget (tls_books 1 7 tls_log)) 5 3) = Inr ()"
    by code_simp+
  obtain b where b: "charge_bytes (hs_budget (tls_books 1 7 tls_log)) 5 3 = (Inr (), b)" using charged(2) by (metis prod.collapse)
  have "publish_output quiet_io tls_request tls_deadline [7, 8, 9] (tls_books 1 7 tls_log)
      = (Inr \<lparr> bt_target = V4 0xC0A80105, bt_approval_id = 1, bt_bytes = [7, 8, 9] \<rparr>, (tls_books 1 7 tls_log) \<lparr> hs_budget := b \<rparr>)"
    using b time unfolding publish_output_def by (simp add: quiet_io_def tls_request_def numeral_3_eq_3)
  then have module: "run_module quiet_io (script_engine asking_script) tls_request \<lparr> sb_compiled = (), sb_limits = am_limits tls_manifest \<rparr> tls_host
      (tls_books 0 2 [EvAuthorized (Inr tls_target)])
      = (Inr \<lparr> bt_target = V4 0xC0A80105, bt_approval_id = 1, bt_bytes = [7, 8, 9] \<rparr>, (tls_books 1 7 tls_log) \<lparr> hs_budget := b \<rparr>)"
    using ran unfolding run_module_def by (simp add: host_for_def tls_request_def)
  have "execute_authorized quiet_io (script_engine asking_script) tls_request (am_limits tls_manifest) tls_deadline tls_target
      (empty_broker \<lparr> bs_log := [EvAuthorized (Inr tls_target)] \<rparr>)
      = (Inr \<lparr> bt_target = V4 0xC0A80105, bt_approval_id = 1, bt_bytes = [7, 8, 9] \<rparr>,
         \<lparr> bs_cache = [(replicate 32 7, ())], bs_world = (), bs_log = tls_log \<rparr>)"
    using module charged(1) time tls_sandboxed [of asking_script] unfolding execute_authorized_def
    by (simp add: quiet_io_def empty_broker_def tls_books_def host_for_def numeral_2_eq_2 tls_request_def)
  then show ?thesis
    using tls_admitted time tls_authorized unfolding broker_execute_def Let_def
    by (simp add: quiet_io_def empty_broker_def tls_request_def tls_manifest_def tls_target_def)
qed

lemma quiet_authorises: "authorises_privately quiet_io"
  by (auto simp: authorises_privately_def quiet_io_def new_target_def split: if_splits)

theorem exchanges_reach_only_approved_target_witness:
  "tls_log ! 1 = EvAuthorized (Inr tls_target) \<and> tls_log ! 2 = EvSent tls_target tls_message \<and> target_allowed (au_target tls_target)"
  using exchanges_reach_only_approved_target [OF tls_executed quiet_authorises]
  by (auto simp: empty_broker_def tls_request_def tls_log_def dest!: spec [of _ 2])

theorem broker_traffic_within_limits_witness:
  "bs_log (snd (broker_execute quiet_io (script_engine asking_script) tls_request empty_broker)) = tls_log
   \<and> sends tls_log = 1 \<and> traffic tls_log = 5 \<and> length (br_input tls_request) + traffic tls_log + 3 \<le> 64"
proof -
  have "length (br_input tls_request) < 2 ^ 64" by (simp add: tls_request_def)
  from broker_traffic_within_limits [OF tls_executed this]
  have "length (br_input tls_request) + traffic tls_log + 3 \<le> 64"
    by (auto simp: empty_broker_def tls_request_def tls_manifest_def)
  then show ?thesis unfolding tls_executed by (simp add: tls_log_def tls_message_def)
qed

theorem module_cache_is_transparent_witness:
  "fst (sandbox_for (script_engine asking_script) [(replicate 32 7, ())] (br_module tls_request) (am_limits tls_manifest))
     = new_with_limits (script_engine asking_script) (br_module tls_request) (am_limits tls_manifest)"
proof -
  have verified: "matches_digest (\<lambda>_. replicate 32 7) (br_module tls_request)"
    by (simp add: matches_digest_def tls_request_def tls_manifest_def)
  have "broker_reachable quiet_io (script_engine asking_script) (\<lambda>_. replicate 32 7)
      (snd (broker_execute quiet_io (script_engine asking_script) tls_request empty_broker))"
    by (intro broker_reachable.serve broker_reachable.start verified) (simp add: empty_broker_def)
  moreover have "digest_respected (script_engine asking_script) (\<lambda>_. replicate 32 7)" by (simp add: digest_respected_def script_engine_def)
  ultimately have "cached_modules (bs_cache (snd (broker_execute quiet_io (script_engine asking_script) tls_request empty_broker))) \<le> 16
      \<and> fst (sandbox_for (script_engine asking_script) (bs_cache (snd (broker_execute quiet_io (script_engine asking_script) tls_request empty_broker)))
          (br_module tls_request) (am_limits tls_manifest))
        = new_with_limits (script_engine asking_script) (br_module tls_request) (am_limits tls_manifest)"
    using verified by (rule module_cache_is_transparent)
  then show ?thesis by (simp add: tls_executed)
qed

end
