(* ===== verification/Spec2Isabelle.thy ===== *)
theory Spec2Isabelle
  imports Policy Event_Bus Presence_Checkpoint Doctor_Executor Identity_Restart Flow_Properties Passive_Properties Audit_Properties
begin

text \<open>
  NeonHearth is a home network guardian written in Rust. Sensors observe the network; the
  intelligence crate turns observations into identities and presence; the policy crate
  decides what an unknown device may do; the passive decoder of the sensor crate turns frames into
  facts and its flow engine accounts for traffic; the event bus publishes what happened to the user
  interface; the network doctor diagnoses faults and runs repairs; the audit broker runs signed
  WebAssembly modules against single devices. This development models
  the decision-making core, the crates without I/O, and proves the properties that make it
  trustworthy. Code outside the repository (transports, clocks, calendar arithmetic of
  chrono, identifier sources, the decimal display of floats) is a parameter of the
  definitions.

  Theories, in dependency order:

  \<^item> \<open>Prelude\<close>: machine integers with Rust's checked and saturating operations; instants and
    durations (nanoseconds as \<open>int\<close>; \<open>checked_add_signed\<close> is the parameter \<open>calendar\<close>, with
    \<open>utc_calendar\<close> as the concrete instance of the witnesses); \<open>HashMap\<close>s as lists with distinct
    keys, whose order stands for the unspecified iteration order; text helpers; and the two
    contracts that components share as locales: logs that forget a prefix (\<open>forgetting_log\<close>), used
    by the event bus and by the presence history, and systems with an invariant
    (\<open>invariant_system\<close>), used by the presence, the identity and the flow engine.
  \<^item> \<open>Domain\<close> (\<open>lattice-domain\<close>): identifiers, presence states, policy vocabulary, event payloads.
  \<^item> \<open>Policy\<close> (\<open>lattice-policy/src/lib.rs\<close>): \<open>evaluate\<close>. Shown: automation never restricts a
    protected device and only rejection bans; the exact deadline behaviour; urgency never
    decreases with time.
  \<^item> \<open>Event_Bus\<close> (\<open>lattice-event-bus/src/lib.rs\<close>): \<open>publish\<close> and \<open>resume_after\<close> with the bounded
    replay buffer, as sequential operations under the bus mutex. Shown: gapless numbering and
    exact resumption.
  \<^item> \<open>Presence\<close>, \<open>Presence_Invariants\<close>, \<open>Presence_Engine\<close>, \<open>Presence_Properties\<close>
    (\<open>lattice-intelligence/src/presence.rs\<close>): the data and every function of the engine; the
    invariant of one device (the three control families are one locale \<open>control_domain\<close>,
    interpreted three times); the step relation of the public operations and its invariant;
    the properties: bounds, meaning of Blocked, atomic failures, confirmed joins and
    departures, justified corrections, exact replay, lossless events, idempotent redelivery.
  \<^item> \<open>Presence_Checkpoint\<close>: export and restore with all acceptance checks. Shown: accepted
    checkpoints restore the same engine, and restored engines are valid; examples behind the
    reported defects are runs whose own checkpoint is refused.
  \<^item> \<open>Ieee754\<close>: binary64 as bit patterns with exact rounding to nearest even, as far as the doctor
    uses it (order, \<open>total_cmp\<close>, subtraction, multiplication, division, conversion).
  \<^item> \<open>Doctor_Checks\<close>, \<open>Doctor_Engine\<close>, \<open>Doctor_Run\<close> (\<open>lattice-doctor\<close>: \<open>lib.rs\<close>, \<open>probe.rs\<close>,
    \<open>check.rs\<close>, \<open>engine.rs\<close>): the twelve checks as state-monad programs over an arbitrary
    transport and clock. Shown: every check is reported once with a justified status, and the
    probe budget is a hard limit.
  \<^item> \<open>Doctor_Diagnosis\<close> (\<open>diagnosis.rs\<close>, \<open>repair.rs\<close>): diagnoses and repair plans. Shown: diagnoses
    are root causes, and plans use only measured or configured values.
  \<^item> \<open>Doctor_Executor\<close> (\<open>executor.rs\<close>): the repair lifecycle. Shown: it refines an abstract
    lifecycle, touches state safely, and its verdicts agree with exact arithmetic.

  \<^item> \<open>Ieee754_Single\<close>: binary32 as bit patterns, as far as confidences use it.
  \<^item> \<open>Identity\<close>, \<open>Identity_Graph\<close>, \<open>Identity_Facts\<close>, \<open>Identity_Engine\<close>
    (\<open>lattice-intelligence/src/lib.rs\<close>): the identity engine, in this order: every function of
    the source; the search for connected components (its termination measure counts the unseen
    endpoints and the queue) and their representatives; normalised facts, addresses and matching;
    the step relation of the public operations and its invariant, which ties proposals, edges and
    audit trail together.
  \<^item> \<open>Identity_Checkpoint\<close>, \<open>Identity_System\<close>: checkpoint and restore, one function per loop of
    \<open>from_checkpoint\<close>; its checks are the invariant plus a few conditions of their own, so the
    reachable engines, which start empty or from an accepted checkpoint, all satisfy it.
  \<^item> \<open>Identity_Properties\<close>, \<open>Identity_Correlation\<close>, \<open>Identity_Safety\<close>: the properties of the
    identity engine. Shown: components and names, decisions and their undoing; when evidence
    merges and when it only proposes, weightless router labels, grounded identification, owner
    precedence; bounds, no panics, refused calls, address forms, exact eviction.
  \<^item> \<open>Identity_Restart\<close>: the round trip through a checkpoint, exactly when it is accepted, and
    examples of reachable engines whose own checkpoint is refused.

  \<^item> \<open>Flow\<close> (\<open>lattice-sensor/src/flow.rs\<close>): the flow engine, every function of the source: source
    registration, observations with replay and lateness checks, source selection, rollups and
    corrections, watermark advances, snapshot.
  \<^item> \<open>Flow_Ledger\<close>, \<open>Flow_System\<close>, \<open>Flow_Books\<close>: sums over a ghost ledger of closed seconds, the
    winner of the selection loop; the step relation with the accepted observations and a consumer's
    store, and two instances of \<open>invariant_system\<close>, one for all watermarks (bounds, exact open rows,
    replay memory) and one for watermarks that leave whole seconds (the published totals).
  \<^item> \<open>Flow_Properties\<close>: rollups add up, one authoritative source per second, no event counted twice,
    bounds and refusals; and, as examples behind the reported defects, three runs where the documented
    contract fails.

  \<^item> \<open>Rust_Text\<close>: what the decoders use of Rust's text library: UTF-8 validation and lossy decoding,
    trimming and splitting, number parsing, and the display of numbers and addresses.
  \<^item> \<open>Passive\<close> (\<open>lattice-sensor/src/passive.rs\<close>, \<open>passive/link_discovery.rs\<close>): the passive decoder from
    the Ethernet frame to normalised observations (ARP, IPv4 and IPv6, TCP, UDP, IGMP, neighbour
    discovery, DHCP, DNS and mDNS, NetBIOS, SSDP, WS-Discovery, LLDP, CDP) and the ingestion of
    captures. An index or a slice out of range is the value \<open>Panicked\<close>; the third-party codecs are the
    fields of the record \<open>codecs\<close>.
  \<^item> \<open>Passive_Safety\<close>: a weakest-precondition calculus (\<open>safely\<close>: no panic, and a postcondition) and the
    contract of every decoder in it.
  \<^item> \<open>Passive_Frames\<close>: UDP packets in wire format over IPv4 and IPv6, and that \<open>normalize\<close> hands exactly the payload
    of such a frame to the decoder of its ports.
  \<^item> \<open>Passive_Properties\<close>: no frame panics or exceeds its bounds; with metadata off, frames that differ only in what
    a DNS, multicast DNS or LLMNR packet asks have the same outcome (NetBIOS names are reported whatever the option
    says, as in the source); DHCP options are read as written; exactly which captures are accepted, with which
    report. The end of this theory ties
    the decoder to the identity engine: the addresses of the one are in the normal form of the other.

  \<^item> \<open>Audit_Manifest\<close>, \<open>Audit_Signing\<close> (\<open>lattice-audit-wasm/src/manifest.rs\<close>): the signed manifest of an audit
    module, its structural checks, canonical bytes, verification and deserialisation. Shown: the
    canonical bytes are a prefix code, so only issued manifests verify, and manifests are read back
    as they were written.
  \<^item> \<open>Audit_Runtime\<close>, \<open>Audit_Broker\<close> (\<open>runtime.rs\<close>, \<open>target.rs\<close>, \<open>broker.rs\<close>): admission of a module, the metered
    guest between host calls (its termination measure is the requests left), the byte and request
    budget, target authorisation and the broker. The WebAssembly engine and the environment
    are records of functions over arbitrary guest and world states.
  \<^item> \<open>Audit_Properties\<close>: the contract between sandbox and host as a locale (\<open>audit_host_contract\<close>), interpreted for
    the broker's host; exchanges reach only the approved target, traffic stays within the signed and
    requested limits, and the module cache is transparent.

  State and errors: a Rust struct is a record, an enum a datatype, \<open>&mut self\<close> an updated record
  in the result, \<open>Result\<close> the sum type with the error on the left, a panic an error value of its
  own (\<open>bus_panic\<close>, \<open>IndexPanic\<close>, \<open>Panicked\<close>). Strings are byte strings in UTF-8, so \<open>len\<close> is the length of the list.
  Loops are structural recursion or \<open>function\<close> with a measure; no definition needs fuel (the counters
  of the LLDP, CDP, IPv6 and XML loops are the source's own bounds).

  Approximations: a broker exchange is logged as sent once it is requested, although the source may be
  cancelled before its future is first polled, and it is atomic, cancellation and deadlines being answers between
  host calls; both only add to the traffic the bounds speak of. The flow ledger is a ghost that books the winners of
  the selection and is tied to the published rollups by the invariant of \<open>Flow_Books\<close>. Reachable presence
  engines start from a new engine, not from a restored checkpoint, which may claim more than was observed.

  Not modelled: the asynchronous runtime and the broadcast channel of the bus (subscribers only
  receive clones of what the model sends), serialisation, and the crates that are I/O around
  this core: the other sensors, store, service, cameras, launcher, advisory feeds and the desktop
  application.
\<close>

section \<open>Addresses for the identity engine\<close>

text \<open>C36. The decoder and the identity engine agree on addresses. The hardware address an observation is
  attributed to is already in the form the identity engine stores: it is the printed form of six
  bytes, and normalising it changes nothing, except that it is refused when it is a group address or zero.\<close>

theorem decoded_addresses_are_normal:
  assumes "clock_ok cd t" and "normalize cd i t f opts = Inr out" and "one \<in> set out" and "pv_subject_mac one = Some m"
  shows "\<exists>b :: u8 list. length b = 6 \<and> m = join '':'' (map (\<lambda>y. hex_of_byte (unat y)) b)
    \<and> mac m = (if odd (unat (hd b)) \<or> list_all (\<lambda>y. y = 0) b then Inl (IdentityInvalidInput ''multicast mac'') else Inr m)"
proof -
  have "mac_ok (pv_subject_mac one)"
    using safely_InrD [OF normalize_safe [OF assms(1)] assms(2)] assms(3)
    by (auto simp: frame_ok_def observations_ok_def observation_ok_def)
  then obtain b :: "u8 list" where b: "length b = 6" "m = join '':'' (map (\<lambda>y. hex_of_byte (unat y)) b)"
    using assms(4) by (auto simp: mac_ok_def)
  have "m = mac_text CHR '':'' (map unat b)" using b by (simp add: mac_text_def comp_def)
  moreover have "unat y < 256" for y :: u8 using unsigned_less [of y] by simp
  then have "mac_bytes_ok (map unat b)" using b(1) by (simp add: mac_bytes_ok_def)
  moreover have "unicast (map unat b) \<longleftrightarrow> \<not> (odd (unat (hd b)) \<or> list_all (\<lambda>y. y = 0) b)"
    using b(1) by (cases b) (auto simp: unicast_def list_all_iff unat_eq_zero unat_gt_0)
  ultimately show ?thesis using b mac_of_text [of "map unat b" "CHR '':''"] by (intro exI [of _ b]) auto
qed

theorem decoded_addresses_are_normal_witness:
  "\<exists>b :: u8 list. length b = 6 \<and> ''02:00:00:00:00:07'' = join '':'' (map (\<lambda>y. hex_of_byte (unat y)) b)
    \<and> mac ''02:00:00:00:00:07'' = (if odd (unat (hd b)) \<or> list_all (\<lambda>y. y = 0) b
        then Inl (IdentityInvalidInput ''multicast mac'') else Inr ''02:00:00:00:00:07'')"
  using decoded_addresses_are_normal [OF _ arp_frame_decodes, of "arp_observation (seconds 5)" "''02:00:00:00:00:07''"]
    sample_clock [of "seconds 5"]
  by (simp add: arp_observation_def seconds_def)

end
